(* ===== verification/Prelude.thy ===== *)
theory Prelude
  imports Main "HOL-Library.Word" "HOL-Library.State_Monad"
begin

text \<open>
  What every other theory of the development uses.

  \<^item> The machine integers of the C program: \<open>u8\<close> (\<open>unsigned char\<close>), \<open>u16\<close>, \<open>u32\<close>
    (\<open>unsigned int\<close>) and \<open>u64\<close> are words of that width; a C \<open>int\<close> is an \<open>int\<close>.
  \<^item> Programs over a state: \<open>('s, 'a) state\<close> of \<open>HOL-Library.State_Monad\<close>, with \<open>gets\<close>
    (read a component), \<open>modify\<close> (write one) and \<open>return\<close>.
  \<^item> Single bits of a byte, \<open>put_bit\<close>, for the bit fields of a C union.
  \<^item> The locale \<open>stable_rel\<close>: a reflexive and transitive relation between the state before
    and the state after a program, with one rule per way of composing programs.
    Frame properties ("this field is not changed") and monotonicity properties ("once
    set it stays set") of a whole program follow from its primitive steps.
\<close>

unbundle bit_operations_syntax

type_synonym u8 = "8 word"
type_synonym u16 = "16 word"
type_synonym u32 = "32 word"
type_synonym u64 = "64 word"

section \<open>Programs over a state\<close>

abbreviation return :: "'a \<Rightarrow> ('s, 'a) state" where
  "return \<equiv> State_Monad.return"

abbreviation bind_state :: "('s, 'a) state \<Rightarrow> ('a \<Rightarrow> ('s, 'b) state) \<Rightarrow> ('s, 'b) state" where
  "bind_state \<equiv> State_Monad.bind"

definition gets :: "('s \<Rightarrow> 'a) \<Rightarrow> ('s, 'a) state" where
  "gets f = State (\<lambda>s. (f s, s))"

definition modify :: "('s \<Rightarrow> 's) \<Rightarrow> ('s, unit) state" where
  "modify f = State (\<lambda>s. ((), f s))"

lemma run_gets [simp]: "run_state (gets f) s = (f s, s)"
  by (simp add: gets_def)

lemma run_modify [simp]: "run_state (modify f) s = ((), f s)"
  by (simp add: modify_def)

lemma run_if [simp]: "run_state (if c then p else q) s = (if c then run_state p s else run_state q s)"
  by simp

text \<open>The result and the final state of a program.\<close>

definition result_of :: "('s, 'a) state \<Rightarrow> 's \<Rightarrow> 'a" where
  "result_of p s = fst (run_state p s)"

definition state_after :: "('s, 'a) state \<Rightarrow> 's \<Rightarrow> 's" where
  "state_after p s = snd (run_state p s)"

lemma run_state_pair: "run_state p s = (result_of p s, state_after p s)"
  by (simp add: result_of_def state_after_def)

lemma result_of_bind [simp]:
  "result_of (bind_state p f) s = result_of (f (result_of p s)) (state_after p s)"
  by (simp add: result_of_def state_after_def split: prod.split)

lemma state_after_bind [simp]:
  "state_after (bind_state p f) s = state_after (f (result_of p s)) (state_after p s)"
  by (simp add: result_of_def state_after_def split: prod.split)

lemma result_of_simps [simp]:
  "result_of (return x) s = x"
  "result_of (gets f) s = f s"
  "result_of (modify g) s = ()"
  "result_of (if c then p else q) s = (if c then result_of p s else result_of q s)"
  by (simp_all add: result_of_def)

lemma state_after_simps [simp]:
  "state_after (return x) s = s"
  "state_after (gets f) s = s"
  "state_after (modify g) s = g s"
  "state_after (if c then p else q) s = (if c then state_after p s else state_after q s)"
  by (simp_all add: state_after_def)

section \<open>Relations a program respects\<close>

definition obeys :: "('s \<Rightarrow> 's \<Rightarrow> bool) \<Rightarrow> ('s, 'a) state \<Rightarrow> bool" where
  "obeys R p \<longleftrightarrow> (\<forall>s. R s (state_after p s))"

lemma obeysD: "obeys R p \<Longrightarrow> R s (state_after p s)"
  by (simp add: obeys_def)



locale stable_rel =
  fixes R :: "'s \<Rightarrow> 's \<Rightarrow> bool"
  assumes rel_refl: "R s s"
    and rel_trans: "R s t \<Longrightarrow> R t u \<Longrightarrow> R s u"
begin

lemma obeys_return: "obeys R (return x)"
  by (simp add: obeys_def rel_refl)

lemma obeys_gets: "obeys R (gets f)"
  by (simp add: obeys_def rel_refl)

lemma obeys_bind:
  assumes "obeys R p" and "\<And>x. obeys R (f x)"
  shows "obeys R (bind_state p f)"
  using assms by (auto simp: obeys_def intro: rel_trans)

lemma obeys_if:
  "(c \<Longrightarrow> obeys R p) \<Longrightarrow> (\<not> c \<Longrightarrow> obeys R q) \<Longrightarrow> obeys R (if c then p else q)"
  by simp

lemma obeys_let: "(\<And>x. obeys R (f x)) \<Longrightarrow> obeys R (let x = a in f x)"
  by (simp add: Let_def)

lemma obeys_option:
  "obeys R p \<Longrightarrow> (\<And>x. obeys R (f x)) \<Longrightarrow> obeys R (case v of None \<Rightarrow> p | Some x \<Rightarrow> f x)"
  by (cases v) auto

lemma obeys_prod:
  "(\<And>x y. obeys R (f x y)) \<Longrightarrow> obeys R (case v of (x, y) \<Rightarrow> f x y)"
  by (cases v) auto

lemma obeys_modify: "(\<And>s. R s (f s)) \<Longrightarrow> obeys R (modify f)"
  by (simp add: obeys_def)

lemmas obeys_basic =
  obeys_return obeys_gets obeys_bind obeys_if obeys_let obeys_option obeys_prod

end

text \<open>A frame condition: a component of the state is left as it was.\<close>

definition same :: "('s \<Rightarrow> 'a) \<Rightarrow> 's \<Rightarrow> 's \<Rightarrow> bool" where
  "same f s t \<longleftrightarrow> f t = f s"

text \<open>A condition that, once it holds, goes on holding.\<close>

definition latched :: "('s \<Rightarrow> bool) \<Rightarrow> 's \<Rightarrow> 's \<Rightarrow> bool" where
  "latched P s t \<longleftrightarrow> (P s \<longrightarrow> P t)"

interpretation frame: stable_rel "same f"
  by unfold_locales (simp_all add: same_def)

interpretation latch: stable_rel "latched P"
  by unfold_locales (simp_all add: latched_def)

section \<open>Single bits\<close>

definition put_bit :: "nat \<Rightarrow> bool \<Rightarrow> 'a::len word \<Rightarrow> 'a word" where
  "put_bit n b w = (if b then set_bit n w else unset_bit n w)"

lemma bit_put_bit [simp]:
  "bit (put_bit n b (w :: 'a::len word)) k \<longleftrightarrow> (if k = n then b \<and> n < LENGTH('a) else bit w k)"
  by (auto simp: put_bit_def bit_set_bit_iff bit_unset_bit_iff possible_bit_def
      dest: bit_imp_le_length)

lemma put_bit_idem [simp]: "put_bit n b (put_bit n c w) = put_bit n b w"
  by (rule bit_word_eqI) simp

section \<open>Bytes and 16-bit values\<close>

text \<open>The low and the high byte of a 16-bit value, and the value with one byte replaced.\<close>

definition lo8 :: "u16 \<Rightarrow> u8" where
  "lo8 w = ucast w"

definition hi8 :: "u16 \<Rightarrow> u8" where
  "hi8 w = ucast (drop_bit 8 w)"

definition put_lo8 :: "u8 \<Rightarrow> u16 \<Rightarrow> u16" where
  "put_lo8 v w = (w AND 0xff00) OR ucast v"

definition put_hi8 :: "u8 \<Rightarrow> u16 \<Rightarrow> u16" where
  "put_hi8 v w = (w AND 0x00ff) OR push_bit 8 (ucast v)"

lemma bit_ff00: "bit (0xff00 :: u16) n \<longleftrightarrow> 8 \<le> n \<and> n < 16"
proof -
  have "(0xff00 :: u16) = push_bit 8 (mask 8)" by (simp add: mask_eq_exp_minus_1)
  then show ?thesis by (simp only: bit_push_bit_iff bit_mask_iff possible_bit_def) auto
qed

lemma bit_00ff: "bit (0xff :: u16) n \<longleftrightarrow> n < 8"
proof -
  have "(0xff :: u16) = mask 8" by (simp add: mask_eq_exp_minus_1)
  then show ?thesis by (simp only: bit_mask_iff possible_bit_def) auto
qed

lemmas byte_bits =
  lo8_def hi8_def put_lo8_def put_hi8_def bit_ff00 bit_00ff bit_and_iff bit_or_iff bit_unsigned_iff
  bit_drop_bit_eq bit_push_bit_iff possible_bit_def

lemma lo8_put_lo8 [simp]: "lo8 (put_lo8 v w) = v"
  by (rule bit_word_eqI) (simp only: byte_bits comp_def, auto)

lemma hi8_put_lo8 [simp]: "hi8 (put_lo8 v w) = hi8 w"
  by (rule bit_word_eqI) (simp only: byte_bits comp_def, auto dest: bit_imp_le_length)

lemma hi8_put_hi8 [simp]: "hi8 (put_hi8 v w) = v"
  by (rule bit_word_eqI) (simp only: byte_bits comp_def, auto dest: bit_imp_le_length)

lemma lo8_put_hi8 [simp]: "lo8 (put_hi8 v w) = lo8 w"
  by (rule bit_word_eqI) (simp only: byte_bits comp_def, auto)

lemma u16_bytes_eqI: "lo8 v = lo8 w \<Longrightarrow> hi8 v = hi8 w \<Longrightarrow> v = w"
proof (rule bit_word_eqI)
  fix n
  assume eq: "lo8 v = lo8 w" "hi8 v = hi8 w" and n: "n < LENGTH(16)"
  show "bit v n \<longleftrightarrow> bit w n"
  proof (cases "n < 8")
    case True
    from eq(1) have "bit (lo8 v) n \<longleftrightarrow> bit (lo8 w) n" by simp
    with True show ?thesis by (simp add: lo8_def bit_ucast_iff)
  next
    case False
    from eq(2) have "bit (hi8 v) (n - 8) \<longleftrightarrow> bit (hi8 w) (n - 8)" by simp
    moreover from n False have "n - 8 < 8" by simp
    ultimately show ?thesis using False by (simp add: hi8_def bit_ucast_iff bit_drop_bit_eq)
  qed
qed

section \<open>Bounds on words\<close>

lemma unat_add_le: "unat (v + w) \<le> unat v + unat (w :: 'a::len word)"
  by (simp add: unat_word_ariths)

lemma unat_push_bit_le: "unat (push_bit n w) \<le> unat (w :: 'a::len word) * 2 ^ n"
  unfolding unsigned_push_bit_eq by (simp add: push_bit_eq_mult take_bit_nat_less_eq_self)

lemma unat_and_le: "unat (v AND w) \<le> unat (w :: 'a::len word)"
  by (simp add: word_and_le1 flip: word_le_nat_alt)

lemma unat_less_take_bit: "take_bit n w = w \<Longrightarrow> unat (w :: 'a::len word) < 2 ^ n"
  by (metis take_bit_nat_less_exp unsigned_take_bit_eq)

lemma unat_u8_less: "unat (v :: u8) < 256"
  using unsigned_less [of v] by simp

lemma unat_u16_less: "unat (v :: u16) < 65536"
  using unsigned_less [of v] by simp

lemma unat_ucast8: "unat (ucast (v :: u8) :: u32) = unat v"
  using unat_u8_less [of v] by (simp add: unsigned_ucast_eq take_bit_nat_eq_self)

lemma unat_ucast16: "unat (ucast (v :: u16) :: u32) = unat v"
  using unat_u16_less [of v] by (simp add: unsigned_ucast_eq take_bit_nat_eq_self)

lemma unat_drop_bit: "unat (drop_bit n w) = unat (w :: 'a::len word) div 2 ^ n"
proof -
  have "unat w < 2 ^ LENGTH('a)" by (rule unsigned_less)
  then show ?thesis
    unfolding unsigned_drop_bit_eq by (simp add: drop_bit_eq_div take_bit_nat_eq_self)
qed

lemma and_mask12: "(v :: u32) AND 0xfff = take_bit 12 v"
  by (simp add: take_bit_eq_mask mask_eq_exp_minus_1)

lemma and_mask13: "(v :: u32) AND 0x1fff = take_bit 13 v"
  by (simp add: take_bit_eq_mask mask_eq_exp_minus_1)

end
