(* ===== verification/Machine.thy ===== *)
theory Machine
  imports Prelude
begin

text \<open>
  The state of the hypervisor test bench \<open>src/tools/hyppotest.c\<close>: the structs \<open>regs\<close>,
  \<open>termination_conditions\<close>, \<open>cpu\<close> and \<open>instruction_log\<close>, and the file's global variables as
  one record \<open>machine\<close>. A struct field keeps its name behind a prefix (\<open>reg_\<close>, \<open>t_\<close>, \<open>l_\<close>).

  \<^item> The two unions of \<open>struct regs\<close> are one word each (\<open>reg_flags\<close>, \<open>reg_sp\<close>); \<open>flag_c\<close> and
    its siblings, \<open>spl\<close> and \<open>sph\<close> are the overlaid members.
  \<^item> An array is a function from indices; every access the code does not itself guard is
    guarded in the model, and an index out of range records a \<open>fault\<close>.
  \<^item> An \<open>instruction_log *\<close> is a number, \<open>log_heap\<close> says which of them are allocated.
    \<open>curlog\<close> is the object that the argument \<open>log\<close> of \<open>execute_instruction\<close> points to.
  \<^item> \<open>l_padding\<close> stands for the five bytes of padding of \<open>instruction_log\<close>, which \<open>memcmp\<close>
    compares with the rest.
  \<^item> \<open>fault\<close> is no variable of the program. It records the first step that leaves defined
    C behaviour (or the fuel of the model), and is never cleared; what the state holds after
    a fault has no meaning.
  \<^item> What is printed to the log files is not part of the state.
\<close>

section \<open>Structs\<close>

record regs =
  reg_pc :: u32
  reg_a :: u8
  reg_x :: u8
  reg_y :: u8
  reg_z :: u8
  reg_flags :: u8
  reg_b :: u8
  reg_sp :: u16
  in_hyper :: u8
  map_irq_inhibit :: u8
  maplo :: u16
  maphi :: u16
  maplomb :: u8
  maphimb :: u8

record term_conds =
  t_done :: bool
  t_error :: bool
  t_rts :: int
  t_brk :: bool
  t_log_dma :: bool

record cpu_state =
  instruction_count :: u32
  cregs :: regs
  cterm :: term_conds
  stack_overflow :: bool
  stack_underflow :: bool

record instruction_log =
  l_pc :: u32
  l_bytes :: "u8 list"
  l_len :: u8
  l_dup :: u8
  l_zp16 :: u8
  l_zp32 :: u8
  l_zp_pointer :: u32
  l_zp_pointer_addr :: u32
  l_regs :: regs
  l_count :: u32
  l_pops :: u8
  l_pop_blame :: "u32 list"
  l_padding :: "u8 list"

text \<open>The members of the flag union, and the masks \<open>FLAG_N\<close> to \<open>FLAG_C\<close>.\<close>

definition FLAG_N :: u8 where "FLAG_N = 0x80"
definition FLAG_V :: u8 where "FLAG_V = 0x40"
definition FLAG_E :: u8 where "FLAG_E = 0x20"
definition FLAG_B :: u8 where "FLAG_B = 0x10"
definition FLAG_D :: u8 where "FLAG_D = 0x08"
definition FLAG_I :: u8 where "FLAG_I = 0x04"
definition FLAG_Z :: u8 where "FLAG_Z = 0x02"
definition FLAG_C :: u8 where "FLAG_C = 0x01"

definition flag_c :: "u8 \<Rightarrow> bool" where "flag_c f = bit f 0"
definition flag_z :: "u8 \<Rightarrow> bool" where "flag_z f = bit f 1"
definition flag_i :: "u8 \<Rightarrow> bool" where "flag_i f = bit f 2"
definition flag_d :: "u8 \<Rightarrow> bool" where "flag_d f = bit f 3"
definition flag_b :: "u8 \<Rightarrow> bool" where "flag_b f = bit f 4"
definition flag_e :: "u8 \<Rightarrow> bool" where "flag_e f = bit f 5"
definition flag_v :: "u8 \<Rightarrow> bool" where "flag_v f = bit f 6"
definition flag_n :: "u8 \<Rightarrow> bool" where "flag_n f = bit f 7"

lemmas flag_masks = FLAG_N_def FLAG_V_def FLAG_E_def FLAG_B_def FLAG_D_def FLAG_I_def FLAG_Z_def FLAG_C_def
lemmas flag_defs = flag_c_def flag_z_def flag_i_def flag_d_def flag_b_def flag_e_def flag_v_def flag_n_def

section \<open>Constants and global variables\<close>

definition COLOURRAM_SIZE :: u32 where "COLOURRAM_SIZE = 32 * 1024"
definition CHIPRAM_SIZE :: u32 where "CHIPRAM_SIZE = 384 * 1024"
definition HYPPORAM_SIZE :: u32 where "HYPPORAM_SIZE = 16 * 1024"
definition MAX_SYMBOLS :: nat where "MAX_SYMBOLS = 384 * 1024"
definition MAX_POPS :: nat where "MAX_POPS = 4"
definition MAX_LOG_LENGTH :: nat where "MAX_LOG_LENGTH = 32 * 1024 * 1024"
definition INFINITE_LOOP_THRESHOLD :: u32 where "INFINITE_LOOP_THRESHOLD = 65536"

lemmas sizes = COLOURRAM_SIZE_def CHIPRAM_SIZE_def HYPPORAM_SIZE_def

text \<open>
  The four memories exist three times: the contents, the expected contents, and for each
  byte the number of the instruction that wrote it last (\<open>*_blame\<close>).
\<close>

record 'v banks =
  chipram :: "u32 \<Rightarrow> 'v"
  hypporam :: "u32 \<Rightarrow> 'v"
  colourram :: "u32 \<Rightarrow> 'v"
  ffdram :: "u32 \<Rightarrow> 'v"

text \<open>A symbol's name is a heap string that two symbols may share: a number, allocated or freed.\<close>

record hyppo_symbol =
  sym_name :: nat
  sym_addr :: u32

datatype sym_ref = HyppoSym nat | Sym nat

datatype fault = OutOfBounds | NullDereference | UseAfterFree | DoubleFree | DivisionByZero
  | SignedOverflow | OutOfFuel

record machine =
  cpu :: cpu_state
  cpu_expected :: cpu_state
  fail_on_stack_overflow :: bool
  fail_on_stack_underflow :: bool
  breakpoints :: "u32 \<Rightarrow> u8"
  ram :: "u8 banks"
  ram_expected :: "u8 banks"
  blame :: "u32 banks"
  hyppo_symbols :: "hyppo_symbol list"
  symbols :: "hyppo_symbol list"
  sym_by_addr :: "u32 \<Rightarrow> sym_ref option"
  sym_names :: "nat \<Rightarrow> string option"
  cpulog :: "nat \<Rightarrow> nat option"
  cpulog_len :: nat
  lastataddr :: "u32 \<Rightarrow> nat option"
  log_heap :: "nat \<Rightarrow> instruction_log option"
  log_next :: nat
  curlog :: instruction_log
  fault :: "fault option"

type_synonym 'a prog = "(machine, 'a) state"

section \<open>Primitive steps\<close>

definition upd_regs :: "(regs \<Rightarrow> regs) \<Rightarrow> machine \<Rightarrow> machine" where
  "upd_regs f m = m\<lparr>cpu := (cpu m)\<lparr>cregs := f (cregs (cpu m))\<rparr>\<rparr>"

definition upd_term :: "(term_conds \<Rightarrow> term_conds) \<Rightarrow> machine \<Rightarrow> machine" where
  "upd_term f m = m\<lparr>cpu := (cpu m)\<lparr>cterm := f (cterm (cpu m))\<rparr>\<rparr>"

definition upd_log :: "(instruction_log \<Rightarrow> instruction_log) \<Rightarrow> machine \<Rightarrow> machine" where
  "upd_log f m = m\<lparr>curlog := f (curlog m)\<rparr>"

definition record_fault :: "fault \<Rightarrow> machine \<Rightarrow> machine" where
  "record_fault f m = (case fault m of None \<Rightarrow> m\<lparr>fault := Some f\<rparr> | Some _ \<Rightarrow> m)"

lemmas upd_defs = upd_regs_def upd_term_def upd_log_def

abbreviation regs_of :: "machine \<Rightarrow> regs" where
  "regs_of m \<equiv> cregs (cpu m)"

abbreviation term_of :: "machine \<Rightarrow> term_conds" where
  "term_of m \<equiv> cterm (cpu m)"

definition reg :: "(regs \<Rightarrow> 'a) \<Rightarrow> 'a prog" where
  "reg f = gets (\<lambda>m. f (regs_of m))"

definition tcond :: "(term_conds \<Rightarrow> 'a) \<Rightarrow> 'a prog" where
  "tcond f = gets (\<lambda>m. f (term_of m))"

definition logged :: "(instruction_log \<Rightarrow> 'a) \<Rightarrow> 'a prog" where
  "logged f = gets (\<lambda>m. f (curlog m))"

definition raise :: "fault \<Rightarrow> unit prog" where
  "raise f = modify (record_fault f)"

text \<open>Assignments to the registers.\<close>

definition set_a :: "u8 \<Rightarrow> unit prog" where
  "set_a v = modify (upd_regs (\<lambda>r. r\<lparr>reg_a := v\<rparr>))"

definition set_x :: "u8 \<Rightarrow> unit prog" where
  "set_x v = modify (upd_regs (\<lambda>r. r\<lparr>reg_x := v\<rparr>))"

definition set_y :: "u8 \<Rightarrow> unit prog" where
  "set_y v = modify (upd_regs (\<lambda>r. r\<lparr>reg_y := v\<rparr>))"

definition set_z :: "u8 \<Rightarrow> unit prog" where
  "set_z v = modify (upd_regs (\<lambda>r. r\<lparr>reg_z := v\<rparr>))"

definition set_b :: "u8 \<Rightarrow> unit prog" where
  "set_b v = modify (upd_regs (\<lambda>r. r\<lparr>reg_b := v\<rparr>))"

definition set_pc :: "u32 \<Rightarrow> unit prog" where
  "set_pc v = modify (upd_regs (\<lambda>r. r\<lparr>reg_pc := v\<rparr>))"

definition set_flags :: "u8 \<Rightarrow> unit prog" where
  "set_flags v = modify (upd_regs (\<lambda>r. r\<lparr>reg_flags := v\<rparr>))"

definition set_sp :: "u16 \<Rightarrow> unit prog" where
  "set_sp v = modify (upd_regs (\<lambda>r. r\<lparr>reg_sp := v\<rparr>))"

definition set_maplo :: "u16 \<Rightarrow> unit prog" where
  "set_maplo v = modify (upd_regs (\<lambda>r. r\<lparr>maplo := v\<rparr>))"

definition set_maplomb :: "u8 \<Rightarrow> unit prog" where
  "set_maplomb v = modify (upd_regs (\<lambda>r. r\<lparr>maplomb := v\<rparr>))"

definition set_maphimb :: "u8 \<Rightarrow> unit prog" where
  "set_maphimb v = modify (upd_regs (\<lambda>r. r\<lparr>maphimb := v\<rparr>))"

definition set_map_irq_inhibit :: "u8 \<Rightarrow> unit prog" where
  "set_map_irq_inhibit v = modify (upd_regs (\<lambda>r. r\<lparr>map_irq_inhibit := v\<rparr>))"

text \<open>
  Assignments through the unions: a flag member, the low and the high byte of the stack
  pointer; and \<open>pc += n\<close>, whose operand is an \<open>int\<close> that C converts to \<open>unsigned\<close>.
\<close>

definition put_flag :: "nat \<Rightarrow> bool \<Rightarrow> unit prog" where
  "put_flag n b = do { f \<leftarrow> reg reg_flags; set_flags (put_bit n b f) }"

definition set_spl :: "u8 \<Rightarrow> unit prog" where
  "set_spl v = do { s \<leftarrow> reg reg_sp; set_sp (put_lo8 v s) }"

definition set_sph :: "u8 \<Rightarrow> unit prog" where
  "set_sph v = do { s \<leftarrow> reg reg_sp; set_sp (put_hi8 v s) }"

definition add_pc :: "int \<Rightarrow> unit prog" where
  "add_pc n = do { p \<leftarrow> reg reg_pc; set_pc (p + word_of_int n) }"

text \<open>Assignments to the fields of \<open>*log\<close>.\<close>

definition set_len :: "u8 \<Rightarrow> unit prog" where
  "set_len v = modify (upd_log (\<lambda>l. l\<lparr>l_len := v\<rparr>))"

definition set_zp16 :: "u8 \<Rightarrow> unit prog" where
  "set_zp16 v = modify (upd_log (\<lambda>l. l\<lparr>l_zp16 := v\<rparr>))"

definition set_zp32 :: "u8 \<Rightarrow> unit prog" where
  "set_zp32 v = modify (upd_log (\<lambda>l. l\<lparr>l_zp32 := v\<rparr>))"

definition set_zp_pointer :: "u32 \<Rightarrow> unit prog" where
  "set_zp_pointer v = modify (upd_log (\<lambda>l. l\<lparr>l_zp_pointer := v\<rparr>))"

definition set_zp_pointer_addr :: "u32 \<Rightarrow> unit prog" where
  "set_zp_pointer_addr v = modify (upd_log (\<lambda>l. l\<lparr>l_zp_pointer_addr := v\<rparr>))"

definition set_bytes :: "u8 list \<Rightarrow> unit prog" where
  "set_bytes v = modify (upd_log (\<lambda>l. l\<lparr>l_bytes := v\<rparr>))"

definition set_pops :: "u8 \<Rightarrow> unit prog" where
  "set_pops v = modify (upd_log (\<lambda>l. l\<lparr>l_pops := v\<rparr>))"

definition set_pop_blame :: "u32 list \<Rightarrow> unit prog" where
  "set_pop_blame v = modify (upd_log (\<lambda>l. l\<lparr>l_pop_blame := v\<rparr>))"

text \<open>Assignments to the termination conditions and to the two stack flags of \<open>struct cpu\<close>.\<close>

definition set_error :: "unit prog" where
  "set_error = modify (upd_term (\<lambda>t. t\<lparr>t_error := True\<rparr>))"

definition set_done :: "unit prog" where
  "set_done = modify (upd_term (\<lambda>t. t\<lparr>t_done := True\<rparr>))"

definition set_brk :: "unit prog" where
  "set_brk = modify (upd_term (\<lambda>t. t\<lparr>t_brk := True\<rparr>))"

definition set_rts :: "int \<Rightarrow> unit prog" where
  "set_rts v = modify (upd_term (\<lambda>t. t\<lparr>t_rts := v\<rparr>))"

definition set_stack_overflow :: "bool \<Rightarrow> unit prog" where
  "set_stack_overflow v = modify (\<lambda>m. m\<lparr>cpu := (cpu m)\<lparr>stack_overflow := v\<rparr>\<rparr>)"

definition set_stack_underflow :: "bool \<Rightarrow> unit prog" where
  "set_stack_underflow v = modify (\<lambda>m. m\<lparr>cpu := (cpu m)\<lparr>stack_underflow := v\<rparr>\<rparr>)"

text \<open>Stores into one of the memories, and into the record of who wrote it.\<close>

definition put_ram :: "(u8 banks \<Rightarrow> u8 banks) \<Rightarrow> unit prog" where
  "put_ram f = modify (\<lambda>m. m\<lparr>ram := f (ram m)\<rparr>)"

definition put_blame :: "(u32 banks \<Rightarrow> u32 banks) \<Rightarrow> unit prog" where
  "put_blame f = modify (\<lambda>m. m\<lparr>blame := f (blame m)\<rparr>)"

lemmas setter_defs =
  set_a_def set_x_def set_y_def set_z_def set_b_def set_pc_def set_flags_def set_sp_def
  set_maplo_def set_maplomb_def set_maphimb_def set_map_irq_inhibit_def
  put_flag_def set_spl_def set_sph_def add_pc_def
  set_len_def set_zp16_def set_zp32_def set_zp_pointer_def set_zp_pointer_addr_def
  set_bytes_def set_pops_def set_pop_blame_def
  set_error_def set_done_def set_brk_def set_rts_def set_stack_overflow_def set_stack_underflow_def
  put_ram_def put_blame_def raise_def

lemmas getter_defs = reg_def tcond_def logged_def

end
