(* ===== verification/Memory.thy ===== *)
theory Memory
  imports Machine
begin

text \<open>
  The 28-bit address space of the test bench and its banking: \<open>addr_to_28bit\<close>,
  \<open>read_memory28\<close>, \<open>read_memory\<close>, \<open>memory_blame\<close> and \<open>write_mem_expected28\<close>.
  \<open>write_mem28\<close> is in theory \<open>Dma\<close>, because a write to an I/O register may run a DMA job.

  The abstract view is \<open>region_of\<close>: an address lies in one of four memories at some
  offset, or nowhere. \<open>peek\<close> and \<open>poke\<close> are one load and one store over that view.
\<close>

section \<open>The code\<close>

subsection \<open>Banking\<close>

text \<open>The CPU port bits LORAM, HIRAM and CHAREN as \<open>addr_to_28bit\<close> computes them.\<close>

definition port_lnc :: "u8 banks \<Rightarrow> u8" where
  "port_lnc b = (chipram b 1 AND 7) OR (NOT (chipram b 0) AND 7)"

definition c64_bank :: "u8 \<Rightarrow> u32 \<Rightarrow> bool \<Rightarrow> u32" where
  "c64_bank lnc addr_in writeP =
    (let bank0 = drop_bit 12 addr_in;
         bank = (if bank0 > 15 then 0 else bank0);
         addr1 = (if bank = 13 then
                    (if lnc = 0 \<or> lnc = 4 then addr_in
                     else if lnc = 1 \<or> lnc = 2 \<or> lnc = 3 then
                       (if \<not> writeP then (addr_in AND 0xfff) OR 0x2d000 else addr_in)
                     else if lnc = 5 \<or> lnc = 6 \<or> lnc = 7 then (addr_in AND 0xfff) OR 0xffd3000
                     else addr_in)
                  else addr_in);
         addr2 = (if \<not> writeP \<and> (bank = 10 \<or> bank = 11) \<and> (lnc = 3 \<or> lnc = 7)
                  then (addr1 AND 0x1fff) OR 0x2a000 else addr1);
         addr3 = (if \<not> writeP \<and> (bank = 14 \<or> bank = 15) \<and> (lnc = 2 \<or> lnc = 3 \<or> lnc = 6 \<or> lnc = 7)
                  then (addr2 AND 0x1fff) OR 0x2e000 else addr2)
     in addr3)"

text \<open>The MAP registers override the banking for the 8KB zones that they enable.\<close>

definition map_zone :: "regs \<Rightarrow> u32 \<Rightarrow> u32 \<Rightarrow> u32" where
  "map_zone r addr_in addr =
    (let zone0 = drop_bit 13 addr_in;
         zone = (if zone0 > 7 then 0 else zone0)
     in if zone < 4 then
          (if drop_bit (unat (12 + zone)) (maplo r) AND 1 \<noteq> 0
           then addr_in + push_bit 8 (ucast (maplo r AND 0xfff)) + push_bit 20 (ucast (maplomb r))
           else addr)
        else if zone > 3 then
          (if drop_bit (unat (12 + zone - 4)) (maphi r) AND 1 \<noteq> 0
           then addr_in + push_bit 8 (ucast (maphi r AND 0xfff)) + push_bit 20 (ucast (maphimb r))
           else addr)
        else addr)"

definition map_addr :: "regs \<Rightarrow> u8 banks \<Rightarrow> u32 \<Rightarrow> bool \<Rightarrow> u32" where
  "map_addr r b addr writeP = map_zone r addr (c64_bank (port_lnc b) addr writeP)"

definition addr_to_28bit :: "u32 \<Rightarrow> bool \<Rightarrow> u32 prog" where
  "addr_to_28bit addr writeP =
     (if addr > 0xffff then do { set_error; return (- 1) }
      else do { r \<leftarrow> reg id; b \<leftarrow> gets ram; return (map_addr r b addr writeP) })"

subsection \<open>Reads\<close>

definition read_memory28 :: "u32 \<Rightarrow> u8 prog" where
  "read_memory28 addr = do {
     b \<leftarrow> gets ram;
     if addr \<ge> 0xfff8000 \<and> addr < 0xfffc000 then return (hypporam b (addr - 0xfff8000))
     else if addr < CHIPRAM_SIZE then return (chipram b addr)
     else if addr \<ge> 0xff80000 \<and> addr < 0xff80000 + COLOURRAM_SIZE
       then return (colourram b (addr - 0xff80000))
     else if addr AND 0xfff0000 = 0xffd0000 then
       (if addr - 0xffd0000 < 65536 then return (ffdram b (addr - 0xffd0000))
        else do { raise OutOfBounds; return 0 })
     else return 0xbd
   }"

definition read_memory :: "u32 \<Rightarrow> u8 prog" where
  "read_memory addr16 = do { addr \<leftarrow> addr_to_28bit addr16 False; read_memory28 addr }"

definition memory_blame :: "u32 \<Rightarrow> u32 prog" where
  "memory_blame addr16 = do {
     addr \<leftarrow> addr_to_28bit addr16 False;
     w \<leftarrow> gets blame;
     if addr \<ge> 0xfff8000 \<and> addr < 0xfffc000 then return (hypporam w (addr - 0xfff8000))
     else if addr < CHIPRAM_SIZE then return (chipram w addr)
     else if addr \<ge> 0xff80000 \<and> addr < 0xff80000 + COLOURRAM_SIZE
       then return (colourram w (addr - 0xff80000))
     else if addr AND 0xfff0000 = 0xffd0000 then
       (if addr - 0xffd0000 < 65536 then return (ffdram w (addr - 0xffd0000))
        else do { raise OutOfBounds; return 0 })
     else return 0
   }"

subsection \<open>The expected contents\<close>

definition put_expected :: "(u8 banks \<Rightarrow> u8 banks) \<Rightarrow> unit prog" where
  "put_expected f = modify (\<lambda>m. m\<lparr>ram_expected := f (ram_expected m)\<rparr>)"

definition write_mem_expected28 :: "u32 \<Rightarrow> u8 \<Rightarrow> int prog" where
  "write_mem_expected28 addr value = do {
     (if addr \<ge> 0xfff8000 \<and> addr < 0xfffc000
       then put_expected (hypporam_update (\<lambda>h. h(addr - 0xfff8000 := value)))
     else if addr < CHIPRAM_SIZE then put_expected (chipram_update (\<lambda>h. h(addr := value)))
     else if addr \<ge> 0xff80000 \<and> addr < 0xff80000 + COLOURRAM_SIZE
       then put_expected (colourram_update (\<lambda>h. h(addr - 0xff80000 := value)))
     else if addr AND 0xfff0000 = 0xffd0000 then
       (if addr - 0xffd0000 < 65536
        then put_expected (ffdram_update (\<lambda>h. h(addr - 0xffd0000 := value)))
        else raise OutOfBounds)
     else return ());
     return 0
   }"

section \<open>The abstract view\<close>

text \<open>
  \<open>Wild\<close> is the case the C code does not exclude: the I/O test ignores the address bits
  above 27, the array index does not.
\<close>

datatype region = Hyppo u32 | Chip u32 | Colour u32 | IO u32 | Wild | Unmapped

definition region_of :: "u32 \<Rightarrow> region" where
  "region_of a =
    (if a \<ge> 0xfff8000 \<and> a < 0xfffc000 then Hyppo (a - 0xfff8000)
     else if a < CHIPRAM_SIZE then Chip a
     else if a \<ge> 0xff80000 \<and> a < 0xff80000 + COLOURRAM_SIZE then Colour (a - 0xff80000)
     else if a AND 0xfff0000 = 0xffd0000 then
       (if a - 0xffd0000 < 65536 then IO (a - 0xffd0000) else Wild)
     else Unmapped)"

fun backed :: "region \<Rightarrow> bool" where
  "backed Wild = False"
| "backed Unmapped = False"
| "backed _ = True"

fun peek :: "'v banks \<Rightarrow> 'v \<Rightarrow> region \<Rightarrow> 'v" where
  "peek b d (Hyppo i) = hypporam b i"
| "peek b d (Chip i) = chipram b i"
| "peek b d (Colour i) = colourram b i"
| "peek b d (IO i) = ffdram b i"
| "peek b d Wild = d"
| "peek b d Unmapped = d"

fun poke :: "region \<Rightarrow> 'v \<Rightarrow> 'v banks \<Rightarrow> 'v banks" where
  "poke (Hyppo i) v b = b\<lparr>hypporam := (hypporam b)(i := v)\<rparr>"
| "poke (Chip i) v b = b\<lparr>chipram := (chipram b)(i := v)\<rparr>"
| "poke (Colour i) v b = b\<lparr>colourram := (colourram b)(i := v)\<rparr>"
| "poke (IO i) v b = b\<lparr>ffdram := (ffdram b)(i := v)\<rparr>"
| "poke Wild v b = b"
| "poke Unmapped v b = b"

lemma peek_poke_same: "backed r \<Longrightarrow> peek (poke r v b) d r = v"
  by (cases r) simp_all

lemma peek_poke_other: "q \<noteq> r \<Longrightarrow> peek (poke r v b) d q = peek b d q"
  by (cases r; cases q) simp_all

lemma region_of_inj: "region_of a = region_of b \<Longrightarrow> backed (region_of a) \<Longrightarrow> a = b"
  by (simp add: region_of_def split: if_splits)

lemma io_mask_bits: "(a :: u32) AND 0xfff0000 = push_bit 16 (take_bit 12 (drop_bit 16 a))"
proof -
  have m: "(0xfff0000 :: u32) = push_bit 16 (mask 12)" by (simp add: mask_eq_exp_minus_1)
  show ?thesis unfolding m
    by (rule bit_word_eqI)
       (auto simp: bit_and_iff bit_push_bit_iff bit_mask_iff bit_take_bit_iff bit_drop_bit_eq possible_bit_def)
qed

text \<open>An address below \<open>0x1ffd0000\<close> never indexes the I/O array out of range.\<close>

lemma io_mask_unat: "unat ((a :: u32) AND 0xfff0000) = (unat a div 2 ^ 16) mod 2 ^ 12 * 2 ^ 16"
proof -
  have u: "unat a < 2 ^ LENGTH(32)" by (rule unsigned_less)
  have "(unat a div 2 ^ 16) mod 2 ^ 12 * 2 ^ 16 < 2 ^ 32" by simp
  then show ?thesis
    unfolding io_mask_bits unsigned_push_bit_eq unsigned_take_bit_eq unsigned_drop_bit_eq
    using u by (simp add: push_bit_eq_mult take_bit_eq_mod drop_bit_eq_div)
qed

lemma region_not_wild:
  assumes "a < 0x1ffd0000" shows "region_of a \<noteq> Wild"
proof -
  have "a - 0xffd0000 < 65536" if io: "a AND 0xfff0000 = 0xffd0000"
  proof -
    from io have "unat (a AND 0xfff0000) = 0xffd0000" by simp
    then have "unat a div 65536 mod 4096 = 0xffd" by (simp add: io_mask_unat)
    moreover from assms have "unat a div 65536 < 0x1ffd" by (simp add: word_less_nat_alt)
    ultimately have "unat a div 65536 div 4096 < 1"
      using div_mult_mod_eq [of "unat a div 65536" 4096] by linarith
    with \<open>unat a div 65536 mod 4096 = 0xffd\<close> have "unat a div 65536 = 0xffd"
      using div_mult_mod_eq [of "unat a div 65536" 4096] by simp
    then have "0xffd0000 \<le> unat a \<and> unat a < 0xffe0000"
      using div_mult_mod_eq [of "unat a" 65536] mod_less_divisor [of 65536 "unat a"] by linarith
    then show ?thesis
      by (simp add: word_less_nat_alt unat_sub word_le_nat_alt less_diff_conv2)
  qed
  then show ?thesis by (simp add: region_of_def)
qed

subsection \<open>Where banking can lead\<close>

lemma c64_bank_bound:
  assumes "addr \<le> 0xffff" shows "unat (c64_bank l addr w) < 2 ^ 28"
proof -
  have a: "unat addr < 2 ^ 28" using assms by (simp add: word_le_nat_alt)
  have m: "unat ((v AND 0xfff) OR 0x2d000) < 2 ^ 28" "unat ((v AND 0xfff) OR 0xffd3000) < 2 ^ 28"
    "unat ((v AND 0x1fff) OR 0x2a000) < 2 ^ 28" "unat ((v AND 0x1fff) OR 0x2e000) < 2 ^ 28" for v :: u32
    by (rule unat_less_take_bit, simp add: take_bit_or and_mask12 and_mask13)+
  show ?thesis using a m by (simp add: c64_bank_def Let_def)
qed

lemma map_offset_bound:
  assumes "(addr :: u32) \<le> 0xffff"
  shows "unat (addr + push_bit 8 (ucast ((lo :: u16) AND 0xfff)) + push_bit 20 (ucast (mb :: u8))) < 0x1000ff00"
proof -
  let ?l = "push_bit 8 (ucast (lo AND 0xfff)) :: u32" and ?m = "push_bit 20 (ucast mb) :: u32"
  have "unat ?l \<le> 0xfff * 2 ^ 8"
    using unat_push_bit_le [of 8 "ucast (lo AND 0xfff) :: u32"] unat_and_le [of lo "0xfff"]
    by (simp only: unat_ucast16) simp
  moreover have "unat ?m \<le> 0xff * 2 ^ 20"
    using unat_push_bit_le [of 20 "ucast mb :: u32"] unat_u8_less [of mb]
    by (simp only: unat_ucast8) simp
  moreover have "unat addr \<le> 0xffff" using assms by (simp add: word_le_nat_alt)
  moreover have "unat (addr + ?l + ?m) \<le> unat addr + unat ?l + unat ?m"
    using unat_add_le [of "addr + ?l" ?m] unat_add_le [of addr ?l] by linarith
  ultimately show ?thesis by simp
qed

lemma map_addr_bound:
  assumes "addr \<le> 0xffff" shows "unat (map_addr r b addr w) < 0x1000ff00"
proof -
  have "unat (c64_bank (port_lnc b) addr w) < 0x1000ff00"
    using c64_bank_bound [OF assms, of "port_lnc b" w] by simp
  then show ?thesis
    using map_offset_bound [OF assms] by (simp add: map_addr_def map_zone_def Let_def)
qed

lemma map_addr_not_wild: "addr \<le> 0xffff \<Longrightarrow> region_of (map_addr r b addr w) \<noteq> Wild"
  using map_addr_bound [of addr r b w] by (intro region_not_wild) (simp add: word_less_nat_alt)

text \<open>Without an enabled MAP zone and outside the banked areas an address stands for itself.\<close>

definition unmapped_zone :: "regs \<Rightarrow> u32 \<Rightarrow> bool" where
  "unmapped_zone r addr \<longleftrightarrow>
    (let zone = drop_bit 13 addr
     in if zone < 4 then \<not> bit (maplo r) (unat (12 + zone))
        else \<not> bit (maphi r) (unat (8 + zone)))"

lemma and_1_bit: "(v :: 'a::len word) AND 1 \<noteq> 0 \<longleftrightarrow> bit v 0"
  by (simp add: and_one_eq odd_iff_mod_2_eq_one bit_0)

lemma map_zone_unmapped:
  assumes "unmapped_zone r addr" and "addr \<le> 0xffff" shows "map_zone r addr b = b"
proof -
  have "unat addr div 2 ^ 13 < 8" using assms(2) by (simp add: word_le_nat_alt div_less_iff_less_mult)
  then have "drop_bit 13 addr \<le> 7"
    unfolding word_le_nat_alt unat_drop_bit by simp
  then have z: "\<not> drop_bit 13 addr > 7" by simp
  show ?thesis
    using assms(1) z by (simp add: unmapped_zone_def map_zone_def Let_def and_1_bit bit_drop_bit_eq)
qed

subsection \<open>Runs of the reads\<close>

definition bus_value :: "machine \<Rightarrow> u32 \<Rightarrow> u8" where
  "bus_value m addr =
    (if addr > 0xffff then 0xbd
     else peek (ram m) 0xbd (region_of (map_addr (regs_of m) (ram m) addr False)))"

lemma run_read_memory28:
  "region_of addr \<noteq> Wild \<Longrightarrow>
    run_state (read_memory28 addr) m = (peek (ram m) 0xbd (region_of addr), m)"
  by (simp add: read_memory28_def region_of_def split: if_splits)

lemma run_addr_to_28bit:
  "addr \<le> 0xffff \<Longrightarrow>
    run_state (addr_to_28bit addr w) m = (map_addr (regs_of m) (ram m) addr w, m)"
  by (simp add: addr_to_28bit_def reg_def leD)

lemma run_read_memory:
  "addr \<le> 0xffff \<Longrightarrow> run_state (read_memory addr) m = (bus_value m addr, m)"
  by (simp add: read_memory_def run_addr_to_28bit run_read_memory28 map_addr_not_wild
      bus_value_def leD)

lemma run_read_memory_error:
  assumes "addr > 0xffff"
  shows "run_state (read_memory addr) m = (bus_value m addr, upd_term (\<lambda>t. t\<lparr>t_error := True\<rparr>) m)"
proof -
  have "region_of (- 1) = Unmapped" by (simp add: region_of_def sizes)
  then show ?thesis
    using assms by (simp add: read_memory_def addr_to_28bit_def set_error_def run_read_memory28 bus_value_def)
qed

lemma run_memory_blame:
  "addr \<le> 0xffff \<Longrightarrow> run_state (memory_blame addr) m
    = (peek (blame m) 0 (region_of (map_addr (regs_of m) (ram m) addr False)), m)"
  using map_addr_not_wild [of addr "regs_of m" "ram m" False]
  by (simp add: memory_blame_def run_addr_to_28bit region_of_def split: if_splits)

text \<open>What reads may change: nothing, apart from the error flag and a fault.\<close>

locale reads_rel = stable_rel R for R :: "machine \<Rightarrow> machine \<Rightarrow> bool" +
  assumes obeys_set_error: "obeys R set_error"
    and obeys_raise: "obeys R (raise f)"
begin

lemma obeys_addr_to_28bit: "obeys R (addr_to_28bit a w)"
  unfolding addr_to_28bit_def reg_def by (intro obeys_basic obeys_set_error)

lemma obeys_read_memory28: "obeys R (read_memory28 a)"
  unfolding read_memory28_def by (intro obeys_basic obeys_raise)

lemma obeys_read_memory: "obeys R (read_memory a)"
  unfolding read_memory_def by (intro obeys_basic obeys_addr_to_28bit obeys_read_memory28)

lemma obeys_memory_blame: "obeys R (memory_blame a)"
  unfolding memory_blame_def by (intro obeys_basic obeys_addr_to_28bit obeys_raise)

lemmas obeys_reads =
  obeys_set_error obeys_raise obeys_addr_to_28bit obeys_read_memory28 obeys_read_memory obeys_memory_blame

end

section \<open>A store of bytes\<close>

text \<open>
  The contract between a memory and its clients: a byte stored at a backed address is
  read back there, and no other address changes. \<open>copy_steps\<close> is a sequence of single
  byte moves, the order of the list being the order of the moves; \<open>write_steps\<close> a sequence of
  stores of given bytes.
\<close>

fun copy_steps ::
  "('s \<Rightarrow> u32 \<Rightarrow> u8) \<Rightarrow> (u32 \<Rightarrow> u8 \<Rightarrow> 's \<Rightarrow> 's) \<Rightarrow> (u32 \<times> u32) list \<Rightarrow> 's \<Rightarrow> 's" where
  "copy_steps ld st [] s = s"
| "copy_steps ld st ((d, a) # ps) s = copy_steps ld st ps (st d (ld s a) s)"

fun write_steps :: "(u32 \<Rightarrow> u8 \<Rightarrow> 's \<Rightarrow> 's) \<Rightarrow> (u32 \<times> u8) list \<Rightarrow> 's \<Rightarrow> 's" where
  "write_steps st [] s = s"
| "write_steps st ((d, v) # ps) s = write_steps st ps (st d v s)"

locale byte_store =
  fixes load :: "'s \<Rightarrow> u32 \<Rightarrow> u8"
    and store :: "u32 \<Rightarrow> u8 \<Rightarrow> 's \<Rightarrow> 's"
    and writable :: "u32 \<Rightarrow> bool"
  assumes load_store_same: "writable a \<Longrightarrow> load (store a v s) a = v"
    and load_store_other: "a \<noteq> c \<Longrightarrow> load (store a v s) c = load s c"
begin

lemma load_store: "writable a \<Longrightarrow> load (store a v s) c = (if c = a then v else load s c)"
  by (auto simp: load_store_same load_store_other)

lemma copy_steps_other: "c \<notin> fst ` set ps \<Longrightarrow> load (copy_steps load store ps s) c = load s c"
  by (induction ps arbitrary: s) (auto simp: load_store_other)

lemma write_steps_other: "c \<notin> fst ` set ps \<Longrightarrow> load (write_steps store ps s) c = load s c"
  by (induction ps arbitrary: s) (auto simp: load_store_other)

lemma write_steps_load:
  "\<forall>p \<in> set ps. writable (fst p) \<Longrightarrow> distinct (map fst ps) \<Longrightarrow> (d, v) \<in> set ps \<Longrightarrow>
    load (write_steps store ps s) d = v"
proof (induction ps arbitrary: s)
  case Nil
  then show ?case by simp
next
  case (Cons p ps)
  show ?case
  proof (cases "(d, v) = p")
    case True
    then have p: "p = (d, v)" by simp
    from Cons.prems have "d \<notin> fst ` set ps" and "writable d" unfolding p by simp_all
    then show ?thesis unfolding p by (simp add: write_steps_other load_store_same)
  next
    case False
    with Cons.prems(3) have "(d, v) \<in> set ps" by simp
    with Cons show ?thesis by (cases p) simp
  qed
qed

text \<open>When no byte is overwritten before it is read, the destinations hold the old sources.\<close>

lemma copy_steps_load:
  assumes "\<forall>p \<in> set ps. writable (fst p)" and "distinct (map fst ps)"
    and "fst ` set ps \<inter> snd ` set ps = {}" and "(d, a) \<in> set ps"
  shows "load (copy_steps load store ps s) d = load s a"
  using assms
proof (induction ps arbitrary: s)
  case Nil
  then show ?case by simp
next
  case (Cons p ps)
  obtain e b where p: "p = (e, b)" by (cases p)
  show ?case
  proof (cases "(d, a) = p")
    case True
    with p Cons.prems have "d \<notin> fst ` set ps" and "writable d" by auto
    with p True show ?thesis by (simp add: copy_steps_other load_store_same)
  next
    case False
    with Cons.prems have "(d, a) \<in> set ps" by simp
    moreover from this p Cons.prems(3) have "e \<noteq> a" by force
    moreover have "fst ` set ps \<inter> snd ` set ps = {}" using Cons.prems(3) by auto
    ultimately show ?thesis
      using Cons.IH Cons.prems(1,2) p by (simp add: load_store_other)
  qed
qed

end

interpretation banks_store: byte_store
  "\<lambda>b a. peek b 0xbd (region_of a)" "\<lambda>a. poke (region_of a)" "\<lambda>a. backed (region_of a)"
proof
  fix a :: u32 and v and b :: "u8 banks"
  show "backed (region_of a) \<Longrightarrow> peek (poke (region_of a) v b) 0xbd (region_of a) = v"
    by (rule peek_poke_same)
next
  fix a c :: u32 and v and b :: "u8 banks"
  assume "a \<noteq> c"
  show "peek (poke (region_of a) v b) 0xbd (region_of c) = peek b 0xbd (region_of c)"
  proof (cases "backed (region_of a)")
    case True
    with \<open>a \<noteq> c\<close> have "region_of c \<noteq> region_of a" by (metis region_of_inj)
    then show ?thesis by (rule peek_poke_other)
  next
    case False
    then show ?thesis by (cases "region_of a") simp_all
  qed
qed

lemma run_write_mem_expected28:
  "region_of a \<noteq> Wild \<Longrightarrow> run_state (write_mem_expected28 a v) m
    = (0, m\<lparr>ram_expected := poke (region_of a) v (ram_expected m)\<rparr>)"
  by (simp add: write_mem_expected28_def put_expected_def region_of_def split: if_splits)

end
