(* ===== verification/Dma.thy ===== *)
theory Dma
  imports Memory "HOL-Library.Signed_Division"
begin

text \<open>
  \<open>do_dma\<close> and \<open>write_mem28\<close>, which call each other: a write to the I/O registers
  \<open>$FFD3700\<close> and \<open>$FFD3705\<close> starts a DMA job, and a DMA job writes memory. Each is defined
  over the other as an argument (\<open>write_mem28_with\<close>, \<open>do_dma_with\<close>), and the knot is tied
  on a fuel argument that bounds the nesting, the number of chained jobs and the number of
  option bytes of one job; running out of fuel is the fault \<open>OutOfFuel\<close>.

  The local variables of \<open>do_dma\<close> that outlive an iteration of a loop are the records
  \<open>dma_vars\<close> and \<open>line_vars\<close>. The code has the line mode twice, for the source (variables
  with prefix \<open>s_\<close>) and for the destination, in the same words; the model has one
  \<open>line_vars\<close> for each and the text once. The symbol table is copied and erased along with
  the memory that a job copies and fills.
\<close>

section \<open>Local variables\<close>

record line_vars =
  x8_offset :: int
  y8_offset :: int
  slope :: int
  slope_overflow_toggle :: int
  slope_fraction_start :: int
  line_mode :: int
  line_x_or_y :: int
  line_slope_negative :: int

record dma_vars =
  f011b :: int
  with_transparency :: int
  floppy_mode :: int
  floppy_ignore_ff :: int
  spiral_mode :: int
  spiral_len :: int
  spiral_len_remaining :: int
  src_mb :: int
  dst_mb :: int
  src_skip :: int
  dst_skip :: int
  transparent_value :: int
  dst_line :: line_vars
  src_line :: line_vars
  dma_count :: int
  spiral_phase :: int

definition line_vars_init :: line_vars where
  "line_vars_init = \<lparr>x8_offset = 0, y8_offset = 0, slope = 0, slope_overflow_toggle = 0,
     slope_fraction_start = 0, line_mode = 0, line_x_or_y = 0, line_slope_negative = 0\<rparr>"

definition dma_vars_init :: dma_vars where
  "dma_vars_init = \<lparr>f011b = 0, with_transparency = 0, floppy_mode = 0, floppy_ignore_ff = 0,
     spiral_mode = 0, spiral_len = 0, spiral_len_remaining = 0, src_mb = 0, dst_mb = 0,
     src_skip = 0, dst_skip = 0, transparent_value = 0, dst_line = line_vars_init,
     src_line = line_vars_init, dma_count = 0, spiral_phase = 0\<rparr>"

text \<open>What one job's list says, apart from the count.\<close>

record dma_job =
  dma_cmd :: u32
  src_direction :: bool
  src_hold :: bool
  src_modulo :: bool
  dest_direction :: bool
  dest_hold :: bool
  dest_modulo :: bool

section \<open>Option bytes\<close>

definition dma_option :: "u8 \<Rightarrow> int \<Rightarrow> dma_vars \<Rightarrow> dma_vars prog" where
  "dma_option opt arg v =
    (if opt = 0x06 then return (v\<lparr>with_transparency := 0\<rparr>)
     else if opt = 0x07 then return (v\<lparr>with_transparency := 0\<rparr>)
     else if opt = 0x0a then return (v\<lparr>f011b := 0\<rparr>)
     else if opt = 0x0b then return (v\<lparr>f011b := 1\<rparr>)
     else if opt = 0x0d then return (v\<lparr>floppy_mode := 1\<rparr>)
     else if opt = 0x0e then return (v\<lparr>floppy_mode := 1, floppy_ignore_ff := 1\<rparr>)
     else if opt = 0x0f then return (v\<lparr>floppy_mode := 1, floppy_ignore_ff := 0\<rparr>)
     else if opt = 0x53 then
       return (v\<lparr>spiral_mode := 1, spiral_len := 39, spiral_len_remaining := 38\<rparr>)
     else if opt = 0x80 then return (v\<lparr>src_mb := arg\<rparr>)
     else if opt = 0x81 then return (v\<lparr>dst_mb := arg\<rparr>)
     else if opt = 0x82 then return (v\<lparr>src_skip := src_skip v OR arg\<rparr>)
     else if opt = 0x83 then return (v\<lparr>src_skip := src_skip v OR push_bit 8 arg\<rparr>)
     else if opt = 0x84 then return (v\<lparr>dst_skip := dst_skip v OR arg\<rparr>)
     else if opt = 0x85 then return (v\<lparr>dst_skip := dst_skip v OR push_bit 8 arg\<rparr>)
     else if opt = 0x86 then return (v\<lparr>transparent_value := arg\<rparr>)
     else if opt = 0x87 then return (v\<lparr>dst_line := (dst_line v)\<lparr>x8_offset := x8_offset (dst_line v) OR arg\<rparr>\<rparr>)
     else if opt = 0x88 then return (v\<lparr>dst_line := (dst_line v)\<lparr>x8_offset := x8_offset (dst_line v) OR push_bit 8 arg\<rparr>\<rparr>)
     else if opt = 0x89 then return (v\<lparr>dst_line := (dst_line v)\<lparr>y8_offset := y8_offset (dst_line v) OR arg\<rparr>\<rparr>)
     else if opt = 0x8a then return (v\<lparr>dst_line := (dst_line v)\<lparr>y8_offset := y8_offset (dst_line v) OR push_bit 8 arg\<rparr>\<rparr>)
     else if opt = 0x8b then return (v\<lparr>dst_line := (dst_line v)\<lparr>slope := slope (dst_line v) OR arg\<rparr>\<rparr>)
     else if opt = 0x8c then return (v\<lparr>dst_line := (dst_line v)\<lparr>slope := slope (dst_line v) OR push_bit 8 arg\<rparr>\<rparr>)
     else if opt = 0x8d then return (v\<lparr>dst_line := (dst_line v)
       \<lparr>slope_fraction_start := slope_fraction_start (dst_line v) OR arg\<rparr>\<rparr>)
     else if opt = 0x8e then return (v\<lparr>dst_line := (dst_line v)
       \<lparr>slope_fraction_start := slope_fraction_start (dst_line v) OR push_bit 8 arg\<rparr>\<rparr>)
     else if opt = 0x8f then return (v\<lparr>dst_line := (dst_line v)
       \<lparr>line_mode := arg AND 0x80, line_x_or_y := arg AND 0x40, line_slope_negative := arg AND 0x20\<rparr>\<rparr>)
     else if opt = 0x90 then return (v\<lparr>dma_count := dma_count v OR push_bit 16 arg\<rparr>)
     else if opt = 0x97 then return (v\<lparr>src_line := (src_line v)\<lparr>x8_offset := x8_offset (src_line v) OR arg\<rparr>\<rparr>)
     else if opt = 0x98 then return (v\<lparr>src_line := (src_line v)\<lparr>x8_offset := x8_offset (src_line v) OR push_bit 8 arg\<rparr>\<rparr>)
     else if opt = 0x99 then return (v\<lparr>src_line := (src_line v)\<lparr>y8_offset := y8_offset (src_line v) OR arg\<rparr>\<rparr>)
     else if opt = 0x9a then return (v\<lparr>src_line := (src_line v)\<lparr>y8_offset := y8_offset (src_line v) OR push_bit 8 arg\<rparr>\<rparr>)
     else if opt = 0x9b then return (v\<lparr>src_line := (src_line v)\<lparr>slope := slope (src_line v) OR arg\<rparr>\<rparr>)
     else if opt = 0x9c then return (v\<lparr>src_line := (src_line v)\<lparr>slope := slope (src_line v) OR push_bit 8 arg\<rparr>\<rparr>)
     else if opt = 0x9d then return (v\<lparr>src_line := (src_line v)
       \<lparr>slope_fraction_start := slope_fraction_start (src_line v) OR arg\<rparr>\<rparr>)
     else if opt = 0x9e then return (v\<lparr>src_line := (src_line v)
       \<lparr>slope_fraction_start := slope_fraction_start (src_line v) OR push_bit 8 arg\<rparr>\<rparr>)
     else if opt = 0x9f then return (v\<lparr>src_line := (src_line v)
       \<lparr>line_mode := arg AND 0x80, line_x_or_y := arg AND 0x40, line_slope_negative := arg AND 0x20\<rparr>\<rparr>)
     else do { set_error; return v })"

text \<open>The loop over the option bytes, up to and including the terminating zero.\<close>

fun dma_options :: "nat \<Rightarrow> u32 \<Rightarrow> dma_vars \<Rightarrow> (dma_vars \<times> u32) prog" where
  "dma_options 0 addr v = do { raise OutOfFuel; return (v, addr) }"
| "dma_options (Suc n) addr v = do {
     b \<leftarrow> read_memory28 addr;
     if b = 0 then return (v, addr + 1)
     else do {
       opt \<leftarrow> read_memory28 addr;
       if opt AND 0x80 \<noteq> 0 then do {
         arg \<leftarrow> read_memory28 (addr + 1);
         v' \<leftarrow> dma_option opt (uint arg) v;
         dma_options n (addr + 2) v'
       } else do {
         v' \<leftarrow> dma_option opt 0 v;
         dma_options n (addr + 1) v'
       }
     }
   }"

section \<open>The job list\<close>

text \<open>
  Eleven bytes, twelve in F011B mode: command, count, source, destination, the high byte of
  the command, modulo. The result is the job, the variables with the count, the two start
  addresses in units of 1/256 byte, and the address after the list.
\<close>

definition read_dma_list :: "dma_vars \<Rightarrow> u32 \<Rightarrow> (dma_job \<times> dma_vars \<times> u64 \<times> u64 \<times> u32) prog" where
  "read_dma_list v addr = do {
     cmd0 \<leftarrow> read_memory28 addr;
     c0 \<leftarrow> read_memory28 (addr + 1);
     c1 \<leftarrow> read_memory28 (addr + 2);
     s0 \<leftarrow> read_memory28 (addr + 3);
     s1 \<leftarrow> read_memory28 (addr + 4);
     s2 \<leftarrow> read_memory28 (addr + 5);
     d0 \<leftarrow> read_memory28 (addr + 6);
     d1 \<leftarrow> read_memory28 (addr + 7);
     d2 \<leftarrow> read_memory28 (addr + 8);
     (cmd, addr1) \<leftarrow> (if f011b v \<noteq> 0 then do {
         cmd1 \<leftarrow> read_memory28 (addr + 9);
         return (ucast cmd0 OR push_bit 8 (ucast cmd1), addr + 10) }
       else return (ucast cmd0, addr + 9));
     m0 \<leftarrow> read_memory28 addr1;
     m1 \<leftarrow> read_memory28 (addr1 + 1);
     let count = dma_count v OR uint c0 OR push_bit 8 (uint c1);
     let src = (ucast s0 OR push_bit 8 (ucast s1) OR push_bit 16 (ucast s2) :: u32);
     let dst = (ucast d0 OR push_bit 8 (ucast d1) OR push_bit 16 (ucast d2) :: u32);
     let job = (if f011b v \<noteq> 0 then
         \<lparr>dma_cmd = cmd, src_direction = bit cmd 4, src_hold = bit cmd 9, src_modulo = bit cmd 8,
          dest_direction = bit cmd 5, dest_hold = bit cmd 11, dest_modulo = bit cmd 10\<rparr>
       else
         \<lparr>dma_cmd = cmd, src_direction = bit src 22, src_hold = bit src 20, src_modulo = bit src 21,
          dest_direction = bit dst 22, dest_hold = bit dst 20, dest_modulo = bit dst 21\<rparr>);
     let src_addr = ucast (push_bit 8 (src AND 0xfffff)) OR push_bit 28 (word_of_int (src_mb v));
     let dest_addr = ucast (push_bit 8 (dst AND 0xfffff)) OR push_bit 28 (word_of_int (dst_mb v));
     return (job, v\<lparr>dma_count := (if count = 0 then 0x10000 else count)\<rparr>, src_addr, dest_addr, addr1 + 2)
   }"

section \<open>Advancing the addresses\<close>

text \<open>
  One pixel of movement in line mode, on a screen of 8 by 8 cards. The arguments \<open>xm\<close>, \<open>xn\<close>,
  \<open>ym\<close>, \<open>yn\<close> are the code's \<open>line_x_move\<close>, \<open>line_x_move_negative\<close>, \<open>line_y_move\<close> and
  \<open>line_y_move_negative\<close>; an \<open>int\<close> operand of \<open>+=\<close> is converted to 64 bits.
\<close>

definition line_step :: "line_vars \<Rightarrow> bool \<Rightarrow> bool \<Rightarrow> bool \<Rightarrow> bool \<Rightarrow> u64 \<Rightarrow> u64" where
  "line_step l xm xn ym yn a =
    (let x8 = push_bit 8 (x8_offset l);
         y8 = push_bit 8 (y8_offset l);
         c3f = drop_bit 8 a AND 0x3f;
         x7 = drop_bit 8 a AND 7;
         y7 = drop_bit 11 a AND 7
     in if \<not> xm \<and> ym \<and> \<not> yn then
          (if y7 = 7 then a OR word_of_int (256 * 8 + y8) else a OR word_of_int (256 * 8))
        else if \<not> xm \<and> ym \<and> yn then
          (if y7 = 0 then a - word_of_int (256 * 8 + y8) else a - word_of_int (256 * 8))
        else if xm \<and> \<not> xn \<and> \<not> ym then
          (if x7 = 7 then a + word_of_int (256 + x8) else a + 256)
        else if xm \<and> xn \<and> \<not> ym then
          (if x7 = 0 then a - word_of_int (256 + x8) else a - 256)
        else if xm \<and> \<not> xn \<and> ym \<and> \<not> yn then
          (if c3f = 0x3f then a + word_of_int (256 * 9 + x8 + y8)
           else if c3f = 0x38 then a + word_of_int (256 * 9 + y8)
           else if c3f = 0x07 then a + word_of_int (256 * 9 + x8)
           else a + word_of_int (256 * 9))
        else if xm \<and> \<not> xn \<and> ym \<and> yn then
          (let a1 = (if c3f = 0x07 then a + word_of_int (256 * 1 - 256 * 8 + x8 - y8)
                     else if c3f < 0x08 then a + word_of_int (256 * 1 - 256 * 8 - y8)
                     else a)
           in if drop_bit 8 a1 AND 0x07 = 0x07 then a1 + word_of_int (256 * 1 - 256 * 8 + x8)
              else a1 + word_of_int (256 * 1 - 256 * 8))
        else if xm \<and> xn \<and> ym \<and> \<not> yn then
          (if c3f = 0x38 then a + word_of_int (- (256 * 1) + 256 * 8 - x8 + y8)
           else if y7 = 0x07 then a + word_of_int (- (256 * 1) + 256 * 8 + y8)
           else if x7 = 0 then a + word_of_int (- (256 * 1) + 256 * 8 - x8)
           else a + word_of_int (- (256 * 1) + 256 * 8))
        else if xm \<and> xn \<and> ym \<and> yn then
          (if c3f = 0x00 then a + word_of_int (- (256 * 1) - 256 * 8 - x8 - y8)
           else if y7 = 0x00 then a + word_of_int (- (256 * 1) - 256 * 8 - y8)
           else if x7 = 0x00 then a + word_of_int (- (256 * 1) - 256 * 8 - x8)
           else a + word_of_int (- (256 * 1) - 256 * 8))
        else a)"

text \<open>
  The whole line mode step. The test that decides about a move in the minor axis is written
  \<open>/=\<close> in the C source, which divides the toggle by bit 16 of the fraction and assigns the
  quotient; \<open>sdiv\<close> is the truncating division of C.
\<close>

definition line_advance :: "line_vars \<Rightarrow> u64 \<Rightarrow> (line_vars \<times> u64) prog" where
  "line_advance l a = do {
     let sum = slope_fraction_start l + slope l;
     if sum \<ge> 2 ^ 31 then do { raise SignedOverflow; return (l, a) }
     else if sum AND 0x10000 = 0 then do { raise DivisionByZero; return (l, a) }
     else do {
       let l1 = l\<lparr>slope_fraction_start := sum,
                  slope_overflow_toggle := slope_overflow_toggle l sdiv (sum AND 0x10000)\<rparr>;
       let carry = slope_overflow_toggle l1 \<noteq> 0;
       let l2 = (if carry then l1\<lparr>slope_overflow_toggle := sum AND 0x10000\<rparr> else l1);
       let xmajor = line_x_or_y l = 0;
       let neg = line_slope_negative l \<noteq> 0;
       let ym = (if xmajor then carry else True);
       let yn = (xmajor \<and> carry \<and> neg);
       let xm = (if xmajor then True else carry);
       let xn = (\<not> xmajor \<and> carry \<and> neg);
       return (l2, line_step l2 xm xn ym yn a)
     }
   }"

definition spiral_advance :: "dma_vars \<Rightarrow> u64 \<Rightarrow> dma_vars \<times> u64" where
  "spiral_advance v a =
    (let a1 = (if spiral_phase v = 0 then a + 0x100
               else if spiral_phase v = 1 then a + 0x2800
               else if spiral_phase v = 2 then a - 0x100
               else if spiral_phase v = 3 then a - 0x2800
               else a);
         v1 = (if spiral_len_remaining v \<noteq> 0
               then v\<lparr>spiral_len_remaining := spiral_len_remaining v - 1\<rparr>
               else v\<lparr>spiral_len_remaining :=
                        (if spiral_phase v AND 1 = 0 then spiral_len v - 16 else spiral_len v),
                      spiral_len := (if spiral_len v \<noteq> 0 then spiral_len v - 1 else spiral_len v)\<rparr>)
     in (v1\<lparr>spiral_phase := (spiral_phase v + 1) AND 3\<rparr>, a1))"

definition update_src :: "dma_job \<Rightarrow> dma_vars \<Rightarrow> u64 \<Rightarrow> (dma_vars \<times> u64) prog" where
  "update_src j v a =
    (if line_mode (src_line v) = 0 then
       return (v, if src_hold j then a
                  else if src_direction j then a - word_of_int (src_skip v)
                  else a + word_of_int (src_skip v))
     else do {
       (l, a') \<leftarrow> line_advance (src_line v) a;
       return (v\<lparr>src_line := l\<rparr>, a')
     })"

definition update_dest :: "dma_job \<Rightarrow> dma_vars \<Rightarrow> u64 \<Rightarrow> (dma_vars \<times> u64) prog" where
  "update_dest j v a =
    (if spiral_mode v \<noteq> 0 then return (spiral_advance v a)
     else if line_mode (dst_line v) = 0 then
       return (v, if dest_hold j then a
                  else if dest_direction j then a - word_of_int (dst_skip v)
                  else a + word_of_int (dst_skip v))
     else do {
       (l, a') \<leftarrow> line_advance (dst_line v) a;
       return (v\<lparr>dst_line := l\<rparr>, a')
     })"

section \<open>Symbols follow the data\<close>

definition add_symbol :: "nat \<Rightarrow> u32 \<Rightarrow> unit prog" where
  "add_symbol name a = modify (\<lambda>m. m\<lparr>symbols := symbols m @ [\<lparr>sym_name = name, sym_addr = a\<rparr>]\<rparr>)"

definition free_name :: "nat \<Rightarrow> unit prog" where
  "free_name n = do {
     names \<leftarrow> gets sym_names;
     if names n = None then raise DoubleFree
     else modify (\<lambda>m. m\<lparr>sym_names := (sym_names m)(n := None)\<rparr>)
   }"

text \<open>
  \<open>copy_symbols k i\<close> is the loop of the copy job for \<open>k\<close> symbols from index \<open>i\<close> on; the
  addresses are the 64-bit job addresses shifted down to whole bytes. \<open>False\<close> is the early
  return when the table is full.
\<close>

fun copy_symbols :: "nat \<Rightarrow> nat \<Rightarrow> u64 \<Rightarrow> u64 \<Rightarrow> int \<Rightarrow> bool prog" where
  "copy_symbols 0 i src dst count = return True"
| "copy_symbols (Suc k) i src dst count = do {
     syms \<leftarrow> gets symbols;
     let s = syms ! i;
     let a = (ucast (sym_addr s) :: u64);
     if a \<ge> src \<and> a < src + word_of_int count then
       (if length syms \<ge> MAX_SYMBOLS then do { set_error; set_done; return False }
        else do {
          let target = dst + (a - src);
          add_symbol (sym_name s) (ucast target);
          (if target < ucast CHIPRAM_SIZE
           then modify (\<lambda>m. m\<lparr>sym_by_addr := (sym_by_addr m)(ucast target := Some (Sym (length syms)))\<rparr>)
           else return ());
          copy_symbols k (Suc i) src dst count
        })
     else copy_symbols k (Suc i) src dst count
   }"

text \<open>
  The loop of the fill job. A matching symbol is replaced by the last one of the table, and
  the index moves on; \<open>k\<close> bounds the iterations, one per symbol of the initial table.
\<close>

fun erase_symbols :: "nat \<Rightarrow> nat \<Rightarrow> u64 \<Rightarrow> int \<Rightarrow> unit prog" where
  "erase_symbols 0 i dst count = return ()"
| "erase_symbols (Suc k) i dst count = do {
     syms \<leftarrow> gets symbols;
     if i < length syms then do {
       let s = syms ! i;
       let a = (ucast (sym_addr s) :: u64);
       (if a \<ge> dst \<and> a < dst + word_of_int count then do {
          free_name (sym_name s);
          modify (\<lambda>m. m\<lparr>symbols := butlast ((symbols m)[i := last (symbols m)])\<rparr>)
        } else return ());
       erase_symbols k (Suc i) dst count
     } else return ()
   }"

section \<open>Jobs\<close>

text \<open>
  The loop \<open>while (dma_count--)\<close>, for the write function \<open>wr\<close>. \<open>None\<close> is an early return
  of \<open>do_dma\<close>.
\<close>

definition dma_element :: "(u32 \<Rightarrow> u8 \<Rightarrow> int prog) \<Rightarrow> dma_job \<Rightarrow> u64 \<Rightarrow> u64 \<Rightarrow> bool prog" where
  "dma_element wr j src dst =
    (if dma_cmd j AND 3 = 0 then do {
       value \<leftarrow> read_memory28 (ucast (drop_bit 8 src));
       r \<leftarrow> wr (ucast (drop_bit 8 dst)) value;
       return (r = 0)
     } else if dma_cmd j AND 3 = 3 then do {
       r \<leftarrow> wr (ucast (drop_bit 8 dst)) (ucast (drop_bit 8 src AND 0xff));
       return (r = 0)
     } else do { set_error; set_done; return False })"

fun dma_loop ::
  "(u32 \<Rightarrow> u8 \<Rightarrow> int prog) \<Rightarrow> dma_job \<Rightarrow> nat \<Rightarrow> dma_vars \<Rightarrow> u64 \<Rightarrow> u64 \<Rightarrow> dma_vars option prog" where
  "dma_loop wr j 0 v src dst = return (Some v)"
| "dma_loop wr j (Suc n) v src dst = do {
     ok \<leftarrow> dma_element wr j src dst;
     if \<not> ok then return None
     else do {
       (v1, src') \<leftarrow> update_src j v src;
       (v2, dst') \<leftarrow> update_dest j v1 dst;
       dma_loop wr j n v2 src' dst'
     }
   }"

definition dma_symbols :: "dma_job \<Rightarrow> int \<Rightarrow> u64 \<Rightarrow> u64 \<Rightarrow> bool prog" where
  "dma_symbols j count src dst = do {
     syms \<leftarrow> gets symbols;
     if dma_cmd j AND 3 = 0 then
       copy_symbols (length syms) 0 (drop_bit 8 src) (drop_bit 8 dst) count
     else if dma_cmd j AND 3 = 3 then do {
       erase_symbols (length syms) 0 (drop_bit 8 dst) count;
       return True
     } else return True
   }"

fun dma_jobs :: "nat \<Rightarrow> nat \<Rightarrow> (u32 \<Rightarrow> u8 \<Rightarrow> int prog) \<Rightarrow> bool \<Rightarrow> u32 \<Rightarrow> dma_vars \<Rightarrow> int prog" where
  "dma_jobs 0 fu wr eDMA addr v = do { raise OutOfFuel; return 0 }"
| "dma_jobs (Suc n) fu wr eDMA addr v = do {
     let v0 = v\<lparr>dma_count := 0, src_skip := 0x0100, dst_skip := 0x0100\<rparr>;
     (v1, addr1) \<leftarrow> (if eDMA then dma_options fu addr v0 else return (v0, addr));
     (j, v2, src, dst, addr2) \<leftarrow> read_dma_list v1 addr1;
     ok \<leftarrow> dma_symbols j (dma_count v2) src dst;
     if \<not> ok then return (- 1)
     else do {
       r \<leftarrow> dma_loop wr j (nat (dma_count v2)) v2 src dst;
       (case r of None \<Rightarrow> return 0
        | Some v3 \<Rightarrow> if dma_cmd j AND 4 \<noteq> 0 then dma_jobs n fu wr eDMA addr2 v3 else return 0)
     }
   }"

definition do_dma_with :: "nat \<Rightarrow> (u32 \<Rightarrow> u8 \<Rightarrow> int prog) \<Rightarrow> bool \<Rightarrow> u32 \<Rightarrow> int prog" where
  "do_dma_with fu wr eDMA addr = dma_jobs fu fu wr eDMA addr dma_vars_init"

section \<open>Writes\<close>

definition icount :: "u32 prog" where
  "icount = gets (\<lambda>m. instruction_count (cpu m))"

definition dma_list_addr :: "u8 banks \<Rightarrow> u32" where
  "dma_list_addr b =
    (ucast (ffdram b 0x3700) + push_bit 8 (ucast (ffdram b 0x3701))
       + push_bit 16 (ucast (ffdram b 0x3702 AND 0x7f))) OR push_bit 20 (ucast (ffdram b 0x3704))"

text \<open>The special actions of the I/O registers, after the value has been stored.\<close>

definition io_action :: "(bool \<Rightarrow> u32 \<Rightarrow> int prog) \<Rightarrow> u32 \<Rightarrow> u8 \<Rightarrow> unit prog" where
  "io_action dma addr value =
    (if addr = 0xffd3700 then do {
       ic \<leftarrow> icount;
       put_ram (ffdram_update (\<lambda>f. f(0x3705 := value)));
       put_blame (ffdram_update (\<lambda>f. f(0x3705 := ic)));
       b \<leftarrow> gets ram;
       dma False (dma_list_addr b);
       return ()
     } else if addr = 0xffd3702 then do {
       ic \<leftarrow> icount;
       put_ram (ffdram_update (\<lambda>f. f(0x3704 := f 0x3704 AND 0xf1)));
       put_ram (ffdram_update (\<lambda>f. f(0x3704 := f 0x3704 OR (drop_bit 4 value AND 7))));
       put_blame (ffdram_update (\<lambda>f. f(0x3704 := ic)))
     } else if addr = 0xffd3705 then do {
       ic \<leftarrow> icount;
       put_ram (ffdram_update (\<lambda>f. f(0x3700 := value)));
       put_blame (ffdram_update (\<lambda>f. f(0x3700 := ic)));
       b \<leftarrow> gets ram;
       dma True (dma_list_addr b);
       return ()
     } else return ())"

definition write_mem28_with :: "(bool \<Rightarrow> u32 \<Rightarrow> int prog) \<Rightarrow> u32 \<Rightarrow> u8 \<Rightarrow> int prog" where
  "write_mem28_with dma addr value = do {
     ic \<leftarrow> icount;
     (if addr \<ge> 0xfff8000 \<and> addr < 0xfffc000 then do {
        put_blame (hypporam_update (\<lambda>h. h(addr - 0xfff8000 := ic)));
        put_ram (hypporam_update (\<lambda>h. h(addr - 0xfff8000 := value)))
      } else if addr < CHIPRAM_SIZE then
        (if addr = 0 \<and> value = 0x41 then return ()
         else if addr = 0 \<and> value = 0x40 then return ()
         else do {
           put_blame (chipram_update (\<lambda>h. h(addr := ic)));
           put_ram (chipram_update (\<lambda>h. h(addr := value)))
         })
      else if addr \<ge> 0xff80000 \<and> addr < 0xff80000 + COLOURRAM_SIZE then do {
        put_blame (colourram_update (\<lambda>h. h(addr - 0xff80000 := ic)));
        put_ram (colourram_update (\<lambda>h. h(addr - 0xff80000 := value)))
      } else if addr AND 0xfff0000 = 0xffd0000 then
        (if addr - 0xffd0000 < 65536 then do {
           put_ram (ffdram_update (\<lambda>h. h(addr - 0xffd0000 := value)));
           put_blame (ffdram_update (\<lambda>h. h(addr - 0xffd0000 := ic)));
           io_action dma addr value
         } else raise OutOfBounds)
      else set_error);
     return 0
   }"

primrec write_mem28 :: "nat \<Rightarrow> u32 \<Rightarrow> u8 \<Rightarrow> int prog" where
  "write_mem28 0 = write_mem28_with (\<lambda>_ _. do { raise OutOfFuel; return 0 })"
| "write_mem28 (Suc fu) = write_mem28_with (do_dma_with fu (write_mem28 fu))"

definition do_dma :: "nat \<Rightarrow> bool \<Rightarrow> u32 \<Rightarrow> int prog" where
  "do_dma fu = do_dma_with fu (write_mem28 fu)"

definition write_mem16 :: "nat \<Rightarrow> u32 \<Rightarrow> u8 \<Rightarrow> int prog" where
  "write_mem16 fu addr16 value = do { addr \<leftarrow> addr_to_28bit addr16 True; write_mem28 fu addr value }"

section \<open>What writes may change\<close>

locale writes_rel = reads_rel R for R :: "machine \<Rightarrow> machine \<Rightarrow> bool" +
  assumes obeys_set_done: "obeys R set_done"
    and obeys_put_ram: "obeys R (put_ram f)"
    and obeys_put_blame: "obeys R (put_blame g)"
    and rel_symbols: "R m (m\<lparr>symbols := ss\<rparr>)"
    and rel_sym_names: "R m (m\<lparr>sym_names := ns\<rparr>)"
    and rel_sym_by_addr: "R m (m\<lparr>sym_by_addr := ba\<rparr>)"
begin

lemmas obeys_prims = obeys_basic obeys_reads obeys_set_done obeys_put_ram obeys_put_blame

lemma obeys_icount: "obeys R icount"
  unfolding icount_def by (rule obeys_gets)

lemma obeys_dma_option: "obeys R (dma_option opt arg v)"
  unfolding dma_option_def by (intro obeys_prims)

lemma obeys_dma_options: "obeys R (dma_options n addr v)"
proof (induction n arbitrary: addr v)
  case 0
  show ?case by (simp only: dma_options.simps) (intro obeys_prims)
next
  case (Suc n)
  show ?case by (simp only: dma_options.simps) (intro obeys_prims obeys_dma_option Suc.IH)
qed

lemma obeys_read_dma_list: "obeys R (read_dma_list v addr)"
  unfolding read_dma_list_def by (intro obeys_prims)

lemma obeys_line_advance: "obeys R (line_advance l a)"
  unfolding line_advance_def by (intro obeys_prims)

lemma obeys_update_src: "obeys R (update_src j v a)"
  unfolding update_src_def by (intro obeys_prims obeys_line_advance)

lemma obeys_update_dest: "obeys R (update_dest j v a)"
  unfolding update_dest_def by (intro obeys_prims obeys_line_advance)

lemma obeys_add_symbol: "obeys R (add_symbol n a)"
  unfolding add_symbol_def by (intro obeys_modify rel_symbols)

lemma obeys_free_name: "obeys R (free_name n)"
  unfolding free_name_def by (intro obeys_prims obeys_modify rel_sym_names)

lemma obeys_copy_symbols: "obeys R (copy_symbols k i s d c)"
proof (induction k arbitrary: i)
  case 0
  show ?case by (simp only: copy_symbols.simps) (intro obeys_prims)
next
  case (Suc k)
  show ?case
    by (simp only: copy_symbols.simps)
       (intro obeys_prims obeys_add_symbol obeys_modify rel_sym_by_addr Suc.IH)
qed

lemma obeys_erase_symbols: "obeys R (erase_symbols k i d c)"
proof (induction k arbitrary: i)
  case 0
  show ?case by (simp only: erase_symbols.simps) (intro obeys_prims)
next
  case (Suc k)
  show ?case
    by (simp only: erase_symbols.simps)
       (intro obeys_prims obeys_free_name obeys_modify rel_symbols Suc.IH)
qed

lemma obeys_dma_symbols: "obeys R (dma_symbols j c s d)"
  unfolding dma_symbols_def by (intro obeys_prims obeys_copy_symbols obeys_erase_symbols)

lemma obeys_dma_element: "(\<And>a v. obeys R (wr a v)) \<Longrightarrow> obeys R (dma_element wr j s d)"
  unfolding dma_element_def by (intro obeys_prims)

lemma obeys_dma_loop:
  assumes "\<And>a v. obeys R (wr a v)" shows "obeys R (dma_loop wr j n v s d)"
proof (induction n arbitrary: v s d)
  case 0
  show ?case by (simp only: dma_loop.simps) (intro obeys_prims)
next
  case (Suc n)
  show ?case
    by (simp only: dma_loop.simps)
       (intro obeys_prims obeys_dma_element obeys_update_src obeys_update_dest Suc.IH assms)
qed

lemma obeys_dma_jobs:
  assumes "\<And>a v. obeys R (wr a v)" shows "obeys R (dma_jobs n fu wr e addr v)"
proof (induction n arbitrary: addr v)
  case 0
  show ?case by (simp only: dma_jobs.simps) (intro obeys_prims)
next
  case (Suc n)
  show ?case
    by (simp only: dma_jobs.simps)
       (intro obeys_prims obeys_dma_options obeys_read_dma_list obeys_dma_symbols
          obeys_dma_loop Suc.IH assms)
qed

lemma obeys_do_dma_with: "(\<And>a v. obeys R (wr a v)) \<Longrightarrow> obeys R (do_dma_with fu wr e a)"
  unfolding do_dma_with_def by (rule obeys_dma_jobs)

lemma obeys_write_mem28_with:
  "(\<And>e a. obeys R (dma e a)) \<Longrightarrow> obeys R (write_mem28_with dma a v)"
  unfolding write_mem28_with_def io_action_def by (intro obeys_prims obeys_icount)

lemma obeys_write_mem28: "obeys R (write_mem28 fu a v)"
proof (induction fu arbitrary: a v)
  case 0
  show ?case by (simp only: write_mem28.simps) (intro obeys_write_mem28_with obeys_prims)
next
  case (Suc fu)
  show ?case
    by (simp only: write_mem28.simps) (intro obeys_write_mem28_with obeys_do_dma_with Suc.IH)
qed

lemma obeys_do_dma: "obeys R (do_dma fu e a)"
  unfolding do_dma_def by (intro obeys_do_dma_with obeys_write_mem28)

lemma obeys_write_mem16: "obeys R (write_mem16 fu a v)"
  unfolding write_mem16_def by (intro obeys_prims obeys_write_mem28)

lemmas obeys_writes = obeys_set_done obeys_write_mem28 obeys_write_mem16 obeys_do_dma

end

end
