(* ===== verification/CpuOps.thy ===== *)
theory CpuOps
  imports Dma
begin

text \<open>
  The building blocks of \<open>execute_instruction\<close>: branch offsets, the addressing modes
  \<open>addr_*\<close>, the flag updates, \<open>adc\<close> and \<open>sbc\<close>, the stack, the macro \<open>MEM_WRITE16\<close>, and
  the statement groups that many opcodes share word for word.

  A C \<open>int\<close> such as \<open>v\<close> is an \<open>int\<close>; storing it in an \<open>unsigned char\<close> or passing it to a
  parameter of that type is \<open>word_of_int\<close>. The macros \<open>MEM_WRITE16\<close> and \<open>MEM_WRITE28\<close>
  contain \<open>return false\<close>, so the model's versions take what follows them as an argument.
\<close>

section \<open>Branch offsets\<close>

definition rel8_delta :: "u8 \<Rightarrow> int" where
  "rel8_delta c = (if c < 0x80 then uint c else uint c - 0x100)"

definition rel16_delta :: "u16 \<Rightarrow> int" where
  "rel16_delta c = (if c < 0x8000 then uint c else uint c - 0x10000)"

section \<open>Addressing modes\<close>

definition log_byte :: "nat \<Rightarrow> u8 prog" where
  "log_byte i = logged (\<lambda>l. l_bytes l ! i)"

definition log_word :: "u32 prog" where
  "log_word = do { b1 \<leftarrow> log_byte 1; b2 \<leftarrow> log_byte 2; return (ucast b1 + push_bit 8 (ucast b2)) }"

text \<open>The zero page operand: byte 1 in the page that register B selected when the step began.\<close>

definition log_zp :: "u32 prog" where
  "log_zp = do {
     b1 \<leftarrow> log_byte 1;
     page \<leftarrow> logged (\<lambda>l. reg_b (l_regs l));
     return (ucast b1 + push_bit 8 (ucast page))
   }"

definition addr_abs :: "u32 prog" where
  "addr_abs = log_word"

definition addr_zp :: "u32 prog" where
  "addr_zp = log_zp"

definition addr_zpx :: "u32 prog" where
  "addr_zpx = do { p \<leftarrow> log_zp; x \<leftarrow> reg reg_x; return ((p + ucast x) AND 0xff) }"

definition addr_zpy :: "u32 prog" where
  "addr_zpy = do { p \<leftarrow> log_zp; y \<leftarrow> reg reg_y; return ((p + ucast y) AND 0xff) }"

text \<open>A 16-bit pointer at an address, \<open>read_memory(p + 0) + (read_memory(p + 1) << 8)\<close>.\<close>

definition read_pointer :: "u32 \<Rightarrow> u32 prog" where
  "read_pointer p = do {
     lo \<leftarrow> read_memory (p + 0);
     hi \<leftarrow> read_memory (p + 1);
     return (ucast lo + push_bit 8 (ucast hi))
   }"

definition addr_izpy :: "u32 prog" where
  "addr_izpy = do {
     p \<leftarrow> log_zp;
     set_zp_pointer p;
     q \<leftarrow> read_pointer p;
     y \<leftarrow> reg reg_y;
     set_zp_pointer_addr ((q + ucast y) AND 0xffff);
     logged l_zp_pointer_addr
   }"

definition addr_izpx :: "u32 prog" where
  "addr_izpx = do {
     b1 \<leftarrow> log_byte 1;
     x \<leftarrow> reg reg_x;
     page \<leftarrow> logged (\<lambda>l. reg_b (l_regs l));
     let p = ((ucast b1 + ucast x) AND 0xff) + push_bit 8 (ucast page);
     set_zp_pointer p;
     q \<leftarrow> read_pointer p;
     set_zp_pointer_addr (q AND 0xffff);
     logged l_zp_pointer_addr
   }"

definition addr_deref16 :: "u32 prog" where
  "addr_deref16 = do {
     p \<leftarrow> log_word;
     set_zp_pointer p;
     q \<leftarrow> read_pointer p;
     set_zp_pointer_addr (q AND 0xffff);
     logged l_zp_pointer_addr
   }"

definition addr_izpz :: "u32 prog" where
  "addr_izpz = do {
     p \<leftarrow> log_zp;
     set_zp_pointer p;
     q \<leftarrow> read_pointer p;
     z \<leftarrow> reg reg_z;
     set_zp_pointer_addr ((q + ucast z) AND 0xffff);
     logged l_zp_pointer_addr
   }"

definition addr_izpz32 :: "u32 prog" where
  "addr_izpz32 = do {
     p \<leftarrow> log_zp;
     set_zp_pointer p;
     q \<leftarrow> read_pointer p;
     b2 \<leftarrow> read_memory (p + 2);
     b3 \<leftarrow> read_memory (p + 3);
     z \<leftarrow> reg reg_z;
     set_zp_pointer_addr
       ((q + push_bit 16 (ucast b2) + push_bit 24 (ucast b3) + ucast z) AND 0xffff);
     logged l_zp_pointer_addr
   }"

definition addr_absx :: "u32 prog" where
  "addr_absx = do { p \<leftarrow> log_word; x \<leftarrow> reg reg_x; return ((p + ucast x) AND 0xffff) }"

definition addr_absy :: "u32 prog" where
  "addr_absy = do { p \<leftarrow> log_word; y \<leftarrow> reg reg_y; return ((p + ucast y) AND 0xffff) }"

definition addr_iabsx :: "u32 prog" where
  "addr_iabsx = do {
     p \<leftarrow> addr_absx;
     set_zp_pointer p;
     q \<leftarrow> read_pointer p;
     set_zp_pointer_addr (q AND 0xffff);
     logged l_zp_pointer_addr
   }"

section \<open>Flags and arithmetic\<close>

definition flagged :: "(u8 \<Rightarrow> bool) \<Rightarrow> bool prog" where
  "flagged f = reg (\<lambda>r. f (reg_flags r))"

definition update_nz :: "u8 \<Rightarrow> unit prog" where
  "update_nz v = do { put_flag 7 (v \<ge> 0x80); put_flag 1 (v = 0) }"

definition update_bit_flags :: "u8 \<Rightarrow> unit prog" where
  "update_bit_flags v = do {
     f \<leftarrow> reg reg_flags;
     set_flags (f AND NOT (FLAG_N OR FLAG_V OR FLAG_Z));
     f \<leftarrow> reg reg_flags;
     set_flags (f OR (v AND (FLAG_N OR FLAG_V)));
     a \<leftarrow> reg reg_a;
     (if v AND a = 0 then do { f \<leftarrow> reg reg_flags; set_flags (f OR FLAG_Z) } else return ())
   }"

definition update_cmp_flags :: "u8 \<Rightarrow> unit prog" where
  "update_cmp_flags v = do {
     update_nz v;
     n \<leftarrow> flagged flag_n;
     put_flag 0 (\<not> n)
   }"

definition adc :: "u8 \<Rightarrow> unit prog" where
  "adc v = do {
     d \<leftarrow> flagged flag_d;
     if d then set_error
     else do {
       a \<leftarrow> reg reg_a;
       c \<leftarrow> flagged flag_c;
       let r = (ucast v + ucast a + of_bool c :: u32);
       update_nz (ucast r);
       put_flag 0 (r > 0xff);
       put_flag 6 ((ucast a XOR r) AND (ucast v XOR r) AND 0x80 > 0);
       set_a (ucast r)
     }
   }"

definition sbc :: "u8 \<Rightarrow> unit prog" where
  "sbc v = adc (NOT v)"

section \<open>Memory operands and the stack\<close>

definition MEM_WRITE16 :: "nat \<Rightarrow> u32 \<Rightarrow> u8 \<Rightarrow> bool prog \<Rightarrow> bool prog" where
  "MEM_WRITE16 fu addr value k = do {
     a \<leftarrow> addr_to_28bit addr True;
     r \<leftarrow> write_mem28 fu a value;
     if r \<noteq> 0 then return False else k
   }"

definition MEM_WRITE28 :: "nat \<Rightarrow> u32 \<Rightarrow> u8 \<Rightarrow> bool prog \<Rightarrow> bool prog" where
  "MEM_WRITE28 fu addr value k = do {
     r \<leftarrow> write_mem28 fu addr value;
     if r \<noteq> 0 then return False else k
   }"

text \<open>The operand \<open>read_memory(cpu, addr_...(cpu, log))\<close>.\<close>

definition operand :: "u32 prog \<Rightarrow> u8 prog" where
  "operand mode = do { a \<leftarrow> mode; read_memory a }"

definition stack_pop_ext :: "u16 \<Rightarrow> u8 prog" where
  "stack_pop_ext amount = do {
     e \<leftarrow> flagged flag_e;
     s \<leftarrow> reg reg_sp;
     (if e then do {
        let new_spl = lo8 s + ucast amount;
        (if new_spl < lo8 s then set_stack_underflow True else return ());
        set_spl new_spl
      } else do {
        let new_sp = s + amount;
        (if new_sp < s then set_stack_underflow True else return ());
        set_sp new_sp
      });
     sp \<leftarrow> reg reg_sp;
     w \<leftarrow> memory_blame (ucast sp);
     n \<leftarrow> logged l_pops;
     set_pops (n + 1);
     pb \<leftarrow> logged l_pop_blame;
     (if unat n < MAX_POPS then set_pop_blame (pb[unat n := w]) else raise OutOfBounds);
     read_memory (ucast sp)
   }"

definition stack_pop :: "u8 prog" where
  "stack_pop = stack_pop_ext 1"

definition stack_push :: "nat \<Rightarrow> u8 \<Rightarrow> bool prog" where
  "stack_push fu v = do {
     sp \<leftarrow> reg reg_sp;
     MEM_WRITE16 fu (ucast sp) v (do {
       e \<leftarrow> flagged flag_e;
       s \<leftarrow> reg reg_sp;
       (if e then do {
          let new_spl = lo8 s - 1;
          (if new_spl > lo8 s then set_stack_overflow True else return ());
          set_spl new_spl
        } else do {
          let new_sp = s - 1;
          (if new_sp > s then set_stack_overflow True else return ());
          set_sp new_sp
        });
       return True
     })
   }"

section \<open>Statement groups shared by opcodes\<close>

text \<open>\<open>v |= cpu->regs.a; update_nz(v); cpu->regs.a = v;\<close> and its siblings.\<close>

definition op_or :: "int \<Rightarrow> unit prog" where
  "op_or v = do {
     a \<leftarrow> reg reg_a;
     let v = v OR uint a;
     update_nz (word_of_int v);
     set_a (word_of_int v)
   }"

definition op_and :: "int \<Rightarrow> unit prog" where
  "op_and v = do {
     a \<leftarrow> reg reg_a;
     let v = v AND uint a;
     update_nz (word_of_int v);
     set_a (word_of_int v)
   }"

definition op_eor :: "int \<Rightarrow> unit prog" where
  "op_eor v = do {
     a \<leftarrow> reg reg_a;
     let v = v XOR uint a;
     update_nz (word_of_int v);
     set_a (word_of_int v)
   }"

text \<open>\<open>cpu->regs.a = ...; update_nz(cpu->regs.a);\<close> and the same for the index registers.\<close>

definition load_a :: "u8 \<Rightarrow> unit prog" where
  "load_a v = do { set_a v; a \<leftarrow> reg reg_a; update_nz a }"

definition load_x :: "u8 \<Rightarrow> unit prog" where
  "load_x v = do { set_x v; x \<leftarrow> reg reg_x; update_nz x }"

definition load_y :: "u8 \<Rightarrow> unit prog" where
  "load_y v = do { set_y v; y \<leftarrow> reg reg_y; update_nz y }"

definition load_z :: "u8 \<Rightarrow> unit prog" where
  "load_z v = do { set_z v; z \<leftarrow> reg reg_z; update_nz z }"

text \<open>\<open>v = cpu->regs.r - ...; update_cmp_flags(v);\<close>\<close>

definition compare :: "(regs \<Rightarrow> u8) \<Rightarrow> u8 \<Rightarrow> unit prog" where
  "compare f b = do {
     r \<leftarrow> reg f;
     let v = uint r - uint b;
     update_cmp_flags (word_of_int v)
   }"

text \<open>Read, modify, write; \<open>k\<close> is what follows the \<open>MEM_WRITE16\<close>.\<close>

definition asl_mem :: "nat \<Rightarrow> u32 prog \<Rightarrow> bool prog \<Rightarrow> bool prog" where
  "asl_mem fu mode k = do {
     a \<leftarrow> reg reg_a;
     put_flag 0 (a \<ge> 0x80);
     b \<leftarrow> operand mode;
     let v = push_bit 1 (uint b);
     update_nz (word_of_int v);
     ad \<leftarrow> mode;
     MEM_WRITE16 fu ad (word_of_int v) k
   }"

definition rol_mem :: "nat \<Rightarrow> u32 prog \<Rightarrow> bool prog \<Rightarrow> bool prog" where
  "rol_mem fu mode k = do {
     b \<leftarrow> operand mode;
     c \<leftarrow> flagged flag_c;
     let v = (if c then push_bit 1 (uint b) OR 0x1 else push_bit 1 (uint b));
     put_flag 0 (v \<ge> 0x100);
     update_nz (word_of_int v);
     ad \<leftarrow> mode;
     MEM_WRITE16 fu ad (word_of_int v) k
   }"

definition lsr_mem :: "nat \<Rightarrow> u32 prog \<Rightarrow> bool prog \<Rightarrow> bool prog" where
  "lsr_mem fu mode k = do {
     b \<leftarrow> operand mode;
     put_flag 0 (uint b AND 1 \<noteq> 0);
     let v = drop_bit 1 (uint b);
     update_nz (word_of_int v);
     ad \<leftarrow> mode;
     MEM_WRITE16 fu ad (word_of_int v) k
   }"

definition ror_mem :: "nat \<Rightarrow> u32 prog \<Rightarrow> bool prog \<Rightarrow> bool prog" where
  "ror_mem fu mode k = do {
     b \<leftarrow> operand mode;
     c \<leftarrow> flagged flag_c;
     let v = (if c then uint b OR 0x100 else uint b);
     put_flag 0 (v AND 1 \<noteq> 0);
     let v = drop_bit 1 v;
     update_nz (word_of_int v);
     ad \<leftarrow> mode;
     MEM_WRITE16 fu ad (word_of_int v) k
   }"

definition dec_mem :: "nat \<Rightarrow> u32 prog \<Rightarrow> bool prog" where
  "dec_mem fu mode = do {
     b \<leftarrow> operand mode;
     let v = uint b - 1;
     ad \<leftarrow> mode;
     MEM_WRITE16 fu ad (word_of_int v) (do { update_nz (word_of_int v); return True })
   }"

definition inc_mem :: "nat \<Rightarrow> u32 prog \<Rightarrow> bool prog" where
  "inc_mem fu mode = do {
     b \<leftarrow> operand mode;
     let v = uint b + 1;
     ad \<leftarrow> mode;
     MEM_WRITE16 fu ad (word_of_int v) (do { update_nz (word_of_int v); return True })
   }"

text \<open>The zero page versions of \<open>INC\<close> have \<open>v &= 0xff\<close> besides.\<close>

definition inc_mem_zp :: "nat \<Rightarrow> u32 prog \<Rightarrow> bool prog" where
  "inc_mem_zp fu mode = do {
     b \<leftarrow> operand mode;
     let v = (uint b + 1) AND 0xff;
     ad \<leftarrow> mode;
     MEM_WRITE16 fu ad (word_of_int v) (do { update_nz (word_of_int v); return True })
   }"

definition tsb_mem :: "nat \<Rightarrow> u32 prog \<Rightarrow> bool prog" where
  "tsb_mem fu mode = do {
     b \<leftarrow> operand mode;
     a \<leftarrow> reg reg_a;
     put_flag 1 (uint b AND uint a = 0);
     let v = uint b OR uint a;
     ad \<leftarrow> mode;
     MEM_WRITE16 fu ad (word_of_int v) (return True)
   }"

definition trb_mem :: "nat \<Rightarrow> u32 prog \<Rightarrow> bool prog" where
  "trb_mem fu mode = do {
     b \<leftarrow> operand mode;
     a \<leftarrow> reg reg_a;
     put_flag 1 (uint b AND uint a = 0);
     let v = uint b AND NOT (uint a);
     ad \<leftarrow> mode;
     MEM_WRITE16 fu ad (word_of_int v) (return True)
   }"

definition rmb :: "nat \<Rightarrow> int \<Rightarrow> bool prog \<Rightarrow> bool prog" where
  "rmb fu bits k = do {
     b \<leftarrow> operand addr_zp;
     let v = uint b AND NOT bits;
     ad \<leftarrow> addr_zp;
     MEM_WRITE16 fu ad (word_of_int v) k
   }"

definition smb :: "nat \<Rightarrow> int \<Rightarrow> bool prog \<Rightarrow> bool prog" where
  "smb fu bits k = do {
     b \<leftarrow> operand addr_zp;
     let v = uint b OR bits;
     ad \<leftarrow> addr_zp;
     MEM_WRITE16 fu ad (word_of_int v) k
   }"

text \<open>\<open>MEM_WRITE16(cpu, addr, cpu->regs.r)\<close> as the last statement of a store opcode.\<close>

definition store_reg :: "nat \<Rightarrow> u32 prog \<Rightarrow> (regs \<Rightarrow> u8) \<Rightarrow> bool prog" where
  "store_reg fu mode f = do { ad \<leftarrow> mode; v \<leftarrow> reg f; MEM_WRITE16 fu ad v (return True) }"

text \<open>Branches: the bit tests, and the two forms \<open>pc += k + rel8_delta(...)\<close>, \<open>rel16_delta(...)\<close>.\<close>

definition bbr :: "int \<Rightarrow> unit prog" where
  "bbr bits = do {
     b \<leftarrow> operand addr_zp;
     if uint b AND bits = 0 then do { d \<leftarrow> log_byte 2; add_pc (rel8_delta d) } else return ()
   }"

definition bbs :: "int \<Rightarrow> unit prog" where
  "bbs bits = do {
     b \<leftarrow> operand addr_zp;
     if uint b AND bits \<noteq> 0 then do { d \<leftarrow> log_byte 2; add_pc (rel8_delta d) } else return ()
   }"

definition rel8 :: "int \<Rightarrow> unit prog" where
  "rel8 k = do { d \<leftarrow> log_byte 1; add_pc (k + rel8_delta d) }"

definition rel16 :: "int \<Rightarrow> unit prog" where
  "rel16 k = do { d \<leftarrow> log_byte 1; add_pc (k + rel16_delta (ucast d)) }"

definition branch :: "bool \<Rightarrow> unit prog \<Rightarrow> unit prog \<Rightarrow> unit prog" where
  "branch c p q = (if c then p else q)"

text \<open>\<open>cpu->regs.flags |= bits\<close>, \<open>cpu->regs.flags &= ~bits\<close>.\<close>

definition flags_or :: "u8 \<Rightarrow> unit prog" where
  "flags_or bits = do { f \<leftarrow> reg reg_flags; set_flags (f OR bits) }"

definition flags_and :: "u8 \<Rightarrow> unit prog" where
  "flags_and bits = do { f \<leftarrow> reg reg_flags; set_flags (f AND bits) }"

text \<open>The subroutine call's push of \<open>pc + 2\<close>, the counting of \<open>term.rts\<close>, and the pops of \<open>pc\<close>.\<close>

definition jsr_push :: "nat \<Rightarrow> unit prog" where
  "jsr_push fu = do {
     n \<leftarrow> tcond t_rts;
     (if n \<noteq> 0 then set_rts (n + 1) else return ());
     p \<leftarrow> reg reg_pc;
     stack_push fu (ucast (drop_bit 8 (p + 2)));
     p \<leftarrow> reg reg_pc;
     stack_push fu (ucast (p + 2));
     return ()
   }"

definition pull_pc :: "unit prog" where
  "pull_pc = do {
     lo \<leftarrow> stack_pop;
     set_pc (ucast lo);
     hi \<leftarrow> stack_pop;
     p \<leftarrow> reg reg_pc;
     set_pc (p OR push_bit 8 (ucast hi))
   }"

definition pull_flags :: "unit prog" where
  "pull_flags = do {
     flags_and (FLAG_E OR FLAG_B);
     v \<leftarrow> stack_pop;
     flags_or (v AND NOT (FLAG_E OR FLAG_B))
   }"

text \<open>
  The test of \<open>STA ($xx),Z\<close> for a preceding \<open>EOM\<close>: \<open>cpulog[cpulog_len - 2]->bytes[0] == 0xEA\<close>,
  a read through a pointer of the instruction log.
\<close>

definition after_eom :: "bool prog" where
  "after_eom = do {
     n \<leftarrow> gets cpulog_len;
     if n > 1 then do {
       p \<leftarrow> gets (\<lambda>m. cpulog m (n - 2));
       h \<leftarrow> gets log_heap;
       (case p of
          None \<Rightarrow> do { raise NullDereference; return False }
        | Some q \<Rightarrow> (case h q of
             None \<Rightarrow> do { raise UseAfterFree; return False }
           | Some l \<Rightarrow> return (l_bytes l ! 0 = 0xEA)))
     } else return False
   }"

section \<open>What an instruction may change\<close>

text \<open>
  Every opcode is built from these assignments, from the memory operations and from
  reads. A relation closed under each of them is respected by every opcode; the theories
  \<open>OpcodesLo\<close> and \<open>OpcodesHi\<close> go through the opcodes once for all such relations.
\<close>

locale data_rel = writes_rel R for R :: "machine \<Rightarrow> machine \<Rightarrow> bool" +
  assumes obeys_set_a: "obeys R (set_a v)"
    and obeys_set_x: "obeys R (set_x v)"
    and obeys_set_y: "obeys R (set_y v)"
    and obeys_set_z: "obeys R (set_z v)"
    and obeys_set_b: "obeys R (set_b v)"
    and obeys_set_flags: "obeys R (set_flags v)"
    and obeys_set_sp: "obeys R (set_sp s)"
    and obeys_set_maplo: "obeys R (set_maplo s)"
    and obeys_set_maplomb: "obeys R (set_maplomb v)"
    and obeys_set_maphimb: "obeys R (set_maphimb v)"
    and obeys_set_map_irq_inhibit: "obeys R (set_map_irq_inhibit v)"
    and obeys_set_zp16: "obeys R (set_zp16 v)"
    and obeys_set_zp32: "obeys R (set_zp32 v)"
    and obeys_set_zp_pointer: "obeys R (set_zp_pointer p)"
    and obeys_set_zp_pointer_addr: "obeys R (set_zp_pointer_addr p)"
    and obeys_set_bytes: "obeys R (set_bytes bs)"
    and obeys_set_pops: "obeys R (set_pops v)"
    and obeys_set_pop_blame: "obeys R (set_pop_blame ps)"
    and obeys_set_brk: "obeys R set_brk"
    and obeys_set_rts: "obeys R (set_rts i)"
    and obeys_set_stack_overflow: "obeys R (set_stack_overflow bo)"
    and obeys_set_stack_underflow: "obeys R (set_stack_underflow bo)"
begin

lemmas obeys_data_steps =
  obeys_prims obeys_writes
  obeys_set_a obeys_set_x obeys_set_y obeys_set_z
  obeys_set_b obeys_set_flags obeys_set_sp
  obeys_set_maplo obeys_set_maplomb obeys_set_maphimb obeys_set_map_irq_inhibit
  obeys_set_zp16 obeys_set_zp32 obeys_set_zp_pointer
  obeys_set_zp_pointer_addr obeys_set_bytes obeys_set_pops obeys_set_pop_blame
  obeys_set_brk obeys_set_rts obeys_set_stack_overflow obeys_set_stack_underflow

lemma obeys_reg: "obeys R (reg f)"
  unfolding reg_def by (intro obeys_data_steps)

lemma obeys_tcond: "obeys R (tcond f)"
  unfolding tcond_def by (intro obeys_data_steps)

lemma obeys_logged: "obeys R (logged f)"
  unfolding logged_def by (intro obeys_data_steps)

lemma obeys_put_flag: "obeys R (put_flag n w)"
  unfolding put_flag_def by (intro obeys_data_steps obeys_reg)

lemma obeys_set_spl: "obeys R (set_spl v)"
  unfolding set_spl_def by (intro obeys_data_steps obeys_reg)

lemma obeys_set_sph: "obeys R (set_sph v)"
  unfolding set_sph_def by (intro obeys_data_steps obeys_reg)

lemma obeys_log_byte: "obeys R (log_byte i)"
  unfolding log_byte_def by (intro obeys_data_steps obeys_logged)

lemma obeys_log_word: "obeys R log_word"
  unfolding log_word_def by (intro obeys_data_steps obeys_log_byte)

lemma obeys_log_zp: "obeys R log_zp"
  unfolding log_zp_def by (intro obeys_data_steps obeys_log_byte obeys_logged)

lemma obeys_addr_abs: "obeys R addr_abs"
  unfolding addr_abs_def by (intro obeys_data_steps obeys_reg obeys_logged obeys_log_byte obeys_log_word obeys_log_zp)

lemma obeys_addr_zp: "obeys R addr_zp"
  unfolding addr_zp_def by (intro obeys_data_steps obeys_reg obeys_logged obeys_log_byte obeys_log_word obeys_log_zp)

lemma obeys_addr_zpx: "obeys R addr_zpx"
  unfolding addr_zpx_def by (intro obeys_data_steps obeys_reg obeys_logged obeys_log_byte obeys_log_word obeys_log_zp)

lemma obeys_addr_zpy: "obeys R addr_zpy"
  unfolding addr_zpy_def by (intro obeys_data_steps obeys_reg obeys_logged obeys_log_byte obeys_log_word obeys_log_zp)

lemma obeys_read_pointer: "obeys R (read_pointer p)"
  unfolding read_pointer_def by (intro obeys_data_steps)

lemma obeys_addr_izpy: "obeys R addr_izpy"
  unfolding addr_izpy_def by (intro obeys_data_steps obeys_reg obeys_logged obeys_log_byte obeys_log_word obeys_log_zp obeys_read_pointer)

lemma obeys_addr_izpx: "obeys R addr_izpx"
  unfolding addr_izpx_def by (intro obeys_data_steps obeys_reg obeys_logged obeys_log_byte obeys_log_word obeys_log_zp obeys_read_pointer)

lemma obeys_addr_deref16: "obeys R addr_deref16"
  unfolding addr_deref16_def by (intro obeys_data_steps obeys_reg obeys_logged obeys_log_byte obeys_log_word obeys_log_zp obeys_read_pointer)

lemma obeys_addr_izpz: "obeys R addr_izpz"
  unfolding addr_izpz_def by (intro obeys_data_steps obeys_reg obeys_logged obeys_log_byte obeys_log_word obeys_log_zp obeys_read_pointer)

lemma obeys_addr_izpz32: "obeys R addr_izpz32"
  unfolding addr_izpz32_def by (intro obeys_data_steps obeys_reg obeys_logged obeys_log_byte obeys_log_word obeys_log_zp obeys_read_pointer)

lemma obeys_addr_absx: "obeys R addr_absx"
  unfolding addr_absx_def by (intro obeys_data_steps obeys_reg obeys_logged obeys_log_byte obeys_log_word obeys_log_zp)

lemma obeys_addr_absy: "obeys R addr_absy"
  unfolding addr_absy_def by (intro obeys_data_steps obeys_reg obeys_logged obeys_log_byte obeys_log_word obeys_log_zp)

lemma obeys_addr_iabsx: "obeys R addr_iabsx"
  unfolding addr_iabsx_def by (intro obeys_data_steps obeys_reg obeys_logged obeys_log_byte obeys_log_word obeys_log_zp obeys_read_pointer obeys_addr_absx)

lemma obeys_flagged: "obeys R (flagged f)"
  unfolding flagged_def by (intro obeys_data_steps obeys_reg)

lemma obeys_update_nz: "obeys R (update_nz v)"
  unfolding update_nz_def by (intro obeys_data_steps obeys_reg obeys_flagged obeys_put_flag)

lemma obeys_update_bit_flags: "obeys R (update_bit_flags v)"
  unfolding update_bit_flags_def by (intro obeys_data_steps obeys_reg obeys_flagged obeys_put_flag)

lemma obeys_update_cmp_flags: "obeys R (update_cmp_flags v)"
  unfolding update_cmp_flags_def by (intro obeys_data_steps obeys_reg obeys_flagged obeys_put_flag obeys_update_nz)

lemma obeys_adc: "obeys R (adc v)"
  unfolding adc_def by (intro obeys_data_steps obeys_reg obeys_flagged obeys_put_flag obeys_update_nz)

lemma obeys_sbc: "obeys R (sbc v)"
  unfolding sbc_def by (intro obeys_data_steps obeys_adc)

lemma obeys_MEM_WRITE16: "obeys R k \<Longrightarrow> obeys R (MEM_WRITE16 fu a v k)"
  unfolding MEM_WRITE16_def by (intro obeys_data_steps)

lemma obeys_MEM_WRITE28: "obeys R k \<Longrightarrow> obeys R (MEM_WRITE28 fu a v k)"
  unfolding MEM_WRITE28_def by (intro obeys_data_steps)

lemma obeys_operand: "obeys R md \<Longrightarrow> obeys R (operand md)"
  unfolding operand_def by (intro obeys_data_steps)

lemma obeys_stack_pop_ext: "obeys R (stack_pop_ext n)"
  unfolding stack_pop_ext_def by (intro obeys_data_steps obeys_reg obeys_flagged obeys_put_flag obeys_logged obeys_set_spl)

lemma obeys_stack_pop: "obeys R stack_pop"
  unfolding stack_pop_def by (intro obeys_data_steps obeys_stack_pop_ext)

lemma obeys_stack_push: "obeys R (stack_push fu v)"
  unfolding stack_push_def by (intro obeys_data_steps obeys_reg obeys_flagged obeys_put_flag obeys_set_spl obeys_MEM_WRITE16)

lemma obeys_op_or: "obeys R (op_or i)"
  unfolding op_or_def by (intro obeys_data_steps obeys_reg obeys_flagged obeys_put_flag obeys_update_nz)

lemma obeys_op_and: "obeys R (op_and i)"
  unfolding op_and_def by (intro obeys_data_steps obeys_reg obeys_flagged obeys_put_flag obeys_update_nz)

lemma obeys_op_eor: "obeys R (op_eor i)"
  unfolding op_eor_def by (intro obeys_data_steps obeys_reg obeys_flagged obeys_put_flag obeys_update_nz)

lemma obeys_load_a: "obeys R (load_a v)"
  unfolding load_a_def by (intro obeys_data_steps obeys_reg obeys_flagged obeys_put_flag obeys_update_nz)

lemma obeys_load_x: "obeys R (load_x v)"
  unfolding load_x_def by (intro obeys_data_steps obeys_reg obeys_flagged obeys_put_flag obeys_update_nz)

lemma obeys_load_y: "obeys R (load_y v)"
  unfolding load_y_def by (intro obeys_data_steps obeys_reg obeys_flagged obeys_put_flag obeys_update_nz)

lemma obeys_load_z: "obeys R (load_z v)"
  unfolding load_z_def by (intro obeys_data_steps obeys_reg obeys_flagged obeys_put_flag obeys_update_nz)

lemma obeys_compare: "obeys R (compare f v)"
  unfolding compare_def by (intro obeys_data_steps obeys_reg obeys_flagged obeys_put_flag obeys_update_cmp_flags)

lemma obeys_asl_mem: "obeys R md \<Longrightarrow> obeys R k \<Longrightarrow> obeys R (asl_mem fu md k)"
  unfolding asl_mem_def by (intro obeys_data_steps obeys_reg obeys_flagged obeys_put_flag obeys_update_nz obeys_operand obeys_MEM_WRITE16)

lemma obeys_rol_mem: "obeys R md \<Longrightarrow> obeys R k \<Longrightarrow> obeys R (rol_mem fu md k)"
  unfolding rol_mem_def by (intro obeys_data_steps obeys_reg obeys_flagged obeys_put_flag obeys_update_nz obeys_operand obeys_MEM_WRITE16)

lemma obeys_lsr_mem: "obeys R md \<Longrightarrow> obeys R k \<Longrightarrow> obeys R (lsr_mem fu md k)"
  unfolding lsr_mem_def by (intro obeys_data_steps obeys_reg obeys_flagged obeys_put_flag obeys_update_nz obeys_operand obeys_MEM_WRITE16)

lemma obeys_ror_mem: "obeys R md \<Longrightarrow> obeys R k \<Longrightarrow> obeys R (ror_mem fu md k)"
  unfolding ror_mem_def by (intro obeys_data_steps obeys_reg obeys_flagged obeys_put_flag obeys_update_nz obeys_operand obeys_MEM_WRITE16)

lemma obeys_dec_mem: "obeys R md \<Longrightarrow> obeys R (dec_mem fu md)"
  unfolding dec_mem_def by (intro obeys_data_steps obeys_reg obeys_flagged obeys_put_flag obeys_update_nz obeys_operand obeys_MEM_WRITE16)

lemma obeys_inc_mem: "obeys R md \<Longrightarrow> obeys R (inc_mem fu md)"
  unfolding inc_mem_def by (intro obeys_data_steps obeys_reg obeys_flagged obeys_put_flag obeys_update_nz obeys_operand obeys_MEM_WRITE16)

lemma obeys_inc_mem_zp: "obeys R md \<Longrightarrow> obeys R (inc_mem_zp fu md)"
  unfolding inc_mem_zp_def by (intro obeys_data_steps obeys_reg obeys_flagged obeys_put_flag obeys_update_nz obeys_operand obeys_MEM_WRITE16)

lemma obeys_tsb_mem: "obeys R md \<Longrightarrow> obeys R (tsb_mem fu md)"
  unfolding tsb_mem_def by (intro obeys_data_steps obeys_reg obeys_flagged obeys_put_flag obeys_update_nz obeys_operand obeys_MEM_WRITE16)

lemma obeys_trb_mem: "obeys R md \<Longrightarrow> obeys R (trb_mem fu md)"
  unfolding trb_mem_def by (intro obeys_data_steps obeys_reg obeys_flagged obeys_put_flag obeys_update_nz obeys_operand obeys_MEM_WRITE16)

lemma obeys_rmb: "obeys R k \<Longrightarrow> obeys R (rmb fu i k)"
  unfolding rmb_def by (intro obeys_data_steps obeys_reg obeys_flagged obeys_put_flag obeys_update_nz obeys_operand obeys_MEM_WRITE16 obeys_addr_zp)

lemma obeys_smb: "obeys R k \<Longrightarrow> obeys R (smb fu i k)"
  unfolding smb_def by (intro obeys_data_steps obeys_reg obeys_flagged obeys_put_flag obeys_update_nz obeys_operand obeys_MEM_WRITE16 obeys_addr_zp)

lemma obeys_store_reg: "obeys R md \<Longrightarrow> obeys R (store_reg fu md f)"
  unfolding store_reg_def by (intro obeys_data_steps obeys_reg obeys_flagged obeys_put_flag obeys_update_nz obeys_operand obeys_MEM_WRITE16)

lemma obeys_branch: "obeys R p \<Longrightarrow> obeys R q \<Longrightarrow> obeys R (branch c p q)"
  unfolding branch_def by (intro obeys_data_steps)

lemma obeys_flags_or: "obeys R (flags_or v)"
  unfolding flags_or_def by (intro obeys_data_steps obeys_reg obeys_flagged obeys_put_flag)

lemma obeys_flags_and: "obeys R (flags_and v)"
  unfolding flags_and_def by (intro obeys_data_steps obeys_reg obeys_flagged obeys_put_flag)

lemma obeys_jsr_push: "obeys R (jsr_push fu)"
  unfolding jsr_push_def by (intro obeys_data_steps obeys_reg obeys_tcond obeys_stack_push)

lemma obeys_pull_flags: "obeys R pull_flags"
  unfolding pull_flags_def by (intro obeys_data_steps obeys_flags_or obeys_flags_and obeys_stack_pop)

lemma obeys_after_eom: "obeys R after_eom"
  unfolding after_eom_def by (intro obeys_data_steps)

lemmas obeys_data =
  obeys_data_steps obeys_reg obeys_tcond obeys_logged obeys_put_flag obeys_set_spl
  obeys_set_sph obeys_log_byte obeys_log_word obeys_log_zp obeys_addr_abs obeys_addr_zp
  obeys_addr_zpx obeys_addr_zpy obeys_read_pointer obeys_addr_izpy obeys_addr_izpx
  obeys_addr_deref16 obeys_addr_izpz obeys_addr_izpz32 obeys_addr_absx obeys_addr_absy
  obeys_addr_iabsx obeys_flagged obeys_update_nz obeys_update_bit_flags obeys_update_cmp_flags
  obeys_adc obeys_sbc obeys_MEM_WRITE16 obeys_MEM_WRITE28 obeys_operand obeys_stack_pop_ext
  obeys_stack_pop obeys_stack_push obeys_op_or obeys_op_and obeys_op_eor obeys_load_a
  obeys_load_x obeys_load_y obeys_load_z obeys_compare obeys_asl_mem obeys_rol_mem
  obeys_lsr_mem obeys_ror_mem obeys_dec_mem obeys_inc_mem obeys_inc_mem_zp obeys_tsb_mem
  obeys_trb_mem obeys_rmb obeys_smb obeys_store_reg obeys_branch obeys_flags_or obeys_flags_and
  obeys_jsr_push obeys_pull_flags obeys_after_eom

end

text \<open>Besides those, an instruction sets the program counter and the length in the log.\<close>

locale instr_rel = data_rel R for R :: "machine \<Rightarrow> machine \<Rightarrow> bool" +
  assumes obeys_set_pc: "obeys R (set_pc p)"
    and obeys_set_len: "obeys R (set_len v)"
begin

lemmas obeys_steps = obeys_data obeys_set_pc obeys_set_len

lemma obeys_add_pc: "obeys R (add_pc i)"
  unfolding add_pc_def by (intro obeys_steps obeys_reg)

lemma obeys_bbr: "obeys R (bbr i)"
  unfolding bbr_def by (intro obeys_steps obeys_operand obeys_addr_zp obeys_log_byte obeys_add_pc)

lemma obeys_bbs: "obeys R (bbs i)"
  unfolding bbs_def by (intro obeys_steps obeys_operand obeys_addr_zp obeys_log_byte obeys_add_pc)

lemma obeys_rel8: "obeys R (rel8 i)"
  unfolding rel8_def by (intro obeys_steps obeys_log_byte obeys_add_pc)

lemma obeys_rel16: "obeys R (rel16 i)"
  unfolding rel16_def by (intro obeys_steps obeys_log_byte obeys_add_pc)

lemma obeys_pull_pc: "obeys R pull_pc"
  unfolding pull_pc_def by (intro obeys_steps obeys_reg obeys_stack_pop)

lemmas obeys_ops =
  obeys_steps obeys_add_pc obeys_bbr obeys_bbs obeys_pull_pc obeys_rel16 obeys_rel8

end

end
