(* ===== verification/OpcodesLo.thy ===== *)
theory OpcodesLo
  imports CpuOps
begin

text \<open>
  The cases \<open>$00\<close> to \<open>$7F\<close> of the opcode switch of \<open>execute_instruction\<close>, one definition per
  high nibble, in the order of the source. \<open>fu\<close> is the fuel of the DMA jobs that a memory
  write may start. An opcode without a case takes the \<open>default\<close> branch at the end.
\<close>

definition exec_0x :: "nat \<Rightarrow> u8 \<Rightarrow> bool prog" where
  "exec_0x fu opc =
    (if opc = 0x00 then \<comment> \<open>BRK\<close>
       do { set_len 2; set_error; set_brk; set_done; return True }
     else if opc = 0x01 then \<comment> \<open>ORA ($xx,X)\<close>
       do { set_len 2; add_pc 2; b \<leftarrow> operand addr_izpx; op_or (uint b); return True }
     else if opc = 0x03 then \<comment> \<open>SEE\<close>
       do { flags_or FLAG_E; add_pc 1; set_len 1; return True }
     else if opc = 0x04 then \<comment> \<open>TSB $xx\<close>
       do { set_len 2; add_pc 2; tsb_mem fu addr_zp }
     else if opc = 0x05 then \<comment> \<open>ORA $xx\<close>
       do { set_len 2; add_pc 2; b \<leftarrow> operand addr_zp; op_or (uint b); return True }
     else if opc = 0x06 then \<comment> \<open>ASL $nn\<close>
       asl_mem fu addr_zp (do { set_len 2; add_pc 2; return True })
     else if opc = 0x07 then \<comment> \<open>RMB0 $nn\<close>
       rmb fu 1 (do { set_len 2; add_pc 2; return True })
     else if opc = 0x08 then \<comment> \<open>PHP\<close>
       do { f \<leftarrow> reg reg_flags; stack_push fu (f OR FLAG_B); add_pc 1; set_len 1;
         return True }
     else if opc = 0x09 then \<comment> \<open>ORA #$nn\<close>
       do { b \<leftarrow> log_byte 1; a \<leftarrow> reg reg_a; load_a (a OR b); set_len 2;
         add_pc 2; return True }
     else if opc = 0x0a then \<comment> \<open>ASL A\<close>
       do { a \<leftarrow> reg reg_a; put_flag 0 (a \<ge> 0x80); let v = push_bit 1 (uint a);
         update_nz (word_of_int v); set_a (word_of_int v); set_len 1; add_pc 1; return True }
     else if opc = 0x0c then \<comment> \<open>TSB $xxxx\<close>
       do { set_len 3; add_pc 3; tsb_mem fu addr_abs }
     else if opc = 0x0d then \<comment> \<open>ORA $xxxx\<close>
       do { set_len 3; add_pc 3; b \<leftarrow> operand addr_abs; op_or (uint b); return True }
     else if opc = 0x0e then \<comment> \<open>ASL $nnnn\<close>
       asl_mem fu addr_abs (do { set_len 3; add_pc 3; return True })
     else if opc = 0x0f then \<comment> \<open>BBR0 $nn,$rr\<close>
       do { bbr 1; add_pc 3; set_len 3; return True }
     else do { set_len 6; return False })"

definition exec_1x :: "nat \<Rightarrow> u8 \<Rightarrow> bool prog" where
  "exec_1x fu opc =
    (if opc = 0x10 then \<comment> \<open>BPL $rr\<close>
       do { set_len 2; c \<leftarrow> flagged flag_n; branch c (add_pc 2) (rel8 2); return True }
     else if opc = 0x11 then \<comment> \<open>ORA ($xx),Y\<close>
       do { set_len 2; add_pc 2; b \<leftarrow> operand addr_izpy; op_or (uint b); return True }
     else if opc = 0x12 then \<comment> \<open>ORA ($xx),Z\<close>
       do { set_len 2; add_pc 2; b \<leftarrow> operand addr_izpz; op_or (uint b); return True }
     else if opc = 0x13 then \<comment> \<open>BPL $rrrr\<close>
       do { set_len 3; c \<leftarrow> flagged flag_n; branch c (add_pc 3) (rel16 2);
         return True }
     else if opc = 0x14 then \<comment> \<open>TRB $xx\<close>
       do { set_len 2; add_pc 2; trb_mem fu addr_zp }
     else if opc = 0x15 then \<comment> \<open>ORA $xx,X\<close>
       do { set_len 2; add_pc 2; b \<leftarrow> operand addr_zpx; op_or (uint b); return True }
     else if opc = 0x16 then \<comment> \<open>ASL $nn,X\<close>
       asl_mem fu addr_zpx (do { set_len 2; add_pc 2; return True })
     else if opc = 0x17 then \<comment> \<open>RMB1 $nn\<close>
       rmb fu 2 (do { set_len 2; add_pc 2; return True })
     else if opc = 0x18 then \<comment> \<open>CLC\<close>
       do { flags_and (NOT FLAG_C); add_pc 1; set_len 1; return True }
     else if opc = 0x19 then \<comment> \<open>ORA $xxxx,Y\<close>
       do { set_len 3; add_pc 3; b \<leftarrow> operand addr_absy; op_or (uint b); return True }
     else if opc = 0x1a then \<comment> \<open>INC A\<close>
       do { a \<leftarrow> reg reg_a; load_a (a + 1); add_pc 1; set_len 1; return True }
     else if opc = 0x1b then \<comment> \<open>INZ\<close>
       do { z \<leftarrow> reg reg_z; load_z (z + 1); add_pc 1; set_len 1; return True }
     else if opc = 0x1d then \<comment> \<open>ORA $xxxx,X\<close>
       do { set_len 3; add_pc 3; b \<leftarrow> operand addr_absx; op_or (uint b); return True }
     else if opc = 0x1e then \<comment> \<open>ASL $nnnn,X\<close>
       asl_mem fu addr_absx (do { set_len 3; add_pc 3; return True })
     else if opc = 0x1c then \<comment> \<open>TRB $xxxx\<close>
       do { set_len 3; add_pc 3; trb_mem fu addr_abs }
     else if opc = 0x1f then \<comment> \<open>BBR1 $nn,$rr\<close>
       do { bbr 2; add_pc 3; set_len 3; return True }
     else do { set_len 6; return False })"

definition exec_2x :: "nat \<Rightarrow> u8 \<Rightarrow> bool prog" where
  "exec_2x fu opc =
    (if opc = 0x20 then \<comment> \<open>JSR $nnnn\<close>
       do { jsr_push fu; ad \<leftarrow> addr_abs; set_pc ad; set_len 3; return True }
     else if opc = 0x21 then \<comment> \<open>AND ($nn,X)\<close>
       do { b \<leftarrow> operand addr_izpx; op_and (uint b); set_len 2; add_pc 2; return True }
     else if opc = 0x22 then \<comment> \<open>JSR ($nnnn)\<close>
       do { jsr_push fu; ad \<leftarrow> addr_deref16; set_pc ad; set_len 3; return True }
     else if opc = 0x24 then \<comment> \<open>BIT $xx\<close>
       do { set_len 2; add_pc 2; b \<leftarrow> operand addr_zp; update_bit_flags b;
         return True }
     else if opc = 0x25 then \<comment> \<open>AND $nn\<close>
       do { b \<leftarrow> operand addr_zp; op_and (uint b); set_len 2; add_pc 2; return True }
     else if opc = 0x26 then \<comment> \<open>ROL $nn\<close>
       rol_mem fu addr_zp (do { set_len 2; add_pc 2; return True })
     else if opc = 0x27 then \<comment> \<open>RMB2 $nn\<close>
       rmb fu 4 (do { set_len 2; add_pc 2; return True })
     else if opc = 0x28 then \<comment> \<open>PLP\<close>
       do { pull_flags; add_pc 1; set_len 1; return True }
     else if opc = 0x29 then \<comment> \<open>AND #$nn\<close>
       do { b \<leftarrow> log_byte 1; a \<leftarrow> reg reg_a; load_a (a AND b); set_len 2;
         add_pc 2; return True }
     else if opc = 0x2a then \<comment> \<open>ROL A\<close>
       do { a \<leftarrow> reg reg_a; c \<leftarrow> flagged flag_c;
         let v = (if c then push_bit 1 (uint a) OR 0x1 else push_bit 1 (uint a));
         put_flag 0 (v \<ge> 0x100); update_nz (word_of_int v); set_a (word_of_int v);
         set_len 1; add_pc 1; return True }
     else if opc = 0x2b then \<comment> \<open>TYS\<close>
       do { y \<leftarrow> reg reg_y; set_sph y; add_pc 1; set_len 1; return True }
     else if opc = 0x2c then \<comment> \<open>BIT $xxxx\<close>
       do { set_len 3; add_pc 3; b \<leftarrow> operand addr_abs; update_bit_flags b;
         return True }
     else if opc = 0x2d then \<comment> \<open>AND $nnnn\<close>
       do { b \<leftarrow> operand addr_abs; op_and (uint b); set_len 3; add_pc 3; return True }
     else if opc = 0x2e then \<comment> \<open>ROL $nnnn\<close>
       rol_mem fu addr_abs (do { set_len 3; add_pc 3; return True })
     else if opc = 0x2f then \<comment> \<open>BBR2 $nn,$rr\<close>
       do { bbr 4; add_pc 3; set_len 3; return True }
     else do { set_len 6; return False })"

definition exec_3x :: "nat \<Rightarrow> u8 \<Rightarrow> bool prog" where
  "exec_3x fu opc =
    (if opc = 0x30 then \<comment> \<open>BMI $rr\<close>
       do { set_len 2; c \<leftarrow> flagged flag_n; branch (\<not> c) (add_pc 2) (rel8 2);
         return True }
     else if opc = 0x31 then \<comment> \<open>AND ($nn),Y\<close>
       do { b \<leftarrow> operand addr_izpy; op_and (uint b); set_len 2; add_pc 2; return True }
     else if opc = 0x32 then \<comment> \<open>AND ($nn),Z\<close>
       do { b \<leftarrow> operand addr_izpz; op_and (uint b); set_len 2; add_pc 2; return True }
     else if opc = 0x33 then \<comment> \<open>BMI $rrrr\<close>
       do { set_len 3; c \<leftarrow> flagged flag_n; branch (\<not> c) (add_pc 3) (rel16 2);
         return True }
     else if opc = 0x34 then \<comment> \<open>BIT $xx,X\<close>
       do { set_len 2; add_pc 2; b \<leftarrow> operand addr_zpx; update_bit_flags b;
         return True }
     else if opc = 0x35 then \<comment> \<open>AND $nn,X\<close>
       do { b \<leftarrow> operand addr_zpx; op_and (uint b); set_len 2; add_pc 2; return True }
     else if opc = 0x36 then \<comment> \<open>ROL $nn,X\<close>
       rol_mem fu addr_zpx (do { set_len 2; add_pc 2; return True })
     else if opc = 0x37 then \<comment> \<open>RMB3 $nn\<close>
       rmb fu 8 (do { set_len 2; add_pc 2; return True })
     else if opc = 0x38 then \<comment> \<open>SEC\<close>
       do { flags_or FLAG_C; add_pc 1; set_len 1; return True }
     else if opc = 0x39 then \<comment> \<open>AND $nnnn,Y\<close>
       do { b \<leftarrow> operand addr_absy; op_and (uint b); set_len 3; add_pc 3; return True }
     else if opc = 0x3a then \<comment> \<open>DEC A\<close>
       do { a \<leftarrow> reg reg_a; load_a (a - 1); add_pc 1; set_len 1; return True }
     else if opc = 0x3c then \<comment> \<open>BIT $xxxx,X\<close>
       do { set_len 3; add_pc 3; b \<leftarrow> operand addr_absx; update_bit_flags b;
         return True }
     else if opc = 0x3d then \<comment> \<open>AND $nnnn,X\<close>
       do { b \<leftarrow> operand addr_absx; op_and (uint b); set_len 3; add_pc 3; return True }
     else if opc = 0x3e then \<comment> \<open>ROL $nnnn,X\<close>
       rol_mem fu addr_absx (do { set_len 3; add_pc 3; return True })
     else if opc = 0x3f then \<comment> \<open>BBR3 $nn,$rr\<close>
       do { bbr 8; add_pc 3; set_len 3; return True }
     else do { set_len 6; return False })"

definition exec_4x :: "nat \<Rightarrow> u8 \<Rightarrow> bool prog" where
  "exec_4x fu opc =
    (if opc = 0x40 then \<comment> \<open>RTI\<close>
       do { set_len 1; pull_flags; pull_pc; return True }
     else if opc = 0x41 then \<comment> \<open>EOR ($nn,X)\<close>
       do { b \<leftarrow> operand addr_izpx; op_eor (uint b); set_len 2; add_pc 2; return True }
     else if opc = 0x45 then \<comment> \<open>EOR $nn\<close>
       do { b \<leftarrow> operand addr_zp; op_eor (uint b); set_len 2; add_pc 2; return True }
     else if opc = 0x46 then \<comment> \<open>LSR $nn\<close>
       lsr_mem fu addr_zp (do { set_len 2; add_pc 2; return True })
     else if opc = 0x47 then \<comment> \<open>RMB4 $nn\<close>
       rmb fu 16 (do { set_len 2; add_pc 2; return True })
     else if opc = 0x48 then \<comment> \<open>PHA\<close>
       do { a \<leftarrow> reg reg_a; stack_push fu a; add_pc 1; set_len 1; return True }
     else if opc = 0x49 then \<comment> \<open>EOR #$nn\<close>
       do { b \<leftarrow> log_byte 1; a \<leftarrow> reg reg_a; load_a (a XOR b); set_len 2;
         add_pc 2; return True }
     else if opc = 0x4a then \<comment> \<open>LSR A\<close>
       do { a \<leftarrow> reg reg_a; put_flag 0 (uint a AND 1 \<noteq> 0);
         let v = drop_bit 1 (uint a); update_nz (word_of_int v); set_a (word_of_int v);
         set_len 1; add_pc 1; return True }
     else if opc = 0x4b then \<comment> \<open>TAZ\<close>
       do { a \<leftarrow> reg reg_a; load_z a; add_pc 1; set_len 1; return True }
     else if opc = 0x4c then \<comment> \<open>JMP $nnnn\<close>
       do { ad \<leftarrow> addr_abs; set_pc ad; set_len 3; return True }
     else if opc = 0x4d then \<comment> \<open>EOR $nnnn\<close>
       do { b \<leftarrow> operand addr_abs; op_eor (uint b); set_len 3; add_pc 3; return True }
     else if opc = 0x4e then \<comment> \<open>LSR $nnnn\<close>
       lsr_mem fu addr_abs (do { set_len 3; add_pc 3; return True })
     else if opc = 0x4f then \<comment> \<open>BBR4 $nn,$rr\<close>
       do { bbr 16; add_pc 3; set_len 3; return True }
     else do { set_len 6; return False })"

definition exec_5x :: "nat \<Rightarrow> u8 \<Rightarrow> bool prog" where
  "exec_5x fu opc =
    (if opc = 0x50 then \<comment> \<open>BVC $rr\<close>
       do { set_len 2; c \<leftarrow> flagged flag_v; branch c (add_pc 2) (rel8 2); return True }
     else if opc = 0x51 then \<comment> \<open>EOR ($nn),Y\<close>
       do { b \<leftarrow> operand addr_izpy; op_eor (uint b); set_len 2; add_pc 2; return True }
     else if opc = 0x52 then \<comment> \<open>EOR ($nn),Z\<close>
       do { b \<leftarrow> operand addr_izpz; op_eor (uint b); set_len 2; add_pc 2; return True }
     else if opc = 0x55 then \<comment> \<open>EOR $nn,X\<close>
       do { b \<leftarrow> operand addr_zpx; op_eor (uint b); set_len 2; add_pc 2; return True }
     else if opc = 0x56 then \<comment> \<open>LSR $nn,X\<close>
       lsr_mem fu addr_zpx (do { set_len 2; add_pc 2; return True })
     else if opc = 0x57 then \<comment> \<open>RMB5 $nn\<close>
       rmb fu 32 (do { set_len 2; add_pc 2; return True })
     else if opc = 0x58 then \<comment> \<open>CLI\<close>
       do { flags_and (NOT FLAG_I); add_pc 1; set_len 1; return True }
     else if opc = 0x59 then \<comment> \<open>EOR $nnnn,Y\<close>
       do { b \<leftarrow> operand addr_absy; op_eor (uint b); set_len 3; add_pc 3; return True }
     else if opc = 0x5a then \<comment> \<open>PHY\<close>
       do { y \<leftarrow> reg reg_y; stack_push fu y; add_pc 1; set_len 1; return True }
     else if opc = 0x5b then \<comment> \<open>TAB\<close>
       do { a \<leftarrow> reg reg_a; set_b a; add_pc 1; set_len 1; return True }
     else if opc = 0x5c then \<comment> \<open>MAP\<close>
       do { add_pc 1; r \<leftarrow> reg id;
         (if reg_x r = 0x0f then set_maplomb (reg_a r) else set_maplo (ucast (reg_a r) + push_bit 8 (ucast (reg_x r))));
         (if in_hyper r = 0 then (if reg_z r = 0x0f then set_maphimb (reg_y r) else set_maplo (ucast (reg_y r) + push_bit 8 (ucast (reg_z r)))) else return ());
         set_map_irq_inhibit 1; set_len 1; return True }
     else if opc = 0x5d then \<comment> \<open>EOR $nnnn,X\<close>
       do { b \<leftarrow> operand addr_absx; op_eor (uint b); set_len 3; add_pc 3; return True }
     else if opc = 0x5e then \<comment> \<open>LSR $nnnn,X\<close>
       lsr_mem fu addr_absx (do { set_len 3; add_pc 3; return True })
     else if opc = 0x5f then \<comment> \<open>BBR5 $nn,$rr\<close>
       do { bbr 32; add_pc 3; set_len 3; return True }
     else do { set_len 6; return False })"

definition exec_6x :: "nat \<Rightarrow> u8 \<Rightarrow> bool prog" where
  "exec_6x fu opc =
    (if opc = 0x60 then \<comment> \<open>RTS\<close>
       do { set_len 1; n \<leftarrow> tcond t_rts;
         (if n \<noteq> 0 then do { set_rts (n - 1); (if n - 1 = 0 then set_done else return ()) } else return ());
         pull_pc; add_pc 1; return True }
     else if opc = 0x61 then \<comment> \<open>ADC ($nn,X)\<close>
       do { b \<leftarrow> operand addr_izpx; adc b; set_len 2; add_pc 2; return True }
     else if opc = 0x64 then \<comment> \<open>STZ $xx\<close>
       do { set_len 2; add_pc 2; store_reg fu addr_zp reg_z }
     else if opc = 0x65 then \<comment> \<open>ADC $nn\<close>
       do { b \<leftarrow> operand addr_zp; adc b; set_len 2; add_pc 2; return True }
     else if opc = 0x66 then \<comment> \<open>ROR $nn\<close>
       ror_mem fu addr_zp (do { set_len 2; add_pc 2; return True })
     else if opc = 0x67 then \<comment> \<open>RMB6 $nn\<close>
       rmb fu 64 (do { set_len 2; add_pc 2; return True })
     else if opc = 0x68 then \<comment> \<open>PLA\<close>
       do { b \<leftarrow> stack_pop; load_a b; set_len 1; add_pc 1; return True }
     else if opc = 0x69 then \<comment> \<open>ADC #$nn\<close>
       do { b \<leftarrow> log_byte 1; adc b; set_len 2; add_pc 2; return True }
     else if opc = 0x6a then \<comment> \<open>ROR A\<close>
       do { a \<leftarrow> reg reg_a; c \<leftarrow> flagged flag_c;
         let v = (if c then uint a OR 0x100 else uint a); put_flag 0 (v AND 1 \<noteq> 0);
         let v = drop_bit 1 v; update_nz (word_of_int v); set_a (word_of_int v); set_len 1;
         add_pc 1; return True }
     else if opc = 0x6b then \<comment> \<open>TZA\<close>
       do { z \<leftarrow> reg reg_z; load_a z; add_pc 1; set_len 1; return True }
     else if opc = 0x6c then \<comment> \<open>JMP ($nnnn)\<close>
       do { ad \<leftarrow> addr_deref16; set_pc ad; set_len 3; return True }
     else if opc = 0x6d then \<comment> \<open>ADC $nnnn\<close>
       do { b \<leftarrow> operand addr_abs; adc b; set_len 3; add_pc 3; return True }
     else if opc = 0x6e then \<comment> \<open>ROR $nnnn\<close>
       ror_mem fu addr_abs (do { set_len 3; add_pc 3; return True })
     else if opc = 0x6f then \<comment> \<open>BBR6 $nn,$rr\<close>
       do { bbr 64; add_pc 3; set_len 3; return True }
     else do { set_len 6; return False })"

definition exec_7x :: "nat \<Rightarrow> u8 \<Rightarrow> bool prog" where
  "exec_7x fu opc =
    (if opc = 0x70 then \<comment> \<open>BVS $rr-\<close>
       do { set_len 2; c \<leftarrow> flagged flag_v; branch (\<not> c) (add_pc 2) (rel8 2);
         return True }
     else if opc = 0x71 then \<comment> \<open>ADC ($nn),Y\<close>
       do { b \<leftarrow> operand addr_izpy; adc b; set_len 2; add_pc 2; return True }
     else if opc = 0x72 then \<comment> \<open>ADC ($nn),Z\<close>
       do { b \<leftarrow> operand addr_izpz; adc b; set_len 2; add_pc 2; return True }
     else if opc = 0x74 then \<comment> \<open>STZ $xx,X\<close>
       do { set_len 2; add_pc 2; store_reg fu addr_zpx reg_z }
     else if opc = 0x75 then \<comment> \<open>ADC $nn,X\<close>
       do { b \<leftarrow> operand addr_zpx; adc b; set_len 2; add_pc 2; return True }
     else if opc = 0x76 then \<comment> \<open>ROR $nn,X\<close>
       ror_mem fu addr_zpx (do { set_len 2; add_pc 2; return True })
     else if opc = 0x77 then \<comment> \<open>RMB7 $nn\<close>
       rmb fu 128 (do { set_len 2; add_pc 2; return True })
     else if opc = 0x78 then \<comment> \<open>SEI\<close>
       do { flags_or FLAG_I; add_pc 1; set_len 1; return True }
     else if opc = 0x79 then \<comment> \<open>ADC $nnnn,Y\<close>
       do { b \<leftarrow> operand addr_absy; adc b; set_len 3; add_pc 3; return True }
     else if opc = 0x7a then \<comment> \<open>PLY\<close>
       do { add_pc 1; set_len 1; b \<leftarrow> stack_pop; load_y b; return True }
     else if opc = 0x7b then \<comment> \<open>TBA\<close>
       do { b \<leftarrow> reg reg_b; load_a b; add_pc 1; set_len 1; return True }
     else if opc = 0x7c then \<comment> \<open>JMP ($nnnn,X)\<close>
       do { ad \<leftarrow> addr_iabsx; set_pc ad; set_len 3; return True }
     else if opc = 0x7d then \<comment> \<open>ADC $nnnn,X\<close>
       do { b \<leftarrow> operand addr_absx; adc b; set_len 3; add_pc 3; return True }
     else if opc = 0x7e then \<comment> \<open>ROR $nnnn,X\<close>
       ror_mem fu addr_absx (do { set_len 3; add_pc 3; return True })
     else if opc = 0x7f then \<comment> \<open>BBR7 $nn,$rr\<close>
       do { bbr 128; add_pc 3; set_len 3; return True }
     else do { set_len 6; return False })"

context instr_rel
begin

lemma obeys_exec_0x: "obeys R (exec_0x fu opc)"
  unfolding exec_0x_def by (intro obeys_ops)

lemma obeys_exec_1x: "obeys R (exec_1x fu opc)"
  unfolding exec_1x_def by (intro obeys_ops)

lemma obeys_exec_2x: "obeys R (exec_2x fu opc)"
  unfolding exec_2x_def by (intro obeys_ops)

lemma obeys_exec_3x: "obeys R (exec_3x fu opc)"
  unfolding exec_3x_def by (intro obeys_ops)

lemma obeys_exec_4x: "obeys R (exec_4x fu opc)"
  unfolding exec_4x_def by (intro obeys_ops)

lemma obeys_exec_5x: "obeys R (exec_5x fu opc)"
  unfolding exec_5x_def by (intro obeys_ops)

lemma obeys_exec_6x: "obeys R (exec_6x fu opc)"
  unfolding exec_6x_def by (intro obeys_ops)

lemma obeys_exec_7x: "obeys R (exec_7x fu opc)"
  unfolding exec_7x_def by (intro obeys_ops)

end

end
