(* ===== verification/OpcodesHi.thy ===== *)
theory OpcodesHi
  imports CpuOps
begin

text \<open>The cases \<open>$80\<close> to \<open>$FF\<close> of the opcode switch of \<open>execute_instruction\<close>.\<close>

definition exec_8x :: "nat \<Rightarrow> u8 \<Rightarrow> bool prog" where
  "exec_8x fu opc =
    (if opc = 0x80 then \<comment> \<open>BRA $rr\<close>
       do { set_len 2; rel8 2; return True }
     else if opc = 0x81 then \<comment> \<open>STA ($xx,X)\<close>
       do { set_len 2; add_pc 2; store_reg fu addr_izpx reg_a }
     else if opc = 0x83 then \<comment> \<open>BRA $rrrr\<close>
       do { set_len 3; rel16 2; return True }
     else if opc = 0x84 then \<comment> \<open>STY $xx\<close>
       do { set_len 2; add_pc 2; store_reg fu addr_zp reg_y }
     else if opc = 0x85 then \<comment> \<open>STA $xx\<close>
       do { set_len 2; add_pc 2; store_reg fu addr_zp reg_a }
     else if opc = 0x86 then \<comment> \<open>STX $xx\<close>
       do { set_len 2; add_pc 2; store_reg fu addr_zp reg_x }
     else if opc = 0x87 then \<comment> \<open>SMB0 $nn\<close>
       smb fu 1 (do { set_len 2; add_pc 2; return True })
     else if opc = 0x88 then \<comment> \<open>DEY\<close>
       do { y \<leftarrow> reg reg_y; load_y (y - 1); add_pc 1; set_len 1; return True }
     else if opc = 0x89 then \<comment> \<open>BIT #$xx\<close>
       do { set_len 2; add_pc 2; b \<leftarrow> log_byte 1; a \<leftarrow> reg reg_a;
         put_flag 1 (uint b AND uint a = 0); return True }
     else if opc = 0x8a then \<comment> \<open>TXA\<close>
       do { x \<leftarrow> reg reg_x; load_a x; add_pc 1; set_len 1; return True }
     else if opc = 0x8c then \<comment> \<open>STY $xxxx\<close>
       do { set_len 3; add_pc 3; store_reg fu addr_abs reg_y }
     else if opc = 0x8d then \<comment> \<open>STA $xxxx\<close>
       do { set_len 3; add_pc 3; store_reg fu addr_abs reg_a }
     else if opc = 0x8e then \<comment> \<open>STX $xxxx\<close>
       do { set_len 3; add_pc 3; store_reg fu addr_abs reg_x }
     else if opc = 0x8f then \<comment> \<open>BBS0 $nn,$rr\<close>
       do { bbs 1; add_pc 3; set_len 3; return True }
     else do { set_len 6; return False })"

definition exec_9x :: "nat \<Rightarrow> u8 \<Rightarrow> bool prog" where
  "exec_9x fu opc =
    (if opc = 0x90 then \<comment> \<open>BCC $rr\<close>
       do { set_len 2; c \<leftarrow> flagged flag_c; branch c (add_pc 2) (rel8 2); return True }
     else if opc = 0x91 then \<comment> \<open>STA ($xx),Y\<close>
       do { set_len 2; add_pc 2; set_zp16 1; store_reg fu addr_izpy reg_a }
     else if opc = 0x92 then \<comment> \<open>STA ($xx),Z\<close>
       do { set_len 2; add_pc 2; e \<leftarrow> after_eom;
         (if e then do { addr_izpz32; set_zp32 1; ad \<leftarrow> addr_izpz32; a \<leftarrow> reg reg_a; MEM_WRITE28 fu ad a (return True) }
        else do { set_zp16 1; store_reg fu addr_izpz reg_a }) }
     else if opc = 0x93 then \<comment> \<open>BCC $rrrr\<close>
       do { set_len 3; c \<leftarrow> flagged flag_c; w \<leftarrow> log_word;
         branch c (add_pc 3) (add_pc (3 + rel16_delta (ucast w))); return True }
     else if opc = 0x94 then \<comment> \<open>STA $xx,X\<close>
       do { set_len 2; add_pc 2; store_reg fu addr_zpx reg_y }
     else if opc = 0x95 then \<comment> \<open>STA $xx,X\<close>
       do { set_len 2; add_pc 2; store_reg fu addr_zpx reg_a }
     else if opc = 0x96 then \<comment> \<open>STX $xx,Y\<close>
       do { set_len 2; add_pc 2; store_reg fu addr_zpy reg_x }
     else if opc = 0x97 then \<comment> \<open>SMB1 $nn\<close>
       smb fu 2 (do { set_len 2; add_pc 2; return True })
     else if opc = 0x98 then \<comment> \<open>TYA\<close>
       do { y \<leftarrow> reg reg_y; load_a y; add_pc 1; set_len 1; return True }
     else if opc = 0x99 then \<comment> \<open>STA $xxxx,Y\<close>
       do { set_len 3; add_pc 3; store_reg fu addr_absy reg_a }
     else if opc = 0x9a then \<comment> \<open>TXS\<close>
       do { x \<leftarrow> reg reg_x; set_spl x; add_pc 1; set_len 1; return True }
     else if opc = 0x9c then \<comment> \<open>STZ $xxxx\<close>
       do { set_len 3; add_pc 3; store_reg fu addr_abs reg_z }
     else if opc = 0x9d then \<comment> \<open>STA $xxxx,X\<close>
       do { set_len 3; add_pc 3; store_reg fu addr_absx reg_a }
     else if opc = 0x9e then \<comment> \<open>STZ $xxxx,X\<close>
       do { set_len 3; add_pc 3; store_reg fu addr_absx reg_z }
     else if opc = 0x9f then \<comment> \<open>BBS1 $nn,$rr\<close>
       do { bbs 2; add_pc 3; set_len 3; return True }
     else do { set_len 6; return False })"

definition exec_ax :: "nat \<Rightarrow> u8 \<Rightarrow> bool prog" where
  "exec_ax fu opc =
    (if opc = 0xa0 then \<comment> \<open>LDY #$nn\<close>
       do { b \<leftarrow> log_byte 1; load_y b; set_len 2; add_pc 2; return True }
     else if opc = 0xa1 then \<comment> \<open>LDA ($xx,X)\<close>
       do { set_len 2; add_pc 2; set_zp16 1; b \<leftarrow> operand addr_izpx; load_a b;
         return True }
     else if opc = 0xa2 then \<comment> \<open>LDX #$nn\<close>
       do { b \<leftarrow> log_byte 1; load_x b; set_len 2; add_pc 2; return True }
     else if opc = 0xa3 then \<comment> \<open>LDZ #$nn\<close>
       do { b \<leftarrow> log_byte 1; load_z b; set_len 2; add_pc 2; return True }
     else if opc = 0xa4 then \<comment> \<open>LDY $xx\<close>
       do { set_len 2; add_pc 2; b \<leftarrow> operand addr_zp; load_y b; return True }
     else if opc = 0xa5 then \<comment> \<open>LDA $xx\<close>
       do { set_len 2; add_pc 2; b \<leftarrow> operand addr_zp; load_a b; return True }
     else if opc = 0xa6 then \<comment> \<open>LDX $xx\<close>
       do { set_len 2; add_pc 2; b \<leftarrow> operand addr_zp; load_x b; return True }
     else if opc = 0xa7 then \<comment> \<open>SMB2 $nn\<close>
       smb fu 4 (do { set_len 2; add_pc 2; return True })
     else if opc = 0xa8 then \<comment> \<open>TAY\<close>
       do { a \<leftarrow> reg reg_a; set_y a; a \<leftarrow> reg reg_a; update_nz a;
         add_pc 1; set_len 1; return True }
     else if opc = 0xa9 then \<comment> \<open>LDA #$nn\<close>
       do { b \<leftarrow> log_byte 1; load_a b; set_len 2; add_pc 2; return True }
     else if opc = 0xaa then \<comment> \<open>TAX\<close>
       do { a \<leftarrow> reg reg_a; set_x a; a \<leftarrow> reg reg_a; update_nz a;
         add_pc 1; set_len 1; return True }
     else if opc = 0xac then \<comment> \<open>LDY $xxxx\<close>
       do { set_len 3; add_pc 3; b \<leftarrow> operand addr_abs; load_y b; return True }
     else if opc = 0xad then \<comment> \<open>LDA $xxxx\<close>
       do { set_len 3; add_pc 3; b \<leftarrow> operand addr_abs; load_a b; return True }
     else if opc = 0xae then \<comment> \<open>LDX $xxxx\<close>
       do { set_len 3; add_pc 3; b \<leftarrow> operand addr_abs; load_x b; return True }
     else if opc = 0xaf then \<comment> \<open>BBS2 $nn,$rr\<close>
       do { bbs 4; add_pc 3; set_len 3; return True }
     else do { set_len 6; return False })"

definition exec_bx :: "nat \<Rightarrow> u8 \<Rightarrow> bool prog" where
  "exec_bx fu opc =
    (if opc = 0xb0 then \<comment> \<open>BCS $rr\<close>
       do { set_len 2; c \<leftarrow> flagged flag_c; branch c (rel8 2) (add_pc 2); return True }
     else if opc = 0xb1 then \<comment> \<open>LDA ($xx),Y\<close>
       do { set_len 2; add_pc 2; set_zp16 1; b \<leftarrow> operand addr_izpy; load_a b;
         return True }
     else if opc = 0xb2 then \<comment> \<open>LDA ($xx),Z\<close>
       do { set_len 2; add_pc 2; set_zp16 1; b \<leftarrow> operand addr_izpz; load_a b;
         return True }
     else if opc = 0xb4 then \<comment> \<open>LDY $xx,X\<close>
       do { set_len 2; add_pc 2; b \<leftarrow> operand addr_zpx; load_y b; return True }
     else if opc = 0xb5 then \<comment> \<open>LDA $xx,X\<close>
       do { set_len 2; add_pc 2; b \<leftarrow> operand addr_zpx; load_a b; return True }
     else if opc = 0xb6 then \<comment> \<open>LDX $xx,Y\<close>
       do { set_len 2; add_pc 2; b \<leftarrow> operand addr_zpy; load_x b; return True }
     else if opc = 0xb7 then \<comment> \<open>SMB3 $nn\<close>
       smb fu 8 (do { set_len 2; add_pc 2; return True })
     else if opc = 0xb8 then \<comment> \<open>CLV\<close>
       do { flags_and (NOT FLAG_V); add_pc 1; set_len 1; return True }
     else if opc = 0xb9 then \<comment> \<open>LDA $xxxx,Y\<close>
       do { set_len 3; add_pc 3; b \<leftarrow> operand addr_absy; load_a b; return True }
     else if opc = 0xba then \<comment> \<open>TSX\<close>
       do { set_len 1; add_pc 1; s \<leftarrow> reg reg_sp; load_x (lo8 s); return True }
     else if opc = 0xbc then \<comment> \<open>LDY $xxxx,X\<close>
       do { set_len 3; add_pc 3; b \<leftarrow> operand addr_absx; load_y b; return True }
     else if opc = 0xbd then \<comment> \<open>LDA $xxxx,X\<close>
       do { set_len 3; add_pc 3; b \<leftarrow> operand addr_absx; load_a b; return True }
     else if opc = 0xbe then \<comment> \<open>LDX $xxxx,Y\<close>
       do { set_len 3; add_pc 3; b \<leftarrow> operand addr_absy; load_x b; return True }
     else if opc = 0xbf then \<comment> \<open>BBS3 $nn,$rr\<close>
       do { bbs 8; add_pc 3; set_len 3; return True }
     else do { set_len 6; return False })"

definition exec_cx :: "nat \<Rightarrow> u8 \<Rightarrow> bool prog" where
  "exec_cx fu opc =
    (if opc = 0xc0 then \<comment> \<open>CPY #$nn\<close>
       do { b \<leftarrow> log_byte 1; compare reg_y b; set_len 2; add_pc 2; return True }
     else if opc = 0xc1 then \<comment> \<open>CMP ($nn,X)\<close>
       do { b \<leftarrow> operand addr_izpx; compare reg_a b; set_len 2; add_pc 2; return True }
     else if opc = 0xc4 then \<comment> \<open>CPY $nn\<close>
       do { b \<leftarrow> operand addr_zp; compare reg_y b; set_len 2; add_pc 2; return True }
     else if opc = 0xc5 then \<comment> \<open>CMP $nn\<close>
       do { b \<leftarrow> operand addr_zp; compare reg_a b; set_len 2; add_pc 2; return True }
     else if opc = 0xc6 then \<comment> \<open>DEC $xx\<close>
       do { set_len 2; add_pc 2; dec_mem fu addr_zp }
     else if opc = 0xc7 then \<comment> \<open>SMB4 $nn\<close>
       smb fu 16 (do { set_len 2; add_pc 2; return True })
     else if opc = 0xc8 then \<comment> \<open>INY\<close>
       do { y \<leftarrow> reg reg_y; load_y (y + 1); add_pc 1; set_len 1; return True }
     else if opc = 0xc9 then \<comment> \<open>CMP #$nn\<close>
       do { b \<leftarrow> log_byte 1; compare reg_a b; set_len 2; add_pc 2; return True }
     else if opc = 0xca then \<comment> \<open>DEX\<close>
       do { x \<leftarrow> reg reg_x; load_x (x - 1); add_pc 1; set_len 1; return True }
     else if opc = 0xcc then \<comment> \<open>CPY $nnnn\<close>
       do { b \<leftarrow> operand addr_abs; compare reg_y b; set_len 3; add_pc 3; return True }
     else if opc = 0xcd then \<comment> \<open>CMP $nnnn\<close>
       do { b \<leftarrow> operand addr_abs; compare reg_a b; set_len 3; add_pc 3; return True }
     else if opc = 0xce then \<comment> \<open>DEC $xxxx\<close>
       do { set_len 3; add_pc 3; dec_mem fu addr_abs }
     else if opc = 0xcf then \<comment> \<open>BBS4 $nn,$rr\<close>
       do { bbs 16; add_pc 3; set_len 3; return True }
     else do { set_len 6; return False })"

definition exec_dx :: "nat \<Rightarrow> u8 \<Rightarrow> bool prog" where
  "exec_dx fu opc =
    (if opc = 0xd0 then \<comment> \<open>BNE $rr\<close>
       do { set_len 2; c \<leftarrow> flagged flag_z; branch c (add_pc 2) (rel8 2); return True }
     else if opc = 0xd1 then \<comment> \<open>CMP ($nn),Y\<close>
       do { b \<leftarrow> operand addr_izpy; compare reg_a b; set_len 2; add_pc 2; return True }
     else if opc = 0xd2 then \<comment> \<open>CMP ($nn),Z\<close>
       do { b \<leftarrow> operand addr_izpz; compare reg_a b; set_len 2; add_pc 2; return True }
     else if opc = 0xd5 then \<comment> \<open>CMP $nn,X\<close>
       do { b \<leftarrow> operand addr_zpx; compare reg_a b; set_len 2; add_pc 2; return True }
     else if opc = 0xd6 then \<comment> \<open>DEC $xx,X\<close>
       do { set_len 2; add_pc 2; dec_mem fu addr_zpx }
     else if opc = 0xd7 then \<comment> \<open>SMB5 $nn\<close>
       smb fu 32 (do { set_len 2; add_pc 2; return True })
     else if opc = 0xd8 then \<comment> \<open>CLD\<close>
       do { flags_and (NOT FLAG_D); add_pc 1; set_len 1; return True }
     else if opc = 0xd9 then \<comment> \<open>CMP $nnnn,Y\<close>
       do { b \<leftarrow> operand addr_absy; compare reg_a b; set_len 3; add_pc 3; return True }
     else if opc = 0xda then \<comment> \<open>PHX\<close>
       do { x \<leftarrow> reg reg_x; stack_push fu x; add_pc 1; set_len 1; return True }
     else if opc = 0xdb then \<comment> \<open>PHZ\<close>
       do { z \<leftarrow> reg reg_z; stack_push fu z; add_pc 1; set_len 1; return True }
     else if opc = 0xdd then \<comment> \<open>CMP $nnnn,X\<close>
       do { b \<leftarrow> operand addr_absx; compare reg_a b; set_len 3; add_pc 3; return True }
     else if opc = 0xde then \<comment> \<open>DEC $xxxx,X\<close>
       do { set_len 3; add_pc 3; dec_mem fu addr_absx }
     else if opc = 0xdf then \<comment> \<open>BBS5 $nn,$rr\<close>
       do { bbs 32; add_pc 3; set_len 3; return True }
     else do { set_len 6; return False })"

definition exec_ex :: "nat \<Rightarrow> u8 \<Rightarrow> bool prog" where
  "exec_ex fu opc =
    (if opc = 0xe0 then \<comment> \<open>CPX #$nn\<close>
       do { b \<leftarrow> log_byte 1; compare reg_x b; set_len 2; add_pc 2; return True }
     else if opc = 0xe1 then \<comment> \<open>SBC ($nn,X)\<close>
       do { b \<leftarrow> operand addr_izpx; sbc b; set_len 2; add_pc 2; return True }
     else if opc = 0xe4 then \<comment> \<open>CPX $nn\<close>
       do { b \<leftarrow> operand addr_zp; compare reg_x b; set_len 2; add_pc 2; return True }
     else if opc = 0xe5 then \<comment> \<open>SBC $nn\<close>
       do { b \<leftarrow> operand addr_zp; sbc b; set_len 2; add_pc 2; return True }
     else if opc = 0xe6 then \<comment> \<open>INC $xx\<close>
       do { set_len 2; add_pc 2; inc_mem_zp fu addr_zp }
     else if opc = 0xe7 then \<comment> \<open>SMB6 $nn\<close>
       smb fu 64 (do { set_len 2; add_pc 2; return True })
     else if opc = 0xe8 then \<comment> \<open>INX\<close>
       do { x \<leftarrow> reg reg_x; load_x (x + 1); add_pc 1; set_len 1; return True }
     else if opc = 0xe9 then \<comment> \<open>SBC #$nn\<close>
       do { b \<leftarrow> log_byte 1; sbc b; set_len 2; add_pc 2; return True }
     else if opc = 0xea then \<comment> \<open>EOM / NOP\<close>
       do { add_pc 1; set_map_irq_inhibit 0; set_len 1; return True }
     else if opc = 0xec then \<comment> \<open>CPX $nnnn\<close>
       do { b \<leftarrow> operand addr_abs; compare reg_x b; set_len 3; add_pc 3; return True }
     else if opc = 0xed then \<comment> \<open>SBC $nnnn\<close>
       do { b \<leftarrow> operand addr_abs; sbc b; set_len 3; add_pc 3; return True }
     else if opc = 0xee then \<comment> \<open>INC $xxxx\<close>
       do { set_len 3; add_pc 3; inc_mem fu addr_abs }
     else if opc = 0xef then \<comment> \<open>BBS6 $nn,$rr\<close>
       do { bbs 64; add_pc 3; set_len 3; return True }
     else do { set_len 6; return False })"

definition exec_fx :: "nat \<Rightarrow> u8 \<Rightarrow> bool prog" where
  "exec_fx fu opc =
    (if opc = 0xf0 then \<comment> \<open>BEQ $rr\<close>
       do { set_len 2; c \<leftarrow> flagged flag_z; branch c (rel8 2) (add_pc 2); return True }
     else if opc = 0xf1 then \<comment> \<open>SBC ($nn),Y\<close>
       do { b \<leftarrow> operand addr_izpy; sbc b; set_len 2; add_pc 2; return True }
     else if opc = 0xf2 then \<comment> \<open>SBC ($nn),Z\<close>
       do { b \<leftarrow> operand addr_izpz; sbc b; set_len 2; add_pc 2; return True }
     else if opc = 0xf3 then \<comment> \<open>BEQ $rrrr\<close>
       do { set_len 3; c \<leftarrow> flagged flag_z; branch c (rel16 3) (add_pc 3);
         return True }
     else if opc = 0xf5 then \<comment> \<open>SBC $nn,X\<close>
       do { b \<leftarrow> operand addr_zpx; sbc b; set_len 2; add_pc 2; return True }
     else if opc = 0xf6 then \<comment> \<open>INC $xx,X\<close>
       do { set_len 2; add_pc 2; inc_mem_zp fu addr_zpx }
     else if opc = 0xf7 then \<comment> \<open>SMB7 $nn\<close>
       smb fu 128 (do { set_len 2; add_pc 2; return True })
     else if opc = 0xf8 then \<comment> \<open>SED\<close>
       do { flags_or FLAG_D; add_pc 1; set_len 1; return True }
     else if opc = 0xf9 then \<comment> \<open>SBC $nnnn,Y\<close>
       do { b \<leftarrow> operand addr_absy; sbc b; set_len 3; add_pc 3; return True }
     else if opc = 0xfa then \<comment> \<open>PLX\<close>
       do { b \<leftarrow> stack_pop; load_x b; add_pc 1; set_len 1; return True }
     else if opc = 0xfb then \<comment> \<open>PLZ\<close>
       do { b \<leftarrow> stack_pop; load_z b; add_pc 1; set_len 1; return True }
     else if opc = 0xfd then \<comment> \<open>SBC $nnnn,X\<close>
       do { b \<leftarrow> operand addr_absx; sbc b; set_len 3; add_pc 3; return True }
     else if opc = 0xfe then \<comment> \<open>INC $xxxx,X\<close>
       do { set_len 3; add_pc 3; inc_mem fu addr_absx }
     else if opc = 0xff then \<comment> \<open>BBS7 $nn,$rr\<close>
       do { bbs 128; add_pc 3; set_len 3; return True }
     else do { set_len 6; return False })"

context instr_rel
begin

lemma obeys_exec_8x: "obeys R (exec_8x fu opc)"
  unfolding exec_8x_def by (intro obeys_ops)

lemma obeys_exec_9x: "obeys R (exec_9x fu opc)"
  unfolding exec_9x_def by (intro obeys_ops)

lemma obeys_exec_ax: "obeys R (exec_ax fu opc)"
  unfolding exec_ax_def by (intro obeys_ops)

lemma obeys_exec_bx: "obeys R (exec_bx fu opc)"
  unfolding exec_bx_def by (intro obeys_ops)

lemma obeys_exec_cx: "obeys R (exec_cx fu opc)"
  unfolding exec_cx_def by (intro obeys_ops)

lemma obeys_exec_dx: "obeys R (exec_dx fu opc)"
  unfolding exec_dx_def by (intro obeys_ops)

lemma obeys_exec_ex: "obeys R (exec_ex fu opc)"
  unfolding exec_ex_def by (intro obeys_ops)

lemma obeys_exec_fx: "obeys R (exec_fx fu opc)"
  unfolding exec_fx_def by (intro obeys_ops)

end

end
