(* ===== verification/Cpu.thy ===== *)
theory Cpu
  imports OpcodesLo OpcodesHi
begin

text \<open>
  \<open>execute_instruction\<close>: the fetch of six bytes at the program counter, and the opcode switch,
  put together from the sixteen groups of cases in \<open>OpcodesLo\<close> and \<open>OpcodesHi\<close>. The result
  is \<open>False\<close> where the code returns \<open>false\<close>: an opcode without a case, or a failed write.
\<close>

definition fetch_bytes :: "unit prog" where
  "fetch_bytes = do {
     p \<leftarrow> reg reg_pc;
     b0 \<leftarrow> read_memory (p + 0);
     b1 \<leftarrow> read_memory (p + 1);
     b2 \<leftarrow> read_memory (p + 2);
     b3 \<leftarrow> read_memory (p + 3);
     b4 \<leftarrow> read_memory (p + 4);
     b5 \<leftarrow> read_memory (p + 5);
     set_bytes [b0, b1, b2, b3, b4, b5]
   }"

definition execute_switch :: "nat \<Rightarrow> u8 \<Rightarrow> bool prog" where
  "execute_switch fu opc =
    (if opc < 0x10 then exec_0x fu opc
     else if opc < 0x20 then exec_1x fu opc
     else if opc < 0x30 then exec_2x fu opc
     else if opc < 0x40 then exec_3x fu opc
     else if opc < 0x50 then exec_4x fu opc
     else if opc < 0x60 then exec_5x fu opc
     else if opc < 0x70 then exec_6x fu opc
     else if opc < 0x80 then exec_7x fu opc
     else if opc < 0x90 then exec_8x fu opc
     else if opc < 0xa0 then exec_9x fu opc
     else if opc < 0xb0 then exec_ax fu opc
     else if opc < 0xc0 then exec_bx fu opc
     else if opc < 0xd0 then exec_cx fu opc
     else if opc < 0xe0 then exec_dx fu opc
     else if opc < 0xf0 then exec_ex fu opc
     else exec_fx fu opc)"

definition execute_instruction :: "nat \<Rightarrow> bool prog" where
  "execute_instruction fu = do {
     fetch_bytes;
     opc \<leftarrow> log_byte 0;
     execute_switch fu opc
   }"

context instr_rel
begin

lemma obeys_fetch_bytes: "obeys R fetch_bytes"
  unfolding fetch_bytes_def by (intro obeys_ops)

lemma obeys_execute_instruction: "obeys R (execute_instruction fu)"
  unfolding execute_instruction_def execute_switch_def
  by (intro obeys_ops obeys_fetch_bytes
      obeys_exec_0x obeys_exec_1x obeys_exec_2x obeys_exec_3x obeys_exec_4x obeys_exec_5x
      obeys_exec_6x obeys_exec_7x obeys_exec_8x obeys_exec_9x obeys_exec_ax obeys_exec_bx
      obeys_exec_cx obeys_exec_dx obeys_exec_ex obeys_exec_fx)

end

section \<open>What an instruction does not touch\<close>

text \<open>
  The log, the heap of its entries, the breakpoints and the expected contents belong to the
  test bench: no instruction and no DMA job changes them. \<open>bench_part\<close> names them together.
\<close>

definition bench_part :: "machine \<Rightarrow> _" where
  "bench_part m = (cpulog m, cpulog_len m, lastataddr m, log_heap m, log_next m, breakpoints m,
     ram_expected m, cpu_expected m, instruction_count (cpu m), in_hyper (regs_of m),
     fail_on_stack_overflow m, fail_on_stack_underflow m, hyppo_symbols m)"

lemmas frame_defs = same_def obeys_def bench_part_def upd_defs setter_defs getter_defs record_fault_def

interpretation bench: instr_rel "same bench_part"
  by unfold_locales (simp_all add: frame_defs split: option.split)

text \<open>The first fault is kept, and the error flag is never cleared.\<close>

definition first_fault :: "machine \<Rightarrow> machine \<Rightarrow> bool" where
  "first_fault s t \<longleftrightarrow> (fault s \<noteq> None \<longrightarrow> fault t = fault s)"

interpretation faults: instr_rel first_fault
  by unfold_locales
     (auto simp: first_fault_def obeys_def upd_defs setter_defs getter_defs record_fault_def
        split: option.split)

interpretation errors: instr_rel "latched (\<lambda>m. t_error (term_of m))"
  by unfold_locales
     (auto simp: latched_def obeys_def upd_defs setter_defs getter_defs record_fault_def
        split: option.split)

text \<open>A write changes neither the registers nor the log entry of the running instruction.\<close>

definition core_part :: "machine \<Rightarrow> _" where
  "core_part m = (regs_of m, curlog m, stack_overflow (cpu m), stack_underflow (cpu m),
     t_rts (term_of m), t_brk (term_of m), bench_part m)"

interpretation core: writes_rel "same core_part"
  by unfold_locales (simp_all add: frame_defs core_part_def split: option.split)

text \<open>A read changes the error flag and the fault only.\<close>

definition all_but_error :: "machine \<Rightarrow> machine" where
  "all_but_error m = upd_term (\<lambda>t. t\<lparr>t_error := False\<rparr>) (m\<lparr>fault := None\<rparr>)"

interpretation pure: reads_rel "same all_but_error"
  by unfold_locales (simp_all add: frame_defs all_but_error_def split: option.split)

lemma execute_instruction_bench:
  "bench_part (state_after (execute_instruction fu) m) = bench_part m"
  using obeysD [OF bench.obeys_execute_instruction] by (simp add: same_def)

end
