(* ===== verification/Run.thy ===== *)
theory Run
  imports Cpu
begin

text \<open>
  Running code: \<open>cpu_step\<close>, \<open>cpu_run\<close> and \<open>cpu_call_routine\<close>, with the instruction log they
  keep.

  A log entry comes from \<open>malloc\<close>: \<open>junk n\<close> is what the \<open>n\<close>-th allocation happens to hold,
  and every definition that allocates takes it as an argument. \<open>cpu_step\<close> works on the new
  entry as \<open>curlog\<close> and stores it back into the heap when \<open>execute_instruction\<close> is done.
  The messages to the log file are not modelled, the calls in their arguments that change
  the state are.
\<close>

section \<open>The instruction log\<close>

text \<open>The objects that \<open>a\<close> and \<open>b\<close> point to agree in every byte, \<open>count\<close> apart.\<close>

definition identical_cpustates :: "instruction_log \<Rightarrow> instruction_log \<Rightarrow> bool" where
  "identical_cpustates a b \<longleftrightarrow> a\<lparr>l_count := l_count b\<rparr> = b"

definition free_log :: "nat option \<Rightarrow> unit prog" where
  "free_log p = (case p of None \<Rightarrow> return ()
     | Some q \<Rightarrow> do {
         h \<leftarrow> gets log_heap;
         if h q = None then raise DoubleFree
         else modify (\<lambda>m. m\<lparr>log_heap := (log_heap m)(q := None)\<rparr>)
       })"

fun free_logs :: "nat \<Rightarrow> nat \<Rightarrow> unit prog" where
  "free_logs 0 i = return ()"
| "free_logs (Suc k) i = do { l \<leftarrow> gets cpulog; free_log (l i); free_logs k (Suc i) }"

definition cpu_log_reset :: "unit prog" where
  "cpu_log_reset = do {
     n \<leftarrow> gets cpulog_len;
     free_logs n 0;
     modify (\<lambda>m. m\<lparr>cpulog_len := 1\<rparr>);
     modify (\<lambda>m. m\<lparr>cpulog := (cpulog m)(0 := None)\<rparr>)
   }"

text \<open>\<open>bcopy\<close> of the two memories, byte for byte up to their sizes.\<close>

definition copy_bytes :: "u32 \<Rightarrow> (u32 \<Rightarrow> 'v) \<Rightarrow> (u32 \<Rightarrow> 'v) \<Rightarrow> u32 \<Rightarrow> 'v" where
  "copy_bytes n src dst = (\<lambda>i. if i < n then src i else dst i)"

definition cpu_stash_ram :: "unit prog" where
  "cpu_stash_ram = do {
     b \<leftarrow> gets ram;
     put_expected (chipram_update (copy_bytes CHIPRAM_SIZE (chipram b)));
     put_expected (hypporam_update (copy_bytes HYPPORAM_SIZE (hypporam b)))
   }"

text \<open>The address of the message, as far as it changes the state.\<close>

definition label_address :: "u32 \<Rightarrow> unit prog" where
  "label_address addr = do { addr_to_28bit addr True; return () }"

section \<open>One step\<close>

text \<open>\<open>malloc\<close>, the assignments to the new entry, and \<open>cpulog[cpulog_len++] = log\<close>.\<close>

definition new_log :: "(nat \<Rightarrow> instruction_log) \<Rightarrow> nat prog" where
  "new_log junk = do {
     n \<leftarrow> gets log_next;
     r \<leftarrow> reg id;
     let l = (junk n)\<lparr>l_regs := r, l_pc := reg_pc r, l_len := 0, l_count := 1, l_dup := 0\<rparr>;
     modify (\<lambda>m. m\<lparr>log_next := Suc n, log_heap := (log_heap m)(n \<mapsto> l), curlog := l\<rparr>);
     return n
   }"

definition append_log :: "nat \<Rightarrow> unit prog" where
  "append_log n = do {
     k \<leftarrow> gets cpulog_len;
     modify (\<lambda>m. m\<lparr>cpu := (cpu m)\<lparr>instruction_count := of_nat k\<rparr>\<rparr>);
     modify (\<lambda>m. m\<lparr>cpulog := (cpulog m)(k \<mapsto> n), cpulog_len := Suc k\<rparr>);
     (if k < MAX_LOG_LENGTH then return () else raise OutOfBounds)
   }"

definition store_log :: "nat \<Rightarrow> unit prog" where
  "store_log n = modify (\<lambda>m. m\<lparr>log_heap := (log_heap m)(n \<mapsto> curlog m)\<rparr>)"

text \<open>The test of one of the two stack flags: \<open>True\<close> when the step fails because of it.\<close>

definition check_stack :: "(cpu_state \<Rightarrow> bool) \<Rightarrow> (machine \<Rightarrow> bool) \<Rightarrow> unit prog \<Rightarrow> bool prog" where
  "check_stack flag fatal clear = do {
     b \<leftarrow> gets (\<lambda>m. flag (cpu m));
     if b then do {
       f \<leftarrow> gets fatal;
       if f then do { set_error; return True } else do { clear; return False }
     } else return False
   }"

text \<open>The entry of \<open>lastataddr\<close> for the address reached, as \<open>cpu_step\<close> updates it.\<close>

definition note_lastataddr :: "nat \<Rightarrow> unit prog" where
  "note_lastataddr n = do {
     p \<leftarrow> reg reg_pc;
     if p > 0xffff then raise OutOfBounds
     else do {
       l \<leftarrow> gets lastataddr;
       h \<leftarrow> gets log_heap;
       (case l p of
          None \<Rightarrow> modify (\<lambda>m. m\<lparr>lastataddr := (lastataddr m)(p \<mapsto> n)\<rparr>)
        | Some q \<Rightarrow> (case (h q, h n) of
             (Some a, Some b) \<Rightarrow>
               if identical_cpustates a b then do {
                 modify (\<lambda>m. m\<lparr>log_heap := (log_heap m)(q \<mapsto> a\<lparr>l_count := l_count a + 1\<rparr>)\<rparr>);
                 modify (\<lambda>m. m\<lparr>log_heap := (log_heap m)(n \<mapsto> b\<lparr>l_dup := 1\<rparr>)\<rparr>)
               } else modify (\<lambda>m. m\<lparr>lastataddr := (lastataddr m)(p \<mapsto> n)\<rparr>)
           | _ \<Rightarrow> raise UseAfterFree))
     }
   }"

text \<open>A step is the new entry of the log, the instruction, and the checks behind it.\<close>

definition begin_step :: "(nat \<Rightarrow> instruction_log) \<Rightarrow> nat prog" where
  "begin_step junk = do { n \<leftarrow> new_log junk; append_log n; return n }"

definition step_rest :: "nat \<Rightarrow> nat \<Rightarrow> bool prog" where
  "step_rest fu n = do {
     ok \<leftarrow> execute_instruction fu;
     store_log n;
     if \<not> ok then do { set_error; return False }
     else do {
       done \<leftarrow> tcond t_done;
       if done then return False
       else do {
         under \<leftarrow> check_stack stack_underflow fail_on_stack_underflow (set_stack_underflow False);
         if under then return False
         else do {
           over \<leftarrow> check_stack stack_overflow fail_on_stack_overflow (set_stack_overflow False);
           if over then return False
           else do {
             modify (\<lambda>m. m\<lparr>cpu := (cpu m)\<lparr>instruction_count := of_nat (cpulog_len m)\<rparr>\<rparr>);
             note_lastataddr n;
             return True
           }
         }
       }
     }
   }"

definition cpu_step :: "(nat \<Rightarrow> instruction_log) \<Rightarrow> nat \<Rightarrow> bool prog" where
  "cpu_step junk fu = do {
     p \<leftarrow> reg reg_pc;
     bp \<leftarrow> gets breakpoints;
     if p > 0xffff then do { raise OutOfBounds; return False }
     else if bp p \<noteq> 0 then do { label_address p; set_done; return False }
     else do { n \<leftarrow> begin_step junk; step_rest fu n }
   }"

section \<open>Running\<close>

text \<open>The detection of infinite loops after a step, \<open>True\<close> when one is found.\<close>

definition loop_detected :: "bool prog" where
  "loop_detected = do {
     p \<leftarrow> reg reg_pc;
     l \<leftarrow> gets lastataddr;
     h \<leftarrow> gets log_heap;
     if p > 0xffff then do { raise OutOfBounds; return False }
     else (case l p of
       None \<Rightarrow> do { raise NullDereference; return False }
     | Some q \<Rightarrow> (case h q of
         None \<Rightarrow> do { raise UseAfterFree; return False }
       | Some a \<Rightarrow> if l_count a > INFINITE_LOOP_THRESHOLD then do { set_error; return True }
           else return False))
   }"

lemma result_of_obeys_len:
  "obeys (same cpulog_len) p \<Longrightarrow> cpulog_len (state_after p m) = cpulog_len m"
  by (simp add: obeys_def same_def)

lemma execute_instruction_len: "obeys (same cpulog_len) (execute_instruction fu)"
  using execute_instruction_bench by (simp add: bench_part_def obeys_def same_def)

lemma append_log_len:
  "cpulog_len (state_after (append_log n) m) = Suc (cpulog_len m)"
  by (simp add: append_log_def raise_def record_fault_def split: option.split)

lemma obeys_len_prims:
  "obeys (same cpulog_len) (raise f)" "obeys (same cpulog_len) (reg g)"
  "obeys (same cpulog_len) (tcond t)" "obeys (same cpulog_len) set_error"
  "obeys (same cpulog_len) set_done" "obeys (same cpulog_len) (set_stack_underflow b)"
  "obeys (same cpulog_len) (set_stack_overflow b)" "obeys (same cpulog_len) (addr_to_28bit a w)"
  by (simp_all add: obeys_def same_def setter_defs getter_defs record_fault_def upd_defs
      addr_to_28bit_def split: option.split)

lemmas obeys_len = frame.obeys_basic obeys_len_prims execute_instruction_len

lemma obeys_len_modify: "(\<And>m. cpulog_len (f m) = cpulog_len m) \<Longrightarrow> obeys (same cpulog_len) (modify f)"
  by (simp add: obeys_def same_def)

lemma obeys_len_rest:
  "obeys (same cpulog_len) (label_address a)"
  "obeys (same cpulog_len) (store_log n)"
  "obeys (same cpulog_len) (new_log junk)"
  "obeys (same cpulog_len) loop_detected"
  "obeys (same cpulog_len) clear \<Longrightarrow> obeys (same cpulog_len) (check_stack flag fatal clear)"
  unfolding label_address_def store_log_def new_log_def loop_detected_def check_stack_def
  by (intro obeys_len obeys_len_modify; simp)+

lemma note_lastataddr_len: "obeys (same cpulog_len) (note_lastataddr n)"
  unfolding note_lastataddr_def
  by (intro obeys_len obeys_len_modify | simp split: option.split)+

lemma check_stack_len:
  "cpulog_len (state_after (check_stack fl fa (set_stack_underflow False)) s) = cpulog_len s"
  "cpulog_len (state_after (check_stack fl fa (set_stack_overflow False)) s) = cpulog_len s"
  by (intro result_of_obeys_len obeys_len_rest obeys_len_prims)+

lemmas step_len_simps =
  cpu_step_def begin_step_def step_rest_def append_log_len check_stack_len
  obeys_len_rest [THEN result_of_obeys_len] obeys_len_prims [THEN result_of_obeys_len]
  note_lastataddr_len [THEN result_of_obeys_len] execute_instruction_len [THEN result_of_obeys_len]

text \<open>Every step that goes on has appended one entry.\<close>

lemma cpu_step_len:
  assumes "result_of (cpu_step junk fu) m"
  shows "cpulog_len (state_after (cpu_step junk fu) m) = Suc (cpulog_len m)"
  using assms by (simp add: step_len_simps split: if_splits)

definition cpu_loop_step :: "(nat \<Rightarrow> instruction_log) \<Rightarrow> nat \<Rightarrow> bool prog" where
  "cpu_loop_step junk fu = do {
     ok \<leftarrow> cpu_step junk fu;
     if ok then do { inf \<leftarrow> loop_detected; return (\<not> inf) } else return False
   }"

lemma cpu_loop_step_len:
  "result_of (cpu_loop_step junk fu) m \<Longrightarrow>
    cpulog_len (state_after (cpu_loop_step junk fu) m) = Suc (cpulog_len m)"
  by (auto simp: cpu_loop_step_def cpu_step_len result_of_obeys_len obeys_len_rest split: if_splits)

text \<open>
  The loop of \<open>cpu_run\<close>. It ends because every step that goes on makes the log longer, and
  the log is bounded.
\<close>

function cpu_loop :: "(nat \<Rightarrow> instruction_log) \<Rightarrow> nat \<Rightarrow> machine \<Rightarrow> bool \<times> machine" where
  "cpu_loop junk fu m =
    (if cpulog_len m < MAX_LOG_LENGTH \<and> \<not> t_done (term_of m) then
       (let (ok, m1) = run_state (cpu_loop_step junk fu) m
        in if ok then cpu_loop junk fu m1 else (False, m1))
     else (True, m))"
  by pat_completeness auto

termination
  by (relation "measure (\<lambda>(junk, fu, m). MAX_LOG_LENGTH - cpulog_len m)")
     (auto simp: run_state_pair dest!: cpu_loop_step_len)

declare cpu_loop.simps [simp del]

definition cpu_run :: "(nat \<Rightarrow> instruction_log) \<Rightarrow> nat \<Rightarrow> bool prog" where
  "cpu_run junk fu = do {
     set_stack_overflow False;
     set_stack_underflow False;
     State (cpu_loop junk fu)
   }"

definition set_in_hyper :: "u8 \<Rightarrow> unit prog" where
  "set_in_hyper v = modify (upd_regs (\<lambda>r. r\<lparr>in_hyper := v\<rparr>))"

definition cpu_call_routine :: "(nat \<Rightarrow> instruction_log) \<Rightarrow> nat \<Rightarrow> u32 \<Rightarrow> bool prog" where
  "cpu_call_routine junk fu addr = do {
     set_spl 0xff;
     (if addr \<ge> 0x8000 \<and> addr < 0xc000 then do { set_b 0xbf; set_sph 0xbe; set_in_hyper 1 }
      else do { set_b 0x00; set_sph 0x01; set_in_hyper 0 });
     label_address addr;
     cpu_stash_ram;
     modify (\<lambda>m. m\<lparr>cpu_expected := cpu m\<rparr>);
     cpu_log_reset;
     set_pc addr;
     ok \<leftarrow> cpu_run junk fu;
     if \<not> ok then return False
     else do {
       n \<leftarrow> gets cpulog_len;
       if n = MAX_LOG_LENGTH then do { set_error; return False }
       else do {
         brk \<leftarrow> tcond t_brk;
         if brk then do { p \<leftarrow> reg reg_pc; memory_blame p; return False }
         else return True
       }
     }
   }"

end
