(* ===== verification/Bench.thy ===== *)
theory Bench
  imports Run
begin

text \<open>
  The test bench around the CPU: the initial state (\<open>machine_init\<close>, \<open>test_init\<close>) and the
  comparison of registers and memories with what a test expects
  (\<open>compare_register_contents\<close>, \<open>ignore_ram_changes\<close>, \<open>compare_ram_contents\<close>). The reports
  of the differences are not modelled, their number is.
\<close>

section \<open>Comparing\<close>

text \<open>The macros \<open>COMPARE_REG\<close>, \<open>COMPARE_REG16\<close> and \<open>COMPARE_FLAG\<close> for one register or flag.\<close>

definition compare_reg :: "(regs \<Rightarrow> 'a) \<Rightarrow> unit prog" where
  "compare_reg f = do {
     r \<leftarrow> reg f;
     e \<leftarrow> gets (\<lambda>m. f (cregs (cpu_expected m)));
     if r \<noteq> e then set_error else return ()
   }"

definition compare_register_contents :: "bool prog" where
  "compare_register_contents = do {
     compare_reg reg_a;
     compare_reg reg_x;
     compare_reg reg_y;
     compare_reg reg_z;
     compare_reg reg_b;
     compare_reg (\<lambda>r. lo8 (reg_sp r));
     compare_reg (\<lambda>r. hi8 (reg_sp r));
     compare_reg reg_pc;
     compare_reg (\<lambda>r. flag_c (reg_flags r));
     compare_reg (\<lambda>r. flag_z (reg_flags r));
     compare_reg (\<lambda>r. flag_i (reg_flags r));
     compare_reg (\<lambda>r. flag_d (reg_flags r));
     compare_reg (\<lambda>r. flag_b (reg_flags r));
     compare_reg (\<lambda>r. flag_e (reg_flags r));
     compare_reg (\<lambda>r. flag_v (reg_flags r));
     compare_reg (\<lambda>r. flag_n (reg_flags r));
     tcond t_error
   }"

text \<open>
  \<open>for (int i = low; i <= high; i++)\<close> for \<open>k\<close> iterations; \<open>i\<close> is an \<open>int\<close> that takes part in
  an unsigned comparison, so its bits are a \<open>u32\<close>, and a set sign bit is a negative index.
\<close>

fun ignore_loop :: "nat \<Rightarrow> u32 \<Rightarrow> unit prog" where
  "ignore_loop 0 i = return ()"
| "ignore_loop (Suc k) i =
    (if bit i 31 then raise OutOfBounds
     else do {
       b \<leftarrow> gets ram;
       (if i < CHIPRAM_SIZE then put_expected (chipram_update (\<lambda>h. h(i := chipram b i))) else return ());
       (if i \<ge> 0xfff8000 \<and> i < 0xfffc000
        then put_expected (hypporam_update (\<lambda>h. h(i - 0xfff8000 := hypporam b (i - 0xfff8000))))
        else return ());
       if i = 0x7fffffff then raise SignedOverflow else ignore_loop k (i + 1)
     })"

definition ignore_ram_changes :: "u32 \<Rightarrow> u32 \<Rightarrow> int prog" where
  "ignore_ram_changes low high = do { ignore_loop (unat high + 1 - unat low) low; return 0 }"

text \<open>The number of indices below \<open>n\<close> where two arrays differ.\<close>

fun count_diffs :: "nat \<Rightarrow> (u32 \<Rightarrow> u8) \<Rightarrow> (u32 \<Rightarrow> u8) \<Rightarrow> int" where
  "count_diffs 0 f g = 0"
| "count_diffs (Suc n) f g = count_diffs n f g + (if f (of_nat n) \<noteq> g (of_nat n) then 1 else 0)"

definition compare_ram_contents :: "int prog" where
  "compare_ram_contents = do {
     b \<leftarrow> gets ram;
     e \<leftarrow> gets ram_expected;
     let errors = count_diffs (unat CHIPRAM_SIZE) (chipram b) (chipram e)
       + count_diffs (unat HYPPORAM_SIZE) (hypporam b) (hypporam e)
       + count_diffs (unat COLOURRAM_SIZE) (colourram b) (colourram e)
       + count_diffs 65536 (ffdram b) (ffdram e);
     (if errors \<noteq> 0 then set_error else return ());
     return errors
   }"

section \<open>Initial states\<close>

definition zero_regs :: regs where
  "zero_regs = \<lparr>reg_pc = 0, reg_a = 0, reg_x = 0, reg_y = 0, reg_z = 0, reg_flags = 0, reg_b = 0,
     reg_sp = 0, in_hyper = 0, map_irq_inhibit = 0, maplo = 0, maphi = 0, maplomb = 0, maphimb = 0\<rparr>"

definition zero_cpu :: cpu_state where
  "zero_cpu = \<lparr>instruction_count = 0, cregs = zero_regs,
     cterm = \<lparr>t_done = False, t_error = False, t_rts = 0, t_brk = False, t_log_dma = False\<rparr>,
     stack_overflow = False, stack_underflow = False\<rparr>"

definition viciv_regs :: "u8 list" where
  "viciv_regs =
    [0x00, 0x00, 0x00, 0x00, 0x00, 0x00, 0x00, 0x00, 0x00, 0x00, 0x00, 0x00, 0x00, 0x00, 0x00,
     0x00, 0x00, 0x9B, 0x37, 0x00, 0x00, 0x00, 0xC8, 0x00, 0x14, 0x71, 0xE0, 0x00, 0x00, 0x00,
     0x00, 0x00, 0x0E, 0x06, 0x01, 0x02, 0x03, 0x04, 0x00, 0x01, 0x02, 0x03, 0x04, 0x05, 0x06,
     0x07, 0x0C, 0x00, 0x00, 0x20, 0x00, 0x00, 0x00, 0x00, 0x00, 0x00, 0x00, 0x00, 0x00, 0x00,
     0x00, 0x00, 0x00, 0x00, 0xFF, 0xFF, 0xFF, 0xFF, 0xFF, 0xFF, 0xFF, 0xFF, 0x68, 0x00, 0xF8,
     0x01, 0x50, 0x00, 0x68, 0x00, 0x0C, 0x83, 0xE9, 0x81, 0x05, 0x00, 0x00, 0x00, 80, 0, 0x78,
     0x01, 0x50, 0xC0, 0x28, 0x00, 0x00, 0xb8, 0x00, 0x00, 0x00, 0x00, 0x00, 0x00, 0x00, 0x90,
     0x00, 0x00, 0xF8, 0x07, 0x00, 0x00, 0xFF, 0x00, 0x00, 0x01, 0x00, 0x00, 0x00, 0x00, 0x00,
     0x37, 0x81, 0x18, 0xC2, 0x00, 0x00, 0x7F]"

lemma length_viciv_regs: "length viciv_regs = 0x80"
  by (simp add: viciv_regs_def)

text \<open>\<open>viciv_regs\<close> stored at offset \<open>$3000\<close> of the I/O page.\<close>

definition put_viciv :: "(u32 \<Rightarrow> u8) \<Rightarrow> u32 \<Rightarrow> u8" where
  "put_viciv f = (\<lambda>i. if i \<ge> 0x3000 \<and> i < 0x3000 + 0x80 then viciv_regs ! unat (i - 0x3000) else f i)"

definition zero_bytes :: "u32 \<Rightarrow> (u32 \<Rightarrow> 'v::zero) \<Rightarrow> u32 \<Rightarrow> 'v" where
  "zero_bytes n f = (\<lambda>i. if i < n then 0 else f i)"

fun free_names :: "hyppo_symbol list \<Rightarrow> unit prog" where
  "free_names [] = return ()"
| "free_names (s # ss) = do { free_name (sym_name s); free_names ss }"

definition machine_init :: "unit prog" where
  "machine_init = do {
     modify (\<lambda>m. m\<lparr>cpu := zero_cpu\<rparr>);
     set_flags (FLAG_E OR FLAG_I);
     set_b 0xbf;
     set_in_hyper 1;
     set_maphimb 0xff;
     modify (upd_regs (\<lambda>r. r\<lparr>maphi := 0x3f00\<rparr>));
     modify (\<lambda>m. m\<lparr>breakpoints := (\<lambda>_. 0)\<rparr>);
     modify (\<lambda>m. m\<lparr>cpu_expected := zero_cpu\<lparr>cregs := zero_regs\<lparr>reg_flags := FLAG_E OR FLAG_I\<rparr>\<rparr>\<rparr>);
     put_expected (chipram_update (zero_bytes CHIPRAM_SIZE));
     put_expected (hypporam_update (zero_bytes HYPPORAM_SIZE));
     put_expected (colourram_update (zero_bytes COLOURRAM_SIZE));
     put_expected (ffdram_update (zero_bytes 65536));
     put_ram (ffdram_update put_viciv);
     put_expected (ffdram_update put_viciv);
     put_expected (chipram_update (\<lambda>h. h(0 := 0x3f)));
     put_expected (chipram_update (\<lambda>h. h(1 := 0x27)));
     put_ram (chipram_update (\<lambda>h. h(0 := 0x3f)));
     put_ram (chipram_update (\<lambda>h. h(1 := 0x27)));
     put_blame (chipram_update (zero_bytes CHIPRAM_SIZE));
     put_blame (hypporam_update (zero_bytes HYPPORAM_SIZE));
     ss \<leftarrow> gets hyppo_symbols;
     free_names ss;
     modify (\<lambda>m. m\<lparr>hyppo_symbols := []\<rparr>);
     n \<leftarrow> gets cpulog_len;
     free_logs n 0;
     modify (\<lambda>m. m\<lparr>cpulog_len := 0\<rparr>);
     modify (\<lambda>m. m\<lparr>lastataddr := (\<lambda>_. None)\<rparr>)
   }"

text \<open>The part of \<open>test_init\<close> that is not about the log file.\<close>

definition test_init :: "unit prog" where
  "test_init = do {
     machine_init;
     modify (\<lambda>m. m\<lparr>fail_on_stack_overflow := True\<rparr>);
     modify (\<lambda>m. m\<lparr>fail_on_stack_underflow := True\<rparr>);
     hs \<leftarrow> gets hyppo_symbols;
     free_names hs;
     modify (\<lambda>m. m\<lparr>hyppo_symbols := []\<rparr>);
     modify (\<lambda>m. m\<lparr>sym_by_addr := (\<lambda>_. None)\<rparr>);
     ss \<leftarrow> gets symbols;
     free_names ss;
     modify (\<lambda>m. m\<lparr>symbols := []\<rparr>);
     modify (\<lambda>m. m\<lparr>breakpoints := (\<lambda>_. 0)\<rparr>)
   }"

text \<open>The file name made from a test's name.\<close>

definition safe_char :: "char \<Rightarrow> char" where
  "safe_char c =
    (if (of_char c :: nat) \<ge> 97 \<and> (of_char c :: nat) \<le> 122 \<or>
        (of_char c :: nat) \<ge> 65 \<and> (of_char c :: nat) \<le> 90 \<or>
        (of_char c :: nat) \<ge> 48 \<and> (of_char c :: nat) \<le> 57
     then c else CHR ''_'')"

definition safe_name :: "string \<Rightarrow> string" where
  "safe_name s = map safe_char s"

text \<open>The global variables as the program starts: C zeroes what has no initialiser.\<close>

definition zero_log :: instruction_log where
  "zero_log = \<lparr>l_pc = 0, l_bytes = replicate 6 0, l_len = 0, l_dup = 0, l_zp16 = 0, l_zp32 = 0,
     l_zp_pointer = 0, l_zp_pointer_addr = 0, l_regs = zero_regs, l_count = 0, l_pops = 0,
     l_pop_blame = replicate MAX_POPS 0, l_padding = replicate 5 0\<rparr>"

definition zero_banks :: "'v::zero banks" where
  "zero_banks = \<lparr>chipram = (\<lambda>_. 0), hypporam = (\<lambda>_. 0), colourram = (\<lambda>_. 0), ffdram = (\<lambda>_. 0)\<rparr>"

definition initial_machine :: machine where
  "initial_machine = \<lparr>cpu = zero_cpu, cpu_expected = zero_cpu,
     fail_on_stack_overflow = True, fail_on_stack_underflow = True, breakpoints = (\<lambda>_. 0),
     ram = zero_banks, ram_expected = zero_banks, blame = zero_banks,
     hyppo_symbols = [], symbols = [], sym_by_addr = (\<lambda>_. None), sym_names = (\<lambda>_. None),
     cpulog = (\<lambda>_. None), cpulog_len = 0, lastataddr = (\<lambda>_. None), log_heap = (\<lambda>_. None),
     log_next = 0, curlog = zero_log, fault = None\<rparr>"

lemmas initial_defs = initial_machine_def zero_cpu_def zero_regs_def zero_banks_def zero_log_def

section \<open>What the comparisons find\<close>

lemma run_compare_reg:
  "run_state (compare_reg f) m =
    ((), if f (regs_of m) \<noteq> f (cregs (cpu_expected m)) then upd_term (\<lambda>t. t\<lparr>t_error := True\<rparr>) m else m)"
  by (simp add: compare_reg_def getter_defs setter_defs)

lemma count_diffs_nonneg: "0 \<le> count_diffs n f g"
  by (induction n) auto

lemma count_diffs_0: "count_diffs n f g = 0 \<longleftrightarrow> (\<forall>k < n. f (of_nat k) = g (of_nat k))"
proof (induction n)
  case 0
  show ?case by simp
next
  case (Suc n)
  show ?case using count_diffs_nonneg [of n f g] Suc.IH by (auto simp: less_Suc_eq)
qed

end
