(* ===== verification/Banking.thy ===== *)
theory Banking
  imports Bench
begin

text \<open>
  What the banking amounts to: the C64 memory map as the PLA chip defines it, as a
  specification that \<open>c64_bank\<close> implements, the hypervisor's view of its own memory after
  \<open>machine_init\<close>, and the absence of wild accesses through 16-bit addresses.
\<close>

section \<open>The memory map of the PLA\<close>

text \<open>
  The ROMs and the I/O area of the C64 by address range: BASIC at \<open>$A000\<close> with LORAM and
  HIRAM, the KERNAL at \<open>$E000\<close> with HIRAM, and at \<open>$D000\<close> with either of the two the I/O
  area or, for reads, the character ROM, as CHAREN says. A write under a ROM reaches RAM.
\<close>

definition pla_view :: "bool \<Rightarrow> bool \<Rightarrow> bool \<Rightarrow> u32 \<Rightarrow> bool \<Rightarrow> u32" where
  "pla_view loram hiram charen a writeP =
    (if 0xa000 \<le> a \<and> a < 0xc000 \<and> \<not> writeP \<and> loram \<and> hiram then 0x2a000 + (a - 0xa000)
     else if 0xd000 \<le> a \<and> a < 0xe000 \<and> (loram \<or> hiram) then
       (if charen then 0xffd3000 + (a - 0xd000)
        else if \<not> writeP then 0x2d000 + (a - 0xd000) else a)
     else if 0xe000 \<le> a \<and> \<not> writeP \<and> hiram then 0x2e000 + (a - 0xe000)
     else a)"

lemma or_eq_plus: "take_bit n (b :: u32) = 0 \<Longrightarrow> take_bit n a OR b = b + take_bit n a"
proof -
  assume b: "take_bit n b = 0"
  have "take_bit n a AND b = 0"
  proof (rule bit_word_eqI)
    fix k
    have "\<not> bit (take_bit n b) k" using b by simp
    then show "bit (take_bit n a AND b) k = bit 0 k"
      by (auto simp: bit_and_iff bit_take_bit_iff)
  qed
  then have "take_bit n a + b = take_bit n a OR b" by (rule disjunctive_add_eq_or)
  then show ?thesis by (simp add: add.commute)
qed

lemma take_bit_sub:
  assumes "c \<le> a" and "unat (a :: u32) < unat c + 2 ^ n" and "take_bit n (unat c) = 0"
  shows "take_bit n a = a - c"
proof -
  have "unat (a - c) = unat a - unat c" using assms(1) by (rule unat_sub)
  moreover have "unat (take_bit n a) = unat a mod 2 ^ n"
    unfolding unsigned_take_bit_eq by (simp add: take_bit_eq_mod)
  moreover obtain k where "unat c = 2 ^ n * k" using assms(3) by (auto simp: take_bit_eq_mod)
  moreover have "unat c \<le> unat a" using assms(1) by (simp add: word_le_nat_alt)
  ultimately have "unat (take_bit n a) = unat (a - c)"
    using assms(2) by (metis add_diff_cancel_left' le_add_diff_inverse mod_less mod_mult_self2
        nat_add_left_cancel_less add.commute)
  then show ?thesis by (rule unsigned_word_eqI)
qed

lemma bank_range:
  assumes "(a :: u32) \<le> 0xffff" and "unat k < 16"
  shows "drop_bit 12 a = k \<longleftrightarrow> 4096 * unat k \<le> unat a \<and> unat a < 4096 * unat k + 4096"
proof -
  have "drop_bit 12 a = k \<longleftrightarrow> unat a div 4096 = unat k"
    unfolding word_unat_eq_iff unat_drop_bit by simp
  also have "\<dots> \<longleftrightarrow> 4096 * unat k \<le> unat a \<and> unat a < 4096 * unat k + 4096"
    by linarith
  finally show ?thesis .
qed

lemma lnc_cases:
  assumes "(l :: u8) < 8" shows "l \<in> {0, 1, 2, 3, 4, 5, 6, 7}"
proof -
  have "unat l < 8" using assms by (simp add: word_less_nat_alt)
  then have "unat l \<in> {0, 1, 2, 3, 4, 5, 6, 7}" by auto
  then show ?thesis by (auto simp only: insert_iff empty_iff word_unat_eq_iff unsigned_numeral) simp_all
qed

lemma bank_cases:
  assumes "(a :: u32) \<le> 0xffff"
  shows "\<not> drop_bit 12 a > 15"
    and "drop_bit 12 a = 13 \<longleftrightarrow> 0xd000 \<le> a \<and> a < 0xe000"
    and "drop_bit 12 a = 10 \<or> drop_bit 12 a = 11 \<longleftrightarrow> 0xa000 \<le> a \<and> a < 0xc000"
    and "drop_bit 12 a = 14 \<or> drop_bit 12 a = 15 \<longleftrightarrow> 0xe000 \<le> a"
proof -
  have u: "unat a \<le> 0xffff" using assms by (simp add: word_le_nat_alt)
  have "unat (drop_bit 12 a) \<le> 15" unfolding unat_drop_bit using u by simp
  then show "\<not> drop_bit 12 a > 15" by (simp add: word_less_nat_alt)
  show "drop_bit 12 a = 13 \<longleftrightarrow> 0xd000 \<le> a \<and> a < 0xe000"
    "drop_bit 12 a = 10 \<or> drop_bit 12 a = 11 \<longleftrightarrow> 0xa000 \<le> a \<and> a < 0xc000"
    "drop_bit 12 a = 14 \<or> drop_bit 12 a = 15 \<longleftrightarrow> 0xe000 \<le> a"
    using u by (auto simp: bank_range [OF assms] word_le_nat_alt word_less_nat_alt)
qed

lemma bank_values:
  "0xd000 \<le> (a :: u32) \<Longrightarrow> a < 0xe000 \<Longrightarrow> (a AND 0xfff) OR 0x2d000 = 0x2d000 + (a - 0xd000)"
  "0xd000 \<le> (a :: u32) \<Longrightarrow> a < 0xe000 \<Longrightarrow> (a AND 0xfff) OR 0xffd3000 = 0xffd3000 + (a - 0xd000)"
  "0xa000 \<le> (a :: u32) \<Longrightarrow> a < 0xc000 \<Longrightarrow> (a AND 0x1fff) OR 0x2a000 = 0x2a000 + (a - 0xa000)"
  "0xe000 \<le> (a :: u32) \<Longrightarrow> a \<le> 0xffff \<Longrightarrow> (a AND 0x1fff) OR 0x2e000 = 0x2e000 + (a - 0xe000)"
proof -
  assume "0xd000 \<le> a" "a < 0xe000"
  then have t: "take_bit 12 a = a - 0xd000" by (intro take_bit_sub) (simp_all add: word_less_nat_alt)
  show "(a AND 0xfff) OR 0x2d000 = 0x2d000 + (a - 0xd000)"
    "(a AND 0xfff) OR 0xffd3000 = 0xffd3000 + (a - 0xd000)"
    unfolding and_mask12 t [symmetric] by (rule or_eq_plus; simp)+
next
  assume "0xa000 \<le> a" "a < 0xc000"
  then have t: "take_bit 13 a = a - 0xa000" by (intro take_bit_sub) (simp_all add: word_less_nat_alt)
  show "(a AND 0x1fff) OR 0x2a000 = 0x2a000 + (a - 0xa000)"
    unfolding and_mask13 t [symmetric] by (rule or_eq_plus) simp
next
  assume "0xe000 \<le> a" "a \<le> 0xffff"
  then have t: "take_bit 13 a = a - 0xe000"
    by (intro take_bit_sub) (simp_all add: word_le_nat_alt)
  show "(a AND 0x1fff) OR 0x2e000 = 0x2e000 + (a - 0xe000)"
    unfolding and_mask13 t [symmetric] by (rule or_eq_plus) simp
qed

lemma c64_bank_pla:
  assumes "l < 8" and a: "addr \<le> 0xffff"
  shows "c64_bank l addr w = pla_view (bit l 0) (bit l 1) (bit l 2) addr w"
proof -
  have l: "l = 0 \<or> l = 1 \<or> l = 2 \<or> l = 3 \<or> l = 4 \<or> l = 5 \<or> l = 6 \<or> l = 7"
    using lnc_cases [OF assms(1)] by simp
  have bits: "bit (2 :: u8) 0 = False" "bit (2 :: u8) 1" "bit (2 :: u8) 2 = False"
    "bit (3 :: u8) 0" "bit (3 :: u8) 1" "bit (3 :: u8) 2 = False"
    "bit (4 :: u8) 0 = False" "bit (4 :: u8) 1 = False" "bit (4 :: u8) 2"
    "bit (5 :: u8) 0" "bit (5 :: u8) 1 = False" "bit (5 :: u8) 2"
    "bit (6 :: u8) 0 = False" "bit (6 :: u8) 1" "bit (6 :: u8) 2"
    "bit (7 :: u8) 0" "bit (7 :: u8) 1" "bit (7 :: u8) 2"
    "bit (1 :: u8) 0" "bit (1 :: u8) 1 = False" "bit (1 :: u8) 2 = False"
    by (simp_all add: bit_1_iff)
  consider (io) "0xd000 \<le> addr" "addr < 0xe000" | (basic) "0xa000 \<le> addr" "addr < 0xc000"
    | (kernal) "0xe000 \<le> addr"
    | (ram) "\<not> (0xd000 \<le> addr \<and> addr < 0xe000)" "\<not> (0xa000 \<le> addr \<and> addr < 0xc000)"
        "\<not> 0xe000 \<le> addr"
    by blast
  then show ?thesis
  proof cases
    case io
    then have "\<not> addr < 0xc000" "\<not> 0xe000 \<le> addr"
      by (auto simp: word_le_nat_alt word_less_nat_alt)
    with io l show ?thesis
      by (elim disjE; simp add: c64_bank_def Let_def pla_view_def bank_cases [OF a] bank_values bits)
  next
    case basic
    then have "\<not> 0xd000 \<le> addr" "\<not> 0xe000 \<le> addr"
      by (auto simp: word_le_nat_alt word_less_nat_alt)
    with basic l show ?thesis
      by (elim disjE; simp add: c64_bank_def Let_def pla_view_def bank_cases [OF a] bank_values bits)
  next
    case kernal
    then have "\<not> addr < 0xe000" "\<not> addr < 0xc000"
      by (auto simp: word_le_nat_alt word_less_nat_alt)
    with kernal l show ?thesis
      by (elim disjE; simp add: c64_bank_def Let_def pla_view_def bank_cases [OF a] bank_values(4) [OF _ a] bits)
  next
    case ram
    then have "drop_bit 12 addr \<noteq> 13" "drop_bit 12 addr \<noteq> 10" "drop_bit 12 addr \<noteq> 11"
      "drop_bit 12 addr \<noteq> 14" "drop_bit 12 addr \<noteq> 15"
      using bank_cases [OF a] by blast+
    then have "c64_bank l addr w = addr"
      using bank_cases(1) [OF a] by (simp add: c64_bank_def Let_def)
    moreover have "pla_view x y z addr w = addr" for x y z
      using ram by (auto simp: pla_view_def)
    ultimately show ?thesis by simp
  qed
qed

text \<open>A port line is high when it is an input or driven high.\<close>

definition port_line :: "u8 banks \<Rightarrow> nat \<Rightarrow> bool" where
  "port_line b k \<longleftrightarrow> bit (chipram b 1) k \<or> \<not> bit (chipram b 0) k"

lemma and_7_u8: "(v :: u8) AND 7 = take_bit 3 v"
  by (simp add: take_bit_eq_mask mask_eq_exp_minus_1)

lemma port_lnc_lines:
  "port_lnc b < 8" "k < 3 \<Longrightarrow> bit (port_lnc b) k \<longleftrightarrow> port_line b k"
proof -
  have "take_bit 3 (port_lnc b) = port_lnc b"
    by (simp add: port_lnc_def and_7_u8 take_bit_or)
  then have "unat (port_lnc b) < 2 ^ 3" by (rule unat_less_take_bit)
  then show "port_lnc b < 8" by (simp add: word_less_nat_alt)
  show "k < 3 \<Longrightarrow> bit (port_lnc b) k \<longleftrightarrow> port_line b k"
    by (simp add: port_lnc_def and_7_u8 port_line_def bit_or_iff bit_take_bit_iff bit_not_iff
        possible_bit_def)
qed

lemma map_addr_banked:
  assumes "unmapped_zone r addr" and "addr \<le> 0xffff"
  shows "map_addr r b addr w = pla_view (port_line b 0) (port_line b 1) (port_line b 2) addr w"
  using map_zone_unmapped [OF assms] c64_bank_pla [OF port_lnc_lines(1) assms(2), of b w]
  by (simp add: map_addr_def port_lnc_lines(2))

text \<open>An enabled zone overrides the banking.\<close>

lemma drop_13_less: "(addr :: u32) \<le> 0xffff \<Longrightarrow> unat (drop_bit 13 addr) < 8"
  unfolding unat_drop_bit by (simp add: word_le_nat_alt div_less_iff_less_mult)

lemma map_addr_mapped_lo:
  assumes "addr < 0x8000" and "bit (maplo r) (12 + unat addr div 0x2000)"
  shows "map_addr r b addr w
    = addr + push_bit 8 (ucast (maplo r AND 0xfff)) + push_bit 20 (ucast (maplomb r))"
proof -
  have u: "unat addr div 0x2000 < 4"
    using assms(1) by (simp add: word_less_nat_alt div_less_iff_less_mult)
  have d: "unat (drop_bit 13 addr) = unat addr div 0x2000" unfolding unat_drop_bit by simp
  have z: "drop_bit 13 addr < 4" "\<not> drop_bit 13 addr > 7" using u d by (simp_all add: word_less_nat_alt)
  have "unat (12 + drop_bit 13 addr) = 12 + unat addr div 0x2000"
    using u d by (simp add: unat_word_ariths)
  with assms(2) z show ?thesis
    by (simp add: map_addr_def map_zone_def Let_def and_1_bit bit_drop_bit_eq)
qed

lemma map_addr_mapped_hi:
  assumes "addr \<ge> 0x8000" and "addr \<le> 0xffff" and "bit (maphi r) (8 + unat addr div 0x2000)"
  shows "map_addr r b addr w
    = addr + push_bit 8 (ucast (maphi r AND 0xfff)) + push_bit 20 (ucast (maphimb r))"
proof -
  have u: "4 \<le> unat addr div 0x2000" "unat addr div 0x2000 < 8"
    using assms(1,2) by (simp_all add: word_le_nat_alt div_less_iff_less_mult less_eq_div_iff_mult_less_eq)
  have d: "unat (drop_bit 13 addr) = unat addr div 0x2000" unfolding unat_drop_bit by simp
  have z: "\<not> drop_bit 13 addr < 4" "\<not> drop_bit 13 addr > 7" "drop_bit 13 addr > 3"
    using u d by (simp_all add: word_less_nat_alt)
  have "unat (8 + drop_bit 13 addr) = 8 + unat addr div 0x2000"
    using u d by (simp add: unat_word_ariths)
  with assms(3) z show ?thesis
    by (simp add: map_addr_def map_zone_def Let_def and_1_bit bit_drop_bit_eq)
qed

section \<open>The view after a reset\<close>

lemma free_name_frame:
  "obeys (same (\<lambda>m. m\<lparr>sym_names := \<lambda>_. None, fault := None\<rparr>)) (free_name n)"
  by (simp add: free_name_def same_def obeys_def raise_def record_fault_def split: option.split)

lemma free_names_frame:
  "obeys (same (\<lambda>m. m\<lparr>sym_names := \<lambda>_. None, fault := None\<rparr>)) (free_names ss)"
  by (induction ss) (simp_all add: frame.obeys_basic free_name_frame)

lemma free_log_frame:
  "obeys (same (\<lambda>m. m\<lparr>log_heap := \<lambda>_. None, fault := None\<rparr>)) (free_log p)"
  by (simp add: free_log_def same_def obeys_def raise_def record_fault_def split: option.split)

lemma free_logs_frame:
  "obeys (same (\<lambda>m. m\<lparr>log_heap := \<lambda>_. None, fault := None\<rparr>)) (free_logs k i)"
  by (induction k arbitrary: i) (simp_all add: frame.obeys_basic free_log_frame)

lemma free_names_keep:
  fixes f :: "machine \<Rightarrow> 'a"
  assumes "\<And>x. f (x\<lparr>sym_names := \<lambda>_. None, fault := None\<rparr>) = f x"
  shows "f (state_after (free_names ss) m) = f m"
  using obeysD [OF free_names_frame, of m ss, unfolded same_def] assms by metis

lemma free_logs_keep:
  fixes f :: "machine \<Rightarrow> 'a"
  assumes "\<And>x. f (x\<lparr>log_heap := \<lambda>_. None, fault := None\<rparr>) = f x"
  shows "f (state_after (free_logs k i) m) = f m"
  using obeysD [OF free_logs_frame, of m k i, unfolded same_def] assms by metis

definition reset_regs :: regs where
  "reset_regs = zero_regs\<lparr>reg_flags := 0x24, reg_b := 0xbf, in_hyper := 1, maphimb := 0xff, maphi := 0x3f00\<rparr>"

definition reset_ram :: "u8 banks \<Rightarrow> u8 banks" where
  "reset_ram b = b\<lparr>ffdram := put_viciv (ffdram b), chipram := (chipram b)(0 := 0x3f, 1 := 0x27)\<rparr>"

lemma machine_init_regs: "regs_of (state_after machine_init m) = reset_regs"
  by (simp add: machine_init_def free_names_keep [where f = regs_of] free_logs_keep [where f = regs_of]
      setter_defs getter_defs upd_defs set_in_hyper_def put_expected_def zero_cpu_def reset_regs_def
      flag_masks)

lemma machine_init_ram: "ram (state_after machine_init m) = reset_ram (ram m)"
  by (simp add: machine_init_def free_names_keep [where f = ram] free_logs_keep [where f = ram]
      setter_defs getter_defs upd_defs set_in_hyper_def put_expected_def reset_ram_def)

lemma reset_map_addr:
  assumes "addr \<le> 0xffff"
  shows "map_addr reset_regs (reset_ram b) addr w =
    (if 0x8000 \<le> addr \<and> addr < 0xc000 then addr + 0xfff0000 else pla_view True True True addr w)"
proof -
  have u: "unat addr \<le> 0xffff" using assms by (simp add: word_le_nat_alt)
  have bits: "bit (0x3f00 :: u16) 12" "bit (0x3f00 :: u16) 13" "\<not> bit (0x3f00 :: u16) 14"
    "\<not> bit (0x3f00 :: u16) 15" by simp_all
  have d: "unat (drop_bit 13 addr) = unat addr div 0x2000" unfolding unat_drop_bit by simp
  show ?thesis
  proof (cases "0x8000 \<le> addr \<and> addr < 0xc000")
    case True
    then have "0x8000 \<le> unat addr" "unat addr < 0xc000"
      by (simp_all add: word_le_nat_alt word_less_nat_alt)
    then have "unat addr div 0x2000 = 4 \<or> unat addr div 0x2000 = 5" by linarith
    then have "bit (maphi reset_regs) (8 + unat addr div 0x2000)"
      using bits by (elim disjE) (simp_all add: reset_regs_def)
    moreover have "push_bit 8 (ucast ((0x3f00 :: u16) AND 0xfff)) + push_bit 20 (ucast (0xff :: u8))
      = (0xfff0000 :: u32)" by simp
    ultimately show ?thesis
      using True assms by (simp add: map_addr_mapped_hi reset_regs_def add.assoc)
  next
    case False
    have "unmapped_zone reset_regs addr"
    proof (cases "addr < 0x8000")
      case True
      then have "unat addr div 0x2000 < 4" by (simp add: word_less_nat_alt div_less_iff_less_mult)
      then have "drop_bit 13 addr < 4" using d by (simp add: word_less_nat_alt)
      then show ?thesis by (simp add: unmapped_zone_def reset_regs_def zero_regs_def)
    next
      case hi: False
      with False have "0xc000 \<le> unat addr" by (auto simp: word_le_nat_alt word_less_nat_alt)
      then have z: "unat addr div 0x2000 = 6 \<or> unat addr div 0x2000 = 7" using u by linarith
      then have "\<not> drop_bit 13 addr < 4" using d by (auto simp: word_less_nat_alt)
      moreover have "unat (8 + drop_bit 13 addr) = 8 + unat addr div 0x2000"
        using z d by (auto simp: unat_word_ariths)
      ultimately show ?thesis
        using z bits by (auto simp: unmapped_zone_def reset_regs_def Let_def)
    qed
    moreover have "port_line (reset_ram b) 0" "port_line (reset_ram b) 1" "port_line (reset_ram b) 2"
      by (simp_all add: port_line_def reset_ram_def)
    ultimately have "map_addr reset_regs (reset_ram b) addr w = pla_view True True True addr w"
      using map_addr_banked [OF _ assms] by simp
    with False show ?thesis by argo
  qed
qed

section \<open>Properties\<close>

text \<open>
  C12: Where no MAP zone is enabled, a 16-bit address is banked exactly as the PLA of the C64
  does it, for reads and for writes and for every setting of the CPU port.
\<close>

theorem banking_implements_pla:
  assumes "unmapped_zone (regs_of m) addr" and "addr \<le> 0xffff"
  shows "run_state (addr_to_28bit addr w) m =
    (pla_view (port_line (ram m) 0) (port_line (ram m) 1) (port_line (ram m) 2) addr w, m)"
  using assms by (simp add: run_addr_to_28bit map_addr_banked)

theorem banking_implements_pla_witness:
  "run_state (addr_to_28bit 0xa123 False) initial_machine = (0x2a123, initial_machine)"
  using banking_implements_pla [of initial_machine "0xa123" False]
  by (simp add: unmapped_zone_def initial_defs pla_view_def port_line_def)

text \<open>
  After a reset the hypervisor memory is at \<open>$8000\<close> to \<open>$BFFF\<close>, and everything else is
  seen as with all three port lines high: I/O at \<open>$D000\<close>, the KERNAL at \<open>$E000\<close>.
\<close>

theorem reset_memory_map:
  assumes "addr \<le> 0xffff"
  shows "run_state (addr_to_28bit addr w) (state_after machine_init m) =
    (if 0x8000 \<le> addr \<and> addr < 0xc000 then addr + 0xfff0000 else pla_view True True True addr w,
     state_after machine_init m)"
  using assms by (simp add: run_addr_to_28bit machine_init_regs machine_init_ram reset_map_addr)

theorem reset_memory_map_witness:
  "run_state (addr_to_28bit 0x8123 True) (state_after machine_init initial_machine)
    = (0xfff8123, state_after machine_init initial_machine)"
  using reset_memory_map [of "0x8123" True initial_machine] by simp

text \<open>
  A 16-bit read or blame lookup is defined for every address: it never indexes a memory
  out of range, it changes nothing, and an address above \<open>$FFFF\<close> only sets the error flag.
\<close>

theorem read_memory_total:
  "run_state (read_memory addr) m =
     (bus_value m addr, if addr \<le> 0xffff then m else upd_term (\<lambda>t. t\<lparr>t_error := True\<rparr>) m)"
  using run_read_memory [of addr m] run_read_memory_error [of addr m] by (simp add: not_le)

text \<open>
  An enabled MAP zone overrides the banking: the address is offset by the 12-bit value of
  the register times 256 and by the megabyte of its half, for reads and writes alike.
\<close>

theorem map_overrides_banking:
  assumes "addr \<le> 0xffff"
    and "bit (if addr < 0x8000 then maplo (regs_of m) else maphi (regs_of m))
          ((if addr < 0x8000 then 12 else 8) + unat addr div 0x2000)"
  shows "run_state (addr_to_28bit addr w) m =
    (if addr < 0x8000
     then addr + push_bit 8 (ucast (maplo (regs_of m) AND 0xfff)) + push_bit 20 (ucast (maplomb (regs_of m)))
     else addr + push_bit 8 (ucast (maphi (regs_of m) AND 0xfff)) + push_bit 20 (ucast (maphimb (regs_of m))), m)"
  using assms by (simp add: run_addr_to_28bit map_addr_mapped_lo map_addr_mapped_hi split: if_splits)

theorem map_overrides_banking_witness:
  "run_state (addr_to_28bit 0xa123 False) (upd_regs (\<lambda>_. reset_regs) initial_machine)
    = (0xfffa123, upd_regs (\<lambda>_. reset_regs) initial_machine)"
  using map_overrides_banking [of "0xa123" "upd_regs (\<lambda>_. reset_regs) initial_machine" False]
  by (simp add: reset_regs_def upd_regs_def)

end
