(* ===== verification/DmaLaws.thy ===== *)
theory DmaLaws
  imports Banking
begin

text \<open>
  What writes and DMA jobs do: a plain write is one store, a fill or copy job is a sequence
  of stores, one write function is independent of the fuel that it is given beyond what it
  needs, and the table of symbols follows the copies.
\<close>

section \<open>Plain writes\<close>

text \<open>Addresses where a write stores the byte and does nothing else.\<close>

definition plain_write :: "u32 \<Rightarrow> u8 \<Rightarrow> bool" where
  "plain_write a v \<longleftrightarrow> backed (region_of a) \<and> a \<noteq> 0xffd3700 \<and> a \<noteq> 0xffd3702 \<and> a \<noteq> 0xffd3705
     \<and> \<not> (a = 0 \<and> (v = 0x40 \<or> v = 0x41))"

definition stored :: "u32 \<Rightarrow> u8 \<Rightarrow> machine \<Rightarrow> machine" where
  "stored a v m = m\<lparr>ram := poke (region_of a) v (ram m),
     blame := poke (region_of a) (instruction_count (cpu m)) (blame m)\<rparr>"

definition loaded :: "machine \<Rightarrow> u32 \<Rightarrow> u8" where
  "loaded m a = peek (ram m) 0xbd (region_of a)"

lemma stored_simps [simp]:
  "cpu (stored a v m) = cpu m" "symbols (stored a v m) = symbols m" "fault (stored a v m) = fault m"
  by (simp_all add: stored_def)

interpretation machine_store: byte_store loaded stored "\<lambda>a. backed (region_of a)"
proof
  fix a :: u32 and v s
  show "backed (region_of a) \<Longrightarrow> loaded (stored a v s) a = v"
    by (simp add: loaded_def stored_def banks_store.load_store_same)
next
  fix a c :: u32 and v s
  show "a \<noteq> c \<Longrightarrow> loaded (stored a v s) c = loaded s c"
    by (simp add: loaded_def stored_def banks_store.load_store_other)
qed

lemma run_write_mem28_with:
  assumes "plain_write a v"
  shows "run_state (write_mem28_with dma a v) m = (0, stored a v m)"
proof -
  note d = plain_write_def stored_def write_mem28_with_def icount_def put_blame_def put_ram_def
    io_action_def region_of_def
  consider (hyppo) "a \<ge> 0xfff8000 \<and> a < 0xfffc000"
    | (chip) "\<not> (a \<ge> 0xfff8000 \<and> a < 0xfffc000)" "a < CHIPRAM_SIZE"
    | (colour) "\<not> (a \<ge> 0xfff8000 \<and> a < 0xfffc000)" "\<not> a < CHIPRAM_SIZE"
        "a \<ge> 0xff80000 \<and> a < 0xff80000 + COLOURRAM_SIZE"
    | (io) "\<not> (a \<ge> 0xfff8000 \<and> a < 0xfffc000)" "\<not> a < CHIPRAM_SIZE"
        "\<not> (a \<ge> 0xff80000 \<and> a < 0xff80000 + COLOURRAM_SIZE)" "a AND 0xfff0000 = 0xffd0000"
    | (none) "\<not> (a \<ge> 0xfff8000 \<and> a < 0xfffc000)" "\<not> a < CHIPRAM_SIZE"
        "\<not> (a \<ge> 0xff80000 \<and> a < 0xff80000 + COLOURRAM_SIZE)" "a AND 0xfff0000 \<noteq> 0xffd0000"
    by blast
  then show ?thesis
  proof cases
    case hyppo
    then show ?thesis by (simp add: d)
  next
    case chip
    then show ?thesis using assms by (simp only: d if_False if_True) auto
  next
    case colour
    then show ?thesis by (simp only: d if_False if_True) simp
  next
    case io
    then show ?thesis using assms by (simp only: d if_False if_True) (simp split: if_splits)
  next
    case none
    then show ?thesis using assms by (simp only: d if_False if_True) simp
  qed
qed

lemma run_write_mem28:
  "plain_write a v \<Longrightarrow> run_state (write_mem28 fu a v) m = (0, stored a v m)"
  by (cases fu) (simp_all add: run_write_mem28_with)

lemma run_read_memory28_loaded:
  "region_of a \<noteq> Wild \<Longrightarrow> run_state (read_memory28 a) m = (loaded m a, m)"
  by (simp add: run_read_memory28 loaded_def)

text \<open>A write reports success whatever happens.\<close>

lemma write_mem28_with_result: "result_of (write_mem28_with dma a v) m = 0"
  by (simp add: write_mem28_with_def)

lemma write_mem28_result: "result_of (write_mem28 fu a v) m = 0"
  by (cases fu) (simp_all add: write_mem28_with_result)

section \<open>Fuel\<close>

text \<open>
  \<open>q\<close> does what \<open>p\<close> does wherever \<open>p\<close> ends without a fault. Programs built in the same way
  from such parts are related; what follows a part must not forget a fault.
\<close>

definition extends :: "'a prog \<Rightarrow> 'a prog \<Rightarrow> bool" where
  "extends p q \<longleftrightarrow> (\<forall>m. fault (state_after p m) = None \<longrightarrow> run_state q m = run_state p m)"

lemma extends_refl: "extends p p"
  by (simp add: extends_def)

lemma extends_bind:
  assumes "extends p q" and "\<And>x. extends (f x) (g x)" and "\<And>x. obeys first_fault (f x)"
  shows "extends (bind_state p f) (bind_state q g)"
  unfolding extends_def
proof (intro allI impI)
  fix m
  assume e: "fault (state_after (bind_state p f) m) = None"
  let ?x = "result_of p m" and ?m = "state_after p m"
  from e have e2: "fault (state_after (f ?x) ?m) = None" by simp
  with assms(3) have "fault ?m = None"
    unfolding obeys_def first_fault_def by (metis)
  with assms(1) have "run_state q m = (?x, ?m)" unfolding extends_def by (metis run_state_pair)
  moreover from assms(2) e2 have "run_state (g ?x) ?m = run_state (f ?x) ?m"
    unfolding extends_def by blast
  moreover have "run_state p m = (?x, ?m)" by (rule run_state_pair)
  ultimately show "run_state (bind_state q g) m = run_state (bind_state p f) m"
    by simp
qed

lemma extends_if: "extends p q \<Longrightarrow> extends p' q' \<Longrightarrow> extends (if c then p else p') (if c then q else q')"
  by simp

lemma extends_option:
  "extends p q \<Longrightarrow> (\<And>x. extends (f x) (g x)) \<Longrightarrow>
    extends (case v of None \<Rightarrow> p | Some x \<Rightarrow> f x) (case v of None \<Rightarrow> q | Some x \<Rightarrow> g x)"
  by (cases v) auto

lemma extends_prod:
  "(\<And>x y. extends (f x y) (g x y)) \<Longrightarrow>
    extends (case v of (x, y) \<Rightarrow> f x y) (case v of (x, y) \<Rightarrow> g x y)"
  by (cases v) auto

lemma extends_raise: "extends (bind_state (raise f) (\<lambda>_. return x)) q"
  by (simp add: extends_def raise_def record_fault_def split: option.split)

lemma extends_let: "(\<And>x. extends (f x) (g x)) \<Longrightarrow> extends (let x = a in f x) (let x = a in g x)"
  by simp

lemmas extends_intros = extends_let extends_bind extends_if extends_option extends_prod

lemma extends_trans: "extends p q \<Longrightarrow> extends q r \<Longrightarrow> extends p r"
  unfolding extends_def by (metis run_state_pair prod.inject)

lemma extends_dma_options: "extends (dma_options n a v) (dma_options (Suc n) a v)"
proof (induction n arbitrary: a v)
  case 0
  show ?case by (simp only: dma_options.simps extends_raise)
next
  case (Suc n)
  show ?case
    by (subst (1 2) dma_options.simps(2))
       (intro extends_intros extends_refl Suc.IH faults.obeys_dma_options faults.obeys_dma_option
          faults.obeys_prims)
qed

lemma extends_dma_loop:
  assumes "\<And>a v. extends (wr a v) (wr' a v)" and f: "\<And>a v. obeys first_fault (wr a v)"
  shows "extends (dma_loop wr j n v s d) (dma_loop wr' j n v s d)"
proof (induction n arbitrary: v s d)
  case 0
  show ?case by (simp only: dma_loop.simps extends_refl)
next
  case (Suc n)
  have e: "extends (dma_element wr j s d) (dma_element wr' j s d)" for s d
    unfolding dma_element_def by (intro extends_intros extends_refl assms faults.obeys_prims)
  show ?case
    by (simp only: dma_loop.simps)
       (intro extends_intros extends_refl e Suc.IH faults.obeys_prims faults.obeys_dma_loop
          faults.obeys_update_src faults.obeys_update_dest f)
qed

lemma extends_dma_jobs:
  assumes "\<And>a v. extends (wr a v) (wr' a v)" and f: "\<And>a v. obeys first_fault (wr a v)"
    and "\<And>a v. extends (dma_options fu a v) (dma_options fu' a v)"
  shows "extends (dma_jobs n fu wr e a v) (dma_jobs (Suc n) fu' wr' e a v)"
proof (induction n arbitrary: a v)
  case 0
  show ?case by (simp only: dma_jobs.simps(1) extends_raise)
next
  case (Suc n)
  show ?case
    by (subst (1 2) dma_jobs.simps(2))
       (intro extends_intros extends_refl assms extends_dma_loop Suc.IH faults.obeys_prims
          faults.obeys_dma_options faults.obeys_read_dma_list faults.obeys_dma_symbols
          faults.obeys_dma_loop faults.obeys_dma_jobs)
qed

lemma extends_write_mem28_with:
  assumes "\<And>e a. extends (dma e a) (dma' e a)" and f: "\<And>e a. obeys first_fault (dma e a)"
  shows "extends (write_mem28_with dma a v) (write_mem28_with dma' a v)"
  unfolding write_mem28_with_def io_action_def
  by (intro extends_intros extends_refl assms faults.obeys_prims faults.obeys_icount)

lemma extends_write_mem28: "extends (write_mem28 fu a v) (write_mem28 (Suc fu) a v)"
proof (induction fu arbitrary: a v)
  case 0
  show ?case
    by (simp only: write_mem28.simps)
       (intro extends_write_mem28_with extends_raise faults.obeys_prims)
next
  case (Suc fu)
  show ?case
    by (subst (1 2) write_mem28.simps(2), unfold do_dma_with_def)
       (intro extends_write_mem28_with extends_dma_jobs Suc.IH extends_dma_options
          faults.obeys_write_mem28 faults.obeys_dma_jobs)
qed

lemma extends_write_mem28_more: "extends (write_mem28 fu a v) (write_mem28 (fu + k) a v)"
proof (induction k)
  case 0
  show ?case by (simp add: extends_refl)
next
  case (Suc k)
  then show ?case using extends_write_mem28 [of "fu + k"] by (auto intro: extends_trans)
qed

section \<open>Jobs\<close>

text \<open>
  The addresses of a job without line and spiral mode, in units of 1/256 byte: after \<open>k\<close>
  bytes a start address has moved \<open>k\<close> times by the skip, up, down or not at all.
\<close>

definition addr_at :: "bool \<Rightarrow> bool \<Rightarrow> u64 \<Rightarrow> u64 \<Rightarrow> nat \<Rightarrow> u64" where
  "addr_at hold down skip a k =
    (if hold then a else if down then a - of_nat k * skip else a + of_nat k * skip)"

definition src_at :: "dma_job \<Rightarrow> dma_vars \<Rightarrow> u64 \<Rightarrow> nat \<Rightarrow> u64" where
  "src_at j v = addr_at (src_hold j) (src_direction j) (word_of_int (src_skip v))"

definition dst_at :: "dma_job \<Rightarrow> dma_vars \<Rightarrow> u64 \<Rightarrow> nat \<Rightarrow> u64" where
  "dst_at j v = addr_at (dest_hold j) (dest_direction j) (word_of_int (dst_skip v))"

definition byte_addr :: "u64 \<Rightarrow> u32" where
  "byte_addr a = ucast (drop_bit 8 a)"

definition linear :: "dma_vars \<Rightarrow> bool" where
  "linear v \<longleftrightarrow> spiral_mode v = 0 \<and> line_mode (src_line v) = 0 \<and> line_mode (dst_line v) = 0"

lemma addr_at_0 [simp]: "addr_at h d s a 0 = a"
  by (simp add: addr_at_def)

lemma addr_at_Suc: "addr_at h d s (addr_at h d s a (Suc 0)) k = addr_at h d s a (Suc k)"
  by (simp add: addr_at_def algebra_simps)

lemmas at_Suc = src_at_def dst_at_def addr_at_Suc

lemma run_update_src:
  "linear v \<Longrightarrow> run_state (update_src j v a) m = ((v, src_at j v a 1), m)"
  by (simp add: update_src_def linear_def src_at_def addr_at_def)

lemma run_update_dest:
  "linear v \<Longrightarrow> run_state (update_dest j v a) m = ((v, dst_at j v a 1), m)"
  by (simp add: update_dest_def linear_def dst_at_def addr_at_def)

lemma run_bind: "run_state (bind_state p f) s = (let (x, t) = run_state p s in run_state (f x) t)"
  by (simp split: prod.split)

text \<open>The writes of a fill: the low byte of the source address, which moves like in a copy.\<close>

definition fill_writes :: "dma_job \<Rightarrow> dma_vars \<Rightarrow> u64 \<Rightarrow> u64 \<Rightarrow> nat \<Rightarrow> (u32 \<times> u8) list" where
  "fill_writes j v src dst n =
    map (\<lambda>k. (byte_addr (dst_at j v dst k), ucast (drop_bit 8 (src_at j v src k) AND 0xff))) [0..<n]"

lemma fill_writes_Suc:
  "fill_writes j v src dst (Suc n) = (byte_addr dst, ucast (drop_bit 8 src AND 0xff))
    # fill_writes j v (src_at j v src 1) (dst_at j v dst 1) n"
  unfolding fill_writes_def map_upt_Suc by (simp add: src_at_def dst_at_def addr_at_Suc)

lemma run_dma_loop_fill:
  assumes "linear v" and "dma_cmd j AND 3 = 3"
    and "\<forall>p \<in> set (fill_writes j v src dst n). plain_write (fst p) (snd p)"
  shows "run_state (dma_loop (write_mem28 fu) j n v src dst) m
    = (Some v, write_steps stored (fill_writes j v src dst n) m)"
  using assms(3)
proof (induction n arbitrary: src dst m)
  case 0
  show ?case by (simp add: fill_writes_def)
next
  case (Suc n)
  from Suc.prems have "plain_write (byte_addr dst) (ucast (drop_bit 8 src AND 0xff))"
    by (simp add: fill_writes_Suc)
  then have "run_state (dma_element (write_mem28 fu) j src dst) m
      = (True, stored (byte_addr dst) (ucast (drop_bit 8 src AND 0xff)) m)"
    using assms(2) by (simp add: dma_element_def run_write_mem28 byte_addr_def)
  then show ?case
    using Suc assms(1) by (simp add: run_bind run_update_src run_update_dest fill_writes_Suc)
qed

text \<open>The moves of a copy.\<close>

definition copy_moves :: "dma_job \<Rightarrow> dma_vars \<Rightarrow> u64 \<Rightarrow> u64 \<Rightarrow> nat \<Rightarrow> (u32 \<times> u32) list" where
  "copy_moves j v src dst n =
    map (\<lambda>k. (byte_addr (dst_at j v dst k), byte_addr (src_at j v src k))) [0..<n]"

lemma copy_moves_Suc:
  "copy_moves j v src dst (Suc n) = (byte_addr dst, byte_addr src)
    # copy_moves j v (src_at j v src 1) (dst_at j v dst 1) n"
  unfolding copy_moves_def map_upt_Suc by (simp add: src_at_def dst_at_def addr_at_Suc)

lemma run_dma_loop_copy:
  assumes "linear v" and "dma_cmd j AND 3 = 0"
    and "\<forall>p \<in> set (copy_moves j v src dst n). (\<forall>b. plain_write (fst p) b) \<and> region_of (snd p) \<noteq> Wild"
  shows "run_state (dma_loop (write_mem28 fu) j n v src dst) m
    = (Some v, copy_steps loaded stored (copy_moves j v src dst n) m)"
  using assms(3)
proof (induction n arbitrary: src dst m)
  case 0
  show ?case by (simp add: copy_moves_def)
next
  case (Suc n)
  from Suc.prems have "\<forall>b. plain_write (byte_addr dst) b" "region_of (byte_addr src) \<noteq> Wild"
    by (simp_all add: copy_moves_Suc)
  then have "run_state (dma_element (write_mem28 fu) j src dst) m
      = (True, stored (byte_addr dst) (loaded m (byte_addr src)) m)"
    using assms(2)
    by (simp add: dma_element_def run_write_mem28 run_read_memory28_loaded byte_addr_def)
  then show ?case
    using Suc assms(1) by (simp add: run_bind run_update_src run_update_dest copy_moves_Suc)
qed

text \<open>
  A list of eleven bytes in memory for a job that moves up in steps of one byte: command,
  count, source and destination, the latter below 1MB, so that no direction, hold or modulo
  bit is set.
\<close>

definition list_at :: "machine \<Rightarrow> u32 \<Rightarrow> u8 \<Rightarrow> u16 \<Rightarrow> u32 \<Rightarrow> u32 \<Rightarrow> bool" where
  "list_at m a c n s d \<longleftrightarrow>
    (\<forall>i < 11. region_of (a + of_nat i) \<noteq> Wild) \<and>
    loaded m a = c \<and>
    ucast (loaded m (a + 1)) OR push_bit 8 (ucast (loaded m (a + 2))) = n \<and>
    ucast (loaded m (a + 3)) OR push_bit 8 (ucast (loaded m (a + 4)))
      OR push_bit 16 (ucast (loaded m (a + 5))) = s \<and>
    ucast (loaded m (a + 6)) OR push_bit 8 (ucast (loaded m (a + 7)))
      OR push_bit 16 (ucast (loaded m (a + 8))) = d \<and>
    s < 0x100000 \<and> d < 0x100000"

definition plain_job :: "u8 \<Rightarrow> dma_job" where
  "plain_job c = \<lparr>dma_cmd = ucast c, src_direction = False, src_hold = False, src_modulo = False,
     dest_direction = False, dest_hold = False, dest_modulo = False\<rparr>"

definition job_count :: "u16 \<Rightarrow> nat" where
  "job_count n = (if n = 0 then 0x10000 else unat n)"

lemma and_20_u32: "(s :: u32) < 0x100000 \<Longrightarrow> s AND 0xfffff = s"
proof -
  assume "s < 0x100000"
  then have "unat s < 2 ^ 20" by (simp add: word_less_nat_alt)
  then have "unat (take_bit 20 s) = unat s"
    unfolding unsigned_take_bit_eq by (simp add: take_bit_nat_eq_self)
  then have "take_bit 20 s = s" by (rule unsigned_word_eqI)
  then show ?thesis by (simp add: take_bit_eq_mask mask_eq_exp_minus_1)
qed

lemma bit_small_u32: "(s :: u32) < 0x100000 \<Longrightarrow> 20 \<le> k \<Longrightarrow> \<not> bit s k"
proof -
  assume s: "s < 0x100000" and k: "20 \<le> k"
  have "s = s AND mask 20" using and_20_u32 [OF s] by (simp add: mask_eq_exp_minus_1)
  moreover have "\<not> bit (s AND mask 20) k" using k by (simp add: bit_and_iff bit_mask_iff)
  ultimately show ?thesis by simp
qed

lemma count_of_bytes:
  fixes x y :: u8
  shows "uint x OR push_bit 8 (uint y) = uint (ucast x OR push_bit 8 (ucast y) :: u16)"
proof -
  have "push_bit 8 (uint y) < 2 ^ 16"
    using unsigned_less [of y, where ?'a = int] by (simp add: push_bit_eq_mult)
  moreover have "uint x < 2 ^ 16" "uint y < 2 ^ 16"
    using unsigned_less [of y, where ?'a = int] unsigned_less [of x, where ?'a = int] by simp_all
  ultimately show ?thesis
    unfolding unsigned_or_eq unsigned_push_bit_eq unsigned_ucast_eq
    by (simp add: take_bit_int_eq_self)
qed

lemma run_read_dma_list:
  assumes "list_at m a c n s d" and "f011b v = 0" and "dma_count v = 0" and "src_mb v = 0" "dst_mb v = 0"
  shows "run_state (read_dma_list v a) m =
    ((plain_job c, v\<lparr>dma_count := int (job_count n)\<rparr>, push_bit 8 (ucast s), push_bit 8 (ucast d), a + 11), m)"
proof -
  have w: "region_of (a + 0) \<noteq> Wild" "region_of (a + 1) \<noteq> Wild" "region_of (a + 2) \<noteq> Wild"
    "region_of (a + 3) \<noteq> Wild" "region_of (a + 4) \<noteq> Wild" "region_of (a + 5) \<noteq> Wild"
    "region_of (a + 6) \<noteq> Wild" "region_of (a + 7) \<noteq> Wild" "region_of (a + 8) \<noteq> Wild"
    "region_of (a + 9) \<noteq> Wild" "region_of (a + 10) \<noteq> Wild"
  proof -
    have all: "\<And>i. i < 11 \<Longrightarrow> region_of (a + of_nat i) \<noteq> Wild"
      using assms(1) by (simp add: list_at_def)
    show "region_of (a + 0) \<noteq> Wild" "region_of (a + 1) \<noteq> Wild" "region_of (a + 2) \<noteq> Wild"
      "region_of (a + 3) \<noteq> Wild" "region_of (a + 4) \<noteq> Wild" "region_of (a + 5) \<noteq> Wild"
      "region_of (a + 6) \<noteq> Wild" "region_of (a + 7) \<noteq> Wild" "region_of (a + 8) \<noteq> Wild"
      "region_of (a + 9) \<noteq> Wild" "region_of (a + 10) \<noteq> Wild"
      using all [of 0] all [of 1] all [of 2] all [of 3] all [of 4] all [of 5] all [of 6] all [of 7]
        all [of 8] all [of 9] all [of 10] by simp_all
  qed
  have n: "uint (loaded m (a + 1)) OR push_bit 8 (uint (loaded m (a + 2))) = uint n"
    using assms(1) by (simp add: list_at_def count_of_bytes)
  have c: "loaded m a = c" and s: "s < 0x100000" and d: "d < 0x100000"
    and se: "ucast (loaded m (a + 3)) OR push_bit 8 (ucast (loaded m (a + 4)))
      OR push_bit 16 (ucast (loaded m (a + 5))) = s"
    and de: "ucast (loaded m (a + 6)) OR push_bit 8 (ucast (loaded m (a + 7)))
      OR push_bit 16 (ucast (loaded m (a + 8))) = d"
    using assms(1) by (simp_all add: list_at_def)
  have p: "(ucast (push_bit 8 x) :: u64) = push_bit 8 (ucast x)" if "x < 0x100000" for x :: u32
  proof (rule bit_word_eqI)
    fix k
    show "bit (ucast (push_bit 8 x) :: u64) k = bit (push_bit 8 (ucast x) :: u64) k"
      if "k < LENGTH(64)"
      using that bit_small_u32 [OF \<open>x < 0x100000\<close>, of "k - 8"]
      by (cases "k < 28") (auto simp: bit_unsigned_iff bit_push_bit_iff possible_bit_def)
  qed
  have z: "int (job_count n) = (if uint n = 0 then 0x10000 else uint n)"
    by (simp add: job_count_def unsigned_eq_0_iff)
  have nine: "region_of (a + 9 + 1) \<noteq> Wild" using w(11) by (simp add: add.assoc)
  show ?thesis
    unfolding read_dma_list_def
    by (simp only: run_bind run_read_memory28_loaded [OF w(2)] run_read_memory28_loaded [OF w(3)]
        run_read_memory28_loaded [OF w(4)] run_read_memory28_loaded [OF w(5)]
        run_read_memory28_loaded [OF w(6)] run_read_memory28_loaded [OF w(7)]
        run_read_memory28_loaded [OF w(8)] run_read_memory28_loaded [OF w(9)]
        run_read_memory28_loaded [OF w(1) [unfolded add_0_right]]
        run_read_memory28_loaded [OF w(10)] run_read_memory28_loaded [OF nine]
        Let_def prod.case run_state_return assms(2-5) if_False not_True_eq_False simp_thms run_if
        or.left_neutral n se de c and_20_u32 [OF s] and_20_u32 [OF d] p [OF s] p [OF d])
       (simp add: plain_job_def z bit_small_u32 [OF s] bit_small_u32 [OF d])
qed

lemma byte_addr_at:
  assumes "d < 0x100000" and "k < 0x10000"
  shows "drop_bit 8 (push_bit 8 (ucast (d :: u32)) + of_nat k * 0x100 :: u64) = ucast (d + of_nat k)"
proof -
  have d: "unat d < 0x100000" using assms(1) by (simp add: word_less_nat_alt)
  have ud: "unat (ucast d :: u64) = unat d"
    unfolding unsigned_ucast_eq using d by (simp add: take_bit_nat_eq_self)
  have uk: "unat (of_nat k :: u64) = k" "unat (of_nat k :: u32) = k"
    using assms(2) by (simp_all add: take_bit_nat_eq_self unsigned_of_nat)
  have p: "unat (push_bit 8 (ucast d) :: u64) = unat d * 256"
    unfolding unsigned_push_bit_eq ud using d by (simp add: push_bit_eq_mult take_bit_nat_eq_self)
  have q: "unat (of_nat k * 0x100 :: u64) = k * 256"
    using assms(2) by (simp add: unat_word_ariths uk)
  have "unat (push_bit 8 (ucast d) + of_nat k * 0x100 :: u64) = (unat d + k) * 256"
    unfolding unat_word_ariths(1) p q using d assms(2) by simp
  then have l: "unat (drop_bit 8 (push_bit 8 (ucast d) + of_nat k * 0x100 :: u64)) = unat d + k"
    unfolding unat_drop_bit by simp
  have "unat (d + of_nat k) = unat d + k"
    unfolding unat_word_ariths(1) uk using d assms(2) by simp
  then have "unat (ucast (d + of_nat k) :: u64) = unat d + k"
    unfolding unsigned_ucast_eq using d assms(2) by (simp add: take_bit_nat_eq_self)
  with l show ?thesis unfolding word_unat_eq_iff by simp
qed

lemma ucast_ucast_u64: "ucast (ucast (x :: u32) :: u64) = x"
  by (rule bit_word_eqI) (simp add: bit_unsigned_iff possible_bit_def)

lemma low_byte_u64: "ucast ((ucast (x :: u32) :: u64) AND 0xff) = (ucast x :: u8)"
proof -
  have "(ucast x :: u64) AND 0xff = take_bit 8 (ucast x)"
    by (simp add: take_bit_eq_mask mask_eq_exp_minus_1)
  then show ?thesis
    by (simp only:) (rule bit_word_eqI, simp add: bit_unsigned_iff bit_take_bit_iff possible_bit_def)
qed

text \<open>The variables of \<open>do_dma\<close> when the loop of a plain job starts.\<close>

definition plain_vars :: "u16 \<Rightarrow> dma_vars" where
  "plain_vars n = dma_vars_init\<lparr>src_skip := 0x100, dst_skip := 0x100, dma_count := int (job_count n)\<rparr>"

lemma linear_plain: "linear (plain_vars n)"
  by (simp add: linear_def plain_vars_def dma_vars_init_def line_vars_init_def)

lemma job_count_le: "job_count n \<le> 0x10000"
  using unat_u16_less [of n] by (simp add: job_count_def)

lemma plain_at:
  "src_at (plain_job c) (plain_vars n) a k = a + of_nat k * 0x100"
  "dst_at (plain_job c) (plain_vars n) a k = a + of_nat k * 0x100"
  by (simp_all add: src_at_def dst_at_def addr_at_def plain_job_def plain_vars_def)

lemma plain_fill_writes:
  assumes "(s :: u32) < 0x100000" "d < 0x100000"
  shows "fill_writes (plain_job c) (plain_vars n) (push_bit 8 (ucast s)) (push_bit 8 (ucast d)) (job_count n)
    = map (\<lambda>k. (d + of_nat k, ucast (s + of_nat k))) [0..<job_count n]"
  unfolding fill_writes_def plain_at byte_addr_def
proof (rule map_cong [OF refl])
  fix k assume "k \<in> set [0..<job_count n]"
  then have "k < 0x10000" using job_count_le [of n] by simp
  then show "(ucast (drop_bit 8 (push_bit 8 (ucast d) + of_nat k * 0x100 :: u64)),
      ucast (drop_bit 8 (push_bit 8 (ucast s) + of_nat k * 0x100 :: u64) AND 0xff))
    = (d + of_nat k, ucast (s + of_nat k) :: u8)"
    by (simp only: byte_addr_at [OF assms(1)] byte_addr_at [OF assms(2)] ucast_ucast_u64 low_byte_u64)
qed

lemma plain_copy_moves:
  assumes "s < 0x100000" "d < 0x100000"
  shows "copy_moves (plain_job c) (plain_vars n) (push_bit 8 (ucast s)) (push_bit 8 (ucast d)) (job_count n)
    = map (\<lambda>k. (d + of_nat k, s + of_nat k)) [0..<job_count n]"
  unfolding copy_moves_def plain_at byte_addr_def
  using assms job_count_le [of n] by (simp add: byte_addr_at ucast_ucast_u64)

lemma cmd_and_low: "ucast (c :: u8) AND (3 :: u32) = ucast (c AND 3)" "ucast c AND (4 :: u32) = ucast (c AND 4)"
  by (simp_all add: unsigned_and_eq)

lemma run_plain_job:
  assumes l: "list_at m a c n s d" and "c AND 4 = 0" and sy: "symbols m = []" and "c AND 3 = 0 \<or> c AND 3 = 3"
    and r: "run_state (dma_loop (write_mem28 fu) (plain_job c) (job_count n) (plain_vars n)
      (push_bit 8 (ucast s)) (push_bit 8 (ucast d))) m = (Some (plain_vars n), m')"
    and fu: "fu = Suc fu'"
  shows "run_state (do_dma fu False a) m = (0, m')"
proof -
  let ?v = "dma_vars_init\<lparr>dma_count := 0, src_skip := 0x0100, dst_skip := 0x0100\<rparr>"
  have v: "?v\<lparr>dma_count := int (job_count n)\<rparr> = plain_vars n"
    by (simp add: plain_vars_def)
  have rd: "run_state (read_dma_list ?v a) m =
      ((plain_job c, plain_vars n, push_bit 8 (ucast s), push_bit 8 (ucast d), a + 11), m)"
    unfolding v [symmetric] by (rule run_read_dma_list [OF l]) (simp_all add: dma_vars_init_def)
  have sym: "run_state (dma_symbols (plain_job c) k x y) m = (True, m)" for k x y
    using sy by (simp add: dma_symbols_def)
  have k: "nat (dma_count (plain_vars n)) = job_count n" by (simp add: plain_vars_def)
  have c4: "dma_cmd (plain_job c) AND 4 = 0" using assms(2) by (simp add: plain_job_def cmd_and_low)
  show ?thesis
    unfolding do_dma_def do_dma_with_def fu dma_jobs.simps Let_def
    using r [unfolded fu] by (simp add: run_bind rd sym k c4)
qed

text \<open>The addresses of a job, as a set.\<close>

lemma inj_addresses: "N \<le> 0x10000 \<Longrightarrow> inj_on (\<lambda>k. (d :: u32) + of_nat k) {0..<N}"
proof (rule inj_onI)
  fix x y
  assume "N \<le> 0x10000" and x: "x \<in> {0..<N}" "y \<in> {0..<N}" and e: "d + of_nat x = d + of_nat y"
  then have "unat (of_nat x :: u32) = unat (of_nat y :: u32)" by simp
  with x \<open>N \<le> 0x10000\<close> show "x = y" by (simp add: unsigned_of_nat take_bit_nat_eq_self)
qed

lemma mem_addresses:
  assumes "N \<le> 0x10000"
  shows "(c :: u32) \<in> (\<lambda>k. d + of_nat k) ` {0..<N} \<longleftrightarrow> unat (c - d) < N"
proof
  assume "c \<in> (\<lambda>k. d + of_nat k) ` {0..<N}"
  then obtain k where "k < N" "c = d + of_nat k" by auto
  with assms show "unat (c - d) < N" by (simp add: unsigned_of_nat take_bit_nat_eq_self)
next
  assume "unat (c - d) < N"
  moreover have "c = d + of_nat (unat (c - d))" by simp
  ultimately show "c \<in> (\<lambda>k. d + of_nat k) ` {0..<N}" by (intro image_eqI) auto
qed

lemma plain_write_backed: "plain_write a v \<Longrightarrow> backed (region_of a)"
  by (simp add: plain_write_def)

lemma loaded_fill:
  assumes "N \<le> 0x10000" and "\<forall>k < N. plain_write (d + of_nat k) (f k)"
  shows "loaded (write_steps stored (map (\<lambda>k. (d + of_nat k, f k)) [0..<N]) m) c
    = (if unat (c - d) < N then f (unat (c - d)) else loaded m c)"
proof (cases "unat (c - d) < N")
  case True
  let ?ps = "map (\<lambda>k. (d + of_nat k, f k)) [0..<N]"
  have e: "map fst ?ps = map (\<lambda>k. d + of_nat k) [0..<N]" by simp
  have dis: "distinct (map fst ?ps)"
    unfolding e using inj_addresses [OF assms(1), of d] by (simp add: distinct_map)
  have "(c, f (unat (c - d))) \<in> set ?ps" using True by (auto intro!: image_eqI [of _ _ "unat (c - d)"])
  moreover have "\<forall>p \<in> set ?ps. backed (region_of (fst p))"
    using assms(2) by (auto intro: plain_write_backed)
  ultimately show ?thesis using True machine_store.write_steps_load [OF _ dis] by simp
next
  case False
  then have "c \<notin> (\<lambda>k. d + of_nat k) ` {0..<N}" by (simp add: mem_addresses [OF assms(1)])
  then have "c \<notin> fst ` set (map (\<lambda>k. (d + of_nat k, f k)) [0..<N])" by (simp add: image_image)
  then show ?thesis using False by (simp add: machine_store.write_steps_other)
qed

lemma loaded_copy:
  assumes "N \<le> 0x10000" and "\<forall>k < N. backed (region_of (d + of_nat k))"
    and dis: "\<forall>k < N. \<not> unat (s + of_nat k - d) < N"
  shows "loaded (copy_steps loaded stored (map (\<lambda>k. (d + of_nat k, s + of_nat k)) [0..<N]) m) c
    = (if unat (c - d) < N then loaded m (s + (c - d)) else loaded m c)"
proof (cases "unat (c - d) < N")
  case True
  let ?ps = "map (\<lambda>k. (d + of_nat k, s + of_nat k)) [0..<N]"
  have e: "map fst ?ps = map (\<lambda>k. d + of_nat k) [0..<N]" by simp
  have d: "distinct (map fst ?ps)"
    unfolding e using inj_addresses [OF assms(1), of d] by (simp add: distinct_map)
  have "(c, s + of_nat (unat (c - d))) \<in> set ?ps"
    using True by (auto intro!: image_eqI [of _ _ "unat (c - d)"])
  moreover have "fst ` set ?ps \<inter> snd ` set ?ps = {}"
  proof -
    have "\<forall>k < N. s + of_nat k \<notin> (\<lambda>k. d + of_nat k) ` {0..<N}"
      using dis by (simp add: mem_addresses [OF assms(1)])
    then have "(\<lambda>k. s + of_nat k) ` {0..<N} \<inter> (\<lambda>k. d + of_nat k) ` {0..<N} = {}" by auto
    then show ?thesis by (simp add: image_image Int_commute)
  qed
  moreover have "\<forall>p \<in> set ?ps. backed (region_of (fst p))" using assms(2) by auto
  ultimately show ?thesis using True machine_store.copy_steps_load [OF _ d] by simp
next
  case False
  then have "c \<notin> (\<lambda>k. d + of_nat k) ` {0..<N}" by (simp add: mem_addresses [OF assms(1)])
  then have "c \<notin> fst ` set (map (\<lambda>k. (d + of_nat k, s + of_nat k)) [0..<N])" by (simp add: image_image)
  then show ?thesis using False by (simp add: machine_store.copy_steps_other)
qed

lemma cmd_of_7:
  assumes "c AND 7 = (k :: u8)"
  shows "c AND 4 = k AND 4" "c AND 3 = k AND 3"
proof -
  have "c AND 4 = (c AND 7) AND 4" "c AND 3 = (c AND 7) AND 3" by (simp_all add: and.assoc)
  then show "c AND 4 = k AND 4" "c AND 3 = k AND 3" using assms by simp_all
qed

lemma plain_job_cmd: "dma_cmd (plain_job c) AND 3 = ucast (c AND 3)"
  by (simp add: plain_job_def cmd_and_low)

lemma run_fill_job:
  assumes "list_at m a c n s d" and "c AND 7 = 3" and "symbols m = []"
    and "\<forall>k < job_count n. plain_write (d + of_nat k) (ucast (s + of_nat k))"
  shows "run_state (do_dma (Suc fu) False a) m
    = (0, write_steps stored (map (\<lambda>k. (d + of_nat k, ucast (s + of_nat k))) [0..<job_count n]) m)"
proof -
  have b: "s < 0x100000" "d < 0x100000" using assms(1) by (simp_all add: list_at_def)
  note c = cmd_of_7 [OF assms(2)]
  have "run_state (dma_loop (write_mem28 (Suc fu)) (plain_job c) (job_count n) (plain_vars n)
      (push_bit 8 (ucast s)) (push_bit 8 (ucast d))) m
    = (Some (plain_vars n), write_steps stored (fill_writes (plain_job c) (plain_vars n)
        (push_bit 8 (ucast s)) (push_bit 8 (ucast d)) (job_count n)) m)"
    using assms(4)
    by (intro run_dma_loop_fill linear_plain)
       (auto simp: plain_fill_writes [OF b] plain_job_cmd c)
  then show ?thesis unfolding plain_fill_writes [OF b]
    using run_plain_job [OF assms(1) _ assms(3)] c by simp
qed

lemma run_copy_job:
  assumes "list_at m a c n s d" and "c AND 7 = 0" and "symbols m = []"
    and "\<forall>k < job_count n. (\<forall>b. plain_write (d + of_nat k) b) \<and> region_of (s + of_nat k) \<noteq> Wild"
  shows "run_state (do_dma (Suc fu) False a) m
    = (0, copy_steps loaded stored (map (\<lambda>k. (d + of_nat k, s + of_nat k)) [0..<job_count n]) m)"
proof -
  have b: "s < 0x100000" "d < 0x100000" using assms(1) by (simp_all add: list_at_def)
  note c = cmd_of_7 [OF assms(2)]
  have "run_state (dma_loop (write_mem28 (Suc fu)) (plain_job c) (job_count n) (plain_vars n)
      (push_bit 8 (ucast s)) (push_bit 8 (ucast d))) m
    = (Some (plain_vars n), copy_steps loaded stored (copy_moves (plain_job c) (plain_vars n)
        (push_bit 8 (ucast s)) (push_bit 8 (ucast d)) (job_count n)) m)"
    using assms(4)
    by (intro run_dma_loop_copy linear_plain)
       (auto simp: plain_copy_moves [OF b] plain_job_cmd c)
  then show ?thesis unfolding plain_copy_moves [OF b]
    using run_plain_job [OF assms(1) _ assms(3)] c by simp
qed

section \<open>Options\<close>

text \<open>Every option byte but the ones that copy a whole byte only adds bits to a skip.\<close>

definition skips_grow :: "dma_vars \<Rightarrow> dma_vars \<Rightarrow> bool" where
  "skips_grow v w \<longleftrightarrow> (\<forall>k. bit (src_skip v) k \<longrightarrow> bit (src_skip w) k) \<and>
     (\<forall>k. bit (dst_skip v) k \<longrightarrow> bit (dst_skip w) k)"

lemma skips_grow_refl: "skips_grow v v"
  by (simp add: skips_grow_def)

lemma skips_grow_trans: "skips_grow u v \<Longrightarrow> skips_grow v w \<Longrightarrow> skips_grow u w"
  by (simp add: skips_grow_def)

lemma grow_if:
  "skips_grow v (result_of p m) \<Longrightarrow> skips_grow v (result_of q m) \<Longrightarrow>
    skips_grow v (result_of (if c then p else q) m)"
  by simp

lemma result_dma_option_grow: "skips_grow v (result_of (dma_option opt arg v) m)"
  unfolding dma_option_def
  by (intro grow_if; simp add: skips_grow_def bit_or_iff)

lemma result_dma_options_grow: "skips_grow v (fst (result_of (dma_options n a v) m))"
proof (induction n arbitrary: a v m)
  case 0
  show ?case by (simp add: skips_grow_refl)
next
  case (Suc n)
  show ?case
    by (auto simp: skips_grow_refl intro: skips_grow_trans [OF result_dma_option_grow Suc.IH])
qed

section \<open>Symbols\<close>

definition in_job :: "u64 \<Rightarrow> int \<Rightarrow> hyppo_symbol \<Rightarrow> bool" where
  "in_job base count s \<longleftrightarrow>
    base \<le> ucast (sym_addr s) \<and> (ucast (sym_addr s) :: u64) < base + word_of_int count"

definition moved :: "u64 \<Rightarrow> u64 \<Rightarrow> hyppo_symbol \<Rightarrow> hyppo_symbol" where
  "moved src dst s = s\<lparr>sym_addr := ucast (dst + (ucast (sym_addr s) - src))\<rparr>"

lemma moved_eq: "\<lparr>sym_name = sym_name s, sym_addr = ucast (dst + (ucast (sym_addr s) - src))\<rparr> = moved src dst s"
  by (simp add: moved_def)

lemma copy_symbols_symbols:
  assumes "symbols m = old @ new" and "length old = i + k"
    and "length (symbols m) + length (filter (in_job src count) (drop i old)) \<le> MAX_SYMBOLS"
  shows "result_of (copy_symbols k i src dst count) m \<and>
    symbols (state_after (copy_symbols k i src dst count) m)
      = old @ new @ map (moved src dst) (filter (in_job src count) (drop i old))"
  using assms
proof (induction k arbitrary: i m new)
  case 0
  then show ?case by simp
next
  case (Suc k)
  let ?s = "old ! i"
  have i: "i < length old" using Suc.prems(2) by simp
  have d: "drop i old = ?s # drop (Suc i) old" by (rule Cons_nth_drop_Suc [OF i, symmetric])
  have si: "symbols m ! i = ?s" using i Suc.prems(1) by (simp add: nth_append)
  show ?case
  proof (cases "in_job src count ?s")
    case False
    then have "run_state (copy_symbols (Suc k) i src dst count) m
        = run_state (copy_symbols k (Suc i) src dst count) m"
      by (auto simp: si in_job_def run_bind Let_def)
    moreover have "result_of (copy_symbols k (Suc i) src dst count) m \<and>
      symbols (state_after (copy_symbols k (Suc i) src dst count) m)
      = old @ new @ map (moved src dst) (filter (in_job src count) (drop (Suc i) old))"
      by (rule Suc.IH) (use Suc.prems False in \<open>simp_all add: d\<close>)
    ultimately show ?thesis using False by (simp add: result_of_def state_after_def d del: copy_symbols.simps)
  next
    case True
    let ?t = "dst + (ucast (sym_addr ?s) - src)"
    let ?m1 = "m\<lparr>symbols := symbols m @ [moved src dst ?s]\<rparr>"
    let ?m2 = "if ?t < ucast CHIPRAM_SIZE
      then ?m1\<lparr>sym_by_addr := (sym_by_addr m)(ucast ?t \<mapsto> Sym (length (symbols m)))\<rparr> else ?m1"
    have len: "\<not> MAX_SYMBOLS \<le> length (symbols m)"
      using Suc.prems(3) True by (simp add: d)
    have step: "run_state (copy_symbols (Suc k) i src dst count) m
        = run_state (copy_symbols k (Suc i) src dst count) ?m2"
      using True len by (simp add: si in_job_def add_symbol_def moved_eq run_bind Let_def)
    have "result_of (copy_symbols k (Suc i) src dst count) ?m2 \<and>
      symbols (state_after (copy_symbols k (Suc i) src dst count) ?m2)
      = old @ (new @ [moved src dst ?s]) @ map (moved src dst) (filter (in_job src count) (drop (Suc i) old))"
      by (rule Suc.IH) (use Suc.prems True in \<open>simp_all add: d\<close>)
    then show ?thesis using True by (simp add: result_of_def state_after_def step d del: copy_symbols.simps)
  qed
qed

text \<open>
  The loop that erases symbols moves the last symbol into the place of an erased one and
  goes on behind it: of two symbols in the range one stays.
\<close>

lemma erase_two_symbols:
  assumes "symbols m = [s, t]" and "in_job dst count s" and "sym_names m (sym_name s) \<noteq> None"
  shows "symbols (state_after (erase_symbols (Suc (Suc 0)) 0 dst count) m) = [t]"
proof -
  have "run_state (free_name (sym_name s)) m = ((), m\<lparr>sym_names := (sym_names m)(sym_name s := None)\<rparr>)"
    using assms(3) by (auto simp: free_name_def)
  then show ?thesis
    using assms(1,2)
    by (simp add: state_after_def run_bind in_job_def Let_def)
qed

text \<open>Freeing the names of a table in which two symbols share a name.\<close>

lemma free_name_fault:
  "sym_names m n = None \<Longrightarrow> fault m = None \<Longrightarrow> fault (state_after (free_name n) m) = Some DoubleFree"
  by (simp add: free_name_def raise_def record_fault_def)

lemma free_name_ok:
  "sym_names m n \<noteq> None \<Longrightarrow>
    state_after (free_name n) m = m\<lparr>sym_names := (sym_names m)(n := None)\<rparr>"
  by (auto simp: free_name_def)

lemma free_names_first_fault: "obeys first_fault (free_names ss)"
proof (induction ss)
  case Nil
  show ?case by (simp add: faults.obeys_return)
next
  case (Cons s ss)
  then show ?case by (simp add: faults.obeys_bind faults.obeys_free_name)
qed

lemma first_faultD: "obeys first_fault p \<Longrightarrow> fault m \<noteq> None \<Longrightarrow> fault (state_after p m) = fault m"
  by (simp add: obeys_def first_fault_def)

lemma free_names_shared:
  assumes "sym_name t = sym_name s" and "sym_names m (sym_name s) \<noteq> None" and "fault m = None"
  shows "fault (state_after (free_names (s # t # ss)) m) = Some DoubleFree"
proof -
  let ?m1 = "m\<lparr>sym_names := (sym_names m)(sym_name s := None)\<rparr>"
  have "fault (state_after (free_name (sym_name s)) ?m1) = Some DoubleFree"
    using assms by (intro free_name_fault) simp_all
  then have "fault (state_after (free_names ss) (state_after (free_name (sym_name s)) ?m1)) = Some DoubleFree"
    using first_faultD [OF free_names_first_fault] by simp
  then show ?thesis using assms by (simp add: free_name_ok)
qed

text \<open>A machine with a list of eleven bytes at \<open>$1000\<close>, for the examples.\<close>

definition demo_list :: "u8 list \<Rightarrow> machine" where
  "demo_list bs = initial_machine\<lparr>ram := zero_banks\<lparr>chipram :=
     (\<lambda>i. if 0x1000 \<le> i \<and> i < 0x100b then bs ! unat (i - 0x1000) else 0)\<rparr>\<rparr>"

lemma demo_loaded: "i < 11 \<Longrightarrow> loaded (demo_list bs) (0x1000 + of_nat i) = bs ! i \<and> region_of (0x1000 + of_nat i) \<noteq> Wild"
proof -
  assume i: "i < 11"
  then have u: "unat (0x1000 + of_nat i :: u32) = 0x1000 + i"
    by (simp add: unat_word_ariths unsigned_of_nat take_bit_nat_eq_self)
  then have "unat (0x1000 + of_nat i - 0x1000 :: u32) = i"
    using i by (simp add: unsigned_of_nat take_bit_nat_eq_self)
  moreover have "region_of (0x1000 + of_nat i) = Chip (0x1000 + of_nat i)"
    using u i by (simp add: region_of_def sizes word_le_nat_alt word_less_nat_alt)
  ultimately show ?thesis
    using u i by (simp add: loaded_def demo_list_def word_le_nat_alt word_less_nat_alt)
qed

lemma demo_list_at:
  assumes "bs ! 0 = c"
    and "ucast (bs ! 1) OR push_bit 8 (ucast (bs ! 2)) = n"
    and "ucast (bs ! 3) OR push_bit 8 (ucast (bs ! 4)) OR push_bit 16 (ucast (bs ! 5)) = s"
    and "ucast (bs ! 6) OR push_bit 8 (ucast (bs ! 7)) OR push_bit 16 (ucast (bs ! 8)) = d"
    and "s < 0x100000" and "d < 0x100000"
  shows "list_at (demo_list bs) 0x1000 c n s d"
proof -
  have "loaded (demo_list bs) 0x1000 = bs ! 0" "loaded (demo_list bs) (0x1000 + 1) = bs ! 1"
    "loaded (demo_list bs) (0x1000 + 2) = bs ! 2" "loaded (demo_list bs) (0x1000 + 3) = bs ! 3"
    "loaded (demo_list bs) (0x1000 + 4) = bs ! 4" "loaded (demo_list bs) (0x1000 + 5) = bs ! 5"
    "loaded (demo_list bs) (0x1000 + 6) = bs ! 6" "loaded (demo_list bs) (0x1000 + 7) = bs ! 7"
    "loaded (demo_list bs) (0x1000 + 8) = bs ! 8"
    using demo_loaded [of 0 bs] demo_loaded [of 1 bs] demo_loaded [of 2 bs] demo_loaded [of 3 bs]
      demo_loaded [of 4 bs] demo_loaded [of 5 bs] demo_loaded [of 6 bs] demo_loaded [of 7 bs]
      demo_loaded [of 8 bs] by simp_all
  then show ?thesis using assms demo_loaded [of _ bs] unfolding list_at_def by simp
qed

text \<open>A new test frees the names of all symbols.\<close>

lemma machine_init_symbols:
  assumes "hyppo_symbols m = []" and "cpulog_len m = 0"
  shows "symbols (state_after machine_init m) = symbols m"
    and "sym_names (state_after machine_init m) = sym_names m"
    and "fault (state_after machine_init m) = fault m"
    and "hyppo_symbols (state_after machine_init m) = []"
  using assms
  by (simp_all add: machine_init_def setter_defs getter_defs upd_defs set_in_hyper_def put_expected_def)

lemma test_init_fault:
  assumes "hyppo_symbols m = []" and "cpulog_len m = 0"
  shows "fault (state_after test_init m) = fault (state_after (free_names (symbols m))
    ((state_after machine_init m)\<lparr>fail_on_stack_overflow := True, fail_on_stack_underflow := True,
      hyppo_symbols := [], sym_by_addr := \<lambda>_. None\<rparr>))"
  using machine_init_symbols [OF assms] by (simp add: test_init_def)

section \<open>Properties\<close>

text \<open>
  C34: A byte written to an address that is backed by a memory and triggers no I/O action is
  read back there; every other byte keeps its value, and the blame record of the address
  names the running instruction.
\<close>

theorem write_read_roundtrip:
  assumes "plain_write a v"
  shows "let m' = state_after (write_mem28 fu a v) m in
    result_of (read_memory28 a) m' = v \<and>
    (\<forall>c. region_of c \<noteq> Wild \<longrightarrow> c \<noteq> a \<longrightarrow> result_of (read_memory28 c) m' = result_of (read_memory28 c) m) \<and>
    peek (blame m') 0 (region_of a) = instruction_count (cpu m)"
proof -
  have b: "backed (region_of a)" and w: "region_of a \<noteq> Wild"
    using assms by (auto simp: plain_write_def)
  have s: "state_after (write_mem28 fu a v) m = stored a v m"
    using assms by (simp add: state_after_def run_write_mem28)
  have "result_of (read_memory28 c) (stored a v m) = (if c = a then v else result_of (read_memory28 c) m)"
    if "region_of c \<noteq> Wild" for c
    using that b by (simp add: result_of_def run_read_memory28_loaded machine_store.load_store)
  then show ?thesis
    unfolding s Let_def using w b by (simp add: stored_def peek_poke_same)
qed

theorem write_read_roundtrip_witness:
  "result_of (read_memory28 0xfff8012) (state_after (write_mem28 1 0xfff8012 0x99) initial_machine) = 0x99"
  using write_read_roundtrip [of "0xfff8012" "0x99" 1 initial_machine]
  by (simp add: plain_write_def region_of_def Let_def)

text \<open>
  Beyond what a write needs, its result does not depend on the fuel: if it ends without
  a fault, then it ends in the same state with any larger fuel.
\<close>

theorem write_fuel_irrelevant:
  assumes "fault (state_after (write_mem28 fu a v) m) = None" and "fu \<le> fu'"
  shows "run_state (write_mem28 fu' a v) m = run_state (write_mem28 fu a v) m"
  using assms extends_write_mem28_more [of fu a v "fu' - fu"] by (simp add: extends_def)

theorem write_fuel_irrelevant_witness:
  "run_state (write_mem28 7 0x2000 0x12) initial_machine = (0, stored 0x2000 0x12 initial_machine)"
proof -
  have "run_state (write_mem28 0 0x2000 0x12) initial_machine = (0, stored 0x2000 0x12 initial_machine)"
    by (intro run_write_mem28) (simp add: plain_write_def region_of_def sizes)
  then show ?thesis
    using write_fuel_irrelevant [of 0 "0x2000" "0x12" initial_machine 7]
    by (simp add: state_after_def initial_machine_def)
qed

text \<open>
  A fill job that moves up byte by byte writes, at its \<open>k\<close>-th byte, the low byte of its
  source address plus \<open>k\<close> (the source address advances during a fill too), and nothing else.
\<close>

theorem dma_fill_job:
  assumes "list_at m a c n s d" and "c AND 7 = 3" and "symbols m = []"
    and "\<forall>k < job_count n. plain_write (d + of_nat k) (ucast (s + of_nat k))"
  shows "result_of (do_dma (Suc fu) False a) m = 0 \<and>
    (\<forall>x. loaded (state_after (do_dma (Suc fu) False a) m) x =
      (if unat (x - d) < job_count n then ucast (s + (x - d)) else loaded m x))"
proof -
  have "loaded (state_after (do_dma (Suc fu) False a) m) x =
      (if unat (x - d) < job_count n then ucast (s + of_nat (unat (x - d))) else loaded m x)" for x
    unfolding state_after_def run_fill_job [OF assms] snd_conv
    using loaded_fill [OF job_count_le [of n] assms(4)] by simp
  then show ?thesis by (simp add: result_of_def run_fill_job [OF assms])
qed

theorem dma_fill_job_witness:
  "loaded (state_after (do_dma 1 False 0x1000) (demo_list [3, 2, 0, 0x41, 0, 0, 0, 0x20, 0, 0, 0])) 0x2001 = 0x42"
proof -
  let ?m = "demo_list [3, 2, 0, 0x41, 0, 0, 0, 0x20, 0, 0, 0]"
  have l: "list_at ?m 0x1000 3 2 0x41 0x2000"
    by (rule demo_list_at) simp_all
  show ?thesis
    using dma_fill_job [OF l, of 0]
    by (simp add: demo_list_def initial_machine_def job_count_def less_2_cases_iff plain_write_def
        region_of_def sizes)
qed

text \<open>
  C32: A copy job that moves up byte by byte, whose source and destination do not overlap, leaves in the
  destination what the source held, and every other byte of the memories stays as it was. The job is a list of
  eleven bytes in memory that chains no other (both addresses below 1 MiB, neither hold nor modulo nor a
  descending direction), its destination is memory that a write only stores to (neither the processor port nor a
  register that starts something), and the test has no symbols, which a copy would duplicate. Who wrote a byte
  last is recorded anew and not part of the claim.
\<close>

theorem dma_copy_job:
  assumes "list_at m a c n s d" and "c AND 7 = 0" and "symbols m = []"
    and "\<forall>k < job_count n. (\<forall>b. plain_write (d + of_nat k) b) \<and> region_of (s + of_nat k) \<noteq> Wild"
    and "\<forall>k < job_count n. \<not> unat (s + of_nat k - d) < job_count n"
  shows "result_of (do_dma (Suc fu) False a) m = 0 \<and>
    (\<forall>x. loaded (state_after (do_dma (Suc fu) False a) m) x =
      (if unat (x - d) < job_count n then loaded m (s + (x - d)) else loaded m x))"
proof -
  have "\<forall>k < job_count n. backed (region_of (d + of_nat k))"
    using assms(4) by (auto intro: plain_write_backed)
  then show ?thesis
    using loaded_copy [OF job_count_le [of n] _ assms(5)]
    by (simp add: result_of_def state_after_def run_copy_job [OF assms(1-4)])
qed

theorem dma_copy_job_witness:
  "loaded (state_after (do_dma 1 False 0x1000) (demo_list [0, 2, 0, 0, 0x10, 0, 0, 0x20, 0, 0, 0])) 0x2001 = 2"
proof -
  let ?m = "demo_list [0, 2, 0, 0, 0x10, 0, 0, 0x20, 0, 0, 0]"
  have l: "list_at ?m 0x1000 0 2 0x1000 0x2000"
    by (rule demo_list_at) simp_all
  have "loaded ?m (0x1000 + of_nat 1) = 2" using demo_loaded [of 1] by simp
  then show ?thesis
    using dma_copy_job [OF l, of 0]
    by (simp add: demo_list_def initial_machine_def job_count_def less_2_cases_iff plain_write_def
        region_of_def sizes)
qed

text \<open>
  A copy job copies the symbols of its source range: each of them gets a second entry
  at the address that its byte moves to, behind the old table, which stays as it was.
\<close>

theorem dma_copies_symbols:
  assumes "dma_cmd j AND 3 = 0"
    and "length (symbols m) + length (filter (in_job (drop_bit 8 src) count) (symbols m)) \<le> MAX_SYMBOLS"
  shows "result_of (dma_symbols j count src dst) m \<and>
    symbols (state_after (dma_symbols j count src dst) m) = symbols m @
      map (moved (drop_bit 8 src) (drop_bit 8 dst)) (filter (in_job (drop_bit 8 src) count) (symbols m))"
  using copy_symbols_symbols [of m "symbols m" "[]" 0 "length (symbols m)" "drop_bit 8 src" count "drop_bit 8 dst"] assms
  by (simp add: dma_symbols_def)

theorem dma_copies_symbols_witness:
  "symbols (state_after (dma_symbols (plain_job 0) 16 0x100000 0x200000)
      (initial_machine\<lparr>symbols := [\<lparr>sym_name = 7, sym_addr = 0x1004\<rparr>]\<rparr>))
    = [\<lparr>sym_name = 7, sym_addr = 0x1004\<rparr>, \<lparr>sym_name = 7, sym_addr = 0x2004\<rparr>]"
  using dma_copies_symbols [of "plain_job 0" "initial_machine\<lparr>symbols := [\<lparr>sym_name = 7, sym_addr = 0x1004\<rparr>]\<rparr>"
      "0x100000" 16 "0x200000"]
  by (simp add: plain_job_def in_job_def moved_def MAX_SYMBOLS_def)

text \<open>
  The copies share the name with the original, and a new test frees the name of every
  entry: after a copy job over the only symbol, \<open>test_init\<close> frees its name twice.
\<close>

theorem copied_symbol_freed_twice:
  assumes "dma_cmd j AND 3 = 0" and "symbols m = [s]" and "in_job (drop_bit 8 src) count s"
    and "sym_names m (sym_name s) \<noteq> None" and "fault m = None"
    and "hyppo_symbols m = []" and "cpulog_len m = 0"
  shows "fault (state_after (bind_state (dma_symbols j count src dst) (\<lambda>_. test_init)) m) = Some DoubleFree"
proof -
  let ?m1 = "state_after (dma_symbols j count src dst) m"
  have sy: "symbols ?m1 = [s, moved (drop_bit 8 src) (drop_bit 8 dst) s]"
    using copy_symbols_symbols [of m "[s]" "[]" 0 1 "drop_bit 8 src" count "drop_bit 8 dst"] assms(1-3)
    by (simp add: dma_symbols_def MAX_SYMBOLS_def)
  have keep: "sym_names ?m1 = sym_names m" "fault ?m1 = None" "hyppo_symbols ?m1 = []" "cpulog_len ?m1 = 0"
    using assms by (simp_all add: dma_symbols_def add_symbol_def MAX_SYMBOLS_def Let_def)
  have "fault (state_after (free_names (symbols ?m1))
      ((state_after machine_init ?m1)\<lparr>fail_on_stack_overflow := True, fail_on_stack_underflow := True,
        hyppo_symbols := [], sym_by_addr := \<lambda>_. None\<rparr>)) = Some DoubleFree"
    unfolding sy using keep assms(4) machine_init_symbols [OF keep(3,4)]
    by (intro free_names_shared) (simp_all add: moved_def)
  then show ?thesis using test_init_fault [OF keep(3,4)] by simp
qed

theorem copied_symbol_freed_twice_witness:
  "fault (state_after (bind_state (dma_symbols (plain_job 0) 16 0x100000 0x200000) (\<lambda>_. test_init))
      (initial_machine\<lparr>symbols := [\<lparr>sym_name = 7, sym_addr = 0x1004\<rparr>], sym_names := [7 \<mapsto> ''loop'']\<rparr>))
    = Some DoubleFree"
  by (rule copied_symbol_freed_twice [where s = "\<lparr>sym_name = 7, sym_addr = 0x1004\<rparr>"])
     (simp_all add: plain_job_def in_job_def initial_machine_def)

text \<open>
  A fill job is meant to erase the symbols of its destination; of two symbols in the
  destination it erases the first and keeps the second.
\<close>

theorem dma_fill_keeps_symbol:
  assumes "dma_cmd j AND 3 = 3" and "symbols m = [s, t]"
    and "in_job (drop_bit 8 dst) count s" and "in_job (drop_bit 8 dst) count t"
    and "sym_names m (sym_name s) \<noteq> None"
  shows "symbols (state_after (dma_symbols j count src dst) m) = [t]"
  using erase_two_symbols [OF assms(2,3,5)] assms(1,2)
  by (simp add: dma_symbols_def del: erase_symbols.simps)

theorem dma_fill_keeps_symbol_witness:
  "symbols (state_after (dma_symbols (plain_job 3) 16 0 0x100000)
      (initial_machine\<lparr>symbols := [\<lparr>sym_name = 7, sym_addr = 0x1004\<rparr>, \<lparr>sym_name = 8, sym_addr = 0x1008\<rparr>],
         sym_names := [7 \<mapsto> ''a'', 8 \<mapsto> ''b'']\<rparr>)) = [\<lparr>sym_name = 8, sym_addr = 0x1008\<rparr>]"
  by (rule dma_fill_keeps_symbol [where s = "\<lparr>sym_name = 7, sym_addr = 0x1004\<rparr>"])
     (simp_all add: plain_job_def in_job_def)

text \<open>
  The options cannot clear the skips of one byte that a job starts with: whatever options
  an enhanced job has, both steps keep the bit of a whole byte, so that a step of a fraction
  of a byte, which the options are for, does not exist.
\<close>

theorem dma_skip_keeps_whole_byte:
  "let v = fst (result_of (dma_options fu a (v0\<lparr>src_skip := 0x100, dst_skip := 0x100\<rparr>)) m)
   in bit (src_skip v) 8 \<and> bit (dst_skip v) 8"
  using result_dma_options_grow [of "v0\<lparr>src_skip := 0x100, dst_skip := 0x100\<rparr>" fu a m]
  by (simp add: skips_grow_def Let_def)

text \<open>
  In line mode the first byte whose fraction has not reached a whole pixel divides by
  zero, because the test of the overflow toggle is written as a division.
\<close>

theorem dma_line_mode_divides_by_zero:
  assumes "line_mode (dst_line v) \<noteq> 0" and "spiral_mode v = 0" and "fault m = None"
    and "(slope_fraction_start (dst_line v) + slope (dst_line v)) AND 0x10000 = 0"
    and "slope_fraction_start (dst_line v) + slope (dst_line v) < 2 ^ 31"
  shows "fault (state_after (update_dest j v a) m) = Some DivisionByZero"
  using assms by (simp add: update_dest_def line_advance_def raise_def record_fault_def Let_def split: prod.split)

theorem dma_line_mode_divides_by_zero_witness:
  "fault (state_after (update_dest (plain_job 3) (dma_vars_init\<lparr>dst_line := line_vars_init\<lparr>line_mode := 0x80, slope := 0x8000\<rparr>\<rparr>) 0)
     initial_machine) = Some DivisionByZero"
  by (rule dma_line_mode_divides_by_zero)
     (simp_all add: dma_vars_init_def line_vars_init_def initial_machine_def)

end
