(* ===== verification/CpuLaws.thy ===== *)
theory CpuLaws
  imports DmaLaws
begin

text \<open>
  What the building blocks of the instructions compute: the flags, binary addition and
  subtraction, comparison, branch offsets, the stack, and subroutine call and return.
\<close>

section \<open>Flags\<close>

definition nz_flags :: "u8 \<Rightarrow> u8 \<Rightarrow> u8" where
  "nz_flags v f = put_bit 1 (v = 0) (put_bit 7 (v \<ge> 0x80) f)"

lemma state_update_nz:
  "state_after (update_nz v) m = upd_regs (\<lambda>r. r\<lparr>reg_flags := nz_flags v (reg_flags r)\<rparr>) m"
  by (simp add: update_nz_def put_flag_def getter_defs setter_defs upd_defs nz_flags_def)

lemma upd_regs_simps [simp]:
  "regs_of (upd_regs f m) = f (regs_of m)" "term_of (upd_regs f m) = term_of m"
  "ram (upd_regs f m) = ram m" "curlog (upd_regs f m) = curlog m" "fault (upd_regs f m) = fault m"
  "blame (upd_regs f m) = blame m"
  "upd_regs f (upd_regs g m) = upd_regs (\<lambda>r. f (g r)) m"
  by (simp_all add: upd_regs_def)

lemma bit7_unat: "bit (v :: u8) 7 \<longleftrightarrow> 128 \<le> unat v"
proof -
  have "bit v 7 \<longleftrightarrow> bit (unat v) 7"
    unfolding bit_unsigned_iff by (auto simp: possible_bit_def)
  also have "\<dots> \<longleftrightarrow> odd (unat v div 2 ^ 7)" by (rule bit_iff_odd)
  also have "unat v div 2 ^ 7 < 2" using unat_u8_less [of v] by simp
  then have "odd (unat v div 2 ^ 7) \<longleftrightarrow> 128 \<le> unat v"
    by (cases "unat v div 2 ^ 7 = 0") (auto simp: div_eq_0_iff less_2_cases_iff)
  finally show ?thesis .
qed

lemma ge80_bit7: "(v :: u8) \<ge> 0x80 \<longleftrightarrow> bit v 7"
  by (simp add: bit7_unat word_le_nat_alt)

lemma uint_u8: "0 \<le> uint (v :: u8)" "uint (v :: u8) < 256"
  using unsigned_less [of v, where ?'a = int] by simp_all

lemma bit7_uint: "bit (v :: u8) 7 \<longleftrightarrow> 128 \<le> uint v"
  unfolding bit7_unat uint_nat by presburger

lemma sint_u8: "sint (v :: u8) = (if bit v 7 then uint v - 256 else uint v)"
proof -
  have s: "sint v = take_bit 8 (uint v) - 2 ^ 8 * of_bool (bit (uint v) 7)"
    unfolding sint_uint by (simp add: signed_take_bit_eq_take_bit_minus numeral_eq_Suc)
  have b: "bit (uint v) 7 = bit v 7"
    unfolding bit_unsigned_iff by (auto simp: possible_bit_def)
  have t: "take_bit 8 (uint v) = uint v"
    using uint_u8 [of v] by (simp add: take_bit_int_eq_self)
  show ?thesis unfolding s b t by simp
qed

lemma sint_u16: "sint (v :: u16) = (if uint v < 0x8000 then uint v else uint v - 0x10000)"
proof -
  have u: "0 \<le> uint v" "uint v < 2 ^ 16" using unsigned_less [of v, where ?'a = int] by simp_all
  have s: "sint v = take_bit 16 (uint v) - 2 ^ 16 * of_bool (bit (uint v) 15)"
    unfolding sint_uint by (simp add: signed_take_bit_eq_take_bit_minus numeral_eq_Suc)
  have "0 \<le> uint v div 2 ^ 15" by (simp add: pos_imp_zdiv_nonneg_iff)
  moreover have "uint v div 2 ^ 15 < 2" using u by simp
  ultimately have "uint v div 2 ^ 15 = 0 \<or> uint v div 2 ^ 15 = 1" by linarith
  then have b: "bit (uint v) 15 \<longleftrightarrow> \<not> uint v < 0x8000"
    unfolding bit_iff_odd using u by auto
  have t: "take_bit 16 (uint v) = uint v" using u by (simp add: take_bit_int_eq_self)
  show ?thesis unfolding s b t by simp
qed

section \<open>Addition and subtraction\<close>

text \<open>The nine-bit sum of the operands and the carry, as \<open>adc\<close> computes it.\<close>

definition wide_sum :: "u8 \<Rightarrow> u8 \<Rightarrow> bool \<Rightarrow> u32" where
  "wide_sum v a c = ucast v + ucast a + of_bool c"

lemma unat_wide_sum: "unat (wide_sum v a c) = unat v + unat a + of_bool c"
proof -
  have b: "unat (of_bool c :: u32) = of_bool c" by simp
  show ?thesis
    unfolding wide_sum_def unat_word_ariths(1) unat_ucast8 b
    using unat_u8_less [of v] unat_u8_less [of a] by simp
qed

lemma unat_low_sum: "unat (ucast (wide_sum v a c) :: u8) = (unat v + unat a + of_bool c) mod 256"
  unfolding unsigned_ucast_eq unat_wide_sum by (simp add: take_bit_eq_mod)

lemma wide_carry: "wide_sum v a c > 0xff \<longleftrightarrow> unat v + unat a + of_bool c \<ge> 256"
  by (simp add: word_less_nat_alt unat_wide_sum) linarith

lemma bit_80_u32: "bit (0x80 :: u32) n \<longleftrightarrow> n = 7"
proof -
  have "bit (2 ^ 7 :: u32) n \<longleftrightarrow> n = 7" by (auto simp only: bit_exp_iff possible_bit_def) auto
  then show ?thesis by simp
qed

lemma and_80_pos: "(w :: u32) AND 0x80 > 0 \<longleftrightarrow> bit w 7"
proof -
  have "w AND 0x80 = (if bit w 7 then 0x80 else 0 :: u32)"
    by (cases "bit w 7"; rule bit_word_eqI; simp only: bit_and_iff bit_80_u32 if_True if_False bit_0_eq; auto)
  then show ?thesis by simp
qed

lemma state_adc:
  fixes v :: u8
  assumes "\<not> flag_d (reg_flags (regs_of m))"
  defines "a \<equiv> reg_a (regs_of m)" and "c \<equiv> flag_c (reg_flags (regs_of m))"
  defines "w \<equiv> wide_sum v (reg_a (regs_of m)) (flag_c (reg_flags (regs_of m)))"
  shows "state_after (adc v) m = upd_regs (\<lambda>r. r\<lparr>
     reg_flags := put_bit 6 (bit a 7 = bit v 7 \<and> bit w 7 \<noteq> bit a 7)
       (put_bit 0 (w > 0xff) (nz_flags (ucast w) (reg_flags r))),
     reg_a := ucast w\<rparr>) m"
proof -
  have o: "(ucast a XOR w) AND (ucast v XOR w) AND 0x80 > 0 \<longleftrightarrow> bit a 7 = bit v 7 \<and> bit w 7 \<noteq> bit a 7"
    unfolding and_80_pos [symmetric] and.assoc [symmetric]
    by (auto simp: and_80_pos bit_and_iff bit_xor_iff bit_unsigned_iff)
  show ?thesis
    using assms(1) o unfolding a_def c_def w_def wide_sum_def
    by (simp add: adc_def flagged_def getter_defs Let_def state_update_nz put_flag_def setter_defs
        upd_defs)
qed

lemma nz_flags_simps [simp]:
  "flag_n (nz_flags v f) = bit v 7" "flag_z (nz_flags v f) = (v = 0)"
  "flag_c (nz_flags v f) = flag_c f" "flag_v (nz_flags v f) = flag_v f"
  by (simp_all add: nz_flags_def flag_defs ge80_bit7)

text \<open>The flags that arithmetic leaves alone.\<close>

definition other_flags :: "u8 \<Rightarrow> u8" where
  "other_flags f = f AND 0x3c"

lemma bit_3c: "bit (0x3c :: u8) k \<longleftrightarrow> k \<in> {2, 3, 4, 5}"
proof -
  have "(0x3c :: u8) = push_bit 2 (mask 4)" by (simp add: mask_eq_exp_minus_1)
  then show ?thesis
    by (simp only: bit_push_bit_iff bit_mask_iff possible_bit_def) auto
qed

lemma other_flags_put_bit [simp]:
  "k \<in> {0, 1, 6, 7} \<Longrightarrow> other_flags (put_bit k b f) = other_flags f"
  by (rule bit_word_eqI) (auto simp: other_flags_def bit_and_iff bit_3c)

lemma sum_mod_256:
  fixes a v :: u8 and c :: bool
  defines "n \<equiv> unat v + unat a + of_bool c"
  shows "n mod 256 + 256 * of_bool (n \<ge> 256) = n"
proof -
  have "n < 512" unfolding n_def using unat_u8_less [of v] unat_u8_less [of a] by simp
  then show ?thesis by (cases "n < 256") (auto simp: le_mod_geq mod_less not_less)
qed

text \<open>Two's complement: when the signed sum of two bytes and a carry does not fit.\<close>

lemma overflow_int:
  fixes x y s c :: int
  assumes "0 \<le> x" "x < 256" "0 \<le> y" "y < 256" "0 \<le> s" "s < 256" "0 \<le> c" "c \<le> 1"
    and "s = y + x + c \<or> s + 256 = y + x + c"
  shows "((128 \<le> x) = (128 \<le> y) \<and> (128 \<le> s) \<noteq> (128 \<le> x)) \<longleftrightarrow>
    (if 128 \<le> x then x - 256 else x) + (if 128 \<le> y then y - 256 else y) + c \<notin> {- 128..127}"
  using assms by (simp split: if_split) linarith

lemma overflow_bits:
  fixes a v :: u8 and c :: bool
  defines "s \<equiv> ucast (wide_sum v a c) :: u8"
  shows "(bit a 7 = bit v 7 \<and> bit s 7 \<noteq> bit a 7)
    \<longleftrightarrow> sint a + sint v + of_bool c \<notin> {- 128..127}"
proof -
  have "unat s = unat v + unat a + of_bool c \<or> unat s + 256 = unat v + unat a + of_bool c"
    unfolding s_def unat_low_sum using sum_mod_256 [of v a c]
    by (cases "256 \<le> unat v + unat a + of_bool c") simp_all
  then have "int (unat s) = int (unat v + unat a + of_bool c) \<or>
      int (unat s + 256) = int (unat v + unat a + of_bool c)" by metis
  then have "uint s = uint v + uint a + of_bool c \<or> uint s + 256 = uint v + uint a + of_bool c"
    by (simp only: uint_nat of_nat_add of_nat_of_bool of_nat_numeral)
  moreover have "0 \<le> (of_bool c :: int)" "(of_bool c :: int) \<le> 1" by simp_all
  ultimately show ?thesis
    unfolding sint_u8 bit7_uint by (intro overflow_int uint_u8)
qed

lemma bit_low_wide: "bit (ucast (w :: u32) :: u8) 7 = bit w 7"
  by (simp add: bit_unsigned_iff possible_bit_def)

section \<open>Properties of the arithmetic\<close>

text \<open>
  C31: With the decimal flag clear, \<open>adc\<close> adds the operand and the carry to the accumulator:
  sum and carry out are the exact sum, overflow is set when the signed sum does not fit,
  and no other register and no other flag changes.
\<close>

theorem adc_binary:
  assumes "\<not> flag_d (reg_flags (regs_of m))"
  shows "let r = regs_of m; r' = regs_of (state_after (adc v) m);
      f = reg_flags r; f' = reg_flags r'; c = flag_c f
    in unat (reg_a r') + 256 * of_bool (flag_c f') = unat (reg_a r) + unat v + of_bool c \<and>
       flag_v f' = (sint (reg_a r) + sint v + of_bool c \<notin> {- 128..127}) \<and>
       flag_n f' = (sint (reg_a r') < 0) \<and> flag_z f' = (reg_a r' = 0) \<and>
       other_flags f' = other_flags f \<and> r' = r\<lparr>reg_a := reg_a r', reg_flags := f'\<rparr>"
proof -
  let ?a = "reg_a (regs_of m)" and ?c = "flag_c (reg_flags (regs_of m))"
  let ?w = "wide_sum v ?a ?c"
  have sum: "unat (ucast ?w :: u8) + 256 * of_bool (?w > 0xff) = unat ?a + unat v + of_bool ?c"
    unfolding unat_low_sum wide_carry sum_mod_256 by simp
  have ov: "(bit ?a 7 = bit v 7 \<and> bit ?w 7 \<noteq> bit ?a 7)
      \<longleftrightarrow> sint ?a + sint v + of_bool ?c \<notin> {- 128..127}"
    using overflow_bits [of ?a v ?c] by (simp add: bit_low_wide)
  have neg: "sint (ucast ?w :: u8) < 0 \<longleftrightarrow> bit (ucast ?w :: u8) 7"
    using uint_u8 [of "ucast ?w"] by (simp add: sint_u8)
  show ?thesis
    unfolding state_adc [OF assms] Let_def ov
    using sum neg by (simp add: flag_defs nz_flags_def ge80_bit7)
qed

theorem adc_binary_witness:
  "let r = regs_of (state_after (adc 0x50) (upd_regs (\<lambda>r. r\<lparr>reg_a := 0x50\<rparr>) initial_machine))
   in reg_a r = 0xa0 \<and> flag_v (reg_flags r) \<and> \<not> flag_c (reg_flags r)"
proof -
  let ?m = "upd_regs (\<lambda>r. r\<lparr>reg_a := 0x50\<rparr>) initial_machine"
  let ?r = "regs_of (state_after (adc 0x50) ?m)"
  have d: "\<not> flag_d (reg_flags (regs_of ?m))" "\<not> flag_c (reg_flags (regs_of ?m))"
    "reg_a (regs_of ?m) = 0x50"
    by (simp_all add: initial_defs flag_defs)
  have s: "unat (reg_a ?r) + 256 * of_bool (flag_c (reg_flags ?r)) = 160"
    and v: "flag_v (reg_flags ?r)"
    using adc_binary [OF d(1), of "0x50"] d(2,3) by (simp_all add: Let_def)
  from s have "\<not> flag_c (reg_flags ?r)" by (cases "flag_c (reg_flags ?r)") simp_all
  moreover from this s have "unat (reg_a ?r) = 160" by simp
  then have "reg_a ?r = 0xa0" by (simp add: word_unat_eq_iff)
  ultimately show ?thesis using v by (simp add: Let_def)
qed

lemma unat_not_u8: "unat (NOT (v :: u8)) = 255 - unat v"
proof -
  have "NOT v = - 1 - v" by (simp add: not_eq_complement)
  moreover have "unat (- 1 - v) = unat (- 1 :: u8) - unat v"
    by (rule unat_sub) simp
  moreover have "unat (- 1 :: u8) = unat (255 :: u8)" by (rule arg_cong [of _ _ unat]) simp
  then have "unat (- 1 :: u8) = 255" by simp
  ultimately show ?thesis by metis
qed

lemma borrow_int:
  fixes x y b s :: int
  assumes "s + 256 * c = x + (255 - y) + (1 - b)" and "0 \<le> s" "s < 256"
  shows "s = (x - y - b) mod 256"
proof -
  have "x - y - b = s + 256 * (c - 1)" using assms(1) by simp
  then have "(x - y - b) mod 256 = s mod 256" by (metis mod_mult_self2)
  then show ?thesis using assms(2,3) by simp
qed

lemma uint_not_u8: "uint (NOT (v :: u8)) = 255 - uint v"
proof -
  have "unat v \<le> 255" using unat_u8_less [of v] by simp
  then show ?thesis unfolding uint_nat unat_not_u8 by (simp only: of_nat_diff of_nat_numeral)
qed

lemma sint_not_u8: "sint (NOT (v :: u8)) = - sint v - 1"
  unfolding sint_u8 bit7_uint uint_not_u8 using uint_u8 [of v] by auto

text \<open>
  With the decimal flag clear, \<open>sbc\<close> subtracts the operand and the complement of the
  carry: the difference is exact modulo 256, carry says that there was no borrow, and
  overflow that the signed difference does not fit.
\<close>

theorem sbc_binary:
  assumes "\<not> flag_d (reg_flags (regs_of m))"
  shows "let r = regs_of m; r' = regs_of (state_after (sbc v) m);
      f = reg_flags r; f' = reg_flags r'; b = of_bool (\<not> flag_c f)
    in uint (reg_a r') = (uint (reg_a r) - uint v - b) mod 256 \<and>
       flag_c f' = (uint v + b \<le> uint (reg_a r)) \<and>
       flag_v f' = (sint (reg_a r) - sint v - b \<notin> {- 128..127}) \<and>
       flag_n f' = (sint (reg_a r') < 0) \<and> flag_z f' = (reg_a r' = 0) \<and>
       other_flags f' = other_flags f \<and> r' = r\<lparr>reg_a := reg_a r', reg_flags := f'\<rparr>"
proof -
  let ?r = "regs_of m" and ?r' = "regs_of (state_after (sbc v) m)"
  let ?c = "flag_c (reg_flags ?r)" and ?c' = "flag_c (reg_flags ?r')"
  note A = adc_binary [OF assms, of "NOT v", folded sbc_def, unfolded Let_def]
  have sum: "uint (reg_a ?r') + 256 * of_bool ?c' = uint (reg_a ?r) + (255 - uint v) + of_bool ?c"
  proof -
    have "int (unat (reg_a ?r') + 256 * of_bool ?c') = int (unat (reg_a ?r) + unat (NOT v) + of_bool ?c)"
      using A by metis
    then show ?thesis
      by (simp only: of_nat_add of_nat_mult of_nat_of_bool of_nat_numeral uint_not_u8 flip: uint_nat)
  qed
  have diff: "uint (reg_a ?r') = (uint (reg_a ?r) - uint v - of_bool (\<not> ?c)) mod 256"
  proof (rule borrow_int [OF _ uint_u8])
    show "uint (reg_a ?r') + 256 * of_bool ?c' = uint (reg_a ?r) + (255 - uint v) + (1 - of_bool (\<not> ?c))"
      using sum by (cases ?c) simp_all
  qed
  have carry: "?c' = (uint v + of_bool (\<not> ?c) \<le> uint (reg_a ?r))"
    using sum uint_u8 [of "reg_a ?r'"] by (cases ?c; cases ?c'; simp; linarith)
  have "sint (reg_a ?r) + sint (NOT v) + of_bool ?c = sint (reg_a ?r) - sint v - of_bool (\<not> ?c)"
    unfolding sint_not_u8 by simp
  with A show ?thesis
    unfolding Let_def using diff carry by metis
qed

theorem sbc_binary_witness:
  "let r = regs_of (state_after (sbc 0x01) initial_machine)
   in uint (reg_a r) = 0xfe \<and> \<not> flag_c (reg_flags r)"
proof -
  have "\<not> flag_d (reg_flags (regs_of initial_machine))" by (simp add: initial_defs flag_defs)
  from sbc_binary [OF this, of 1] show ?thesis
    by (simp add: Let_def initial_defs flag_defs)
qed

text \<open>
  Decimal mode is not implemented: with the decimal flag set, addition and subtraction
  set the error flag and change nothing else.
\<close>

theorem decimal_mode_error:
  assumes "flag_d (reg_flags (regs_of m))"
  shows "state_after (adc v) m = upd_term (\<lambda>t. t\<lparr>t_error := True\<rparr>) m \<and>
    state_after (sbc v) m = upd_term (\<lambda>t. t\<lparr>t_error := True\<rparr>) m"
  using assms by (simp_all add: sbc_def adc_def flagged_def getter_defs set_error_def)

theorem decimal_mode_error_witness:
  "state_after (adc 0x15) (upd_regs (\<lambda>r. r\<lparr>reg_flags := FLAG_D\<rparr>) initial_machine)
    = upd_term (\<lambda>t. t\<lparr>t_error := True\<rparr>) (upd_regs (\<lambda>r. r\<lparr>reg_flags := FLAG_D\<rparr>) initial_machine)"
  using decimal_mode_error [of "upd_regs (\<lambda>r. r\<lparr>reg_flags := FLAG_D\<rparr>) initial_machine" "0x15"]
  by (simp add: flag_defs flag_masks)

section \<open>Comparison and branches\<close>

lemma state_update_cmp_flags:
  "state_after (update_cmp_flags d) m = upd_regs (\<lambda>r. r\<lparr>reg_flags :=
     put_bit 0 (\<not> bit d 7) (nz_flags d (reg_flags r))\<rparr>) m"
  by (simp add: update_cmp_flags_def state_update_nz flagged_def put_flag_def getter_defs setter_defs)
     (simp add: upd_regs_def)

lemma state_compare:
  "state_after (compare f b) m = upd_regs (\<lambda>r. r\<lparr>reg_flags :=
     put_bit 0 (\<not> bit (f (regs_of m) - b) 7) (nz_flags (f (regs_of m) - b) (reg_flags r))\<rparr>) m"
proof -
  have w: "word_of_int (uint (f (regs_of m)) - uint b) = f (regs_of m) - b" by simp
  show ?thesis
    by (simp only: compare_def Let_def state_after_bind reg_def result_of_simps state_after_simps w
        state_update_cmp_flags)
qed

text \<open>
  A comparison sets zero exactly for equal operands and negative from bit 7 of the
  difference; its carry is the complement of negative, which is the unsigned order only
  while the operands are less than 128 apart. Nothing but the flags changes.
\<close>

theorem compare_flags:
  "let r = regs_of m; r' = regs_of (state_after (compare f b) m); fl = reg_flags r'; a = f r
   in flag_z fl = (a = b) \<and> flag_n fl = bit (a - b) 7 \<and> flag_c fl = (\<not> flag_n fl) \<and>
      ((flag_c fl = (b \<le> a)) = (if b \<le> a then unat a - unat b < 128 else unat b - unat a \<le> 128)) \<and>
      other_flags fl = other_flags (reg_flags r) \<and> r' = r\<lparr>reg_flags := fl\<rparr>"
proof -
  let ?a = "f (regs_of m)"
  have d: "unat (?a - b) = (if b \<le> ?a then unat ?a - unat b else 256 - (unat b - unat ?a))"
  proof -
    have "unat (?a - b + b) = (unat (?a - b) + unat b) mod 256" by (simp only: unat_word_ariths(1)) simp
    then have "(unat (?a - b) + unat b) mod 256 = unat ?a" by simp
    moreover have "unat (?a - b) + unat b < 512"
      using unat_u8_less [of b] unat_u8_less [of "?a - b"] by simp
    ultimately have "unat (?a - b) + unat b = unat ?a \<or> unat (?a - b) + unat b = unat ?a + 256"
      by (cases "unat (?a - b) + unat b < 256") (auto simp: le_mod_geq not_less)
    then show ?thesis
      using unat_u8_less [of "?a - b"] unat_u8_less [of b] by (auto simp: word_le_nat_alt)
  qed
  have "(\<not> bit (?a - b) 7) = (unat (?a - b) < 128)" by (simp add: bit7_unat not_le)
  moreover have "(unat (?a - b) < 128) = (if b \<le> ?a then unat ?a - unat b < 128 else \<not> unat b - unat ?a \<le> 128)"
    unfolding d using unat_u8_less [of b] by auto
  ultimately show ?thesis
    unfolding state_compare Let_def
    by (simp add: flag_defs nz_flags_def ge80_bit7)
qed

text \<open>
  The offset of a branch is the signed value of its byte or word.
\<close>

theorem branch_offsets_signed: "rel8_delta c = sint c \<and> rel16_delta w = sint w"
  by (simp add: rel8_delta_def rel16_delta_def sint_u8 sint_u16 bit7_uint word_less_def)

end
