(* ===== verification/Stack.thy ===== *)
theory Stack
  imports CpuLaws
begin

text \<open>
  The stack: what a push and a pop do, that a pop undoes a push in both stack modes, and that
  \<open>RTS\<close> returns behind the \<open>JSR\<close> that called.
\<close>

section \<open>The stack pointer\<close>

text \<open>
  With the E flag the pointer stays in its page: only the low byte counts.
\<close>

definition sp_down :: "bool \<Rightarrow> u16 \<Rightarrow> u16" where
  "sp_down e s = (if e then put_lo8 (lo8 s - 1) s else s - 1)"

definition sp_up :: "bool \<Rightarrow> u16 \<Rightarrow> u16" where
  "sp_up e s = (if e then put_lo8 (lo8 s + 1) s else s + 1)"

lemma sp_up_down [simp]: "sp_up e (sp_down e s) = s"
proof (cases e)
  case True
  then show ?thesis by (intro u16_bytes_eqI) (simp_all add: sp_up_def sp_down_def)
next
  case False
  then show ?thesis by (simp add: sp_up_def sp_down_def)
qed

section \<open>Push and pop\<close>

definition stack_mode :: "regs \<Rightarrow> bool" where
  "stack_mode r = flag_e (reg_flags r)"

definition slot :: "regs \<Rightarrow> u8 banks \<Rightarrow> u16 \<Rightarrow> u32" where
  "slot r b s = map_addr r b (ucast s) True"

text \<open>
  A stack byte that can be written and read back: the slot is plain memory, it is not the
  CPU port, and reads see it too.
\<close>

definition slot_ok :: "regs \<Rightarrow> u8 banks \<Rightarrow> u16 \<Rightarrow> bool" where
  "slot_ok r b s \<longleftrightarrow> (\<forall>v. plain_write (slot r b s) v) \<and> slot r b s \<noteq> 1 \<and>
     map_addr r b (ucast s) False = slot r b s"

lemma ucast_u16_le: "(ucast (s :: u16) :: u32) \<le> 0xffff"
  using unat_u16_less [of s] by (simp add: word_le_nat_alt unat_ucast16)

lemma map_addr_same_map:
  assumes "maplo r = maplo q" "maphi r = maphi q" "maplomb r = maplomb q" "maphimb r = maphimb q"
    and "chipram b 0 = chipram c 0" "chipram b 1 = chipram c 1"
  shows "map_addr r b a w = map_addr q c a w"
  unfolding map_addr_def map_zone_def port_lnc_def assms ..

definition overflowed :: "bool \<Rightarrow> machine \<Rightarrow> machine" where
  "overflowed b m = (if b then m\<lparr>cpu := (cpu m)\<lparr>stack_overflow := True\<rparr>\<rparr> else m)"

lemma overflowed_simps [simp]:
  "regs_of (overflowed b m) = regs_of m" "ram (overflowed b m) = ram m"
  "blame (overflowed b m) = blame m" "curlog (overflowed b m) = curlog m"
  "fault (overflowed b m) = fault m" "term_of (overflowed b m) = term_of m"
  "instruction_count (cpu (overflowed b m)) = instruction_count (cpu m)"
  by (simp_all add: overflowed_def)

lemma stored_more [simp]:
  "curlog (stored a v m) = curlog m" "blame (stored a v m)
    = poke (region_of a) (instruction_count (cpu m)) (blame m)"
  "ram (stored a v m) = poke (region_of a) v (ram m)"
  by (simp_all add: stored_def)

text \<open>The wrap-around that \<open>stack_push\<close> reports.\<close>

definition push_wraps :: "bool \<Rightarrow> u16 \<Rightarrow> bool" where
  "push_wraps e s = (if e then lo8 s - 1 > lo8 s else s - 1 > s)"

definition pushed :: "u8 \<Rightarrow> machine \<Rightarrow> machine" where
  "pushed v m = (let r = regs_of m; s = reg_sp r; e = stack_mode r
     in overflowed (push_wraps e s)
          (upd_regs (\<lambda>r. r\<lparr>reg_sp := sp_down e s\<rparr>) (stored (slot r (ram m) s) v m)))"

lemma run_stack_push:
  assumes "plain_write (slot (regs_of m) (ram m) (reg_sp (regs_of m))) v"
  shows "run_state (stack_push fu v) m = (True, pushed v m)"
proof -
  have w: "run_state (write_mem28 fu (slot (regs_of m) (ram m) (reg_sp (regs_of m))) v) m
      = (0, stored (slot (regs_of m) (ram m) (reg_sp (regs_of m))) v m)"
    by (rule run_write_mem28 [OF assms])
  show ?thesis
    using w unfolding slot_def
    by (simp add: stack_push_def MEM_WRITE16_def run_bind run_addr_to_28bit [OF ucast_u16_le]
        getter_defs flagged_def setter_defs pushed_def sp_down_def push_wraps_def stack_mode_def
        slot_def overflowed_def upd_regs_def Let_def)
qed

lemma map_addr_sp [simp]: "map_addr (r\<lparr>reg_sp := s\<rparr>) b a w = map_addr r b a w"
  by (rule map_addr_same_map) simp_all

lemma record_fault_same:
  "regs_of (record_fault f m) = regs_of m" "ram (record_fault f m) = ram m"
  by (simp_all add: record_fault_def split: option.split)

lemma stack_pop_effects:
  defines "s \<equiv> \<lambda>m. sp_up (stack_mode (regs_of m)) (reg_sp (regs_of m))"
  shows "result_of stack_pop m
      = peek (ram m) 0xbd (region_of (map_addr (regs_of m) (ram m) (ucast (s m)) False))"
    and "regs_of (state_after stack_pop m) = (regs_of m)\<lparr>reg_sp := s m\<rparr>"
    and "ram (state_after stack_pop m) = ram m"
    and "term_of (state_after stack_pop m) = term_of m"
    and "l_pops (curlog (state_after stack_pop m)) = l_pops (curlog m) + 1"
    and "unat (l_pops (curlog m)) < MAX_POPS \<Longrightarrow> fault (state_after stack_pop m) = fault m"
    and "\<not> unat (l_pops (curlog m)) < MAX_POPS \<Longrightarrow> fault m = None \<Longrightarrow>
      fault (state_after stack_pop m) = Some OutOfBounds"
proof -
  have run: "run_state stack_pop m = (bus_value m1 (ucast (s m)), m2)"
    if m1: "m1 = (let e = stack_mode (regs_of m); q = reg_sp (regs_of m);
          w = (if e then lo8 q + 1 < lo8 q else q + 1 < q)
        in upd_regs (\<lambda>r. r\<lparr>reg_sp := s m\<rparr>) (if w then m\<lparr>cpu := (cpu m)\<lparr>stack_underflow := True\<rparr>\<rparr> else m))"
    and m2: "m2 = (let l = curlog m;
          w = peek (blame m) 0 (region_of (map_addr (regs_of m) (ram m) (ucast (s m)) False));
          m3 = upd_log (\<lambda>l. l\<lparr>l_pops := l_pops l + 1\<rparr>) m1
        in if unat (l_pops l) < MAX_POPS
           then upd_log (\<lambda>l. l\<lparr>l_pop_blame := (l_pop_blame l)[unat (l_pops (curlog m)) := w]\<rparr>) m3
           else record_fault OutOfBounds m3)" for m1 m2
    unfolding m1 m2 Let_def s_def
    by (cases "flag_e (reg_flags (regs_of m))")
       (simp_all add: stack_pop_def stack_pop_ext_def run_bind flagged_def getter_defs setter_defs
          stack_mode_def sp_up_def run_memory_blame [OF ucast_u16_le] run_read_memory [OF ucast_u16_le]
          upd_regs_def upd_log_def Let_def bus_value_def record_fault_same)
  show "result_of stack_pop m
      = peek (ram m) 0xbd (region_of (map_addr (regs_of m) (ram m) (ucast (s m)) False))"
     "regs_of (state_after stack_pop m) = (regs_of m)\<lparr>reg_sp := s m\<rparr>"
     "ram (state_after stack_pop m) = ram m"
     "term_of (state_after stack_pop m) = term_of m"
     "l_pops (curlog (state_after stack_pop m)) = l_pops (curlog m) + 1"
     "unat (l_pops (curlog m)) < MAX_POPS \<Longrightarrow> fault (state_after stack_pop m) = fault m"
     "\<not> unat (l_pops (curlog m)) < MAX_POPS \<Longrightarrow> fault m = None \<Longrightarrow>
      fault (state_after stack_pop m) = Some OutOfBounds"
    using leD [OF ucast_u16_le [of "s m"]]
    unfolding result_of_def state_after_def run [OF refl refl] Let_def bus_value_def
    by (simp_all add: upd_defs record_fault_def split: option.split)
qed

lemma pushed_simps [simp]:
  "regs_of (pushed v m) = (regs_of m)\<lparr>reg_sp := sp_down (stack_mode (regs_of m)) (reg_sp (regs_of m))\<rparr>"
  "ram (pushed v m) = poke (region_of (slot (regs_of m) (ram m) (reg_sp (regs_of m)))) v (ram m)"
  "term_of (pushed v m) = term_of m" "curlog (pushed v m) = curlog m"
  by (simp_all add: pushed_def Let_def)

lemma poke_port:
  assumes "a \<noteq> 0" "a \<noteq> 1"
  shows "chipram (poke (region_of a) v b) 0 = chipram b 0" "chipram (poke (region_of a) v b) 1 = chipram b 1"
proof -
  have "region_of a = Chip i \<Longrightarrow> i = a" for i by (simp add: region_of_def split: if_splits)
  then show "chipram (poke (region_of a) v b) 0 = chipram b 0"
    "chipram (poke (region_of a) v b) 1 = chipram b 1"
    using assms by (cases "region_of a"; simp)+
qed

lemma map_addr_poke:
  "a \<noteq> 0 \<Longrightarrow> a \<noteq> 1 \<Longrightarrow> map_addr r (poke (region_of a) v b) c w = map_addr r b c w"
  by (rule map_addr_same_map) (simp_all add: poke_port)

lemma slot_okD:
  assumes "slot_ok r b s"
  shows "plain_write (slot r b s) v" "slot r b s \<noteq> 0" "slot r b s \<noteq> 1"
    "map_addr r b (ucast s) False = slot r b s" "backed (region_of (slot r b s))"
  using assms by (auto simp: slot_ok_def plain_write_def)

lemma slot_poke:
  "slot_ok r b s \<Longrightarrow> slot r (poke (region_of (slot r b s)) v b) t = slot r b t"
  unfolding slot_def [of r "poke _ _ _"] slot_def [of r b t]
  by (rule map_addr_poke) (rule slot_okD, assumption)+

lemma slot_regs [simp]: "slot (r\<lparr>reg_sp := t\<rparr>) b s = slot r b s"
  by (simp add: slot_def)

lemma stack_mode_simps [simp]:
  "stack_mode (r\<lparr>reg_sp := t\<rparr>) = stack_mode r" "stack_mode (r\<lparr>reg_pc := p\<rparr>) = stack_mode r"
  by (simp_all add: stack_mode_def)

lemma map_addr_pc [simp]: "map_addr (r\<lparr>reg_pc := s\<rparr>) b a w = map_addr r b a w"
  by (rule map_addr_same_map) simp_all

lemma pull_pc_effects:
  fixes m :: machine
  defines "r \<equiv> regs_of m" and "b \<equiv> ram m"
  defines "s1 \<equiv> sp_up (stack_mode r) (reg_sp r)"
  defines "s2 \<equiv> sp_up (stack_mode r) s1"
  defines "lo \<equiv> peek b 0xbd (region_of (map_addr r b (ucast s1) False))"
    and "hi \<equiv> peek b 0xbd (region_of (map_addr r b (ucast s2) False))"
  shows "regs_of (state_after pull_pc m)
      = r\<lparr>reg_sp := s2, reg_pc := ucast lo OR push_bit 8 (ucast hi)\<rparr>"
    and "term_of (state_after pull_pc m) = term_of m"
    and "ram (state_after pull_pc m) = b"
proof -
  let ?m1 = "state_after stack_pop m"
  let ?m2 = "upd_regs (\<lambda>q. q\<lparr>reg_pc := ucast lo\<rparr>) ?m1"
  have lo: "result_of stack_pop m = lo"
    unfolding stack_pop_effects lo_def b_def s1_def r_def ..
  have r1: "regs_of ?m1 = r\<lparr>reg_sp := s1\<rparr>" "ram ?m1 = b"
    by (simp_all add: stack_pop_effects r_def s1_def b_def)
  have hi: "result_of stack_pop ?m2 = hi"
    using r1 by (simp add: stack_pop_effects hi_def s2_def)
  show "regs_of (state_after pull_pc m)
      = r\<lparr>reg_sp := s2, reg_pc := ucast lo OR push_bit 8 (ucast hi)\<rparr>"
    "term_of (state_after pull_pc m) = term_of m" "ram (state_after pull_pc m) = b"
    using r1 hi unfolding r_def b_def s1_def s2_def lo_def hi_def
    by (simp_all add: pull_pc_def set_pc_def reg_def stack_pop_effects)
qed

lemma bytes_of_u32:
  assumes "(p :: u32) \<le> 0xffff"
  shows "ucast (ucast p :: u8) OR push_bit 8 (ucast (ucast (drop_bit 8 p) :: u8)) = p"
proof (rule bit_word_eqI)
  fix n
  have "take_bit 16 p = p"
  proof -
    have "unat (take_bit 16 p) = unat p"
      using assms unfolding unsigned_take_bit_eq by (simp add: take_bit_nat_eq_self word_le_nat_alt)
    then show ?thesis by (rule unsigned_word_eqI)
  qed
  then have "bit p n \<Longrightarrow> n < 16" by (metis bit_take_bit_iff)
  then show "bit (ucast (ucast p :: u8) OR push_bit 8 (ucast (ucast (drop_bit 8 p) :: u8)) :: u32) n = bit p n"
    if "n < LENGTH(32)"
    using that
    by (cases "n < 8") (auto simp: bit_or_iff bit_unsigned_iff bit_push_bit_iff bit_drop_bit_eq possible_bit_def)
qed

lemma drop_8_pc: "ucast (drop_bit 8 p) = (ucast (drop_bit 8 (p :: u32)) :: u8)"
  ..

text \<open>Two pushes at slots that differ.\<close>

definition frame_ok :: "regs \<Rightarrow> u8 banks \<Rightarrow> bool" where
  "frame_ok r b \<longleftrightarrow> (let s = reg_sp r; t = sp_down (stack_mode r) s
     in slot_ok r b s \<and> slot_ok r b t \<and> slot r b s \<noteq> slot r b t)"

section \<open>Properties\<close>

text \<open>
  Whatever is pushed is popped again, in both stack modes and across a wrap-around of the
  pointer: where the top of the stack is memory that reads and writes see alike, a pop after
  a push returns the byte and restores every register.
\<close>

theorem push_pop_roundtrip:
  assumes "slot_ok (regs_of m) (ram m) (reg_sp (regs_of m))"
  shows "let m' = state_after (stack_push fu v) m
    in result_of (stack_push fu v) m \<and> result_of stack_pop m' = v \<and>
       regs_of (state_after stack_pop m') = regs_of m"
proof -
  note k = slot_okD [OF assms]
  have "run_state (stack_push fu v) m = (True, pushed v m)" by (rule run_stack_push [OF k(1)])
  then have p: "result_of (stack_push fu v) m" "state_after (stack_push fu v) m = pushed v m"
    by (simp_all add: result_of_def state_after_def)
  show ?thesis
    unfolding p(2) Let_def using p(1) k
    by (simp add: stack_pop_effects map_addr_poke peek_poke_same)
qed

text \<open>A machine with the stack at \<open>$01FF\<close>, for the examples.\<close>

definition demo_stack :: machine where
  "demo_stack = upd_regs (\<lambda>r. r\<lparr>reg_sp := 0x1ff, reg_pc := 0x2000\<rparr>) initial_machine"

lemma demo_map:
  assumes "a = 0x1ff \<or> a = 0x1fe"
  shows "map_addr (regs_of demo_stack) (ram demo_stack) a w = a"
proof -
  have "a \<le> 0xffff" using assms by auto
  moreover have "unmapped_zone (regs_of demo_stack) a"
    using assms by (auto simp: unmapped_zone_def demo_stack_def initial_defs)
  ultimately show ?thesis
    using assms by (auto simp: map_addr_banked pla_view_def)
qed

lemma demo_slot_ok:
  assumes "s = 0x1ff \<or> s = 0x1fe"
  shows "slot_ok (regs_of demo_stack) (ram demo_stack) s" "slot (regs_of demo_stack) (ram demo_stack) s = ucast s"
proof -
  have u: "ucast s = (0x1ff :: u32) \<or> ucast s = (0x1fe :: u32)" using assms by auto
  have m: "map_addr (regs_of demo_stack) (ram demo_stack) (ucast s) w = ucast s" for w
    by (rule demo_map [OF u])
  then show "slot (regs_of demo_stack) (ram demo_stack) s = ucast s" by (simp add: slot_def)
  have "region_of (ucast s) = Chip (ucast s)" using u by (auto simp: region_of_def sizes)
  then show "slot_ok (regs_of demo_stack) (ram demo_stack) s"
    unfolding slot_ok_def slot_def m plain_write_def using u by auto
qed

theorem push_pop_roundtrip_witness:
  "result_of stack_pop (state_after (stack_push 0 0x77) demo_stack) = 0x77"
proof -
  have "reg_sp (regs_of demo_stack) = 0x1ff" by (simp add: demo_stack_def)
  then show ?thesis
    using push_pop_roundtrip [of demo_stack 0 "0x77"] demo_slot_ok(1) [of "0x1ff"] by (simp add: Let_def)
qed

text \<open>The state after the two pushes of \<open>JSR\<close>, and after the counting of \<open>term.rts\<close>.\<close>

definition counted :: "int \<Rightarrow> machine \<Rightarrow> machine" where
  "counted d m = (if t_rts (term_of m) \<noteq> 0 then upd_term (\<lambda>t. t\<lparr>t_rts := t_rts t + d\<rparr>) m else m)"

lemma counted_simps [simp]:
  "regs_of (counted d m) = regs_of m" "ram (counted d m) = ram m" "curlog (counted d m) = curlog m"
  by (simp_all add: counted_def upd_term_def)

lemma two_pushes:
  assumes "frame_ok (regs_of m) (ram m)"
  defines "r \<equiv> regs_of m" and "e \<equiv> stack_mode (regs_of m)" and "b \<equiv> ram m"
  shows "run_state (stack_push fu v) m = (True, pushed v m)"
    and "run_state (stack_push fu w) (pushed v m) = (True, pushed w (pushed v m))"
    and "peek (ram (pushed w (pushed v m))) 0xbd (region_of (slot r b (sp_down e (reg_sp r)))) = w"
    and "peek (ram (pushed w (pushed v m))) 0xbd (region_of (slot r b (reg_sp r))) = v"
    and "map_addr r (ram (pushed w (pushed v m))) (ucast (sp_down e (reg_sp r))) False = slot r b (sp_down e (reg_sp r))"
    and "map_addr r (ram (pushed w (pushed v m))) (ucast (reg_sp r)) False = slot r b (reg_sp r)"
proof -
  have k: "slot_ok r b (reg_sp r)" "slot_ok r b (sp_down e (reg_sp r))"
    "slot r b (reg_sp r) \<noteq> slot r b (sp_down e (reg_sp r))"
    using assms(1) by (simp_all add: frame_ok_def r_def b_def e_def Let_def)
  have ne: "region_of (slot r b (reg_sp r)) \<noteq> region_of (slot r b (sp_down e (reg_sp r)))"
    using k(3) slot_okD(5) [OF k(1)] by (metis region_of_inj)
  show "run_state (stack_push fu v) m = (True, pushed v m)"
    using slot_okD(1) [OF k(1)] by (intro run_stack_push) (simp add: r_def b_def)
  show "run_state (stack_push fu w) (pushed v m) = (True, pushed w (pushed v m))"
    using slot_okD(1) [OF k(2)] slot_poke [OF k(1)]
    by (intro run_stack_push) (simp add: r_def b_def e_def)
  have ram: "ram (pushed w (pushed v m))
      = poke (region_of (slot r b (sp_down e (reg_sp r)))) w (poke (region_of (slot r b (reg_sp r))) v b)"
    using slot_poke [OF k(1)] by (simp add: r_def b_def e_def)
  show "peek (ram (pushed w (pushed v m))) 0xbd (region_of (slot r b (sp_down e (reg_sp r)))) = w"
    unfolding ram by (rule peek_poke_same) (rule slot_okD(5) [OF k(2)])
  show "peek (ram (pushed w (pushed v m))) 0xbd (region_of (slot r b (reg_sp r))) = v"
    unfolding ram peek_poke_other [OF ne] by (rule peek_poke_same) (rule slot_okD(5) [OF k(1)])
  have m: "map_addr r (ram (pushed w (pushed v m))) c False = map_addr r b c False" for c
    unfolding ram using slot_okD(2,3) [OF k(1)] slot_okD(2,3) [OF k(2)] by (simp add: map_addr_poke)
  show "map_addr r (ram (pushed w (pushed v m))) (ucast (sp_down e (reg_sp r))) False = slot r b (sp_down e (reg_sp r))"
    "map_addr r (ram (pushed w (pushed v m))) (ucast (reg_sp r)) False = slot r b (reg_sp r)"
    unfolding m using slot_okD(4) [OF k(1)] slot_okD(4) [OF k(2)] by simp_all
qed

lemma state_jsr_push:
  assumes "frame_ok (regs_of m) (ram m)"
  shows "state_after (jsr_push fu) m
    = pushed (ucast (reg_pc (regs_of m) + 2)) (pushed (ucast (drop_bit 8 (reg_pc (regs_of m) + 2))) (counted 1 m))"
proof -
  have "frame_ok (regs_of (counted 1 m)) (ram (counted 1 m))" using assms by simp
  note t = two_pushes(1,2) [OF this]
  show ?thesis
  proof (cases "t_rts (term_of m) = 0")
    case True
    then have "counted 1 m = m" by (simp add: counted_def)
    with True t show ?thesis
      by (simp add: jsr_push_def state_after_def run_bind getter_defs)
  next
    case False
    then have c: "upd_term (\<lambda>t. t\<lparr>t_rts := t_rts (term_of m) + 1\<rparr>) m = counted 1 m"
      by (simp add: counted_def upd_term_def)
    with False t show ?thesis
      by (simp add: jsr_push_def state_after_def run_bind getter_defs set_rts_def)
  qed
qed

text \<open>
  C33: \<open>JSR\<close> jumps to its operand, and an \<open>RTS\<close> executed there returns behind the
  \<open>JSR\<close>, with all registers and the termination conditions as they were, if the two bytes of the
  stack that are used are different memory that reads and writes see alike and that is not the processor port,
  the \<open>JSR\<close> does not lie across the end of the 64 KB, and the count of calls to return from is not
  negative.
\<close>

theorem jsr_rts_roundtrip:
  assumes "frame_ok (regs_of m) (ram m)" and "reg_pc (regs_of m) \<le> 0xfffd" and "0 \<le> t_rts (term_of m)"
  shows "let m1 = state_after (execute_switch fu 0x20) m; m2 = state_after (execute_switch fu' 0x60) m1
    in reg_pc (regs_of m1) = result_of addr_abs m \<and>
       regs_of m2 = (regs_of m)\<lparr>reg_pc := reg_pc (regs_of m) + 3\<rparr> \<and> term_of m2 = term_of m"
proof -
  let ?r = "regs_of m" and ?c = "counted 1 m"
  let ?p = "reg_pc ?r + 2" and ?ad = "result_of addr_abs m"
  let ?m0 = "pushed (ucast ?p) (pushed (ucast (drop_bit 8 ?p)) ?c)"
  let ?m1 = "state_after (execute_switch fu 0x20) m"
  have t: "frame_ok (regs_of ?c) (ram ?c)" using assms(1) by simp
  have ad: "result_of addr_abs ?m0 = ?ad"
    by (simp add: addr_abs_def log_word_def log_byte_def getter_defs)
  have st: "state_after addr_abs x = x" for x
    by (simp add: addr_abs_def log_word_def log_byte_def getter_defs)
  have "state_after (execute_switch fu 0x20) m = state_after (set_len 3) (state_after (set_pc ?ad) ?m0)"
    by (simp add: execute_switch_def exec_2x_def state_jsr_push [OF assms(1)] ad st)
  then have m1: "regs_of ?m1 = (regs_of ?m0)\<lparr>reg_pc := ?ad\<rparr>" "ram ?m1 = ram ?m0" "term_of ?m1 = term_of ?c"
    by (simp_all add: set_len_def set_pc_def upd_log_def)
  let ?n = "t_rts (term_of ?m1)"
  let ?m1' = "state_after (if ?n \<noteq> 0 then bind_state (set_rts (?n - 1)) (\<lambda>_. if ?n - 1 = 0 then set_done else return ())
    else return ()) (state_after (set_len 1) ?m1)"
  have n: "?n = (if t_rts (term_of m) = 0 then 0 else t_rts (term_of m) + 1)"
    unfolding m1 by (simp add: counted_def upd_term_def)
  have m1': "regs_of ?m1' = regs_of ?m1" "ram ?m1' = ram ?m1" "term_of ?m1' = term_of m"
    using assms(3) n m1(3)
    by (auto simp: set_len_def upd_log_def set_rts_def set_done_def upd_term_def counted_def)
  obtain q where q: "q = ?m1'" by simp
  note q1 = m1' [folded q]
  have m2: "state_after (execute_switch fu' 0x60) ?m1 = state_after (add_pc 1) (state_after pull_pc q)"
    unfolding q by (simp add: execute_switch_def exec_6x_def tcond_def set_len_def upd_log_def)
  note tp = two_pushes(3-6) [OF t, where v = "ucast (drop_bit 8 ?p)" and w = "ucast ?p"]
  have "unat ?p \<le> 0xffff"
    using assms(2) unat_add_le [of "reg_pc ?r" 2] by (simp add: word_le_nat_alt)
  then have pc: "ucast (ucast ?p :: u8) OR push_bit 8 (ucast (ucast (drop_bit 8 ?p) :: u8)) = ?p"
    by (intro bytes_of_u32) (simp add: word_le_nat_alt)
  have pull: "regs_of (state_after pull_pc q) = ?r\<lparr>reg_pc := ?p\<rparr>"
    unfolding pull_pc_effects q1 m1 using tp pc by simp
  have "regs_of (state_after (add_pc 1) (state_after pull_pc q)) = ?r\<lparr>reg_pc := ?p + 1\<rparr>"
    using pull by (simp add: add_pc_def reg_def set_pc_def)
  moreover have "term_of (state_after (add_pc 1) (state_after pull_pc q)) = term_of m"
    using q1(3) by (simp add: add_pc_def reg_def set_pc_def pull_pc_effects)
  ultimately show ?thesis
    unfolding Let_def m2 using m1(1) by (simp add: add.assoc)
qed

theorem jsr_rts_roundtrip_witness:
  "reg_pc (regs_of (state_after (execute_switch 0 0x60) (state_after (execute_switch 0 0x20) demo_stack))) = 0x2003"
proof -
  have "frame_ok (regs_of demo_stack) (ram demo_stack)"
    using demo_slot_ok [of "0x1ff"] demo_slot_ok [of "0x1fe"]
    by (simp add: frame_ok_def Let_def demo_stack_def stack_mode_def sp_down_def initial_defs flag_defs)
  then show ?thesis
    using jsr_rts_roundtrip [of demo_stack 0 0]
    by (simp add: Let_def demo_stack_def initial_defs)
qed

end
