(* ===== verification/Opcodes.thy ===== *)
theory Opcodes
  imports Stack
begin

text \<open>
  The opcodes as a whole: which of them are decoded, how long they are, how far the program
  counter moves, and what no instruction ever touches.

  The lengths are those of the instruction set listed in \<open>src/_unused/64net.opc\<close>: one byte for the
  opcode and one for each pair of letters of the operand. \<open>BRK\<close> has a second byte here.
\<close>

section \<open>The instruction set\<close>

text \<open>The opcodes without a case.\<close>

definition undecoded :: "u8 list" where
  "undecoded = [
     0x02, 0x0b, 0x23, 0x3b, 0x42, 0x43, 0x44, 0x53, 0x54, 0x62, 0x63, 0x73, 0x82, 0x8b,
     0x9b, 0xab, 0xb3, 0xbb, 0xc2, 0xc3, 0xcb, 0xd3, 0xd4, 0xdc, 0xe2, 0xe3, 0xeb, 0xf4,
     0xfc]"

text \<open>
  The lengths by the low digit of the opcode. Seven of the columns are uniform, two alternate
  between immediate and absolute,Y operands, and the others have exceptions.
\<close>

definition opcode_length :: "u8 \<Rightarrow> u8" where
  "opcode_length opc =
    (let col = opc AND 0x0f in
     if col = 0x0 then (if opc = 0x20 then 3 else if opc = 0x40 \<or> opc = 0x60 then 1 else 2)
     else if col = 0x2 then (if opc = 0x22 then 3 else 2)
     else if col = 0x3 then (if opc = 0x03 then 1 else if opc = 0xa3 then 2 else 3)
     else if col = 0x8 \<or> col = 0xa \<or> col = 0xb then 1
     else if col = 0x9 then (if bit opc 4 then 3 else 2)
     else if col = 0xc then (if opc = 0x5c then 1 else 3)
     else if col = 0xd \<or> col = 0xe \<or> col = 0xf then 3
     else 2)"

text \<open>Branches, jumps, calls, returns and \<open>BRK\<close>.\<close>

definition control_flow :: "u8 list" where
  "control_flow = [
     0x00, 0x0f, 0x10, 0x13, 0x1f, 0x20, 0x22, 0x2f, 0x30, 0x33, 0x3f, 0x40, 0x4c, 0x4f,
     0x50, 0x5f, 0x60, 0x6c, 0x6f, 0x70, 0x7c, 0x7f, 0x80, 0x83, 0x8f, 0x90, 0x93, 0x9f,
     0xaf, 0xb0, 0xbf, 0xcf, 0xd0, 0xdf, 0xef, 0xf0, 0xf3, 0xff]"

lemmas opcode_lists = undecoded_def control_flow_def

section \<open>Program counter and length\<close>

definition pc_len :: "machine \<Rightarrow> u32 \<times> u8" where
  "pc_len m = (reg_pc (regs_of m), l_len (curlog m))"

interpretation pcl: data_rel "same pc_len"
  by unfold_locales (simp_all add: frame_defs pc_len_def split: option.split)

lemma pc_len_keep: "obeys (same pc_len) p \<Longrightarrow> pc_len (state_after p m) = pc_len m"
  by (simp add: obeys_def same_def)

lemmas pc_len_ops =
  pcl.obeys_set_a [THEN pc_len_keep] pcl.obeys_set_x [THEN pc_len_keep]
  pcl.obeys_set_y [THEN pc_len_keep] pcl.obeys_set_z [THEN pc_len_keep]
  pcl.obeys_set_b [THEN pc_len_keep] pcl.obeys_set_flags [THEN pc_len_keep]
  pcl.obeys_set_sp [THEN pc_len_keep] pcl.obeys_set_maplo [THEN pc_len_keep]
  pcl.obeys_set_maplomb [THEN pc_len_keep] pcl.obeys_set_maphimb [THEN pc_len_keep]
  pcl.obeys_set_map_irq_inhibit [THEN pc_len_keep] pcl.obeys_set_zp16 [THEN pc_len_keep]
  pcl.obeys_set_zp32 [THEN pc_len_keep] pcl.obeys_set_zp_pointer [THEN pc_len_keep]
  pcl.obeys_set_zp_pointer_addr [THEN pc_len_keep] pcl.obeys_set_bytes [THEN pc_len_keep]
  pcl.obeys_set_pops [THEN pc_len_keep] pcl.obeys_set_pop_blame [THEN pc_len_keep]
  pcl.obeys_set_brk [THEN pc_len_keep] pcl.obeys_set_rts [THEN pc_len_keep]
  pcl.obeys_set_stack_overflow [THEN pc_len_keep]
  pcl.obeys_set_stack_underflow [THEN pc_len_keep] pcl.obeys_reg [THEN pc_len_keep]
  pcl.obeys_tcond [THEN pc_len_keep] pcl.obeys_logged [THEN pc_len_keep]
  pcl.obeys_put_flag [THEN pc_len_keep] pcl.obeys_set_spl [THEN pc_len_keep]
  pcl.obeys_set_sph [THEN pc_len_keep] pcl.obeys_log_byte [THEN pc_len_keep]
  pcl.obeys_log_word [THEN pc_len_keep] pcl.obeys_log_zp [THEN pc_len_keep]
  pcl.obeys_addr_abs [THEN pc_len_keep] pcl.obeys_addr_zp [THEN pc_len_keep]
  pcl.obeys_addr_zpx [THEN pc_len_keep] pcl.obeys_addr_zpy [THEN pc_len_keep]
  pcl.obeys_read_pointer [THEN pc_len_keep] pcl.obeys_addr_izpy [THEN pc_len_keep]
  pcl.obeys_addr_izpx [THEN pc_len_keep] pcl.obeys_addr_deref16 [THEN pc_len_keep]
  pcl.obeys_addr_izpz [THEN pc_len_keep] pcl.obeys_addr_izpz32 [THEN pc_len_keep]
  pcl.obeys_addr_absx [THEN pc_len_keep] pcl.obeys_addr_absy [THEN pc_len_keep]
  pcl.obeys_addr_iabsx [THEN pc_len_keep] pcl.obeys_flagged [THEN pc_len_keep]
  pcl.obeys_update_nz [THEN pc_len_keep] pcl.obeys_update_bit_flags [THEN pc_len_keep]
  pcl.obeys_update_cmp_flags [THEN pc_len_keep] pcl.obeys_adc [THEN pc_len_keep]
  pcl.obeys_sbc [THEN pc_len_keep] pcl.obeys_stack_pop_ext [THEN pc_len_keep]
  pcl.obeys_stack_pop [THEN pc_len_keep] pcl.obeys_stack_push [THEN pc_len_keep]
  pcl.obeys_op_or [THEN pc_len_keep] pcl.obeys_op_and [THEN pc_len_keep]
  pcl.obeys_op_eor [THEN pc_len_keep] pcl.obeys_load_a [THEN pc_len_keep]
  pcl.obeys_load_x [THEN pc_len_keep] pcl.obeys_load_y [THEN pc_len_keep]
  pcl.obeys_load_z [THEN pc_len_keep] pcl.obeys_compare [THEN pc_len_keep]
  pcl.obeys_flags_or [THEN pc_len_keep] pcl.obeys_flags_and [THEN pc_len_keep]
  pcl.obeys_jsr_push [THEN pc_len_keep] pcl.obeys_pull_flags [THEN pc_len_keep]
  pcl.obeys_after_eom [THEN pc_len_keep] pcl.obeys_set_error [THEN pc_len_keep]
  pcl.obeys_set_done [THEN pc_len_keep] pcl.obeys_raise [THEN pc_len_keep]
  pcl.obeys_read_memory [THEN pc_len_keep] pcl.obeys_read_memory28 [THEN pc_len_keep]
  pcl.obeys_write_mem28 [THEN pc_len_keep] pcl.obeys_write_mem16 [THEN pc_len_keep]

lemma pc_len_set_len: "pc_len (state_after (set_len v) m) = (fst (pc_len m), v)"
  by (simp add: pc_len_def set_len_def upd_log_def)

lemma pc_len_set_pc: "pc_len (state_after (set_pc p) m) = (p, snd (pc_len m))"
  by (simp add: pc_len_def set_pc_def)

lemma pc_len_add_pc: "pc_len (state_after (add_pc n) m) = (fst (pc_len m) + word_of_int n, snd (pc_len m))"
  by (simp add: pc_len_def add_pc_def reg_def set_pc_def)

text \<open>What follows a successful write runs.\<close>

lemma write_mem16_result: "result_of (write_mem16 fu a v) m = 0"
  by (simp add: write_mem16_def write_mem28_result)

lemma state_MEM_WRITE16: "state_after (MEM_WRITE16 fu a v k) m = state_after k (state_after (write_mem16 fu a v) m)"
  by (simp add: MEM_WRITE16_def write_mem16_def write_mem28_result)

lemma result_MEM_WRITE16: "result_of (MEM_WRITE16 fu a v k) m = result_of k (state_after (write_mem16 fu a v) m)"
  by (simp add: MEM_WRITE16_def write_mem16_def write_mem28_result)

lemma state_MEM_WRITE28: "state_after (MEM_WRITE28 fu a v k) m = state_after k (state_after (write_mem28 fu a v) m)"
  by (simp add: MEM_WRITE28_def write_mem28_result)

lemma result_MEM_WRITE28: "result_of (MEM_WRITE28 fu a v k) m = result_of k (state_after (write_mem28 fu a v) m)"
  by (simp add: MEM_WRITE28_def write_mem28_result)

lemmas rmw_defs =
  operand_def asl_mem_def rol_mem_def lsr_mem_def ror_mem_def dec_mem_def inc_mem_def inc_mem_zp_def
  tsb_mem_def trb_mem_def rmb_def smb_def store_reg_def

lemmas pc_len_simps =
  rmw_defs state_MEM_WRITE16 state_MEM_WRITE28 state_after_bind state_after_simps pc_len_ops pc_len_set_len pc_len_set_pc
  pc_len_add_pc Let_def if_True if_False fst_conv snd_conv

lemmas keep_binds = state_after_bind state_after_simps result_of_bind result_of_simps

lemmas result_simps =
  rmw_defs result_MEM_WRITE16 result_MEM_WRITE28 result_of_bind result_of_simps Let_def if_True if_False

lemmas select_defs =
  exec_0x_def exec_1x_def exec_2x_def exec_3x_def exec_4x_def exec_5x_def exec_6x_def exec_7x_def
  exec_8x_def exec_9x_def exec_ax_def exec_bx_def exec_cx_def exec_dx_def exec_ex_def exec_fx_def

text \<open>
  One row of the opcode table at a time: what is decoded, and for the opcodes that do not
  change the flow of control where the program counter goes.
\<close>

lemma row_0_straight:
  "\<forall>opc \<in> {0x01, 0x03, 0x04, 0x05, 0x06, 0x07, 0x08, 0x09, 0x0a, 0x0c, 0x0d, 0x0e}.
    pc_len (state_after (exec_0x fu opc) m) = (fst (pc_len m) + ucast (opcode_length opc), opcode_length opc)"
  by (simp add: exec_0x_def del: keep_binds; simp only: pc_len_simps; simp add: opcode_length_def pc_len_ops pc_len_set_len pc_len_add_pc)

lemma row_0_decoded:
  "\<forall>opc \<in> {0x00, 0x01, 0x03, 0x04, 0x05, 0x06, 0x07, 0x08, 0x09, 0x0a, 0x0c, 0x0d, 0x0e, 0x0f}. result_of (exec_0x fu opc) m"
  by (simp add: exec_0x_def del: keep_binds; simp only: result_simps; simp?)

lemma row_0_undecoded:
  "\<forall>opc \<in> {0x02, 0x0b}. \<not> result_of (exec_0x fu opc) m"
  by (simp add: exec_0x_def)

lemma row_1_straight:
  "\<forall>opc \<in> {0x11, 0x12, 0x14, 0x15, 0x16, 0x17, 0x18, 0x19, 0x1a, 0x1b, 0x1c, 0x1d, 0x1e}.
    pc_len (state_after (exec_1x fu opc) m) = (fst (pc_len m) + ucast (opcode_length opc), opcode_length opc)"
  by (simp add: exec_1x_def del: keep_binds; simp only: pc_len_simps; simp add: opcode_length_def pc_len_ops pc_len_set_len pc_len_add_pc)

lemma row_1_decoded:
  "\<forall>opc \<in> {0x10, 0x11, 0x12, 0x13, 0x14, 0x15, 0x16, 0x17, 0x18, 0x19, 0x1a, 0x1b, 0x1c, 0x1d, 0x1e, 0x1f}. result_of (exec_1x fu opc) m"
  by (simp add: exec_1x_def del: keep_binds; simp only: result_simps; simp?)

lemma row_2_straight:
  "\<forall>opc \<in> {0x21, 0x24, 0x25, 0x26, 0x27, 0x28, 0x29, 0x2a, 0x2b, 0x2c, 0x2d, 0x2e}.
    pc_len (state_after (exec_2x fu opc) m) = (fst (pc_len m) + ucast (opcode_length opc), opcode_length opc)"
  by (simp add: exec_2x_def del: keep_binds; simp only: pc_len_simps; simp add: opcode_length_def pc_len_ops pc_len_set_len pc_len_add_pc)

lemma row_2_decoded:
  "\<forall>opc \<in> {0x20, 0x21, 0x22, 0x24, 0x25, 0x26, 0x27, 0x28, 0x29, 0x2a, 0x2b, 0x2c, 0x2d, 0x2e, 0x2f}. result_of (exec_2x fu opc) m"
  by (simp add: exec_2x_def del: keep_binds; simp only: result_simps; simp?)

lemma row_2_undecoded:
  "\<forall>opc \<in> {0x23}. \<not> result_of (exec_2x fu opc) m"
  by (simp add: exec_2x_def)

lemma row_3_straight:
  "\<forall>opc \<in> {0x31, 0x32, 0x34, 0x35, 0x36, 0x37, 0x38, 0x39, 0x3a, 0x3c, 0x3d, 0x3e}.
    pc_len (state_after (exec_3x fu opc) m) = (fst (pc_len m) + ucast (opcode_length opc), opcode_length opc)"
  by (simp add: exec_3x_def del: keep_binds; simp only: pc_len_simps; simp add: opcode_length_def pc_len_ops pc_len_set_len pc_len_add_pc)

lemma row_3_decoded:
  "\<forall>opc \<in> {0x30, 0x31, 0x32, 0x33, 0x34, 0x35, 0x36, 0x37, 0x38, 0x39, 0x3a, 0x3c, 0x3d, 0x3e, 0x3f}. result_of (exec_3x fu opc) m"
  by (simp add: exec_3x_def del: keep_binds; simp only: result_simps; simp?)

lemma row_3_undecoded:
  "\<forall>opc \<in> {0x3b}. \<not> result_of (exec_3x fu opc) m"
  by (simp add: exec_3x_def)

lemma row_4_straight:
  "\<forall>opc \<in> {0x41, 0x45, 0x46, 0x47, 0x48, 0x49, 0x4a, 0x4b, 0x4d, 0x4e}.
    pc_len (state_after (exec_4x fu opc) m) = (fst (pc_len m) + ucast (opcode_length opc), opcode_length opc)"
  by (simp add: exec_4x_def del: keep_binds; simp only: pc_len_simps; simp add: opcode_length_def pc_len_ops pc_len_set_len pc_len_add_pc)

lemma row_4_decoded:
  "\<forall>opc \<in> {0x40, 0x41, 0x45, 0x46, 0x47, 0x48, 0x49, 0x4a, 0x4b, 0x4c, 0x4d, 0x4e, 0x4f}. result_of (exec_4x fu opc) m"
  by (simp add: exec_4x_def del: keep_binds; simp only: result_simps; simp?)

lemma row_4_undecoded:
  "\<forall>opc \<in> {0x42, 0x43, 0x44}. \<not> result_of (exec_4x fu opc) m"
  by (simp add: exec_4x_def)

lemma row_5_straight:
  "\<forall>opc \<in> {0x51, 0x52, 0x55, 0x56, 0x57, 0x58, 0x59, 0x5a, 0x5b, 0x5c, 0x5d, 0x5e}.
    pc_len (state_after (exec_5x fu opc) m) = (fst (pc_len m) + ucast (opcode_length opc), opcode_length opc)"
  by (simp add: exec_5x_def del: keep_binds; simp only: pc_len_simps; simp add: opcode_length_def pc_len_ops pc_len_set_len pc_len_add_pc)

lemma row_5_decoded:
  "\<forall>opc \<in> {0x50, 0x51, 0x52, 0x55, 0x56, 0x57, 0x58, 0x59, 0x5a, 0x5b, 0x5c, 0x5d, 0x5e, 0x5f}. result_of (exec_5x fu opc) m"
  by (simp add: exec_5x_def del: keep_binds; simp only: result_simps; simp?)

lemma row_5_undecoded:
  "\<forall>opc \<in> {0x53, 0x54}. \<not> result_of (exec_5x fu opc) m"
  by (simp add: exec_5x_def)

lemma row_6_straight:
  "\<forall>opc \<in> {0x61, 0x64, 0x65, 0x66, 0x67, 0x68, 0x69, 0x6a, 0x6b, 0x6d, 0x6e}.
    pc_len (state_after (exec_6x fu opc) m) = (fst (pc_len m) + ucast (opcode_length opc), opcode_length opc)"
  by (simp add: exec_6x_def del: keep_binds; simp only: pc_len_simps; simp add: opcode_length_def pc_len_ops pc_len_set_len pc_len_add_pc)

lemma row_6_decoded:
  "\<forall>opc \<in> {0x60, 0x61, 0x64, 0x65, 0x66, 0x67, 0x68, 0x69, 0x6a, 0x6b, 0x6c, 0x6d, 0x6e, 0x6f}. result_of (exec_6x fu opc) m"
  by (simp add: exec_6x_def del: keep_binds; simp only: result_simps; simp?)

lemma row_6_undecoded:
  "\<forall>opc \<in> {0x62, 0x63}. \<not> result_of (exec_6x fu opc) m"
  by (simp add: exec_6x_def)

lemma row_7_straight:
  "\<forall>opc \<in> {0x71, 0x72, 0x74, 0x75, 0x76, 0x77, 0x78, 0x79, 0x7a, 0x7b, 0x7d, 0x7e}.
    pc_len (state_after (exec_7x fu opc) m) = (fst (pc_len m) + ucast (opcode_length opc), opcode_length opc)"
  by (simp add: exec_7x_def del: keep_binds; simp only: pc_len_simps; simp add: opcode_length_def pc_len_ops pc_len_set_len pc_len_add_pc)

lemma row_7_decoded:
  "\<forall>opc \<in> {0x70, 0x71, 0x72, 0x74, 0x75, 0x76, 0x77, 0x78, 0x79, 0x7a, 0x7b, 0x7c, 0x7d, 0x7e, 0x7f}. result_of (exec_7x fu opc) m"
  by (simp add: exec_7x_def del: keep_binds; simp only: result_simps; simp?)

lemma row_7_undecoded:
  "\<forall>opc \<in> {0x73}. \<not> result_of (exec_7x fu opc) m"
  by (simp add: exec_7x_def)

lemma row_8_straight:
  "\<forall>opc \<in> {0x81, 0x84, 0x85, 0x86, 0x87, 0x88, 0x89, 0x8a, 0x8c, 0x8d, 0x8e}.
    pc_len (state_after (exec_8x fu opc) m) = (fst (pc_len m) + ucast (opcode_length opc), opcode_length opc)"
  by (simp add: exec_8x_def del: keep_binds; simp only: pc_len_simps; simp add: opcode_length_def pc_len_ops pc_len_set_len pc_len_add_pc)

lemma row_8_decoded:
  "\<forall>opc \<in> {0x80, 0x81, 0x83, 0x84, 0x85, 0x86, 0x87, 0x88, 0x89, 0x8a, 0x8c, 0x8d, 0x8e, 0x8f}. result_of (exec_8x fu opc) m"
  by (simp add: exec_8x_def del: keep_binds; simp only: result_simps; simp?)

lemma row_8_undecoded:
  "\<forall>opc \<in> {0x82, 0x8b}. \<not> result_of (exec_8x fu opc) m"
  by (simp add: exec_8x_def)

lemma row_9_straight:
  "\<forall>opc \<in> {0x91, 0x92, 0x94, 0x95, 0x96, 0x97, 0x98, 0x99, 0x9a, 0x9c, 0x9d, 0x9e}.
    pc_len (state_after (exec_9x fu opc) m) = (fst (pc_len m) + ucast (opcode_length opc), opcode_length opc)"
  by (simp add: exec_9x_def del: keep_binds; simp only: pc_len_simps; simp add: opcode_length_def pc_len_ops pc_len_set_len pc_len_add_pc)

lemma row_9_decoded:
  "\<forall>opc \<in> {0x90, 0x91, 0x92, 0x93, 0x94, 0x95, 0x96, 0x97, 0x98, 0x99, 0x9a, 0x9c, 0x9d, 0x9e, 0x9f}. result_of (exec_9x fu opc) m"
  by (simp add: exec_9x_def del: keep_binds; simp only: result_simps; simp?)

lemma row_9_undecoded:
  "\<forall>opc \<in> {0x9b}. \<not> result_of (exec_9x fu opc) m"
  by (simp add: exec_9x_def)

lemma row_a_straight:
  "\<forall>opc \<in> {0xa0, 0xa1, 0xa2, 0xa3, 0xa4, 0xa5, 0xa6, 0xa7, 0xa8, 0xa9, 0xaa, 0xac, 0xad, 0xae}.
    pc_len (state_after (exec_ax fu opc) m) = (fst (pc_len m) + ucast (opcode_length opc), opcode_length opc)"
  by (simp add: exec_ax_def del: keep_binds; simp only: pc_len_simps; simp add: opcode_length_def pc_len_ops pc_len_set_len pc_len_add_pc)

lemma row_a_decoded:
  "\<forall>opc \<in> {0xa0, 0xa1, 0xa2, 0xa3, 0xa4, 0xa5, 0xa6, 0xa7, 0xa8, 0xa9, 0xaa, 0xac, 0xad, 0xae, 0xaf}. result_of (exec_ax fu opc) m"
  by (simp add: exec_ax_def del: keep_binds; simp only: result_simps; simp?)

lemma row_a_undecoded:
  "\<forall>opc \<in> {0xab}. \<not> result_of (exec_ax fu opc) m"
  by (simp add: exec_ax_def)

lemma row_b_straight:
  "\<forall>opc \<in> {0xb1, 0xb2, 0xb4, 0xb5, 0xb6, 0xb7, 0xb8, 0xb9, 0xba, 0xbc, 0xbd, 0xbe}.
    pc_len (state_after (exec_bx fu opc) m) = (fst (pc_len m) + ucast (opcode_length opc), opcode_length opc)"
  by (simp add: exec_bx_def del: keep_binds; simp only: pc_len_simps; simp add: opcode_length_def pc_len_ops pc_len_set_len pc_len_add_pc)

lemma row_b_decoded:
  "\<forall>opc \<in> {0xb0, 0xb1, 0xb2, 0xb4, 0xb5, 0xb6, 0xb7, 0xb8, 0xb9, 0xba, 0xbc, 0xbd, 0xbe, 0xbf}. result_of (exec_bx fu opc) m"
  by (simp add: exec_bx_def del: keep_binds; simp only: result_simps; simp?)

lemma row_b_undecoded:
  "\<forall>opc \<in> {0xb3, 0xbb}. \<not> result_of (exec_bx fu opc) m"
  by (simp add: exec_bx_def)

lemma row_c_straight:
  "\<forall>opc \<in> {0xc0, 0xc1, 0xc4, 0xc5, 0xc6, 0xc7, 0xc8, 0xc9, 0xca, 0xcc, 0xcd, 0xce}.
    pc_len (state_after (exec_cx fu opc) m) = (fst (pc_len m) + ucast (opcode_length opc), opcode_length opc)"
  by (simp add: exec_cx_def del: keep_binds; simp only: pc_len_simps; simp add: opcode_length_def pc_len_ops pc_len_set_len pc_len_add_pc)

lemma row_c_decoded:
  "\<forall>opc \<in> {0xc0, 0xc1, 0xc4, 0xc5, 0xc6, 0xc7, 0xc8, 0xc9, 0xca, 0xcc, 0xcd, 0xce, 0xcf}. result_of (exec_cx fu opc) m"
  by (simp add: exec_cx_def del: keep_binds; simp only: result_simps; simp?)

lemma row_c_undecoded:
  "\<forall>opc \<in> {0xc2, 0xc3, 0xcb}. \<not> result_of (exec_cx fu opc) m"
  by (simp add: exec_cx_def)

lemma row_d_straight:
  "\<forall>opc \<in> {0xd1, 0xd2, 0xd5, 0xd6, 0xd7, 0xd8, 0xd9, 0xda, 0xdb, 0xdd, 0xde}.
    pc_len (state_after (exec_dx fu opc) m) = (fst (pc_len m) + ucast (opcode_length opc), opcode_length opc)"
  by (simp add: exec_dx_def del: keep_binds; simp only: pc_len_simps; simp add: opcode_length_def pc_len_ops pc_len_set_len pc_len_add_pc)

lemma row_d_decoded:
  "\<forall>opc \<in> {0xd0, 0xd1, 0xd2, 0xd5, 0xd6, 0xd7, 0xd8, 0xd9, 0xda, 0xdb, 0xdd, 0xde, 0xdf}. result_of (exec_dx fu opc) m"
  by (simp add: exec_dx_def del: keep_binds; simp only: result_simps; simp?)

lemma row_d_undecoded:
  "\<forall>opc \<in> {0xd3, 0xd4, 0xdc}. \<not> result_of (exec_dx fu opc) m"
  by (simp add: exec_dx_def)

lemma row_e_straight:
  "\<forall>opc \<in> {0xe0, 0xe1, 0xe4, 0xe5, 0xe6, 0xe7, 0xe8, 0xe9, 0xea, 0xec, 0xed, 0xee}.
    pc_len (state_after (exec_ex fu opc) m) = (fst (pc_len m) + ucast (opcode_length opc), opcode_length opc)"
  by (simp add: exec_ex_def del: keep_binds; simp only: pc_len_simps; simp add: opcode_length_def pc_len_ops pc_len_set_len pc_len_add_pc)

lemma row_e_decoded:
  "\<forall>opc \<in> {0xe0, 0xe1, 0xe4, 0xe5, 0xe6, 0xe7, 0xe8, 0xe9, 0xea, 0xec, 0xed, 0xee, 0xef}. result_of (exec_ex fu opc) m"
  by (simp add: exec_ex_def del: keep_binds; simp only: result_simps; simp?)

lemma row_e_undecoded:
  "\<forall>opc \<in> {0xe2, 0xe3, 0xeb}. \<not> result_of (exec_ex fu opc) m"
  by (simp add: exec_ex_def)

lemma row_f_straight:
  "\<forall>opc \<in> {0xf1, 0xf2, 0xf5, 0xf6, 0xf7, 0xf8, 0xf9, 0xfa, 0xfb, 0xfd, 0xfe}.
    pc_len (state_after (exec_fx fu opc) m) = (fst (pc_len m) + ucast (opcode_length opc), opcode_length opc)"
  by (simp add: exec_fx_def del: keep_binds; simp only: pc_len_simps; simp add: opcode_length_def pc_len_ops pc_len_set_len pc_len_add_pc)

lemma row_f_decoded:
  "\<forall>opc \<in> {0xf0, 0xf1, 0xf2, 0xf3, 0xf5, 0xf6, 0xf7, 0xf8, 0xf9, 0xfa, 0xfb, 0xfd, 0xfe, 0xff}. result_of (exec_fx fu opc) m"
  by (simp add: exec_fx_def del: keep_binds; simp only: result_simps; simp?)

lemma row_f_undecoded:
  "\<forall>opc \<in> {0xf4, 0xfc}. \<not> result_of (exec_fx fu opc) m"
  by (simp add: exec_fx_def)

lemmas branch_defs = branch_def rel8_def rel16_def bbr_def bbs_def pull_pc_def

lemma row_0_flow:
  "\<forall>opc \<in> {0x00, 0x0f}. snd (pc_len (state_after (exec_0x fu opc) m)) = opcode_length opc"
  by (simp add: exec_0x_def branch_defs del: keep_binds;
      simp add: pc_len_simps opcode_length_def)

lemma row_1_flow:
  "\<forall>opc \<in> {0x10, 0x13, 0x1f}. snd (pc_len (state_after (exec_1x fu opc) m)) = opcode_length opc"
  by (simp add: exec_1x_def branch_defs del: keep_binds;
      simp add: pc_len_simps opcode_length_def)

lemma row_2_flow:
  "\<forall>opc \<in> {0x20, 0x22, 0x2f}. snd (pc_len (state_after (exec_2x fu opc) m)) = opcode_length opc"
  by (simp add: exec_2x_def branch_defs del: keep_binds;
      simp add: pc_len_simps opcode_length_def)

lemma row_3_flow:
  "\<forall>opc \<in> {0x30, 0x33, 0x3f}. snd (pc_len (state_after (exec_3x fu opc) m)) = opcode_length opc"
  by (simp add: exec_3x_def branch_defs del: keep_binds;
      simp add: pc_len_simps opcode_length_def)

lemma row_4_flow:
  "\<forall>opc \<in> {0x40, 0x4c, 0x4f}. snd (pc_len (state_after (exec_4x fu opc) m)) = opcode_length opc"
  by (simp add: exec_4x_def branch_defs del: keep_binds;
      simp add: pc_len_simps opcode_length_def)

lemma row_5_flow:
  "\<forall>opc \<in> {0x50, 0x5f}. snd (pc_len (state_after (exec_5x fu opc) m)) = opcode_length opc"
  by (simp add: exec_5x_def branch_defs del: keep_binds;
      simp add: pc_len_simps opcode_length_def)

lemma row_6_flow:
  "\<forall>opc \<in> {0x60, 0x6c, 0x6f}. snd (pc_len (state_after (exec_6x fu opc) m)) = opcode_length opc"
  by (simp add: exec_6x_def branch_defs del: keep_binds;
      simp add: pc_len_simps opcode_length_def)

lemma row_7_flow:
  "\<forall>opc \<in> {0x70, 0x7c, 0x7f}. snd (pc_len (state_after (exec_7x fu opc) m)) = opcode_length opc"
  by (simp add: exec_7x_def branch_defs del: keep_binds;
      simp add: pc_len_simps opcode_length_def)

lemma row_8_flow:
  "\<forall>opc \<in> {0x80, 0x83, 0x8f}. snd (pc_len (state_after (exec_8x fu opc) m)) = opcode_length opc"
  by (simp add: exec_8x_def branch_defs del: keep_binds;
      simp add: pc_len_simps opcode_length_def)

lemma row_9_flow:
  "\<forall>opc \<in> {0x90, 0x93, 0x9f}. snd (pc_len (state_after (exec_9x fu opc) m)) = opcode_length opc"
  by (simp add: exec_9x_def branch_defs del: keep_binds;
      simp add: pc_len_simps opcode_length_def)

lemma row_a_flow:
  "\<forall>opc \<in> {0xaf}. snd (pc_len (state_after (exec_ax fu opc) m)) = opcode_length opc"
  by (simp add: exec_ax_def branch_defs del: keep_binds;
      simp add: pc_len_simps opcode_length_def)

lemma row_b_flow:
  "\<forall>opc \<in> {0xb0, 0xbf}. snd (pc_len (state_after (exec_bx fu opc) m)) = opcode_length opc"
  by (simp add: exec_bx_def branch_defs del: keep_binds;
      simp add: pc_len_simps opcode_length_def)

lemma row_c_flow:
  "\<forall>opc \<in> {0xcf}. snd (pc_len (state_after (exec_cx fu opc) m)) = opcode_length opc"
  by (simp add: exec_cx_def branch_defs del: keep_binds;
      simp add: pc_len_simps opcode_length_def)

lemma row_d_flow:
  "\<forall>opc \<in> {0xd0, 0xdf}. snd (pc_len (state_after (exec_dx fu opc) m)) = opcode_length opc"
  by (simp add: exec_dx_def branch_defs del: keep_binds;
      simp add: pc_len_simps opcode_length_def)

lemma row_e_flow:
  "\<forall>opc \<in> {0xef}. snd (pc_len (state_after (exec_ex fu opc) m)) = opcode_length opc"
  by (simp add: exec_ex_def branch_defs del: keep_binds;
      simp add: pc_len_simps opcode_length_def)

lemma row_f_flow:
  "\<forall>opc \<in> {0xf0, 0xf3, 0xff}. snd (pc_len (state_after (exec_fx fu opc) m)) = opcode_length opc"
  by (simp add: exec_fx_def branch_defs del: keep_binds;
      simp add: pc_len_simps opcode_length_def)

section \<open>All opcodes\<close>

lemma byte_in_row:
  assumes "a \<le> unat (opc :: u8)" and "unat opc < a + 16"
  shows "opc \<in> {of_nat a, of_nat (a + 1), of_nat (a + 2), of_nat (a + 3), of_nat (a + 4), of_nat (a + 5),
    of_nat (a + 6), of_nat (a + 7), of_nat (a + 8), of_nat (a + 9), of_nat (a + 10), of_nat (a + 11),
    of_nat (a + 12), of_nat (a + 13), of_nat (a + 14), of_nat (a + 15)}"
proof -
  obtain k where k: "unat opc = a + k" "k < 16"
    using assms by (metis le_add_diff_inverse nat_add_left_cancel_less)
  have "opc = of_nat (a + k)" by (simp flip: k(1))
  moreover from k(2) have "k \<in> {0, 1, 2, 3, 4, 5, 6, 7, 8, 9, 10, 11, 12, 13, 14, 15}"
    unfolding insert_iff empty_iff by presburger
  ultimately show ?thesis by auto
qed

text \<open>One row of the table as \<open>execute_switch\<close> reaches it, with all that it says of its opcodes.\<close>

definition row_ok :: "(u8 \<Rightarrow> bool prog) \<Rightarrow> u8 \<Rightarrow> bool" where
  "row_ok ex opc \<longleftrightarrow> (\<forall>m.
     (result_of (ex opc) m \<longleftrightarrow> opc \<notin> set undecoded) \<and>
     (opc \<notin> set undecoded \<longrightarrow> snd (pc_len (state_after (ex opc) m)) = opcode_length opc) \<and>
     (opc \<notin> set undecoded \<longrightarrow> opc \<notin> set control_flow \<longrightarrow>
        fst (pc_len (state_after (ex opc) m)) = fst (pc_len m) + ucast (opcode_length opc)))"

lemma row_0_ok:
  assumes "0x00 \<le> unat opc" and "unat opc < 0x00 + 16"
  shows "row_ok (exec_0x fu) opc"
  using byte_in_row [OF assms]
  unfolding row_ok_def
  by (simp, elim disjE; simp add: opcode_lists row_0_straight [of fu] row_0_decoded [of fu] row_0_flow [of fu] row_0_undecoded [of fu])

lemma row_1_ok:
  assumes "0x10 \<le> unat opc" and "unat opc < 0x10 + 16"
  shows "row_ok (exec_1x fu) opc"
  using byte_in_row [OF assms]
  unfolding row_ok_def
  by (simp, elim disjE; simp add: opcode_lists row_1_straight [of fu] row_1_decoded [of fu] row_1_flow [of fu])

lemma row_2_ok:
  assumes "0x20 \<le> unat opc" and "unat opc < 0x20 + 16"
  shows "row_ok (exec_2x fu) opc"
  using byte_in_row [OF assms]
  unfolding row_ok_def
  by (simp, elim disjE; simp add: opcode_lists row_2_straight [of fu] row_2_decoded [of fu] row_2_flow [of fu] row_2_undecoded [of fu])

lemma row_3_ok:
  assumes "0x30 \<le> unat opc" and "unat opc < 0x30 + 16"
  shows "row_ok (exec_3x fu) opc"
  using byte_in_row [OF assms]
  unfolding row_ok_def
  by (simp, elim disjE; simp add: opcode_lists row_3_straight [of fu] row_3_decoded [of fu] row_3_flow [of fu] row_3_undecoded [of fu])

lemma row_4_ok:
  assumes "0x40 \<le> unat opc" and "unat opc < 0x40 + 16"
  shows "row_ok (exec_4x fu) opc"
  using byte_in_row [OF assms]
  unfolding row_ok_def
  by (simp, elim disjE; simp add: opcode_lists row_4_straight [of fu] row_4_decoded [of fu] row_4_flow [of fu] row_4_undecoded [of fu])

lemma row_5_ok:
  assumes "0x50 \<le> unat opc" and "unat opc < 0x50 + 16"
  shows "row_ok (exec_5x fu) opc"
  using byte_in_row [OF assms]
  unfolding row_ok_def
  by (simp, elim disjE; simp add: opcode_lists row_5_straight [of fu] row_5_decoded [of fu] row_5_flow [of fu] row_5_undecoded [of fu])

lemma row_6_ok:
  assumes "0x60 \<le> unat opc" and "unat opc < 0x60 + 16"
  shows "row_ok (exec_6x fu) opc"
  using byte_in_row [OF assms]
  unfolding row_ok_def
  by (simp, elim disjE; simp add: opcode_lists row_6_straight [of fu] row_6_decoded [of fu] row_6_flow [of fu] row_6_undecoded [of fu])

lemma row_7_ok:
  assumes "0x70 \<le> unat opc" and "unat opc < 0x70 + 16"
  shows "row_ok (exec_7x fu) opc"
  using byte_in_row [OF assms]
  unfolding row_ok_def
  by (simp, elim disjE; simp add: opcode_lists row_7_straight [of fu] row_7_decoded [of fu] row_7_flow [of fu] row_7_undecoded [of fu])

lemma row_8_ok:
  assumes "0x80 \<le> unat opc" and "unat opc < 0x80 + 16"
  shows "row_ok (exec_8x fu) opc"
  using byte_in_row [OF assms]
  unfolding row_ok_def
  by (simp, elim disjE; simp add: opcode_lists row_8_straight [of fu] row_8_decoded [of fu] row_8_flow [of fu] row_8_undecoded [of fu])

lemma row_9_ok:
  assumes "0x90 \<le> unat opc" and "unat opc < 0x90 + 16"
  shows "row_ok (exec_9x fu) opc"
  using byte_in_row [OF assms]
  unfolding row_ok_def
  by (simp, elim disjE; simp add: opcode_lists row_9_straight [of fu] row_9_decoded [of fu] row_9_flow [of fu] row_9_undecoded [of fu])

lemma row_a_ok:
  assumes "0xa0 \<le> unat opc" and "unat opc < 0xa0 + 16"
  shows "row_ok (exec_ax fu) opc"
  using byte_in_row [OF assms]
  unfolding row_ok_def
  by (simp, elim disjE; simp add: opcode_lists row_a_straight [of fu] row_a_decoded [of fu] row_a_flow [of fu] row_a_undecoded [of fu])

lemma row_b_ok:
  assumes "0xb0 \<le> unat opc" and "unat opc < 0xb0 + 16"
  shows "row_ok (exec_bx fu) opc"
  using byte_in_row [OF assms]
  unfolding row_ok_def
  by (simp, elim disjE; simp add: opcode_lists row_b_straight [of fu] row_b_decoded [of fu] row_b_flow [of fu] row_b_undecoded [of fu])

lemma row_c_ok:
  assumes "0xc0 \<le> unat opc" and "unat opc < 0xc0 + 16"
  shows "row_ok (exec_cx fu) opc"
  using byte_in_row [OF assms]
  unfolding row_ok_def
  by (simp, elim disjE; simp add: opcode_lists row_c_straight [of fu] row_c_decoded [of fu] row_c_flow [of fu] row_c_undecoded [of fu])

lemma row_d_ok:
  assumes "0xd0 \<le> unat opc" and "unat opc < 0xd0 + 16"
  shows "row_ok (exec_dx fu) opc"
  using byte_in_row [OF assms]
  unfolding row_ok_def
  by (simp, elim disjE; simp add: opcode_lists row_d_straight [of fu] row_d_decoded [of fu] row_d_flow [of fu] row_d_undecoded [of fu])

lemma row_e_ok:
  assumes "0xe0 \<le> unat opc" and "unat opc < 0xe0 + 16"
  shows "row_ok (exec_ex fu) opc"
  using byte_in_row [OF assms]
  unfolding row_ok_def
  by (simp, elim disjE; simp add: opcode_lists row_e_straight [of fu] row_e_decoded [of fu] row_e_flow [of fu] row_e_undecoded [of fu])

lemma row_f_ok:
  assumes "0xf0 \<le> unat opc" and "unat opc < 0xf0 + 16"
  shows "row_ok (exec_fx fu) opc"
  using byte_in_row [OF assms]
  unfolding row_ok_def
  by (simp, elim disjE; simp add: opcode_lists row_f_straight [of fu] row_f_decoded [of fu] row_f_flow [of fu] row_f_undecoded [of fu])

lemma row_at: "row_ok ex opc \<Longrightarrow> row_ok (\<lambda>_. ex opc) opc"
  by (simp add: row_ok_def)

lemma row_if:
  "(c \<Longrightarrow> row_ok (\<lambda>_. p) opc) \<Longrightarrow> (\<not> c \<Longrightarrow> row_ok (\<lambda>_. q) opc) \<Longrightarrow>
    row_ok (\<lambda>_. if c then p else q) opc"
  by simp

lemma switch_ok: "row_ok (\<lambda>_. execute_switch fu opc) opc"
proof -
  note l = word_less_nat_alt word_le_nat_alt not_less
  have top: "unat opc < 256" by (rule unat_u8_less)
  show ?thesis
    unfolding execute_switch_def
    by (intro row_if; rule row_at;
        rule row_0_ok row_1_ok row_2_ok row_3_ok row_4_ok row_5_ok row_6_ok row_7_ok
          row_8_ok row_9_ok row_a_ok row_b_ok row_c_ok row_d_ok row_e_ok row_f_ok;
        use top in \<open>simp add: l\<close>)
qed

section \<open>The fetch\<close>

lemma bus_value_term [simp]: "bus_value (upd_term f m) a = bus_value m a"
  by (simp add: bus_value_def upd_term_def)

lemma upd_term_simps [simp]:
  "regs_of (upd_term f m) = regs_of m" "curlog (upd_term f m) = curlog m"
  "ram (upd_term f m) = ram m"
  by (simp_all add: upd_term_def)

lemma result_read_memory: "result_of (read_memory a) m = bus_value m a"
  by (simp add: result_of_def read_memory_total)

lemma state_read_memory:
  "state_after (read_memory a) m = (if a \<le> 0xffff then m else upd_term (\<lambda>t. t\<lparr>t_error := True\<rparr>) m)"
  by (simp add: state_after_def read_memory_total)

lemma fetched:
  "l_bytes (curlog (state_after fetch_bytes m))
    = map (\<lambda>k. bus_value m (reg_pc (regs_of m) + of_nat k)) [0..<6]"
  "regs_of (state_after fetch_bytes m) = regs_of m" "ram (state_after fetch_bytes m) = ram m"
  "pc_len (state_after fetch_bytes m) = pc_len m"
  by (simp_all add: fetch_bytes_def reg_def result_read_memory state_read_memory set_bytes_def
      upd_log_def pc_len_def upt_rec)

text \<open>The opcode that the program counter points to.\<close>

definition next_opcode :: "machine \<Rightarrow> u8" where
  "next_opcode m = bus_value m (reg_pc (regs_of m))"

lemma execute_instruction_switch:
  "run_state (execute_instruction fu) m = run_state (execute_switch fu (next_opcode m)) (state_after fetch_bytes m)"
proof -
  have "run_state (log_byte 0) (state_after fetch_bytes m) = (next_opcode m, state_after fetch_bytes m)"
    using fetched(1) [of m] by (simp add: log_byte_def logged_def next_opcode_def upt_rec)
  then show ?thesis
    by (simp add: execute_instruction_def run_bind run_state_pair [of fetch_bytes m])
qed

lemma next_opcode_low:
  assumes "reg_pc (regs_of m) < 0x2000" and "\<not> bit (maplo (regs_of m)) 12"
  shows "next_opcode m = chipram (ram m) (reg_pc (regs_of m))"
proof -
  let ?p = "reg_pc (regs_of m)"
  have p: "?p \<le> 0xffff" and u: "unat ?p < 0x2000" using assms(1) by (auto simp: word_le_nat_alt word_less_nat_alt)
  have "drop_bit 13 ?p = 0" using u by (simp add: word_unat_eq_iff unat_drop_bit)
  then have "unmapped_zone (regs_of m) ?p" using assms(2) by (simp add: unmapped_zone_def)
  moreover have "pla_view x y z ?p False = ?p" for x y z
    using u by (auto simp: pla_view_def word_le_nat_alt)
  ultimately have "map_addr (regs_of m) (ram m) ?p False = ?p"
    using p by (simp add: map_addr_banked)
  moreover have "region_of ?p = Chip ?p" using u by (auto simp: region_of_def sizes word_le_nat_alt word_less_nat_alt)
  ultimately show ?thesis using p by (simp add: next_opcode_def bus_value_def leD)
qed
text \<open>A machine that is about to run the bytes of a list at \<open>$1000\<close>, for the examples.\<close>

definition demo_code :: "u8 list \<Rightarrow> machine" where
  "demo_code bs = upd_regs (\<lambda>r. r\<lparr>reg_pc := 0x1000\<rparr>)
     (initial_machine\<lparr>ram := zero_banks\<lparr>chipram :=
       (\<lambda>i. if 0x1000 \<le> i \<and> i < 0x1000 + of_nat (length bs) then bs ! unat (i - 0x1000) else 0)\<rparr>\<rparr>)"

section \<open>Properties\<close>

text \<open>
  C13: An instruction is executed exactly if its opcode is decoded; for the 29 opcodes that
  are not, \<open>execute_instruction\<close> fails. No other cause makes it fail.
\<close>

theorem instruction_executed_iff_decoded:
  "result_of (execute_instruction fu) m \<longleftrightarrow> next_opcode m \<notin> set undecoded"
  using switch_ok [of fu "next_opcode m"]
  unfolding result_of_def execute_instruction_switch by (simp add: row_ok_def result_of_def)

text \<open>
  C14: The length that an executed instruction leaves in the log is that of the instruction
  set's table.
\<close>

theorem instruction_length:
  assumes "next_opcode m \<notin> set undecoded"
  shows "l_len (curlog (state_after (execute_instruction fu) m)) = opcode_length (next_opcode m)"
  using switch_ok [of fu "next_opcode m"] assms
  unfolding state_after_def execute_instruction_switch by (simp add: row_ok_def state_after_def pc_len_def)

theorem instruction_length_witness:
  "l_len (curlog (state_after (execute_instruction 0) initial_machine)) = 2"
proof -
  have o: "next_opcode initial_machine = 0" by (simp add: next_opcode_low initial_defs)
  show ?thesis using instruction_length [of initial_machine 0]
   by (simp add: o undecoded_def opcode_length_def)
qed
text \<open>
  Every executed instruction that is no branch, jump, call, return or \<open>BRK\<close> moves the
  program counter on by its own length.
\<close>

theorem straight_line_pc:
  assumes "next_opcode m \<notin> set undecoded" and "next_opcode m \<notin> set control_flow"
  shows "reg_pc (regs_of (state_after (execute_instruction fu) m))
    = reg_pc (regs_of m) + ucast (opcode_length (next_opcode m))"
  using switch_ok [of fu "next_opcode m"] assms fetched(4) [of m]
  unfolding state_after_def execute_instruction_switch by (simp add: row_ok_def state_after_def pc_len_def)

theorem straight_line_pc_witness:
  "reg_pc (regs_of (state_after (execute_instruction 0) (demo_code [0xa9, 0x12]))) = 0x1002"
proof -
  have o: "next_opcode (demo_code [0xa9, 0x12]) = 0xa9"
    by (simp add: next_opcode_low demo_code_def initial_defs)
  show ?thesis using straight_line_pc [of "demo_code [0xa9, 0x12]" 0]
    by (simp add: o undecoded_def control_flow_def opcode_length_def) (simp add: demo_code_def)
qed
end
