(* ===== verification/RunLaws.thy ===== *)
theory RunLaws
  imports Opcodes
begin

text \<open>
  Running code safely: what no instruction changes, the invariant of the instruction log and
  where the code breaks it, and the end of \<open>cpu_run\<close>.
\<close>

section \<open>The instruction log\<close>

text \<open>
  Every entry of the log but the one for the reset is an allocated object, all of them
  different; what \<open>lastataddr\<close> points to is allocated too.
\<close>

definition live :: "machine \<Rightarrow> nat \<Rightarrow> bool" where
  "live m n \<longleftrightarrow> n < log_next m \<and> log_heap m n \<noteq> None"

definition log_ok :: "machine \<Rightarrow> bool" where
  "log_ok m \<longleftrightarrow>
    (\<forall>i. 0 < i \<longrightarrow> i < cpulog_len m \<longrightarrow> (\<exists>n. cpulog m i = Some n \<and> live m n)) \<and>
    (\<forall>p n. lastataddr m p = Some n \<longrightarrow> live m n)"

lemma log_ok_mono:
  assumes "log_ok s" and "cpulog t = cpulog s" and "cpulog_len t = cpulog_len s"
    and "\<And>n. live s n \<Longrightarrow> live t n" and "\<And>p n. lastataddr t p = Some n \<Longrightarrow> lastataddr s p = Some n \<or> live t n"
  shows "log_ok t"
  using assms unfolding log_ok_def by metis

text \<open>The log is fine and the entry of the running instruction is allocated.\<close>

definition entry_ok :: "nat \<Rightarrow> machine \<Rightarrow> bool" where
  "entry_ok n m \<longleftrightarrow> log_ok m \<and> live m n"

definition log_part :: "machine \<Rightarrow> _" where
  "log_part m = (cpulog m, cpulog_len m, lastataddr m, log_heap m, log_next m)"

lemma entry_ok_cong: "log_part t = log_part s \<Longrightarrow> entry_ok n t = entry_ok n s"
  by (simp add: log_part_def entry_ok_def log_ok_def live_def)

lemma obeys_entry_same: "obeys (same log_part) p \<Longrightarrow> obeys (latched (entry_ok n)) p"
  unfolding obeys_def latched_def same_def using entry_ok_cong by blast

lemma log_part_bench: "log_part m = (case bench_part m of (a, b, c, d, e, _) \<Rightarrow> (a, b, c, d, e))"
  by (simp add: log_part_def bench_part_def)

lemma obeys_log_bench: "obeys (same bench_part) p \<Longrightarrow> obeys (same log_part) p"
  unfolding obeys_def same_def log_part_bench by simp

lemma obeys_bench_label: "obeys (same bench_part) (label_address a)"
  unfolding label_address_def by (intro bench.obeys_ops)

lemmas obeys_log_part =
  bench.obeys_reg [THEN obeys_log_bench] bench.obeys_tcond [THEN obeys_log_bench]
  bench.obeys_set_error [THEN obeys_log_bench] bench.obeys_set_done [THEN obeys_log_bench]
  bench.obeys_raise [THEN obeys_log_bench] bench.obeys_set_stack_underflow [THEN obeys_log_bench]
  bench.obeys_set_stack_overflow [THEN obeys_log_bench] obeys_bench_label [THEN obeys_log_bench]
  bench.obeys_execute_instruction [THEN obeys_log_bench]

lemma obeys_log_check:
  "obeys (same log_part) clear \<Longrightarrow> obeys (same log_part) (check_stack fl fa clear)"
  unfolding check_stack_def by (intro frame.obeys_basic obeys_log_part)

lemma obeys_log_count: "obeys (same log_part) (modify (\<lambda>m. m\<lparr>cpu := f m\<rparr>))"
  by (simp add: obeys_def same_def log_part_def)

lemmas obeys_same_log = frame.obeys_basic obeys_log_part obeys_log_check obeys_log_count

lemma entry_ok_step:
  assumes "entry_ok n s" and "cpulog t = cpulog s" and "cpulog_len t = cpulog_len s"
    and "\<And>k. live s k \<Longrightarrow> live t k" and "\<And>p k. lastataddr t p = Some k \<Longrightarrow> lastataddr s p = Some k \<or> k = n"
  shows "entry_ok n t"
  using assms log_ok_mono [of s t] unfolding entry_ok_def by blast

lemma obeys_entry_store: "obeys (latched (entry_ok n)) (store_log n)"
  unfolding obeys_def latched_def
proof (intro allI impI)
  fix s assume "entry_ok n s"
  then show "entry_ok n (state_after (store_log n) s)"
    by (rule entry_ok_step) (auto simp: store_log_def live_def)
qed

lemma obeys_entry_note: "obeys (latched (entry_ok n)) (note_lastataddr n)"
proof -
  have l: "obeys (latched (entry_ok n)) (modify (\<lambda>m. m\<lparr>lastataddr := (lastataddr m)(p \<mapsto> n)\<rparr>))" for p
    unfolding obeys_def latched_def
    by (intro allI impI, erule entry_ok_step) (auto simp: live_def split: if_splits)
  have h: "obeys (latched (entry_ok n)) (modify (\<lambda>m. m\<lparr>log_heap := (log_heap m)(q \<mapsto> v)\<rparr>))" for q v
    unfolding obeys_def latched_def
    by (intro allI impI, erule entry_ok_step) (auto simp: live_def)
  show ?thesis
    unfolding note_lastataddr_def
    by (intro latch.obeys_basic obeys_entry_same [OF obeys_log_part(1)] obeys_entry_same [OF obeys_log_part(5)])
       (auto intro!: latch.obeys_basic l h obeys_entry_same [OF obeys_log_part(5)] split: option.split)
qed

lemma log_part_fault [simp]: "log_part (record_fault f m) = log_part m"
  by (simp add: record_fault_def log_part_def split: option.split)

lemma begin_step_entry:
  assumes "log_ok m"
  shows "entry_ok (result_of (begin_step junk) m) (state_after (begin_step junk) m)"
proof -
  let ?n = "log_next m"
  let ?l = "(junk ?n)\<lparr>l_regs := regs_of m, l_pc := reg_pc (regs_of m), l_len := 0, l_count := 1, l_dup := 0\<rparr>"
  let ?t = "m\<lparr>log_next := Suc ?n, log_heap := (log_heap m)(?n \<mapsto> ?l),
      cpulog := (cpulog m)(cpulog_len m \<mapsto> ?n), cpulog_len := Suc (cpulog_len m)\<rparr>"
  have "live m k \<Longrightarrow> live ?t k" for k by (auto simp: live_def)
  moreover have "live ?t ?n" by (simp add: live_def)
  ultimately have "entry_ok ?n ?t"
    using assms unfolding entry_ok_def log_ok_def
    by (simp add: less_Suc_eq) metis
  moreover have "log_part (state_after (begin_step junk) m) = log_part ?t"
    by (simp add: begin_step_def append_log_def new_log_def reg_def Let_def raise_def) (simp add: log_part_def)
  moreover have "result_of (begin_step junk) m = ?n"
    by (simp add: begin_step_def new_log_def reg_def Let_def)
  ultimately show ?thesis
    using entry_ok_cong [of "state_after (begin_step junk) m" ?t ?n] by metis
qed

lemma obeys_step_rest: "obeys (latched (entry_ok n)) (step_rest fu n)"
  unfolding step_rest_def
  by (intro latch.obeys_basic obeys_entry_store obeys_entry_note obeys_entry_same obeys_log_check obeys_log_part
      obeys_log_count)

lemma log_ok_cong: "log_part t = log_part s \<Longrightarrow> log_ok t = log_ok s"
  by (simp add: log_part_def log_ok_def live_def)

lemma obeys_log_ok_same: "obeys (same log_part) p \<Longrightarrow> log_ok m \<Longrightarrow> log_ok (state_after p m)"
  unfolding obeys_def same_def using log_ok_cong by blast

lemma cpu_step_log_ok:
  assumes "log_ok m" shows "log_ok (state_after (cpu_step junk fu) m)"
proof -
  let ?n = "result_of (begin_step junk) m" and ?m = "state_after (begin_step junk) m"
  have "log_ok (state_after (step_rest fu ?n) ?m)"
    using obeysD [OF obeys_step_rest, of ?n ?m fu] begin_step_entry [OF assms]
    by (simp add: latched_def entry_ok_def)
  moreover have "log_ok (state_after (raise OutOfBounds) m)"
    "log_ok (state_after set_done (state_after (label_address p) m))" for p
    by (intro obeys_log_ok_same obeys_log_part assms)+
  ultimately show ?thesis by (simp add: cpu_step_def reg_def)
qed

section \<open>The address reached\<close>

lemma note_lastataddr_effects:
  "regs_of (state_after (note_lastataddr n) m) = regs_of m"
  "reg_pc (regs_of m) \<le> 0xffff \<Longrightarrow> lastataddr (state_after (note_lastataddr n) m) (reg_pc (regs_of m)) \<noteq> None"
  by (auto simp: note_lastataddr_def reg_def raise_def record_fault_def leD split: option.split)

lemma step_rest_noted:
  assumes "result_of (step_rest fu n) m"
  obtains t where "state_after (step_rest fu n) m = state_after (note_lastataddr n) t"
  using assms by (auto simp: step_rest_def split: if_splits)

lemma cpu_step_noted:
  assumes "result_of (cpu_step junk fu) m"
  defines "t \<equiv> state_after (cpu_step junk fu) m"
  assumes "reg_pc (regs_of t) \<le> 0xffff"
  shows "lastataddr t (reg_pc (regs_of t)) \<noteq> None"
proof -
  let ?n = "result_of (begin_step junk) m" and ?m = "state_after (begin_step junk) m"
  have r: "result_of (step_rest fu ?n) ?m" "t = state_after (step_rest fu ?n) ?m"
    using assms(1) unfolding t_def by (auto simp: cpu_step_def reg_def split: if_splits)
  obtain u where "t = state_after (note_lastataddr ?n) u"
    using step_rest_noted [OF r(1)] r(2) by metis
  with assms(3) show ?thesis by (simp add: note_lastataddr_effects)
qed

lemma loop_detected_fault:
  assumes "log_ok m" and "reg_pc (regs_of m) \<le> 0xffff" and "lastataddr m (reg_pc (regs_of m)) \<noteq> None"
  shows "fault (state_after loop_detected m) = fault m"
proof -
  obtain q where q: "lastataddr m (reg_pc (regs_of m)) = Some q" using assms(3) by blast
  then have "live m q" using assms(1) by (simp add: log_ok_def)
  then obtain a where "log_heap m q = Some a" by (auto simp: live_def)
  with q assms(2) show ?thesis
    by (simp add: loop_detected_def reg_def leD set_error_def upd_term_def)
qed

section \<open>Resetting the log\<close>

lemma free_log_effects:
  "log_heap (state_after (free_log p) m) n = (if p = Some n then None else log_heap m n)"
  "cpulog (state_after (free_log p) m) = cpulog m" "lastataddr (state_after (free_log p) m) = lastataddr m"
  by (auto simp: free_log_def raise_def record_fault_def split: option.split)

lemma free_logs_heap:
  "log_heap (state_after (free_logs k i) m) n
    = (if \<exists>j. i \<le> j \<and> j < i + k \<and> cpulog m j = Some n then None else log_heap m n) \<and>
   cpulog (state_after (free_logs k i) m) = cpulog m \<and> lastataddr (state_after (free_logs k i) m) = lastataddr m"
proof (induction k arbitrary: i m)
  case 0
  show ?case by auto
next
  case (Suc k)
  have "(\<exists>j\<ge>i. j < i + Suc k \<and> cpulog m j = Some n)
      \<longleftrightarrow> cpulog m i = Some n \<or> (\<exists>j\<ge>Suc i. j < Suc i + k \<and> cpulog m j = Some n)"
    by (metis Suc_leD Suc_leI add_Suc add_Suc_right le_add1 le_eq_less_or_eq less_Suc_eq_le)
  then show ?case by (auto simp: Suc.IH free_log_effects)
qed

lemma cpu_log_reset_effects:
  "cpulog_len (state_after cpu_log_reset m) = 1"
  "lastataddr (state_after cpu_log_reset m) = lastataddr m"
  "(\<exists>i < cpulog_len m. cpulog m i = Some n) \<Longrightarrow> log_heap (state_after cpu_log_reset m) n = None"
  using free_logs_heap [of "cpulog_len m" 0 m] by (auto simp: cpu_log_reset_def)

lemma machine_init_log_ok: "log_ok (state_after machine_init m)"
  by (simp add: machine_init_def log_ok_def)

section \<open>The loop of a run\<close>

lemma cpu_step_len_le: "cpulog_len (state_after (cpu_step junk fu) m) \<le> Suc (cpulog_len m)"
  by (simp add: step_len_simps)

lemma cpu_loop_step_len_le: "cpulog_len (state_after (cpu_loop_step junk fu) m) \<le> Suc (cpulog_len m)"
  using cpu_step_len_le [of junk fu m]
  by (simp add: cpu_loop_step_def result_of_obeys_len obeys_len_rest)

lemma cpu_loop_ends:
  assumes "cpu_loop junk fu m = (ok, t)" and "cpulog_len m \<le> MAX_LOG_LENGTH"
  shows "cpulog_len t \<le> MAX_LOG_LENGTH \<and> (ok \<longrightarrow> t_done (term_of t) \<or> cpulog_len t = MAX_LOG_LENGTH)"
  using assms
proof (induction junk fu m rule: cpu_loop.induct)
  case (1 junk fu m)
  let ?ok = "result_of (cpu_loop_step junk fu) m" and ?m1 = "state_after (cpu_loop_step junk fu) m"
  show ?case
  proof (cases "cpulog_len m < MAX_LOG_LENGTH \<and> \<not> t_done (term_of m)")
    case False
    with "1.prems" show ?thesis by (auto simp: cpu_loop.simps [of junk fu m])
  next
    case True
    have len: "cpulog_len ?m1 \<le> MAX_LOG_LENGTH" using cpu_loop_step_len_le [of junk fu m] True by simp
    show ?thesis
    proof (cases ?ok)
      case False
      with "1.prems" True len show ?thesis
        by (simp add: cpu_loop.simps [of junk fu m] run_state_pair)
    next
      case ok: True
      with "1.prems" True have "cpu_loop junk fu ?m1 = (ok, t)"
        by (simp add: cpu_loop.simps [of junk fu m] run_state_pair)
      then show ?thesis using "1.IH" [OF True run_state_pair [symmetric, of "cpu_loop_step junk fu" m]] ok len
        by (simp add: run_state_pair)
    qed
  qed
qed

text \<open>The loop as an iteration of its body.\<close>

lemma cpu_loop_iterates:
  assumes "cpu_loop junk fu m = (ok, t)" and "cpulog_len m \<le> MAX_LOG_LENGTH"
  shows "\<exists>k \<le> MAX_LOG_LENGTH - cpulog_len m. t = (state_after (cpu_loop_step junk fu) ^^ k) m \<and>
    (\<forall>j<k. let u = (state_after (cpu_loop_step junk fu) ^^ j) m in
      cpulog_len u = cpulog_len m + j \<and> \<not> t_done (term_of u) \<and>
      (Suc j < k \<longrightarrow> result_of (cpu_loop_step junk fu) u)) \<and>
    (ok \<longleftrightarrow> k = 0 \<or> result_of (cpu_loop_step junk fu) ((state_after (cpu_loop_step junk fu) ^^ (k - 1)) m))"
  using assms
proof (induction junk fu m rule: cpu_loop.induct)
  case (1 junk fu m)
  let ?step = "cpu_loop_step junk fu"
  let ?ok = "result_of ?step m" and ?m1 = "state_after ?step m"
  show ?case
  proof (cases "cpulog_len m < MAX_LOG_LENGTH \<and> \<not> t_done (term_of m)")
    case False
    with "1.prems" show ?thesis by (auto simp: cpu_loop.simps [of junk fu m] intro!: exI [of _ 0])
  next
    case True
    show ?thesis
    proof (cases ?ok)
      case False
      with "1.prems" True show ?thesis
        by (auto simp: cpu_loop.simps [of junk fu m] run_state_pair intro!: exI [of _ 1])
    next
      case ok: True
      note len = cpu_loop_step_len [OF ok]
      from "1.prems" True ok have "cpu_loop junk fu ?m1 = (ok, t)"
        by (simp add: cpu_loop.simps [of junk fu m] run_state_pair)
      with "1.IH" [OF True run_state_pair [symmetric, of ?step m] refl ok] len True
      obtain k where k: "k \<le> MAX_LOG_LENGTH - cpulog_len ?m1" "t = (state_after ?step ^^ k) ?m1"
        "\<forall>j<k. let u = (state_after ?step ^^ j) ?m1 in cpulog_len u = cpulog_len ?m1 + j \<and>
           \<not> t_done (term_of u) \<and> (Suc j < k \<longrightarrow> result_of ?step u)"
        "ok \<longleftrightarrow> k = 0 \<or> result_of ?step ((state_after ?step ^^ (k - 1)) ?m1)" by auto
      have shift: "(state_after ?step ^^ Suc j) m = (state_after ?step ^^ j) ?m1" for j
        by (simp add: funpow_swap1)
      show ?thesis
      proof (intro exI [of _ "Suc k"] conjI allI impI)
        show "Suc k \<le> MAX_LOG_LENGTH - cpulog_len m" using k(1) len conjunct1 [OF True] by arith
        show "t = (state_after ?step ^^ Suc k) m" unfolding shift by (fact k(2))
        show "let u = (state_after ?step ^^ j) m in cpulog_len u = cpulog_len m + j \<and>
           \<not> t_done (term_of u) \<and> (Suc j < Suc k \<longrightarrow> result_of ?step u)" if "j < Suc k" for j
        proof (cases j)
          case 0 then show ?thesis using True ok by simp
        next
          case (Suc i) then show ?thesis using k(3) that len by (simp only: shift) (auto simp: Let_def)
        qed
        show "ok \<longleftrightarrow> Suc k = 0 \<or> result_of ?step ((state_after ?step ^^ (Suc k - 1)) m)"
        proof (cases k)
          case 0 then show ?thesis using k(4) ok by simp
        next
          case (Suc i) then show ?thesis using k(4) shift [of i] by simp
        qed
      qed
    qed
  qed
qed

section \<open>What the heap holds before it is written\<close>

text \<open>
  \<open>cpu_step\<close> does not initialise \<open>pops\<close>, so that the first pop of an instruction stores at an
  index that \<open>malloc\<close> chose.
\<close>

lemma fault_bind:
  assumes "fault (state_after p m) = Some x" and "\<And>y. obeys first_fault (f y)"
  shows "fault (state_after (bind_state p f) m) = Some x"
  using first_faultD [OF assms(2)] assms(1) by simp

lemma rts_overrun:
  assumes "\<not> unat (l_pops (curlog m)) < MAX_POPS" and "fault m = None"
  shows "fault (state_after (execute_switch fu 0x60) m) = Some OutOfBounds"
proof -
  let ?k = "\<lambda>n. do { (if n \<noteq> 0 then do { set_rts (n - 1); (if n - 1 = 0 then set_done else return ()) } else return ());
      pull_pc; add_pc 1; return True }"
  have pull: "fault (state_after pull_pc s) = Some OutOfBounds"
    if "\<not> unat (l_pops (curlog s)) < MAX_POPS" and "fault s = None" for s
    unfolding pull_pc_def
    by (rule fault_bind) (use stack_pop_effects(7) [OF that] in simp, intro faults.obeys_ops)
  have "fault (state_after (?k n) s) = Some OutOfBounds"
    if "\<not> unat (l_pops (curlog s)) < MAX_POPS" and "fault s = None" for s n
  proof -
    let ?u = "state_after (if n \<noteq> 0 then do { set_rts (n - 1); (if n - 1 = 0 then set_done else return ()) } else return ()) s"
    have "curlog ?u = curlog s" "fault ?u = None"
      using that(2) by (auto simp: set_rts_def set_done_def upd_term_def)
    then have "fault (state_after (bind_state pull_pc (\<lambda>_. bind_state (add_pc 1) (\<lambda>_. return True))) ?u) = Some OutOfBounds"
      by (intro fault_bind pull faults.obeys_ops) (use that(1) in auto)
    then show ?thesis by (simp only: state_after_bind)
  qed
  moreover define s where "s = state_after (set_len 1) m"
  moreover have "\<not> unat (l_pops (curlog s)) < MAX_POPS" "fault s = None"
    using assms by (simp_all add: s_def set_len_def upd_log_def)
  ultimately have "fault (state_after (?k (t_rts (term_of s))) s) = Some OutOfBounds" by blast
  moreover have "state_after (execute_switch fu 0x60) m = state_after (?k (t_rts (term_of s))) s"
    by (simp add: execute_switch_def exec_6x_def tcond_def s_def)
  ultimately show ?thesis by simp
qed

lemma obeys_fault_modify: "(\<And>m. fault (f m) = fault m) \<Longrightarrow> obeys first_fault (modify f)"
  by (simp add: obeys_def first_fault_def)

lemma obeys_fault_step:
  "obeys first_fault (store_log n)"
  "obeys first_fault clear \<Longrightarrow> obeys first_fault (check_stack fl fa clear)"
  "obeys first_fault (note_lastataddr n)"
  unfolding store_log_def check_stack_def note_lastataddr_def
  by (intro faults.obeys_ops obeys_fault_modify | simp split: option.split)+

lemma fault_upd_term [simp]: "fault (upd_term f m) = fault m"
  by (simp add: upd_term_def)

lemma cpu_step_overrun:
  assumes "next_opcode m = 0x60" and "reg_pc (regs_of m) \<le> 0xffff"
    and "breakpoints m (reg_pc (regs_of m)) = 0" and "cpulog_len m < MAX_LOG_LENGTH"
    and "fault m = None" and "\<not> unat (l_pops (junk (log_next m))) < MAX_POPS"
  shows "fault (state_after (cpu_step junk fu) m) = Some OutOfBounds"
proof -
  let ?n = "result_of (begin_step junk) m" and ?m = "state_after (begin_step junk) m"
  have b: "regs_of ?m = regs_of m" "ram ?m = ram m" "fault ?m = None" "l_pops (curlog ?m) = l_pops (junk (log_next m))"
    using assms(4,5) by (simp_all add: begin_step_def new_log_def append_log_def reg_def Let_def)
  have f: "l_pops (curlog (state_after fetch_bytes ?m)) = l_pops (curlog ?m)" "fault (state_after fetch_bytes ?m) = None"
    using b by (simp_all add: fetch_bytes_def reg_def state_read_memory set_bytes_def upd_log_def)
  have "next_opcode ?m = 0x60" using assms(1) unfolding next_opcode_def bus_value_def b(1,2) .
  then have "fault (state_after (execute_instruction fu) ?m) = Some OutOfBounds"
    using rts_overrun [of "state_after fetch_bytes ?m" fu] assms(6) f b(4)
    by (simp add: state_after_def execute_instruction_switch)
  then have "fault (state_after (step_rest fu ?n) ?m) = Some OutOfBounds"
    unfolding step_rest_def
    by (rule fault_bind) (intro faults.obeys_ops obeys_fault_step obeys_fault_modify; simp)
  then show ?thesis using assms(2,3) by (simp add: cpu_step_def reg_def leD)
qed

section \<open>What a run leaves\<close>

interpretation maphi_kept: instr_rel "same (\<lambda>m. maphi (regs_of m))"
  by unfold_locales (simp_all add: frame_defs split: option.split)

text \<open>The two conditions that the end of a routine depends on.\<close>

definition outcome :: "machine \<Rightarrow> bool \<times> bool" where
  "outcome m = (t_done (term_of m), t_brk (term_of m))"

lemma obeys_outcome_prims:
  "obeys (same outcome) (raise f)" "obeys (same outcome) (reg g)" "obeys (same outcome) (tcond t)"
  "obeys (same outcome) set_error" "obeys (same outcome) (set_stack_underflow b)"
  "obeys (same outcome) (set_stack_overflow b)" "obeys (same outcome) (addr_to_28bit a w)"
  "obeys (same outcome) (set_pc p)" "obeys (same outcome) (set_in_hyper v)" "obeys (same outcome) (set_b v)"
  "obeys (same outcome) (set_spl v)" "obeys (same outcome) (set_sph v)" "obeys (same outcome) (put_expected g')"
  by (simp_all add: obeys_def same_def outcome_def setter_defs getter_defs record_fault_def upd_defs
      set_in_hyper_def put_expected_def addr_to_28bit_def split: option.split)

lemma obeys_outcome_modify: "(\<And>m. outcome (f m) = outcome m) \<Longrightarrow> obeys (same outcome) (modify f)"
  by (simp add: obeys_def same_def)

lemmas obeys_outcome = frame.obeys_basic obeys_outcome_prims

lemma obeys_outcome_rest:
  "obeys (same outcome) (note_lastataddr n)" "obeys (same outcome) loop_detected"
  "obeys (same outcome) (label_address a)" "obeys (same outcome) cpu_stash_ram"
  "obeys (same outcome) clear \<Longrightarrow> obeys (same outcome) (check_stack fl fa clear)"
  "obeys (same outcome) (free_log q)"
  unfolding note_lastataddr_def loop_detected_def label_address_def cpu_stash_ram_def check_stack_def free_log_def
  by (intro obeys_outcome obeys_outcome_modify | simp add: outcome_def split: option.split)+

lemma obeys_outcome_reset: "obeys (same outcome) cpu_log_reset"
proof -
  have "obeys (same outcome) (free_logs k i)" for k i
    by (induction k arbitrary: i) (simp_all add: obeys_outcome obeys_outcome_rest)
  then show ?thesis
    unfolding cpu_log_reset_def by (intro obeys_outcome obeys_outcome_modify) (simp_all add: outcome_def)
qed

lemma outcome_keep: "obeys (same outcome) p \<Longrightarrow> outcome (state_after p m) = outcome m"
  by (simp add: obeys_def same_def)

lemma done_keep: "obeys (same outcome) p \<Longrightarrow> t_done (term_of (state_after p m)) = t_done (term_of m)"
  by (simp add: obeys_def same_def outcome_def)

text \<open>A step that reports success has not reached the termination condition.\<close>

lemma cpu_step_not_done:
  assumes "result_of (cpu_step junk fu) m"
  shows "\<not> fst (outcome (state_after (cpu_step junk fu) m))"
proof -
  note keep = obeys_outcome_rest(1) [THEN done_keep]
    obeys_outcome_rest(5) [OF obeys_outcome_prims(5), THEN done_keep]
    obeys_outcome_rest(5) [OF obeys_outcome_prims(6), THEN done_keep]
  have "\<not> fst (outcome (state_after (step_rest fu n) s))" if "result_of (step_rest fu n) s" for n s
    using that by (auto simp: step_rest_def outcome_def keep tcond_def split: if_splits)
  then show ?thesis using assms by (auto simp: cpu_step_def reg_def split: if_splits)
qed

lemma cpu_loop_step_not_done:
  "result_of (cpu_loop_step junk fu) m \<Longrightarrow> \<not> fst (outcome (state_after (cpu_loop_step junk fu) m))"
  using cpu_step_not_done [of junk fu m]
  by (auto simp: cpu_loop_step_def outcome_keep [OF obeys_outcome_rest(2)] split: if_splits)

text \<open>So the loop succeeds only where it does not run, or with a full log.\<close>

lemma cpu_loop_success:
  assumes "cpu_loop junk fu m = (True, t)" and "cpulog_len m \<le> MAX_LOG_LENGTH"
    and "\<not> fst (outcome m)"
  shows "cpulog_len t = MAX_LOG_LENGTH"
  using assms
proof (induction junk fu m rule: cpu_loop.induct)
  case (1 junk fu m)
  let ?ok = "result_of (cpu_loop_step junk fu) m" and ?m1 = "state_after (cpu_loop_step junk fu) m"
  have nd: "\<not> t_done (term_of m)" using "1.prems"(3) by (simp add: outcome_def)
  show ?case
  proof (cases "cpulog_len m < MAX_LOG_LENGTH")
    case False
    with "1.prems" show ?thesis by (auto simp: cpu_loop.simps [of junk fu m])
  next
    case True
    with nd have run: "cpulog_len m < MAX_LOG_LENGTH \<and> \<not> t_done (term_of m)" by simp
    with "1.prems"(1) have ok: ?ok and r: "cpu_loop junk fu ?m1 = (True, t)"
      by (simp_all add: cpu_loop.simps [of junk fu m] run_state_pair split: if_splits)
    then show ?thesis
      using "1.IH" [OF run run_state_pair [symmetric, of "cpu_loop_step junk fu" m]]
        cpu_loop_step_not_done [OF ok] cpu_loop_step_len [OF ok] True
      by (simp add: run_state_pair)
  qed
qed

lemma cpu_loop_done: "fst (outcome s) \<Longrightarrow> cpu_loop junk fu s = (True, s)"
  by (simp add: cpu_loop.simps [of junk fu s] outcome_def)

text \<open>A step over \<open>NOP\<close>, for the examples.\<close>

lemma nop_effects:
  assumes "next_opcode m = 0xea" and "reg_pc (regs_of m) = 0x1000"
  shows "result_of (execute_instruction fu) m"
    "cpu (state_after (execute_instruction fu) m)
      = (cpu m)\<lparr>cregs := (regs_of m)\<lparr>reg_pc := 0x1001, map_irq_inhibit := 0\<rparr>\<rparr>"
proof -
  have "cpu (state_after fetch_bytes m) = cpu m"
    using assms(2) by (simp add: fetch_bytes_def reg_def state_read_memory set_bytes_def upd_log_def)
  then show "result_of (execute_instruction fu) m"
    "cpu (state_after (execute_instruction fu) m)
      = (cpu m)\<lparr>cregs := (regs_of m)\<lparr>reg_pc := 0x1001, map_irq_inhibit := 0\<rparr>\<rparr>"
    using assms by (simp_all add: result_of_def state_after_def execute_instruction_switch execute_switch_def
        exec_ex_def setter_defs reg_def upd_defs run_bind)
qed

lemma demo_simps:
  "cpu (demo_code bs) = zero_cpu\<lparr>cregs := zero_regs\<lparr>reg_pc := 0x1000\<rparr>\<rparr>"
  "cpulog_len (demo_code bs) = 0" "breakpoints (demo_code bs) p = 0" "fault (demo_code bs) = None"
  "log_next (demo_code bs) = 0" "lastataddr (demo_code bs) p = None" "log_ok (demo_code bs)"
  by (simp_all add: demo_code_def upd_regs_def initial_machine_def zero_cpu_def log_ok_def)

lemma demo_nop:
  "result_of (cpu_step (\<lambda>_. zero_log) 0) (demo_code [0xea])"
  "reg_pc (regs_of (state_after (cpu_step (\<lambda>_. zero_log) 0) (demo_code [0xea]))) = 0x1001"
proof -
  let ?m = "state_after (begin_step (\<lambda>_. zero_log)) (demo_code [0xea])"
  have c: "cpu ?m = cpu (demo_code [0xea])" "ram ?m = ram (demo_code [0xea])"
    by (simp_all add: begin_step_def new_log_def append_log_def reg_def Let_def demo_simps zero_cpu_def MAX_LOG_LENGTH_def)
  have m: "reg_pc (regs_of ?m) = 0x1000" unfolding c by (simp add: demo_simps)
  have "next_opcode ?m = next_opcode (demo_code [0xea])"
    unfolding next_opcode_def bus_value_def c ..
  also have "\<dots> = 0xea" by (simp add: next_opcode_low demo_code_def initial_defs)
  finally have o: "next_opcode ?m = 0xea" .
  let ?t = "state_after (store_log (result_of (begin_step (\<lambda>_. zero_log)) (demo_code [0xea])))
     (state_after (execute_instruction 0) ?m)"
  have t: "cpu ?t = (cpu (demo_code [0xea]))\<lparr>cregs := (regs_of (demo_code [0xea]))\<lparr>reg_pc := 0x1001, map_irq_inhibit := 0\<rparr>\<rparr>"
    by (simp add: store_log_def nop_effects [OF o m] c)
  show "result_of (cpu_step (\<lambda>_. zero_log) 0) (demo_code [0xea])" 
    using t by (simp add: cpu_step_def reg_def step_rest_def nop_effects [OF o m] tcond_def check_stack_def demo_simps zero_cpu_def)
  show "reg_pc (regs_of (state_after (cpu_step (\<lambda>_. zero_log) 0) (demo_code [0xea]))) = 0x1001" 
    using t by (simp add: cpu_step_def reg_def step_rest_def nop_effects [OF o m] tcond_def check_stack_def demo_simps zero_cpu_def note_lastataddr_effects)
qed

section \<open>Properties\<close>

text \<open>
  No instruction and no DMA job that it starts touches the test bench: the instruction
  log and its heap, the breakpoints, the expected memory and registers, and whether the CPU
  is in the hypervisor.
\<close>

theorem instruction_keeps_bench:
  "let m' = state_after (execute_instruction fu) m in
    cpulog m' = cpulog m \<and> cpulog_len m' = cpulog_len m \<and> lastataddr m' = lastataddr m \<and>
    log_heap m' = log_heap m \<and> breakpoints m' = breakpoints m \<and> ram_expected m' = ram_expected m \<and>
    cpu_expected m' = cpu_expected m \<and> in_hyper (regs_of m') = in_hyper (regs_of m) \<and>
    instruction_count (cpu m') = instruction_count (cpu m)"
  using execute_instruction_bench [of fu m] by (simp add: bench_part_def Let_def)

text \<open>
  No instruction changes the MAP register of the upper 32KB: the \<open>MAP\<close> instruction
  writes the value for it into the register of the lower 32KB.
\<close>

theorem maphi_never_written:
  "maphi (regs_of (state_after (execute_instruction fu) m)) = maphi (regs_of m)"
  using obeysD [OF maphi_kept.obeys_execute_instruction] by (simp add: same_def)

text \<open>
  Errors last: once the error flag is set, no instruction clears it, and the first
  fault is kept.
\<close>

theorem errors_are_sticky:
  "(t_error (term_of m) \<longrightarrow> t_error (term_of (state_after (execute_instruction fu) m))) \<and>
   (fault m \<noteq> None \<longrightarrow> fault (state_after (execute_instruction fu) m) = fault m)"
  using obeysD [OF errors.obeys_execute_instruction] obeysD [OF faults.obeys_execute_instruction]
  unfolding latched_def first_fault_def by blast

theorem errors_are_sticky_witness:
  "t_error (term_of (state_after (execute_instruction 0) (upd_term (\<lambda>t. t\<lparr>t_error := True\<rparr>) initial_machine)))"
  using errors_are_sticky [of "upd_term (\<lambda>t. t\<lparr>t_error := True\<rparr>) initial_machine" 0] by (simp add: upd_term_def)

text \<open>
  C15: The log stays well formed: a reset of the machine establishes the invariant, and a
  step preserves it, whatever the instruction does and however the step ends.
\<close>

theorem log_invariant:
  "log_ok (state_after machine_init m) \<and> (log_ok s \<longrightarrow> log_ok (state_after (cpu_step junk fu) s))"
  using machine_init_log_ok cpu_step_log_ok by blast

theorem log_invariant_witness:
  "log_ok (state_after (cpu_step (\<lambda>_. zero_log) 0) initial_machine)"
proof -
  have "log_ok initial_machine" by (simp add: log_ok_def initial_machine_def)
  then show ?thesis using log_invariant [of initial_machine initial_machine "\<lambda>_. zero_log" 0] by blast
qed

text \<open>
  The look at \<open>lastataddr\<close> that \<open>cpu_run\<close> takes after a step finds an allocated entry:
  it dereferences neither a null pointer nor a freed object, as long as the log is well
  formed and the program counter is a 16-bit address.
\<close>

theorem loop_check_safe:
  assumes "log_ok m" and "result_of (cpu_step junk fu) m"
    and "reg_pc (regs_of (state_after (cpu_step junk fu) m)) \<le> 0xffff"
  shows "fault (state_after loop_detected (state_after (cpu_step junk fu) m))
    = fault (state_after (cpu_step junk fu) m)"
  using assms cpu_step_noted loop_detected_fault cpu_step_log_ok by blast

theorem loop_check_safe_witness:
  "fault (state_after loop_detected (state_after (cpu_step (\<lambda>_. zero_log) 0) (demo_code [0xea])))
    = fault (state_after (cpu_step (\<lambda>_. zero_log) 0) (demo_code [0xea]))"
  by (rule loop_check_safe) (simp_all add: demo_nop demo_simps)

text \<open>
  A reset of the log frees the entries that \<open>lastataddr\<close> still points to: the next time
  that the code reaches such an address, \<open>cpu_step\<close> compares with a freed object.
\<close>

theorem log_reset_leaves_dangling:
  assumes "0 < i" "i < cpulog_len m" and "cpulog m i = Some n" and "lastataddr m p = Some n"
    and "p \<le> 0xffff"
  shows "let m' = state_after cpu_log_reset m in \<not> log_ok m' \<and>
    (\<forall>t k. lastataddr t = lastataddr m' \<and> log_heap t = log_heap m' \<and> reg_pc (regs_of t) = p \<and> fault t = None \<longrightarrow>
      fault (state_after (note_lastataddr k) t) = Some UseAfterFree)"
proof -
  let ?m = "state_after cpu_log_reset m"
  have "\<exists>i < cpulog_len m. cpulog m i = Some n" using assms(2,3) by blast
  then have l: "lastataddr ?m p = Some n" "log_heap ?m n = None"
    using assms(4) by (simp_all add: cpu_log_reset_effects)
  then have "\<not> log_ok ?m" by (auto simp: log_ok_def live_def)
  moreover have "fault (state_after (note_lastataddr k) t) = Some UseAfterFree"
    if "lastataddr t = lastataddr ?m" "log_heap t = log_heap ?m" "reg_pc (regs_of t) = p" "fault t = None" for t k
    using that l assms(5)
    by (simp add: note_lastataddr_def reg_def leD raise_def record_fault_def)
  ultimately show ?thesis by (simp add: Let_def)
qed

theorem log_reset_leaves_dangling_witness:
  "\<not> log_ok (state_after cpu_log_reset (initial_machine\<lparr>cpulog_len := 2, cpulog := [1 \<mapsto> 0],
     log_heap := [0 \<mapsto> zero_log], log_next := 1, lastataddr := [0x2000 \<mapsto> 0]\<rparr>))"
  using log_reset_leaves_dangling [of 1 "initial_machine\<lparr>cpulog_len := 2, cpulog := [1 \<mapsto> 0],
     log_heap := [0 \<mapsto> zero_log], log_next := 1, lastataddr := [0x2000 \<mapsto> 0]\<rparr>" 0 "0x2000"]
  by (simp add: Let_def)

text \<open>
  C16: A run takes at most as many steps as there are free entries in the log: it is an iteration of
  the body of the loop, each time with a log that is not full and a termination condition that does
  not hold, each step but the last reports success and adds exactly one entry, and the result is that
  of the last step. The log never grows beyond its array, and a run that reports success has met the
  termination condition or filled the log. That a step itself returns is not claimed: it does not
  where a DMA job starts its own list again without end, which the model cuts off with the fault
  \<open>OutOfFuel\<close>.
\<close>

theorem cpu_run_bounded:
  assumes "cpulog_len m \<le> MAX_LOG_LENGTH"
  shows "let step = cpu_loop_step junk fu; m' = state_after (cpu_run junk fu) m;
      at = (\<lambda>j. (state_after step ^^ j) (m\<lparr>cpu := (cpu m)\<lparr>stack_overflow := False, stack_underflow := False\<rparr>\<rparr>)) in
    \<exists>k \<le> MAX_LOG_LENGTH - cpulog_len m. m' = at k \<and>
      (\<forall>j<k. cpulog_len (at j) = cpulog_len m + j \<and> \<not> t_done (term_of (at j)) \<and>
        (Suc j < k \<longrightarrow> result_of step (at j))) \<and>
      (result_of (cpu_run junk fu) m \<longleftrightarrow> k = 0 \<or> result_of step (at (k - 1))) \<and>
      cpulog_len m' \<le> MAX_LOG_LENGTH \<and>
      (result_of (cpu_run junk fu) m \<longrightarrow> t_done (term_of m') \<or> cpulog_len m' = MAX_LOG_LENGTH)"
proof -
  let ?s = "state_after (set_stack_underflow False) (state_after (set_stack_overflow False) m)"
  have s: "?s = m\<lparr>cpu := (cpu m)\<lparr>stack_overflow := False, stack_underflow := False\<rparr>\<rparr>"
    by (simp add: set_stack_underflow_def set_stack_overflow_def)
  obtain ok t where r: "cpu_loop junk fu ?s = (ok, t)" by fastforce
  have len: "cpulog_len ?s = cpulog_len m" by (simp add: set_stack_underflow_def set_stack_overflow_def)
  have le: "cpulog_len ?s \<le> MAX_LOG_LENGTH" using assms len by simp
  show ?thesis
    using cpu_loop_iterates [OF r le] cpu_loop_ends [OF r le]
    by (auto simp: cpu_run_def r Let_def result_of_def [of "State _"] state_after_def [of "State _"] s [symmetric] len)
qed

theorem cpu_run_bounded_witness:
  "cpulog_len (state_after (cpu_run (\<lambda>_. zero_log) 0) initial_machine) \<le> MAX_LOG_LENGTH"
  using cpu_run_bounded [of initial_machine "\<lambda>_. zero_log" 0] by (auto simp: initial_machine_def Let_def)

text \<open>
  C17: \<open>cpu_call_routine\<close> reports success only if it runs nothing: its result is true exactly
  if the termination condition held already when it was called and no \<open>BRK\<close> was
  recorded. The step that reaches the condition reports failure, and so does a run that fills
  the log.
\<close>

theorem call_routine_result:
  "result_of (cpu_call_routine junk fu addr) m \<longleftrightarrow> t_done (term_of m) \<and> \<not> t_brk (term_of m)"
proof -
  let ?pre = "do {
     set_spl 0xff;
     (if addr \<ge> 0x8000 \<and> addr < 0xc000 then do { set_b 0xbf; set_sph 0xbe; set_in_hyper 1 }
      else do { set_b 0x00; set_sph 0x01; set_in_hyper 0 });
     label_address addr; cpu_stash_ram;
     modify (\<lambda>m. m\<lparr>cpu_expected := cpu m\<rparr>);
     cpu_log_reset; set_pc addr; set_stack_overflow False; set_stack_underflow False }"
  let ?s = "state_after ?pre m"
  have "obeys (same outcome) ?pre"
    by (intro obeys_outcome obeys_outcome_rest obeys_outcome_reset obeys_outcome_modify) (simp add: outcome_def)
  then have o: "outcome ?s = outcome m" by (rule outcome_keep)
  have len: "cpulog_len ?s = 1"
    by (simp add: set_pc_def set_stack_overflow_def set_stack_underflow_def cpu_log_reset_effects upd_defs)
  obtain ok t where r: "cpu_loop junk fu ?s = (ok, t)" by fastforce
  have res: "result_of (cpu_call_routine junk fu addr) m
    \<longleftrightarrow> ok \<and> cpulog_len t \<noteq> MAX_LOG_LENGTH \<and> \<not> t_brk (term_of t)"
    using r by (simp add: cpu_call_routine_def cpu_run_def tcond_def reg_def
        result_of_def [of "State _"] state_after_def [of "State _"])
  show ?thesis
  proof (cases "t_done (term_of m)")
    case True
    then have "fst (outcome ?s)" unfolding o by (simp add: outcome_def)
    from cpu_loop_done [OF this, of junk fu] r have t: "ok" "t = ?s" by simp_all
    have "outcome t = outcome m" "cpulog_len t = 1" unfolding t(2) by (fact o, fact len)
    then show ?thesis using res t(1) True by (simp add: outcome_def MAX_LOG_LENGTH_def)
  next
    case False
    then have nd: "\<not> fst (outcome ?s)" unfolding o by (simp add: outcome_def)
    have le: "cpulog_len ?s \<le> MAX_LOG_LENGTH" unfolding len by (simp add: MAX_LOG_LENGTH_def)
    have "cpulog_len t = MAX_LOG_LENGTH" if ok
      by (rule cpu_loop_success [of junk fu, OF _ le nd]) (simp only: r that)
    then show ?thesis using res False by blast
  qed
qed

text \<open>
  The counter of pops in a new log entry is whatever \<open>malloc\<close> returned. If that is four
  or more, a step that runs \<open>RTS\<close> stores outside the array.
\<close>

theorem uninitialised_pops_overrun:
  assumes "next_opcode m = 0x60" and "reg_pc (regs_of m) \<le> 0xffff"
    and "breakpoints m (reg_pc (regs_of m)) = 0" and "cpulog_len m < MAX_LOG_LENGTH"
    and "fault m = None" and "\<not> unat (l_pops (junk (log_next m))) < MAX_POPS"
  shows "fault (state_after (cpu_step junk fu) m) = Some OutOfBounds"
  using assms by (rule cpu_step_overrun)

theorem uninitialised_pops_overrun_witness:
  "fault (state_after (cpu_step (\<lambda>_. zero_log\<lparr>l_pops := 4\<rparr>) 0) (demo_code [0x60])) = Some OutOfBounds"
proof (rule uninitialised_pops_overrun)
  show "next_opcode (demo_code [0x60]) = 0x60" by (simp add: next_opcode_low demo_code_def initial_defs)
qed (simp_all add: demo_simps zero_log_def MAX_LOG_LENGTH_def MAX_POPS_def)

end
