(* ===== verification/BenchLaws.thy ===== *)
theory BenchLaws
  imports Bench Memory
begin

text \<open>
  What the test bench's comparisons decide: equality of the visible registers, the number of
  bytes that differ, and the range that \<open>ignore_ram_changes\<close> takes out of the comparison.
\<close>

section \<open>Registers\<close>

text \<open>The registers that a comparison looks at: all but the MAP registers and \<open>in_hyper\<close>.\<close>

definition visible :: "regs \<Rightarrow> _" where
  "visible r = (reg_pc r, reg_a r, reg_x r, reg_y r, reg_z r, reg_flags r, reg_b r, reg_sp r)"

lemmas flag_of_defs = flag_c_def flag_z_def flag_i_def flag_d_def flag_b_def flag_e_def flag_v_def flag_n_def

lemma flags_eqI:
  assumes "flag_c v = flag_c w" "flag_z v = flag_z w" "flag_i v = flag_i w" "flag_d v = flag_d w"
    "flag_b v = flag_b w" "flag_e v = flag_e w" "flag_v v = flag_v w" "flag_n v = flag_n w"
  shows "v = w"
proof (rule bit_word_eqI)
  fix k assume "k < LENGTH(8)"
  then have "k \<in> {0, 1, 2, 3, 4, 5, 6, 7}" unfolding insert_iff empty_iff by simp presburger
  then show "bit v k = bit w k" using assms by (auto simp: flag_of_defs)
qed

lemma flags_iff:
  "v = w \<longleftrightarrow> flag_c v = flag_c w \<and> flag_z v = flag_z w \<and> flag_i v = flag_i w \<and> flag_d v = flag_d w \<and>
    flag_b v = flag_b w \<and> flag_e v = flag_e w \<and> flag_v v = flag_v w \<and> flag_n v = flag_n w"
  using flags_eqI [of v w] by blast

lemma visible_iff:
  "visible r = visible s \<longleftrightarrow>
    reg_a r = reg_a s \<and> reg_x r = reg_x s \<and> reg_y r = reg_y s \<and> reg_z r = reg_z s \<and> reg_b r = reg_b s \<and>
    lo8 (reg_sp r) = lo8 (reg_sp s) \<and> hi8 (reg_sp r) = hi8 (reg_sp s) \<and> reg_pc r = reg_pc s \<and>
    flag_c (reg_flags r) = flag_c (reg_flags s) \<and> flag_z (reg_flags r) = flag_z (reg_flags s) \<and>
    flag_i (reg_flags r) = flag_i (reg_flags s) \<and> flag_d (reg_flags r) = flag_d (reg_flags s) \<and>
    flag_b (reg_flags r) = flag_b (reg_flags s) \<and> flag_e (reg_flags r) = flag_e (reg_flags s) \<and>
    flag_v (reg_flags r) = flag_v (reg_flags s) \<and> flag_n (reg_flags r) = flag_n (reg_flags s)"
proof -
  have "reg_sp r = reg_sp s \<longleftrightarrow> lo8 (reg_sp r) = lo8 (reg_sp s) \<and> hi8 (reg_sp r) = hi8 (reg_sp s)"
    using u16_bytes_eqI by metis
  then show ?thesis
    unfolding visible_def prod.inject flags_iff [of "reg_flags r"] by blast
qed

definition differ :: "regs \<Rightarrow> regs \<Rightarrow> bool" where
  "differ r s \<longleftrightarrow> visible r \<noteq> visible s"

text \<open>The state after one comparison, as a condition on the error flag.\<close>

definition flagging :: "bool \<Rightarrow> machine \<Rightarrow> machine" where
  "flagging b m = (if b then upd_term (\<lambda>t. t\<lparr>t_error := True\<rparr>) m else m)"

lemma state_compare_reg:
  "state_after (compare_reg f) m = flagging (f (regs_of m) \<noteq> f (cregs (cpu_expected m))) m"
  using run_compare_reg [of f m] by (simp add: state_after_def flagging_def)

lemma flagging_simps [simp]:
  "regs_of (flagging b m) = regs_of m" "cpu_expected (flagging b m) = cpu_expected m"
  "t_error (term_of (flagging b m)) \<longleftrightarrow> t_error (term_of m) \<or> b"
  "flagging b (flagging c m) = flagging (b \<or> c) m"
  by (auto simp: flagging_def upd_term_def)

section \<open>Memories\<close>

definition differing :: "nat \<Rightarrow> (u32 \<Rightarrow> u8) \<Rightarrow> (u32 \<Rightarrow> u8) \<Rightarrow> nat set" where
  "differing n f g = {k. k < n \<and> f (of_nat k) \<noteq> g (of_nat k)}"

lemma differing_Suc:
  "differing (Suc n) f g = (if f (of_nat n) \<noteq> g (of_nat n) then insert n (differing n f g) else differing n f g)"
  by (auto simp: differing_def less_Suc_eq)

lemma finite_differing [simp]: "finite (differing n f g)"
  by (simp add: differing_def)

lemma count_diffs_card: "count_diffs n f g = int (card (differing n f g))"
proof (induction n)
  case (Suc n)
  have "n \<notin> differing n f g" by (simp add: differing_def)
  with Suc show ?case by (simp add: differing_Suc)
qed (simp add: differing_def)

section \<open>The ignored range\<close>

definition in_range :: "u32 \<Rightarrow> nat \<Rightarrow> u32 \<Rightarrow> bool" where
  "in_range i k a \<longleftrightarrow> unat i \<le> unat a \<and> unat a < unat i + k"

text \<open>The expected contents behind the loop: those of the machine inside the range.\<close>

definition accept :: "u32 \<Rightarrow> nat \<Rightarrow> machine \<Rightarrow> machine" where
  "accept i k m = m\<lparr>ram_expected := (ram_expected m)\<lparr>
     chipram := (\<lambda>a. if in_range i k a \<and> a < CHIPRAM_SIZE then chipram (ram m) a else chipram (ram_expected m) a),
     hypporam := (\<lambda>a. if in_range i k (a + 0xfff8000) \<and> a < HYPPORAM_SIZE then hypporam (ram m) a
       else hypporam (ram_expected m) a)\<rparr>\<rparr>"

lemma in_range_Suc:
  assumes "unat i + k < 0x7fffffff"
  shows "in_range i (Suc k) a \<longleftrightarrow> a = i \<or> in_range (i + 1) k a"
proof -
  have "unat (i + 1) = unat i + 1" using assms by (simp add: unat_word_ariths)
  then show ?thesis by (auto simp: in_range_def word_unat_eq_iff)
qed

text \<open>One iteration, on either memory.\<close>

lemma window_iff:
  "(i \<ge> 0xfff8000 \<and> i < 0xfffc000 \<and> a = i - 0xfff8000) \<longleftrightarrow> (a + 0xfff8000 = i \<and> a < HYPPORAM_SIZE)"
proof -
  have "a + 0xfff8000 = i \<longleftrightarrow> a = i - 0xfff8000" by (auto simp: algebra_simps)
  moreover have "(i \<ge> 0xfff8000 \<and> i < 0xfffc000) \<longleftrightarrow> i - 0xfff8000 < HYPPORAM_SIZE"
    unfolding HYPPORAM_SIZE_def by (simp add: word_le_nat_alt word_less_nat_alt unat_sub_if') linarith
  ultimately show ?thesis by metis
qed

definition accept_one :: "u32 \<Rightarrow> machine \<Rightarrow> machine" where
  "accept_one i m = m\<lparr>ram_expected := (ram_expected m)\<lparr>
     chipram := (\<lambda>a. if a = i \<and> a < CHIPRAM_SIZE then chipram (ram m) a else chipram (ram_expected m) a),
     hypporam := (\<lambda>a. if a + 0xfff8000 = i \<and> a < HYPPORAM_SIZE then hypporam (ram m) a
       else hypporam (ram_expected m) a)\<rparr>\<rparr>"

lemma accept_Suc:
  assumes "unat i + k < 0x7fffffff"
  shows "accept (i + 1) k (accept_one i m) = accept i (Suc k) m"
  using in_range_Suc [OF assms] by (auto simp: accept_def accept_one_def intro!: machine.equality banks.equality)

lemma bank_store:
  "chipram_update (\<lambda>h. h(i := v)) e = e\<lparr>chipram := (chipram e)(i := v)\<rparr>"
  "hypporam_update (\<lambda>h. h(i := v)) e = e\<lparr>hypporam := (hypporam e)(i := v)\<rparr>"
  by (cases e; simp)+

lemma ignore_loop_effect:
  assumes "unat i + k \<le> 0x7fffffff"
  shows "state_after (ignore_loop k i) m = accept i k m"
  using assms
proof (induction k arbitrary: i m)
  case 0
  have "\<not> in_range i 0 a" for a by (simp add: in_range_def)
  then show ?case by (simp add: accept_def)
next
  case (Suc k)
  then have u: "unat (i + 1) = unat i + 1" "i \<noteq> 0x7fffffff" by (auto simp: unat_word_ariths)
  have b: "\<not> bit i 31"
  proof -
    have "bit i 31 \<longleftrightarrow> bit (unat i) 31" by (simp add: bit_unsigned_iff)
    then show ?thesis using Suc.prems by (simp add: bit_iff_odd)
  qed
  let ?c = "\<lambda>e. if i < CHIPRAM_SIZE then (chipram e)(i := chipram (ram m) i) else chipram e"
  let ?h = "\<lambda>e. if i \<ge> 0xfff8000 \<and> i < 0xfffc000
    then (hypporam e)(i - 0xfff8000 := hypporam (ram m) (i - 0xfff8000)) else hypporam e"
  let ?e = "ram_expected m"
  have c: "?c ?e = (\<lambda>a. if a = i \<and> a < CHIPRAM_SIZE then chipram (ram m) a else chipram ?e a)"
    by auto
  have h: "?h ?e = (\<lambda>a. if a + 0xfff8000 = i \<and> a < HYPPORAM_SIZE then hypporam (ram m) a else hypporam ?e a)"
  proof
    fix a
    show "?h ?e a = (if a + 0xfff8000 = i \<and> a < HYPPORAM_SIZE then hypporam (ram m) a else hypporam ?e a)"
      using window_iff [of i a] by auto
  qed
  have "state_after (ignore_loop (Suc k) i) m
      = state_after (ignore_loop k (i + 1)) (m\<lparr>ram_expected := ?e\<lparr>chipram := ?c ?e, hypporam := ?h ?e\<rparr>\<rparr>)"
    using b u(2) by (simp add: put_expected_def bank_store)
  also have "\<dots> = state_after (ignore_loop k (i + 1)) (accept_one i m)"
    unfolding accept_one_def c h ..
  also have "\<dots> = accept (i + 1) k (accept_one i m)" using Suc u by simp
  finally show ?case using accept_Suc [of i k m] Suc.prems by simp
qed

section \<open>Properties\<close>

text \<open>
  \<open>compare_register_contents\<close> is true exactly if an error was recorded before or a
  visible register differs from the expected one, and it records the error; nothing else
  changes.
\<close>

theorem compare_registers_decides:
  "run_state compare_register_contents m =
    (let e = (t_error (term_of m) \<or> differ (regs_of m) (cregs (cpu_expected m)))
     in (e, flagging (differ (regs_of m) (cregs (cpu_expected m))) m))"
proof -
  have s: "state_after compare_register_contents m
      = flagging (differ (regs_of m) (cregs (cpu_expected m))) m"
    unfolding differ_def visible_iff
    by (simp add: compare_register_contents_def state_compare_reg tcond_def,
        rule arg_cong [where f = "\<lambda>b. flagging b m"], blast)
  moreover have "result_of compare_register_contents m \<longleftrightarrow> t_error (term_of (state_after compare_register_contents m))"
    by (simp add: compare_register_contents_def tcond_def)
  ultimately show ?thesis by (simp add: run_state_pair Let_def)
qed

text \<open>
  \<open>compare_ram_contents\<close> returns the number of bytes of the four memories that differ
  from the expected contents, and records an error exactly if there are any.
\<close>

theorem compare_ram_counts:
  "result_of compare_ram_contents m =
    int (card (differing (unat CHIPRAM_SIZE) (chipram (ram m)) (chipram (ram_expected m))) +
      card (differing (unat HYPPORAM_SIZE) (hypporam (ram m)) (hypporam (ram_expected m))) +
      card (differing (unat COLOURRAM_SIZE) (colourram (ram m)) (colourram (ram_expected m))) +
      card (differing 65536 (ffdram (ram m)) (ffdram (ram_expected m)))) \<and>
   state_after compare_ram_contents m = flagging (result_of compare_ram_contents m \<noteq> 0) m"
  unfolding compare_ram_contents_def Let_def
  by (simp add: count_diffs_card flagging_def set_error_def)

text \<open>
  \<open>ignore_ram_changes\<close> makes the expected contents equal to the actual ones exactly for
  the chip RAM and the hypervisor RAM inside the range; the colour RAM and the I/O page are
  never ignored.
\<close>

theorem ignored_range:
  assumes "low \<le> high" and "high < 0x7fffffff"
  shows "state_after (ignore_ram_changes low high) m = accept low (unat high + 1 - unat low) m"
proof -
  have "unat high < 0x7fffffff" "unat low \<le> unat high" using assms by (simp_all add: word_less_nat_alt word_le_nat_alt)
  then have "unat low + (unat high + 1 - unat low) \<le> 0x7fffffff" by simp
  from ignore_loop_effect [OF this] show ?thesis by (simp add: ignore_ram_changes_def)
qed

theorem ignored_range_witness:
  "chipram (ram_expected (state_after (ignore_ram_changes 0x100 0x1ff)
     (initial_machine\<lparr>ram := zero_banks\<lparr>chipram := (\<lambda>_. 7)\<rparr>\<rparr>))) 0x180 = 7"
  using ignored_range [of "0x100" "0x1ff" "initial_machine\<lparr>ram := zero_banks\<lparr>chipram := (\<lambda>_. 7)\<rparr>\<rparr>"]
  by (simp add: accept_def in_range_def CHIPRAM_SIZE_def)

end
