(* ===== verification/Listing.thy ===== *)
theory Listing
  imports Bench
begin

text \<open>
  What \<open>hyppotest.c\<close> prints about addresses and instructions: \<open>describe_address\<close>,
  \<open>describe_address_label28\<close>, the disassembler and \<open>show_recent_instructions\<close>, each as the
  text that it writes.

  Printing follows pointers (\<open>cpulog[...]->pc\<close>, a symbol's name), and the disassembler calls
  itself for the instruction that wrote an operand, so a text is one of three things: \<open>Text s\<close>,
  \<open>Crash f\<close> when a pointer is bad, and \<open>Deep\<close> when the calls nest deeper than the fuel.
\<close>

section \<open>Texts\<close>

datatype printed = Text string | Crash fault | Deep

fun cat :: "printed \<Rightarrow> printed \<Rightarrow> printed" where
  "cat (Text s) (Text t) = Text (s @ t)"
| "cat (Text s) t = t"
| "cat s _ = s"

text \<open>The conversions of \<open>printf\<close>: \<open>%X\<close>, \<open>%x\<close> and \<open>%d\<close>, padding, and the bound of \<open>snprintf\<close>.\<close>

fun digits :: "nat \<Rightarrow> nat \<Rightarrow> nat list" where
  "digits b n = (if n < b \<or> b < 2 then [n] else digits b (n div b) @ [n mod b])"

declare digits.simps [simp del]

definition digit_char :: "nat \<Rightarrow> nat \<Rightarrow> char" where
  "digit_char ten d = (if d < 10 then char_of (48 + d) else char_of (ten + (d - 10)))"

definition pad_left :: "char \<Rightarrow> nat \<Rightarrow> string \<Rightarrow> string" where
  "pad_left c w s = replicate (w - length s) c @ s"

definition pad_right :: "nat \<Rightarrow> string \<Rightarrow> string" where
  "pad_right w s = s @ replicate (w - length s) CHR '' ''"

definition fmt_X :: "nat \<Rightarrow> 'a::len word \<Rightarrow> string" where
  "fmt_X w v = pad_left CHR ''0'' w (map (digit_char 65) (digits 16 (unat v)))"

definition fmt_x :: "nat \<Rightarrow> 'a::len word \<Rightarrow> string" where
  "fmt_x w v = pad_left CHR ''0'' w (map (digit_char 97) (digits 16 (unat v)))"

definition fmt_d :: "int \<Rightarrow> string" where
  "fmt_d i = (if i < 0 then ''-'' else '''') @ map (digit_char 97) (digits 10 (nat \<bar>i\<bar>))"

definition snprintf :: "nat \<Rightarrow> string \<Rightarrow> string" where
  "snprintf n s = take (n - 1) s"

section \<open>Addresses\<close>

definition name_of :: "machine \<Rightarrow> hyppo_symbol \<Rightarrow> printed" where
  "name_of m s = (case sym_names m (sym_name s) of None \<Rightarrow> Crash UseAfterFree | Some t \<Rightarrow> Text t)"

fun cut :: "nat \<Rightarrow> printed \<Rightarrow> printed" where
  "cut n (Text s) = Text (snprintf n s)"
| "cut n t = t"

text \<open>The loop of \<open>describe_address\<close>; \<open>s\<close> is the symbol found so far.\<close>

fun describe_loop :: "u32 \<Rightarrow> hyppo_symbol list \<Rightarrow> hyppo_symbol option \<Rightarrow> hyppo_symbol option" where
  "describe_loop addr [] s = s"
| "describe_loop addr (h # hs) s =
    (let s = (if addr = sym_addr h then Some h else s);
         s = (case s of
                Some t \<Rightarrow> if sym_addr t < sym_addr h \<and> addr > sym_addr h then Some h else s
              | None \<Rightarrow> s)
     in describe_loop addr hs s)"

definition describe_address :: "machine \<Rightarrow> u32 \<Rightarrow> printed" where
  "describe_address m addr = cut 8192
    (case describe_loop addr (hyppo_symbols m) None of
       Some s \<Rightarrow>
         if sym_addr s = addr then
           cat (Text (''$'' @ fmt_X 4 addr @ '' (first instruction in ''))
             (cat (name_of m s) (Text '')''))
         else
           cat (Text (''$'' @ fmt_X 4 addr @ '' (at ''))
             (cat (name_of m s) (Text (''+'' @ fmt_d (sint (addr - sym_addr s)) @ '')'')))
     | None \<Rightarrow> Text (''$'' @ fmt_X 4 addr))"

text \<open>
  The loop of \<open>describe_address_label28\<close>: the symbol that matches and whether it does so
  exactly, which ends the loop.
\<close>

fun label_loop :: "u32 \<Rightarrow> hyppo_symbol list \<Rightarrow> hyppo_symbol option \<Rightarrow> hyppo_symbol option \<times> bool" where
  "label_loop addr [] match = (match, False)"
| "label_loop addr (s # ss) match =
    (if addr = sym_addr s then (Some s, True)
     else
       (let match = (case match of
                       Some t \<Rightarrow> if sym_addr t < sym_addr s \<and> addr > sym_addr s then Some s else match
                     | None \<Rightarrow> match);
            match = (if match = None \<and> addr > sym_addr s then Some s else match)
        in label_loop addr ss match))"

definition describe_address_label28 :: "machine \<Rightarrow> u32 \<Rightarrow> printed" where
  "describe_address_label28 m addr =
    (let hyper = addr \<ge> 0xfff8000 \<and> addr < 0xfffc000;
         tab = (if hyper then hyppo_symbols m else symbols m);
         addr = (if hyper then addr - 0xfff0000 else addr)
     in case label_loop addr tab None of
          (None, _) \<Rightarrow> Text ''''
        | (Some s, True) \<Rightarrow> cut 8192 (name_of m s)
        | (Some s, False) \<Rightarrow>
            (let delta = addr - sym_addr s
             in cut 8192 (cat (name_of m s)
                  (if sint delta > 0xff then Text (''+$'' @ fmt_x 0 delta)
                   else Text (''+'' @ fmt_d (sint delta))))))"

definition describe_address_label :: "u32 \<Rightarrow> printed prog" where
  "describe_address_label addr = do {
     a \<leftarrow> addr_to_28bit addr True;
     gets (\<lambda>m. describe_address_label28 m a)
   }"

section \<open>Operands\<close>

definition arg :: "instruction_log \<Rightarrow> nat \<Rightarrow> u8" where
  "arg log i = l_bytes log ! i"

definition disassemble_rel8 :: "instruction_log \<Rightarrow> printed" where
  "disassemble_rel8 log =
    Text (''$'' @ fmt_X 4 (l_pc log + 2 + word_of_int (rel8_delta (arg log 1))))"

definition disassemble_rel16 :: "instruction_log \<Rightarrow> printed" where
  "disassemble_rel16 log =
    Text (''$'' @ fmt_X 4 (l_pc log + 2 +
      word_of_int (rel16_delta (ucast (arg log 1) + push_bit 8 (ucast (arg log 1))))))"

definition disassemble_imm :: "instruction_log \<Rightarrow> printed" where
  "disassemble_imm log = Text (''#$'' @ fmt_X 2 (arg log 1))"

definition disassemble_abs :: "instruction_log \<Rightarrow> printed" where
  "disassemble_abs log = Text (''$'' @ fmt_X 2 (arg log 2) @ fmt_X 2 (arg log 1))"

definition disassemble_absz :: "instruction_log \<Rightarrow> printed" where
  "disassemble_absz log = Text (''$'' @ fmt_X 2 (arg log 2) @ fmt_X 2 (arg log 1) @ '',Z'')"

definition disassemble_iabsx :: "instruction_log \<Rightarrow> printed" where
  "disassemble_iabsx log = Text (''($'' @ fmt_X 2 (arg log 2) @ fmt_X 2 (arg log 1) @ '',X)'')"

definition disassemble_absx :: "instruction_log \<Rightarrow> printed" where
  "disassemble_absx log = Text (''$'' @ fmt_X 2 (arg log 2) @ fmt_X 2 (arg log 1) @ '',X'')"

definition disassemble_absy :: "instruction_log \<Rightarrow> printed" where
  "disassemble_absy log = Text (''$'' @ fmt_X 2 (arg log 2) @ fmt_X 2 (arg log 1) @ '',Y'')"

definition disassemble_zp :: "instruction_log \<Rightarrow> printed" where
  "disassemble_zp log = Text (''$'' @ fmt_X 2 (arg log 1))"

definition disassemble_zpx :: "instruction_log \<Rightarrow> printed" where
  "disassemble_zpx log = Text (''$'' @ fmt_X 2 (arg log 1) @ '',X'')"

definition disassemble_zpy :: "instruction_log \<Rightarrow> printed" where
  "disassemble_zpy log = Text (''$'' @ fmt_X 2 (arg log 1) @ '',Y'')"

text \<open>\<open>{PTR=$%04X,ADDR16=$%04X}\<close>\<close>

definition pointer_note :: "instruction_log \<Rightarrow> string" where
  "pointer_note log =
    '' {PTR=$'' @ fmt_X 4 (l_zp_pointer log) @ '',ADDR16=$'' @ fmt_X 4 (l_zp_pointer_addr log) @ ''}''"

definition disassemble_izpy :: "instruction_log \<Rightarrow> printed" where
  "disassemble_izpy log = Text (''($'' @ fmt_X 2 (arg log 1) @ ''),Y'' @ pointer_note log)"

definition disassemble_izpx :: "instruction_log \<Rightarrow> printed" where
  "disassemble_izpx log = Text (''($'' @ fmt_X 2 (arg log 1) @ '',X)'' @ pointer_note log)"

definition disassemble_zp_rel8 :: "instruction_log \<Rightarrow> printed" where
  "disassemble_zp_rel8 log = Text (''$'' @ fmt_X 2 (arg log 1) @ '',$'' @
     fmt_X 4 (l_pc log + 2 + word_of_int (rel8_delta (arg log 2))))"

definition disassemble_izpz :: "instruction_log \<Rightarrow> printed" where
  "disassemble_izpz log = Text (''($'' @ fmt_X 2 (arg log 1) @ ''),Z'' @ pointer_note log)"

definition disassemble_izpz32 :: "instruction_log \<Rightarrow> printed" where
  "disassemble_izpz32 log = Text (''[$'' @ fmt_X 2 (arg log 1) @ ''],Z {PTR=$'' @
     fmt_X 4 (l_zp_pointer log) @ '',ADDR32=$'' @ fmt_X 7 (l_zp_pointer_addr log) @ ''}'')"

section \<open>The instructions that wrote an operand\<close>

text \<open>\<open>cpulog[i]\<close>, followed.\<close>

definition log_entry :: "machine \<Rightarrow> nat \<Rightarrow> fault + instruction_log" where
  "log_entry m i =
    (if i \<ge> MAX_LOG_LENGTH then Inl OutOfBounds
     else case cpulog m i of None \<Rightarrow> Inl NullDereference
       | Some q \<Rightarrow> (case log_heap m q of None \<Rightarrow> Inl UseAfterFree | Some l \<Rightarrow> Inr l))"

definition with_entry :: "machine \<Rightarrow> u32 \<Rightarrow> (instruction_log \<Rightarrow> printed) \<Rightarrow> printed" where
  "with_entry m i f = (case log_entry m (unat i) of Inl e \<Rightarrow> Crash e | Inr l \<Rightarrow> f l)"

text \<open>
  \<open>memory_blame(&fakecpu, addr)\<close>, where \<open>fakecpu\<close> holds the registers of the log entry and is
  otherwise cleared: only its result counts, and an access out of bounds.
\<close>

definition fake_blame :: "machine \<Rightarrow> instruction_log \<Rightarrow> u32 \<Rightarrow> fault + u32" where
  "fake_blame m log addr =
    (let (w, m') = run_state (memory_blame addr) (m\<lparr>cpu := zero_cpu\<lparr>cregs := l_regs log\<rparr>, fault := None\<rparr>)
     in case fault m' of Some e \<Rightarrow> Inl e | None \<Rightarrow> Inr w)"

definition pointer_source ::
  "(instruction_log \<Rightarrow> printed) \<Rightarrow> machine \<Rightarrow> instruction_log \<Rightarrow> u32 \<Rightarrow> printed" where
  "pointer_source d m log addr =
    (case fake_blame m log addr of
       Inl e \<Rightarrow> Crash e
     | Inr w \<Rightarrow>
         if w \<noteq> 0 then cat (Text (''I'' @ fmt_d (sint w) @ '': '')) (with_entry m w d)
         else Text ''<uninitialised memory>'')"

text \<open>\<open>d\<close> is \<open>disassemble_instruction\<close>, with less fuel.\<close>

definition disassemble_iabs ::
  "(instruction_log \<Rightarrow> printed) \<Rightarrow> machine \<Rightarrow> instruction_log \<Rightarrow> printed" where
  "disassemble_iabs d m log =
    cat (Text (''($'' @ fmt_X 2 (arg log 2) @ fmt_X 2 (arg log 1) @ '') {PTR=$'' @
      fmt_X 4 (l_zp_pointer log) @ '',ADDR=$'' @ fmt_X 4 (l_zp_pointer_addr log) @
      '', Pointer written by ''))
    (cat (pointer_source d m log (l_zp_pointer log + 0))
    (cat (Text '' and '')
    (cat (pointer_source d m log (l_zp_pointer log + 1)) (Text ''}''))))"

definition pop_source :: "(instruction_log \<Rightarrow> printed) \<Rightarrow> machine \<Rightarrow> u32 \<Rightarrow> printed" where
  "pop_source d m w =
    (if w \<noteq> 0 then with_entry m w (\<lambda>l. cat (Text (''$'' @ fmt_X 4 (l_pc l) @ '' '')) (d l))
     else Text ''<unitialised stack location>'')"

definition disassemble_stack_source ::
  "(instruction_log \<Rightarrow> printed) \<Rightarrow> machine \<Rightarrow> instruction_log \<Rightarrow> printed" where
  "disassemble_stack_source d m log =
    cat (Text ''  {Pushed by '') (cat (pop_source d m (l_pop_blame log ! 0)) (Text ''}''))"

text \<open>The case \<open>RTS\<close>.\<close>

definition disassemble_rts ::
  "(instruction_log \<Rightarrow> printed) \<Rightarrow> machine \<Rightarrow> instruction_log \<Rightarrow> printed" where
  "disassemble_rts d m log =
    (let w0 = l_pop_blame log ! 0; w1 = l_pop_blame log ! 1
     in cat (Text ''RTS {Address pushed by '')
        (cat (if w0 \<noteq> w1 then
                cat (Text '' two different instructions: '')
                (cat (pop_source d m w0) (cat (Text '' and '') (pop_source d m w1)))
              else pop_source d m w0)
        (Text ''}'')))"

section \<open>The disassembler\<close>

text \<open>The cases of the \<open>switch\<close> in \<open>disassemble_instruction\<close>, sixteen opcodes at a time.\<close>

definition dis_0x :: "u8 \<Rightarrow> instruction_log \<Rightarrow> printed" where
  "dis_0x opc log =
    (if opc = 0x00 then cat (Text ''BRK  '') (disassemble_imm log)
     else if opc = 0x01 then cat (Text ''ORA  '') (disassemble_izpx log)
     else if opc = 0x03 then Text ''SEE''
     else if opc = 0x04 then cat (Text ''TSB  '') (disassemble_zp log)
     else if opc = 0x05 then cat (Text ''ORA  '') (disassemble_zp log)
     else if opc = 0x06 then cat (Text ''ASL  '') (disassemble_zp log)
     else if opc = 0x07 then cat (Text ''RMB0 '') (disassemble_zp log)
     else if opc = 0x08 then Text ''PHP''
     else if opc = 0x09 then cat (Text ''ORA  '') (disassemble_imm log)
     else if opc = 0x0a then Text ''ASL  A''
     else if opc = 0x0c then cat (Text ''TSB  '') (disassemble_abs log)
     else if opc = 0x0d then cat (Text ''ORA  '') (disassemble_abs log)
     else if opc = 0x0e then cat (Text ''ASL  '') (disassemble_abs log)
     else if opc = 0x0f then cat (Text ''BBR0 '') (disassemble_zp_rel8 log)
     else Text '''')"

definition dis_1x :: "u8 \<Rightarrow> instruction_log \<Rightarrow> printed" where
  "dis_1x opc log =
    (if opc = 0x10 then cat (Text ''BPL  '') (disassemble_rel8 log)
     else if opc = 0x11 then cat (Text ''ORA  '') (disassemble_izpy log)
     else if opc = 0x12 then cat (Text ''ORA  '') (disassemble_izpz log)
     else if opc = 0x13 then cat (Text ''BPL  '') (disassemble_rel16 log)
     else if opc = 0x14 then cat (Text ''TRB  '') (disassemble_zp log)
     else if opc = 0x15 then cat (Text ''ORA  '') (disassemble_zpx log)
     else if opc = 0x16 then cat (Text ''ASL  '') (disassemble_zpx log)
     else if opc = 0x17 then cat (Text ''RMB1 '') (disassemble_zp log)
     else if opc = 0x18 then Text ''CLC''
     else if opc = 0x19 then cat (Text ''ORA  '') (disassemble_absy log)
     else if opc = 0x1a then Text ''INC''
     else if opc = 0x1b then Text ''INZ''
     else if opc = 0x1c then cat (Text ''TRB  '') (disassemble_abs log)
     else if opc = 0x1d then cat (Text ''ORA  '') (disassemble_absx log)
     else if opc = 0x1e then cat (Text ''ASL  '') (disassemble_absx log)
     else if opc = 0x1f then cat (Text ''BBR1 '') (disassemble_zp_rel8 log)
     else Text '''')"

definition dis_2x :: "(instruction_log \<Rightarrow> printed) \<Rightarrow> machine \<Rightarrow> u8 \<Rightarrow> instruction_log \<Rightarrow> printed" where
  "dis_2x d m opc log =
    (if opc = 0x20 then cat (Text ''JSR  '') (disassemble_abs log)
     else if opc = 0x21 then cat (Text ''AND  '') (disassemble_izpx log)
     else if opc = 0x22 then cat (Text ''JSR  '') (disassemble_iabs d m log)
     else if opc = 0x24 then cat (Text ''BIT  '') (disassemble_zp log)
     else if opc = 0x25 then cat (Text ''AND  '') (disassemble_zp log)
     else if opc = 0x26 then cat (Text ''ROL  '') (disassemble_zp log)
     else if opc = 0x27 then cat (Text ''RMB2 '') (disassemble_zp log)
     else if opc = 0x28 then cat (Text ''PLP'') (disassemble_stack_source d m log)
     else if opc = 0x29 then cat (Text ''AND  '') (disassemble_imm log)
     else if opc = 0x2a then Text ''ROL  A''
     else if opc = 0x2b then Text ''TYS''
     else if opc = 0x2c then cat (Text ''BIT  '') (disassemble_abs log)
     else if opc = 0x2d then cat (Text ''AND  '') (disassemble_abs log)
     else if opc = 0x2e then cat (Text ''ROL  '') (disassemble_abs log)
     else if opc = 0x2f then cat (Text ''BBR2 '') (disassemble_zp_rel8 log)
     else Text '''')"

definition dis_3x :: "u8 \<Rightarrow> instruction_log \<Rightarrow> printed" where
  "dis_3x opc log =
    (if opc = 0x30 then cat (Text ''BMI  '') (disassemble_rel8 log)
     else if opc = 0x31 then cat (Text ''AND  '') (disassemble_izpy log)
     else if opc = 0x32 then cat (Text ''AND  '') (disassemble_izpz log)
     else if opc = 0x33 then cat (Text ''BMI  '') (disassemble_rel16 log)
     else if opc = 0x34 then cat (Text ''BIT  '') (disassemble_zpx log)
     else if opc = 0x35 then cat (Text ''AND  '') (disassemble_zpx log)
     else if opc = 0x36 then cat (Text ''ROL  '') (disassemble_zpx log)
     else if opc = 0x37 then cat (Text ''RMB3 '') (disassemble_zp log)
     else if opc = 0x38 then Text ''SEC''
     else if opc = 0x39 then cat (Text ''AND  '') (disassemble_absy log)
     else if opc = 0x3a then Text ''DEC''
     else if opc = 0x3c then cat (Text ''BIT  '') (disassemble_absx log)
     else if opc = 0x3d then cat (Text ''AND  '') (disassemble_absx log)
     else if opc = 0x3e then cat (Text ''ROL  '') (disassemble_absx log)
     else if opc = 0x3f then cat (Text ''BBR3 '') (disassemble_zp_rel8 log)
     else Text '''')"

definition dis_4x :: "u8 \<Rightarrow> instruction_log \<Rightarrow> printed" where
  "dis_4x opc log =
    (if opc = 0x40 then Text ''RTI''
     else if opc = 0x41 then cat (Text ''EOR  '') (disassemble_zpx log)
     else if opc = 0x45 then cat (Text ''EOR  '') (disassemble_zp log)
     else if opc = 0x46 then cat (Text ''LSR  '') (disassemble_zp log)
     else if opc = 0x47 then cat (Text ''RMB4 '') (disassemble_zp log)
     else if opc = 0x48 then Text ''PHA''
     else if opc = 0x49 then cat (Text ''EOR  '') (disassemble_imm log)
     else if opc = 0x4a then Text ''LSR  A''
     else if opc = 0x4b then Text ''TAZ''
     else if opc = 0x4c then cat (Text ''JMP  '') (disassemble_abs log)
     else if opc = 0x4d then cat (Text ''EOR  '') (disassemble_abs log)
     else if opc = 0x4e then cat (Text ''LSR  '') (disassemble_abs log)
     else if opc = 0x4f then cat (Text ''BBR4 '') (disassemble_zp_rel8 log)
     else Text '''')"

definition dis_5x :: "u8 \<Rightarrow> instruction_log \<Rightarrow> printed" where
  "dis_5x opc log =
    (if opc = 0x50 then cat (Text ''BVC  '') (disassemble_rel8 log)
     else if opc = 0x51 then cat (Text ''EOR  '') (disassemble_izpy log)
     else if opc = 0x52 then cat (Text ''EOR  '') (disassemble_izpz log)
     else if opc = 0x56 then cat (Text ''LSR  '') (disassemble_zpx log)
     else if opc = 0x55 then cat (Text ''EOR  '') (disassemble_zpx log)
     else if opc = 0x57 then cat (Text ''RMB5 '') (disassemble_zp log)
     else if opc = 0x58 then Text ''CLI''
     else if opc = 0x59 then cat (Text ''EOR  '') (disassemble_absy log)
     else if opc = 0x5a then Text ''PHY''
     else if opc = 0x5b then Text ''TAB''
     else if opc = 0x5c then Text ''MAP''
     else if opc = 0x5d then cat (Text ''EOR  '') (disassemble_absx log)
     else if opc = 0x5e then cat (Text ''LSR  '') (disassemble_absx log)
     else if opc = 0x5f then cat (Text ''BBR5 '') (disassemble_zp_rel8 log)
     else Text '''')"

definition dis_6x :: "(instruction_log \<Rightarrow> printed) \<Rightarrow> machine \<Rightarrow> u8 \<Rightarrow> instruction_log \<Rightarrow> printed" where
  "dis_6x d m opc log =
    (if opc = 0x60 then disassemble_rts d m log
     else if opc = 0x61 then cat (Text ''ADC  '') (disassemble_izpx log)
     else if opc = 0x64 then cat (Text ''STZ  '') (disassemble_zp log)
     else if opc = 0x65 then cat (Text ''ADC  '') (disassemble_zp log)
     else if opc = 0x66 then cat (Text ''ROR  '') (disassemble_zp log)
     else if opc = 0x67 then cat (Text ''RMB6 '') (disassemble_zp log)
     else if opc = 0x68 then cat (Text ''PLA'') (disassemble_stack_source d m log)
     else if opc = 0x69 then cat (Text ''ADC  '') (disassemble_imm log)
     else if opc = 0x6a then Text ''ROR  A''
     else if opc = 0x6b then Text ''TZA''
     else if opc = 0x6c then cat (Text ''JMP  '') (disassemble_iabs d m log)
     else if opc = 0x6d then cat (Text ''ADC  '') (disassemble_abs log)
     else if opc = 0x6e then cat (Text ''ROR  '') (disassemble_abs log)
     else if opc = 0x6f then cat (Text ''BBR6 '') (disassemble_zp_rel8 log)
     else Text '''')"

definition dis_7x :: "(instruction_log \<Rightarrow> printed) \<Rightarrow> machine \<Rightarrow> u8 \<Rightarrow> instruction_log \<Rightarrow> printed" where
  "dis_7x d m opc log =
    (if opc = 0x70 then cat (Text ''BVS  '') (disassemble_rel8 log)
     else if opc = 0x71 then cat (Text ''ADC  '') (disassemble_izpy log)
     else if opc = 0x72 then cat (Text ''ADC  '') (disassemble_izpz log)
     else if opc = 0x74 then cat (Text ''STZ  '') (disassemble_zpx log)
     else if opc = 0x75 then cat (Text ''ADC  '') (disassemble_zpx log)
     else if opc = 0x76 then cat (Text ''ROR  '') (disassemble_zpx log)
     else if opc = 0x77 then cat (Text ''RMB7 '') (disassemble_zp log)
     else if opc = 0x78 then Text ''SEI''
     else if opc = 0x79 then cat (Text ''ADC  '') (disassemble_absy log)
     else if opc = 0x7a then cat (Text ''PLY'') (disassemble_stack_source d m log)
     else if opc = 0x7b then Text ''TBA''
     else if opc = 0x7d then cat (Text ''ADC  '') (disassemble_absx log)
     else if opc = 0x7c then cat (Text ''JMP  '') (disassemble_iabsx log)
     else if opc = 0x7e then cat (Text ''ROR  '') (disassemble_absx log)
     else if opc = 0x7f then cat (Text ''BBR7 '') (disassemble_zp_rel8 log)
     else Text '''')"

definition dis_8x :: "u8 \<Rightarrow> instruction_log \<Rightarrow> printed" where
  "dis_8x opc log =
    (if opc = 0x80 then cat (Text ''BRA  '') (disassemble_rel8 log)
     else if opc = 0x81 then cat (Text ''STA  '') (disassemble_izpx log)
     else if opc = 0x83 then cat (Text ''BRA  '') (disassemble_rel16 log)
     else if opc = 0x84 then cat (Text ''STY  '') (disassemble_zp log)
     else if opc = 0x85 then cat (Text ''STA  '') (disassemble_zp log)
     else if opc = 0x86 then cat (Text ''STX  '') (disassemble_zp log)
     else if opc = 0x87 then cat (Text ''SMB0 '') (disassemble_zp log)
     else if opc = 0x88 then Text ''DEY''
     else if opc = 0x89 then cat (Text ''BIT  '') (disassemble_imm log)
     else if opc = 0x8a then Text ''TXA''
     else if opc = 0x8c then cat (Text ''STY  '') (disassemble_abs log)
     else if opc = 0x8d then cat (Text ''STA  '') (disassemble_abs log)
     else if opc = 0x8e then cat (Text ''STX  '') (disassemble_abs log)
     else if opc = 0x8f then cat (Text ''BBS0 '') (disassemble_zp_rel8 log)
     else Text '''')"

definition dis_9x :: "u8 \<Rightarrow> instruction_log \<Rightarrow> printed" where
  "dis_9x opc log =
    (if opc = 0x90 then cat (Text ''BCC  '') (disassemble_rel8 log)
     else if opc = 0x91 then cat (Text ''STA  '') (disassemble_izpy log)
     else if opc = 0x92 then cat (Text ''STA  '') (if l_zp32 log \<noteq> 0 then disassemble_izpz32 log else disassemble_izpz log)
     else if opc = 0x93 then cat (Text ''BCC  '') (disassemble_rel16 log)
     else if opc = 0x94 then cat (Text ''STY  '') (disassemble_zpx log)
     else if opc = 0x95 then cat (Text ''STA  '') (disassemble_zpx log)
     else if opc = 0x96 then cat (Text ''STX  '') (disassemble_zpy log)
     else if opc = 0x97 then cat (Text ''SMB1 '') (disassemble_zp log)
     else if opc = 0x98 then Text ''TYA''
     else if opc = 0x99 then cat (Text ''STA  '') (disassemble_absy log)
     else if opc = 0x9a then Text ''TXS''
     else if opc = 0x9c then cat (Text ''STZ  '') (disassemble_abs log)
     else if opc = 0x9d then cat (Text ''STA  '') (disassemble_absx log)
     else if opc = 0x9e then cat (Text ''STZ  '') (disassemble_absx log)
     else if opc = 0x9f then cat (Text ''BBS1 '') (disassemble_zp_rel8 log)
     else Text '''')"

definition dis_ax :: "u8 \<Rightarrow> instruction_log \<Rightarrow> printed" where
  "dis_ax opc log =
    (if opc = 0xa0 then cat (Text ''LDY  '') (disassemble_imm log)
     else if opc = 0xa1 then cat (Text ''LDA  '') (disassemble_izpx log)
     else if opc = 0xa2 then cat (Text ''LDX  '') (disassemble_imm log)
     else if opc = 0xa3 then cat (Text ''LDZ  '') (disassemble_imm log)
     else if opc = 0xa4 then cat (Text ''LDY  '') (disassemble_zp log)
     else if opc = 0xa5 then cat (Text ''LDA  '') (disassemble_zp log)
     else if opc = 0xa6 then cat (Text ''LDX  '') (disassemble_zp log)
     else if opc = 0xa7 then cat (Text ''SMB2 '') (disassemble_zp log)
     else if opc = 0xa8 then Text ''TAY''
     else if opc = 0xa9 then cat (Text ''LDA  '') (disassemble_imm log)
     else if opc = 0xaa then Text ''TAX''
     else if opc = 0xac then cat (Text ''LDY  '') (disassemble_abs log)
     else if opc = 0xad then cat (Text ''LDA  '') (disassemble_abs log)
     else if opc = 0xae then cat (Text ''LDX  '') (disassemble_abs log)
     else if opc = 0xaf then cat (Text ''BBS2 '') (disassemble_zp_rel8 log)
     else Text '''')"

definition dis_bx :: "u8 \<Rightarrow> instruction_log \<Rightarrow> printed" where
  "dis_bx opc log =
    (if opc = 0xb0 then cat (Text ''BCS  '') (disassemble_rel8 log)
     else if opc = 0xb1 then cat (Text ''LDA  '') (disassemble_izpy log)
     else if opc = 0xb2 then cat (Text ''LDA  '') (disassemble_izpz log)
     else if opc = 0xb4 then cat (Text ''LDY  '') (disassemble_zpx log)
     else if opc = 0xb5 then cat (Text ''LDA  '') (disassemble_zpx log)
     else if opc = 0xb6 then cat (Text ''LDX  '') (disassemble_zpy log)
     else if opc = 0xb7 then cat (Text ''SMB3 '') (disassemble_zp log)
     else if opc = 0xb8 then Text ''CLV''
     else if opc = 0xb9 then cat (Text ''LDA  '') (disassemble_absy log)
     else if opc = 0xba then Text ''TSX''
     else if opc = 0xbc then cat (Text ''LDY  '') (disassemble_absx log)
     else if opc = 0xbd then cat (Text ''LDA  '') (disassemble_absx log)
     else if opc = 0xbe then cat (Text ''LDX  '') (disassemble_absy log)
     else if opc = 0xbf then cat (Text ''BBS3 '') (disassemble_zp_rel8 log)
     else Text '''')"

definition dis_cx :: "u8 \<Rightarrow> instruction_log \<Rightarrow> printed" where
  "dis_cx opc log =
    (if opc = 0xc0 then cat (Text ''CPY  '') (disassemble_imm log)
     else if opc = 0xc1 then cat (Text ''CMP  '') (disassemble_izpx log)
     else if opc = 0xc4 then cat (Text ''CPY  '') (disassemble_zp log)
     else if opc = 0xc5 then cat (Text ''CMP  '') (disassemble_zp log)
     else if opc = 0xc6 then cat (Text ''DEC  '') (disassemble_zp log)
     else if opc = 0xc7 then cat (Text ''SMB4 '') (disassemble_zp log)
     else if opc = 0xc8 then Text ''INY''
     else if opc = 0xc9 then cat (Text ''CMP  '') (disassemble_imm log)
     else if opc = 0xca then Text ''DEX''
     else if opc = 0xcc then cat (Text ''CPY  '') (disassemble_abs log)
     else if opc = 0xcd then cat (Text ''CMP  '') (disassemble_abs log)
     else if opc = 0xce then cat (Text ''DEC  '') (disassemble_abs log)
     else if opc = 0xcf then cat (Text ''BBS4 '') (disassemble_zp_rel8 log)
     else Text '''')"

definition dis_dx :: "u8 \<Rightarrow> instruction_log \<Rightarrow> printed" where
  "dis_dx opc log =
    (if opc = 0xd0 then cat (Text ''BNE  '') (disassemble_rel8 log)
     else if opc = 0xd1 then cat (Text ''CMP  '') (disassemble_izpy log)
     else if opc = 0xd2 then cat (Text ''CMP  '') (disassemble_izpz log)
     else if opc = 0xd5 then cat (Text ''CMP  '') (disassemble_zpx log)
     else if opc = 0xd6 then cat (Text ''DEC  '') (disassemble_zpx log)
     else if opc = 0xd7 then cat (Text ''SMB5 '') (disassemble_zp log)
     else if opc = 0xd8 then Text ''CLD''
     else if opc = 0xd9 then cat (Text ''CMP  '') (disassemble_absy log)
     else if opc = 0xda then Text ''PHX''
     else if opc = 0xdb then Text ''PHZ''
     else if opc = 0xdd then cat (Text ''CMP  '') (disassemble_absx log)
     else if opc = 0xde then cat (Text ''DEC  '') (disassemble_absx log)
     else if opc = 0xdf then cat (Text ''BBS5 '') (disassemble_zp_rel8 log)
     else Text '''')"

definition dis_ex :: "u8 \<Rightarrow> instruction_log \<Rightarrow> printed" where
  "dis_ex opc log =
    (if opc = 0xe0 then cat (Text ''CPX  '') (disassemble_imm log)
     else if opc = 0xe1 then cat (Text ''SBC  '') (disassemble_izpx log)
     else if opc = 0xe4 then cat (Text ''CPX  '') (disassemble_zp log)
     else if opc = 0xe5 then cat (Text ''SBC  '') (disassemble_zp log)
     else if opc = 0xe6 then cat (Text ''INC  '') (disassemble_zp log)
     else if opc = 0xe7 then cat (Text ''SMB6 '') (disassemble_zp log)
     else if opc = 0xe8 then Text ''INX''
     else if opc = 0xe9 then cat (Text ''SBC  '') (disassemble_imm log)
     else if opc = 0xea then Text ''EOM''
     else if opc = 0xec then cat (Text ''CPX  '') (disassemble_abs log)
     else if opc = 0xed then cat (Text ''SBC  '') (disassemble_abs log)
     else if opc = 0xee then cat (Text ''INC  '') (disassemble_abs log)
     else if opc = 0xef then cat (Text ''BBS6 '') (disassemble_zp_rel8 log)
     else Text '''')"

definition dis_fx :: "(instruction_log \<Rightarrow> printed) \<Rightarrow> machine \<Rightarrow> u8 \<Rightarrow> instruction_log \<Rightarrow> printed" where
  "dis_fx d m opc log =
    (if opc = 0xf0 then cat (Text ''BEQ  '') (disassemble_rel8 log)
     else if opc = 0xf1 then cat (Text ''SBC  '') (disassemble_izpy log)
     else if opc = 0xf2 then cat (Text ''SBC  '') (disassemble_izpz log)
     else if opc = 0xf3 then cat (Text ''BEQ  '') (disassemble_rel16 log)
     else if opc = 0xf5 then cat (Text ''SBC  '') (disassemble_zpx log)
     else if opc = 0xf6 then cat (Text ''INC  '') (disassemble_zpx log)
     else if opc = 0xf7 then cat (Text ''SMB7 '') (disassemble_zp log)
     else if opc = 0xf8 then Text ''SED''
     else if opc = 0xf9 then cat (Text ''SBC  '') (disassemble_absy log)
     else if opc = 0xfa then cat (Text ''PLX'') (disassemble_stack_source d m log)
     else if opc = 0xfb then cat (Text ''PLZ'') (disassemble_stack_source d m log)
     else if opc = 0xfd then cat (Text ''SBC  '') (disassemble_absx log)
     else if opc = 0xfe then cat (Text ''INC  '') (disassemble_absx log)
     else if opc = 0xff then cat (Text ''BBS7 '') (disassemble_zp_rel8 log)
     else Text '''')"

definition disassemble_switch ::
  "(instruction_log \<Rightarrow> printed) \<Rightarrow> machine \<Rightarrow> instruction_log \<Rightarrow> printed" where
  "disassemble_switch d m log =
    (let opc = arg log 0
     in if opc < 0x10 then dis_0x opc log
     else if opc < 0x20 then dis_1x opc log
     else if opc < 0x30 then dis_2x d m opc log
     else if opc < 0x40 then dis_3x opc log
     else if opc < 0x50 then dis_4x opc log
     else if opc < 0x60 then dis_5x opc log
     else if opc < 0x70 then dis_6x d m opc log
     else if opc < 0x80 then dis_7x d m opc log
     else if opc < 0x90 then dis_8x opc log
     else if opc < 0xa0 then dis_9x opc log
     else if opc < 0xb0 then dis_ax opc log
     else if opc < 0xc0 then dis_bx opc log
     else if opc < 0xd0 then dis_cx opc log
     else if opc < 0xe0 then dis_dx opc log
     else if opc < 0xf0 then dis_ex opc log
     else dis_fx d m opc log)"

primrec disassemble_instruction :: "nat \<Rightarrow> machine \<Rightarrow> instruction_log \<Rightarrow> printed" where
  "disassemble_instruction 0 m log = Deep"
| "disassemble_instruction (Suc n) m log =
    (if l_len log = 0 then Text '''' else disassemble_switch (disassemble_instruction n m) m log)"

section \<open>The instruction history\<close>

definition flag_letters :: "u8 \<Rightarrow> string" where
  "flag_letters f =
    [if f AND FLAG_N \<noteq> 0 then CHR ''N'' else CHR ''.'', if f AND FLAG_V \<noteq> 0 then CHR ''V'' else CHR ''.'',
     if f AND FLAG_E \<noteq> 0 then CHR ''E'' else CHR ''.'', if f AND 0x10 \<noteq> 0 then CHR ''B'' else CHR ''.'',
     if f AND FLAG_D \<noteq> 0 then CHR ''D'' else CHR ''.'', if f AND FLAG_I \<noteq> 0 then CHR ''I'' else CHR ''.'',
     if f AND FLAG_Z \<noteq> 0 then CHR ''Z'' else CHR ''.'', if f AND FLAG_C \<noteq> 0 then CHR ''C'' else CHR ''.'']"

definition newline :: string where "newline = [char_of (10::nat)]"

text \<open>The line of one entry up to its label, and the bytes of the instruction.\<close>

definition entry_prefix :: "machine \<Rightarrow> nat \<Rightarrow> instruction_log \<Rightarrow> string" where
  "entry_prefix m i l =
    (if int (cpulog_len m) - int i - 1 \<noteq> 0 then ''I'' @ pad_right 7 (fmt_d (int i)) @ '' ''
     else ''     >>> '') @
    (if l_count l > 1 then
       ''$'' @ fmt_X 4 (l_pc l) @ '' x'' @ pad_right 6 (fmt_d (sint (l_count l))) @ '' : ''
     else ''$'' @ fmt_X 4 (l_pc l) @ ''         : '') @
    ''A:'' @ fmt_X 2 (reg_a (l_regs l)) @ '' '' @
    ''X:'' @ fmt_X 2 (reg_x (l_regs l)) @ '' '' @
    ''Y:'' @ fmt_X 2 (reg_y (l_regs l)) @ '' '' @
    ''Z:'' @ fmt_X 2 (reg_z (l_regs l)) @ '' '' @
    ''SP:'' @ fmt_X 2 (hi8 (reg_sp (l_regs l))) @ fmt_X 2 (lo8 (reg_sp (l_regs l))) @ '' '' @
    ''B:'' @ fmt_X 2 (reg_b (l_regs l)) @ '' '' @
    ''M:'' @ fmt_x 4 (maplo (l_regs l)) @ ''+'' @ fmt_x 2 (maplomb (l_regs l)) @ ''/'' @
      fmt_x 4 (maphi (l_regs l)) @ ''+'' @ fmt_x 2 (maphimb (l_regs l)) @ '' '' @
    flag_letters (reg_flags (l_regs l)) @ '' '' @ '' : ''"

definition entry_bytes :: "instruction_log \<Rightarrow> string" where
  "entry_bytes l = concat (map (\<lambda>j. if j < unat (l_len l) then fmt_X 2 (arg l j) @ '' '' else ''   '') [0..<3])"

fun pad_text :: "nat \<Rightarrow> printed \<Rightarrow> printed" where
  "pad_text w (Text s) = Text (pad_left CHR '' '' w s)"
| "pad_text w t = t"

definition show_entry :: "nat \<Rightarrow> nat \<Rightarrow> instruction_log \<Rightarrow> printed prog" where
  "show_entry fu i l = do {
     a \<leftarrow> addr_to_28bit (reg_pc (l_regs l)) False;
     m \<leftarrow> gets id;
     return (cat (Text (entry_prefix m i l))
       (cat (pad_text 32 (describe_address_label28 m a))
       (cat (Text ('' : '' @ entry_bytes l @ '' : ''))
       (cat (disassemble_instruction fu m l) (Text newline)))))
   }"

text \<open>
  The loop, over the indices that are left; \<open>dup\<close> is \<open>last_was_dup\<close>. \<open>C\<close>'s \<open>int\<close> arithmetic
  on the bounds is taken not to overflow.
\<close>

fun show_entries :: "nat \<Rightarrow> int \<Rightarrow> bool \<Rightarrow> nat list \<Rightarrow> printed prog" where
  "show_entries fu first dup [] = return (Text '''')"
| "show_entries fu first dup (i # is) =
    (if i = 0 then do {
       t \<leftarrow> show_entries fu first dup is;
       return (cat (Text (''I0        -- Machine reset --'' @ newline)) t)
     } else do {
       m \<leftarrow> gets id;
       (case log_entry m i of
          Inl e \<Rightarrow> return (Crash e)
        | Inr l \<Rightarrow>
            if l_dup l \<noteq> 0 \<and> int i > first then do {
              t \<leftarrow> show_entries fu first True is;
              return (cat (Text (if \<not> dup
                then ''                 ... duplicated instructions omitted ...'' @ newline else '''')) t)
            } else do {
              s \<leftarrow> show_entry fu i l;
              t \<leftarrow> show_entries fu first False is;
              return (cat s t)
            })
     })"

definition show_recent_instructions :: "nat \<Rightarrow> string \<Rightarrow> int \<Rightarrow> int \<Rightarrow> printed prog" where
  "show_recent_instructions fu title first_instruction count = do {
     let head = Text (''INFO: '' @ title @ newline);
     if first_instruction = 0 then
       return (cat head (Text ('' --- No relevant instruction history available (location not written?) ---'' @ newline)))
     else do {
       let count = (if first_instruction < 0 then count - (- first_instruction) else count);
       let first = (if first_instruction < 0 then 0 else first_instruction);
       n \<leftarrow> gets cpulog_len;
       t \<leftarrow> show_entries fu first False (take (nat count) [nat first..<n]);
       return (cat head t)
     }
   }"

end
