(* ===== verification/ListingLaws.thy ===== *)
theory ListingLaws
  imports Listing Opcodes
begin

text \<open>
  What the listings show: which opcodes have one, that the operand bytes can be read back,
  when following the instructions that wrote an operand comes to an end, and which symbol
  describes an address.
\<close>

section \<open>Texts\<close>

lemma cat_Text_nonempty [simp]: "cat (Text (c # s)) t \<noteq> Text ''''"
  by (cases t) simp_all

lemma cat_Deep [simp]: "cat (Text s) Deep = Deep" "cat Deep t = Deep" "cat (Crash f) t = Crash f"
  by simp_all

lemma cat_not_Deep: "cat s t = Deep \<longleftrightarrow> s = Deep \<or> (t = Deep \<and> (\<exists>u. s = Text u))"
  by (cases s; cases t) auto

section \<open>Which opcodes are listed\<close>

lemmas listing_special = disassemble_rts_def Let_def

lemma listed_0:
  assumes "0x00 \<le> unat opc" and "unat opc < 0x00 + 16"
  shows "dis_0x opc log = Text '''' \<longleftrightarrow> opc \<in> set undecoded"
  using byte_in_row [OF assms]
  by (simp, elim disjE; simp add: undecoded_def dis_0x_def listing_special)

lemma listed_1:
  assumes "0x10 \<le> unat opc" and "unat opc < 0x10 + 16"
  shows "dis_1x opc log = Text '''' \<longleftrightarrow> opc \<in> set undecoded"
  using byte_in_row [OF assms]
  by (simp, elim disjE; simp add: undecoded_def dis_1x_def listing_special)

lemma listed_2:
  assumes "0x20 \<le> unat opc" and "unat opc < 0x20 + 16"
  shows "dis_2x d m opc log = Text '''' \<longleftrightarrow> opc \<in> set undecoded"
  using byte_in_row [OF assms]
  by (simp, elim disjE; simp add: undecoded_def dis_2x_def listing_special)

lemma listed_3:
  assumes "0x30 \<le> unat opc" and "unat opc < 0x30 + 16"
  shows "dis_3x opc log = Text '''' \<longleftrightarrow> opc \<in> set undecoded"
  using byte_in_row [OF assms]
  by (simp, elim disjE; simp add: undecoded_def dis_3x_def listing_special)

lemma listed_4:
  assumes "0x40 \<le> unat opc" and "unat opc < 0x40 + 16"
  shows "dis_4x opc log = Text '''' \<longleftrightarrow> opc \<in> set undecoded"
  using byte_in_row [OF assms]
  by (simp, elim disjE; simp add: undecoded_def dis_4x_def listing_special)

lemma listed_5:
  assumes "0x50 \<le> unat opc" and "unat opc < 0x50 + 16"
  shows "dis_5x opc log = Text '''' \<longleftrightarrow> opc \<in> set undecoded"
  using byte_in_row [OF assms]
  by (simp, elim disjE; simp add: undecoded_def dis_5x_def listing_special)

lemma listed_6:
  assumes "0x60 \<le> unat opc" and "unat opc < 0x60 + 16"
  shows "dis_6x d m opc log = Text '''' \<longleftrightarrow> opc \<in> set undecoded"
  using byte_in_row [OF assms]
  by (simp, elim disjE; simp add: undecoded_def dis_6x_def listing_special)

lemma listed_7:
  assumes "0x70 \<le> unat opc" and "unat opc < 0x70 + 16"
  shows "dis_7x d m opc log = Text '''' \<longleftrightarrow> opc \<in> set undecoded"
  using byte_in_row [OF assms]
  by (simp, elim disjE; simp add: undecoded_def dis_7x_def listing_special)

lemma listed_8:
  assumes "0x80 \<le> unat opc" and "unat opc < 0x80 + 16"
  shows "dis_8x opc log = Text '''' \<longleftrightarrow> opc \<in> set undecoded"
  using byte_in_row [OF assms]
  by (simp, elim disjE; simp add: undecoded_def dis_8x_def listing_special)

lemma listed_9:
  assumes "0x90 \<le> unat opc" and "unat opc < 0x90 + 16"
  shows "dis_9x opc log = Text '''' \<longleftrightarrow> opc \<in> set undecoded"
  using byte_in_row [OF assms]
  by (simp, elim disjE; simp add: undecoded_def dis_9x_def listing_special)

lemma listed_a:
  assumes "0xa0 \<le> unat opc" and "unat opc < 0xa0 + 16"
  shows "dis_ax opc log = Text '''' \<longleftrightarrow> opc \<in> set undecoded"
  using byte_in_row [OF assms]
  by (simp, elim disjE; simp add: undecoded_def dis_ax_def listing_special)

lemma listed_b:
  assumes "0xb0 \<le> unat opc" and "unat opc < 0xb0 + 16"
  shows "dis_bx opc log = Text '''' \<longleftrightarrow> opc \<in> set undecoded"
  using byte_in_row [OF assms]
  by (simp, elim disjE; simp add: undecoded_def dis_bx_def listing_special)

lemma listed_c:
  assumes "0xc0 \<le> unat opc" and "unat opc < 0xc0 + 16"
  shows "dis_cx opc log = Text '''' \<longleftrightarrow> opc \<in> set undecoded"
  using byte_in_row [OF assms]
  by (simp, elim disjE; simp add: undecoded_def dis_cx_def listing_special)

lemma listed_d:
  assumes "0xd0 \<le> unat opc" and "unat opc < 0xd0 + 16"
  shows "dis_dx opc log = Text '''' \<longleftrightarrow> opc \<in> set undecoded"
  using byte_in_row [OF assms]
  by (simp, elim disjE; simp add: undecoded_def dis_dx_def listing_special)

lemma listed_e:
  assumes "0xe0 \<le> unat opc" and "unat opc < 0xe0 + 16"
  shows "dis_ex opc log = Text '''' \<longleftrightarrow> opc \<in> set undecoded"
  using byte_in_row [OF assms]
  by (simp, elim disjE; simp add: undecoded_def dis_ex_def listing_special)

lemma listed_f:
  assumes "0xf0 \<le> unat opc" and "unat opc < 0xf0 + 16"
  shows "dis_fx d m opc log = Text '''' \<longleftrightarrow> opc \<in> set undecoded"
  using byte_in_row [OF assms]
  by (simp, elim disjE; simp add: undecoded_def dis_fx_def listing_special)

lemma listed_if:
  "(c \<Longrightarrow> p = Text '''' \<longleftrightarrow> b) \<Longrightarrow> (\<not> c \<Longrightarrow> q = Text '''' \<longleftrightarrow> b) \<Longrightarrow>
    (if c then p else q) = Text '''' \<longleftrightarrow> b"
  by simp

lemma listed_switch: "disassemble_switch d m log = Text '''' \<longleftrightarrow> arg log 0 \<in> set undecoded"
proof -
  note l = word_less_nat_alt word_le_nat_alt not_less
  have top: "unat (arg log 0) < 256" by (rule unat_u8_less)
  show ?thesis
    unfolding disassemble_switch_def Let_def
    by (intro listed_if;
        rule listed_0 listed_1 listed_2 listed_3 listed_4 listed_5 listed_6 listed_7
          listed_8 listed_9 listed_a listed_b listed_c listed_d listed_e listed_f;
        use top in \<open>simp add: l\<close>)
qed

section \<open>Following the writers of an operand\<close>

text \<open>An entry whose first popped byte was written by itself, as far as the stale records say.\<close>

lemma pop_source_self:
  assumes "log_entry m (unat w) = Inr l" and "w \<noteq> 0" and "d l = Deep"
  shows "pop_source d m w = Deep"
  using assms by (simp add: pop_source_def with_entry_def)

lemma rts_deep:
  assumes "pop_source d m (l_pop_blame l ! 0) = Deep"
  shows "disassemble_rts d m l = Deep"
  using assms by (cases "l_pop_blame l ! 0 = l_pop_blame l ! 1") (simp_all add: disassemble_rts_def Let_def)

lemma switch_pops:
  assumes "arg l 0 \<in> {0x28, 0x60, 0x68, 0x7a, 0xfa, 0xfb}" and "pop_source d m (l_pop_blame l ! 0) = Deep"
  shows "disassemble_switch d m l = Deep"
  using assms
  by (simp, elim disjE;
      simp add: disassemble_switch_def dis_2x_def dis_6x_def dis_7x_def dis_fx_def
        disassemble_stack_source_def rts_deep Let_def)

lemma switch_jumps:
  assumes "arg l 0 = 0x22 \<or> arg l 0 = 0x6c" and "disassemble_iabs d m l = Deep"
  shows "disassemble_switch d m l = Deep"
  using assms by (elim disjE; simp add: disassemble_switch_def dis_2x_def dis_6x_def Let_def)

lemma self_blamed_deep:
  assumes "log_entry m (unat (l_pop_blame l ! 0)) = Inr l" and "l_pop_blame l ! 0 \<noteq> 0"
    and "l_len l \<noteq> 0" and "arg l 0 \<in> {0x28, 0x60, 0x68, 0x7a, 0xfa, 0xfb}"
  shows "disassemble_instruction n m l = Deep"
proof (induction n)
  case (Suc n)
  then show ?case using assms by (simp add: switch_pops pop_source_self)
qed simp

text \<open>
  The entries that the disassembler may follow from an entry: the writer of the byte that was popped
  (for \<open>RTS\<close> of both bytes), and the writers of the pointer of an indirect jump or call; and the one
  of them that it follows first.
\<close>

definition pops_listed :: "u8 set" where
  "pops_listed = {0x28, 0x60, 0x68, 0x7a, 0xfa, 0xfb}"

definition followed :: "machine \<Rightarrow> instruction_log \<Rightarrow> nat set" where
  "followed m l = {unat w | w. w \<noteq> 0 \<and> l_len l \<noteq> 0 \<and>
     (arg l 0 \<in> pops_listed \<and> w = l_pop_blame l ! 0 \<or> arg l 0 = 0x60 \<and> w = l_pop_blame l ! 1 \<or>
      arg l 0 \<in> {0x22, 0x6c} \<and>
        (fake_blame m l (l_zp_pointer l) = Inr w \<or> fake_blame m l (l_zp_pointer l + 1) = Inr w))}"

definition first_followed :: "machine \<Rightarrow> instruction_log \<Rightarrow> nat option" where
  "first_followed m l =
    (if l_len l = 0 then None
     else if arg l 0 \<in> pops_listed then
       (if l_pop_blame l ! 0 \<noteq> 0 then Some (unat (l_pop_blame l ! 0)) else None)
     else if arg l 0 \<in> {0x22, 0x6c} then
       (case fake_blame m l (l_zp_pointer l) of Inl e \<Rightarrow> None | Inr w \<Rightarrow> if w \<noteq> 0 then Some (unat w) else None)
     else None)"

lemma not_deep_if: "(c \<Longrightarrow> p \<noteq> Deep) \<Longrightarrow> (\<not> c \<Longrightarrow> q \<noteq> Deep) \<Longrightarrow> (if c then p else q) \<noteq> Deep"
  by simp

lemmas operand_texts =
  disassemble_rel8_def disassemble_rel16_def disassemble_imm_def disassemble_abs_def disassemble_iabsx_def
  disassemble_absx_def disassemble_absy_def disassemble_zp_def disassemble_zpx_def disassemble_zpy_def
  disassemble_izpy_def disassemble_izpx_def disassemble_zp_rel8_def disassemble_izpz_def disassemble_izpz32_def

lemma plain_rows_not_deep:
  "dis_0x opc l \<noteq> Deep" "dis_1x opc l \<noteq> Deep" "dis_3x opc l \<noteq> Deep" "dis_4x opc l \<noteq> Deep"
  "dis_5x opc l \<noteq> Deep" "dis_8x opc l \<noteq> Deep" "dis_9x opc l \<noteq> Deep" "dis_ax opc l \<noteq> Deep"
  "dis_bx opc l \<noteq> Deep" "dis_cx opc l \<noteq> Deep" "dis_dx opc l \<noteq> Deep" "dis_ex opc l \<noteq> Deep"
  unfolding dis_0x_def dis_1x_def dis_3x_def dis_4x_def dis_5x_def dis_8x_def dis_9x_def dis_ax_def
    dis_bx_def dis_cx_def dis_dx_def dis_ex_def
  by (intro not_deep_if; simp add: operand_texts)+

lemma following_rows_not_deep:
  assumes "opc \<in> {0x22, 0x6c} \<Longrightarrow> disassemble_iabs d m l \<noteq> Deep"
    and "opc \<in> pops_listed - {0x60} \<Longrightarrow> disassemble_stack_source d m l \<noteq> Deep"
    and "opc = 0x60 \<Longrightarrow> disassemble_rts d m l \<noteq> Deep"
  shows "dis_2x d m opc l \<noteq> Deep" "dis_6x d m opc l \<noteq> Deep" "dis_7x d m opc l \<noteq> Deep" "dis_fx d m opc l \<noteq> Deep"
  unfolding dis_2x_def dis_6x_def dis_7x_def dis_fx_def
  by (intro not_deep_if; use assms in \<open>simp add: operand_texts cat_not_Deep pops_listed_def\<close>)+

lemma switch_not_deep:
  assumes d: "\<And>j l'. j \<in> followed m l \<Longrightarrow> log_entry m j = Inr l' \<Longrightarrow> d l' \<noteq> Deep" and "l_len l \<noteq> 0"
  shows "disassemble_switch d m l \<noteq> Deep"
proof -
  have f: "with_entry m w f \<noteq> Deep" if "unat w \<in> followed m l" "\<And>l'. d l' \<noteq> Deep \<Longrightarrow> f l' \<noteq> Deep" for w f
    using d [OF that(1)] that(2) by (auto simp: with_entry_def split: sum.split)
  have pop: "pop_source d m w \<noteq> Deep" if "w \<noteq> 0 \<Longrightarrow> unat w \<in> followed m l" for w
  proof (cases "w = 0")
    case False
    then have "with_entry m w (\<lambda>l. cat (Text (''$'' @ fmt_X 4 (l_pc l) @ '' '')) (d l)) \<noteq> Deep"
      by (intro f) (simp_all add: cat_not_Deep that)
    then show ?thesis using False by (simp add: pop_source_def)
  qed (simp add: pop_source_def)
  have ptr: "pointer_source d m l a \<noteq> Deep"
    if "a = l_zp_pointer l \<or> a = l_zp_pointer l + 1" "arg l 0 \<in> {0x22, 0x6c}" for a
  proof (cases "fake_blame m l a")
    case (Inr w)
    then have "unat w \<in> followed m l" if "w \<noteq> 0"
      using that \<open>a = _ \<or> _\<close> \<open>arg l 0 \<in> _\<close> assms(2) by (auto simp: followed_def)
    then show ?thesis using Inr f [of w d] by (auto simp: pointer_source_def cat_not_Deep)
  qed (simp add: pointer_source_def)
  have p0: "pop_source d m (l_pop_blame l ! 0) \<noteq> Deep" if "arg l 0 \<in> pops_listed"
    by (rule pop) (use that assms(2) in \<open>auto simp: followed_def\<close>)
  have p1: "pop_source d m (l_pop_blame l ! Suc 0) \<noteq> Deep" if "arg l 0 = 0x60"
    by (rule pop) (use that assms(2) in \<open>auto simp: followed_def\<close>)
  have special: "arg l 0 \<in> {0x22, 0x6c} \<Longrightarrow> disassemble_iabs d m l \<noteq> Deep"
    "arg l 0 \<in> pops_listed - {0x60} \<Longrightarrow> disassemble_stack_source d m l \<noteq> Deep"
    "arg l 0 = 0x60 \<Longrightarrow> disassemble_rts d m l \<noteq> Deep"
    using p0 p1
    by (auto simp: disassemble_iabs_def disassemble_stack_source_def disassemble_rts_def Let_def
        cat_not_Deep ptr pops_listed_def)
  show ?thesis
    unfolding disassemble_switch_def Let_def
    by (intro not_deep_if plain_rows_not_deep following_rows_not_deep special) simp_all
qed

lemma deep_follows:
  assumes "disassemble_instruction (Suc n) m l = Deep"
  shows "\<exists>j \<in> followed m l. \<exists>l'. log_entry m j = Inr l' \<and> disassemble_instruction n m l' = Deep"
proof -
  from assms have "l_len l \<noteq> 0" "disassemble_switch (disassemble_instruction n m) m l = Deep"
    by (auto split: if_splits)
  with switch_not_deep [of m l "disassemble_instruction n m"] show ?thesis by blast
qed

text \<open>A chain of \<open>n\<close> recorded writers.\<close>

definition writer_chain :: "machine \<Rightarrow> (nat \<Rightarrow> instruction_log) \<Rightarrow> nat \<Rightarrow> bool" where
  "writer_chain m f n \<longleftrightarrow> (\<forall>k<n. \<exists>j \<in> followed m (f k). log_entry m j = Inr (f (Suc k)))"

lemma deep_chain: "disassemble_instruction n m l = Deep \<Longrightarrow> \<exists>f. f 0 = l \<and> writer_chain m f n"
proof (induction n arbitrary: l)
  case 0
  show ?case by (rule exI [of _ "\<lambda>_. l"]) (simp add: writer_chain_def)
next
  case (Suc n)
  from deep_follows [OF Suc.prems] obtain j l' f
    where j: "j \<in> followed m l" "log_entry m j = Inr l'" and f: "f 0 = l'" "writer_chain m f n"
    using Suc.IH by blast
  have "writer_chain m (case_nat l f) (Suc n)"
    using j f by (auto simp: writer_chain_def less_Suc_eq_0_disj simp del: disassemble_instruction.simps)
  then show ?case by (intro exI [of _ "case_nat l f"]) simp
qed

text \<open>The first writer decides, if following it does not come to an end.\<close>

lemma first_followed_deep:
  assumes "first_followed m l = Some j" and "log_entry m j = Inr l'" and "disassemble_instruction n m l' = Deep"
  shows "disassemble_instruction (Suc n) m l = Deep"
proof -
  from assms(1) have len: "l_len l \<noteq> 0" by (simp add: first_followed_def split: if_splits)
  show ?thesis
  proof (cases "arg l 0 \<in> pops_listed")
    case True
    with assms have "pop_source (disassemble_instruction n m) m (l_pop_blame l ! 0) = Deep"
      by (auto simp: first_followed_def pop_source_def with_entry_def split: if_splits)
    with True len show ?thesis by (simp add: switch_pops pops_listed_def)
  next
    case False
    with assms(1) have opc: "arg l 0 = 0x22 \<or> arg l 0 = 0x6c" by (auto simp: first_followed_def split: if_splits)
    from False assms(1) obtain w where "fake_blame m l (l_zp_pointer l) = Inr w" "w \<noteq> 0" "j = unat w"
      by (auto simp: first_followed_def split: if_splits sum.splits)
    with assms(2,3) have "pointer_source (disassemble_instruction n m) m l (l_zp_pointer l) = Deep"
      by (simp add: pointer_source_def with_entry_def)
    then have "disassemble_iabs (disassemble_instruction n m) m l = Deep" by (simp add: disassemble_iabs_def)
    with opc have "disassemble_switch (disassemble_instruction n m) m l = Deep" by (rule switch_jumps)
    with len show ?thesis by simp
  qed
qed

text \<open>If every writer came before the instruction that used its byte, \<open>i + 1\<close> nested calls are enough for entry \<open>i\<close>.\<close>

lemma disassembly_ends:
  assumes "\<And>i l j. log_entry m i = Inr l \<Longrightarrow> j \<in> followed m l \<Longrightarrow> j < i"
    and "log_entry m i = Inr l" and "i < n"
  shows "disassemble_instruction n m l \<noteq> Deep"
  using assms(2,3)
proof (induction n arbitrary: i l)
  case (Suc n)
  have "disassemble_instruction n m l' \<noteq> Deep" if "j \<in> followed m l" "log_entry m j = Inr l'" for j l'
    using Suc.IH [OF that(2)] assms(1) [OF Suc.prems(1) that(1)] Suc.prems(2) by simp
  then show ?case using deep_follows [of n m l] by blast
qed simp

section \<open>Symbols\<close>

lemma describe_loop_exact:
  assumes "\<And>t. s = Some t \<Longrightarrow> sym_addr t = a"
  shows "describe_loop a hs s
    = (case find (\<lambda>h. sym_addr h = a) (rev hs) of None \<Rightarrow> s | Some t \<Rightarrow> Some t)"
proof -
  have app: "find P (xs @ ys) = (case find P xs of None \<Rightarrow> find P ys | Some x \<Rightarrow> Some x)" for P and xs ys :: "hyppo_symbol list"
    by (induction xs) auto
  show ?thesis
    using assms
  proof (induction hs arbitrary: s)
    case (Cons h hs)
    have "(case s of Some t \<Rightarrow> if sym_addr t < sym_addr h \<and> a > sym_addr h then Some h else s | None \<Rightarrow> s) = s"
      using Cons.prems by (auto split: option.split)
    then show ?case
      using Cons.IH [of s] Cons.IH [of "Some h"] Cons.prems by (auto simp: Let_def app split: option.split)
  qed simp
qed

text \<open>What the loop for a label keeps of the symbols it has passed.\<close>

definition best_below :: "u32 \<Rightarrow> hyppo_symbol list \<Rightarrow> hyppo_symbol option \<Rightarrow> bool" where
  "best_below a ss r \<longleftrightarrow>
    (r = None \<longrightarrow> (\<forall>s \<in> set ss. \<not> sym_addr s < a)) \<and>
    (\<forall>t. r = Some t \<longrightarrow> t \<in> set ss \<and> sym_addr t < a \<and>
       (\<forall>s \<in> set ss. sym_addr s < a \<longrightarrow> sym_addr s \<le> sym_addr t))"

lemma label_loop_exact:
  "snd (label_loop a ss r) \<longleftrightarrow> (\<exists>s \<in> set ss. sym_addr s = a)"
  "\<exists>s \<in> set ss. sym_addr s = a \<Longrightarrow> fst (label_loop a ss r) = find (\<lambda>s. sym_addr s = a) ss"
  by (induction ss arbitrary: r) (auto simp: Let_def)

lemma label_loop_best:
  assumes "best_below a ps r" and "\<forall>s \<in> set ss. sym_addr s \<noteq> a"
  shows "best_below a (ps @ ss) (fst (label_loop a ss r))"
  using assms
proof (induction ss arbitrary: ps r)
  case (Cons s ss)
  let ?r1 = "case r of Some t \<Rightarrow> if sym_addr t < sym_addr s \<and> a > sym_addr s then Some s else r | None \<Rightarrow> r"
  let ?r2 = "if ?r1 = None \<and> a > sym_addr s then Some s else ?r1"
  have "best_below a (ps @ [s]) ?r2"
    using Cons.prems(1)
    by (auto simp: best_below_def split: option.splits) (meson less_imp_le order.trans)
  from Cons.IH [OF this] Cons.prems(2) show ?case by (auto simp: Let_def)
qed simp

section \<open>Numbers\<close>

definition hex_digit :: "char \<Rightarrow> nat" where
  "hex_digit c = (let n = of_char c in if n < 65 then n - 48 else n - 55)"

definition hex_value :: "string \<Rightarrow> nat" where
  "hex_value s = foldl (\<lambda>v c. 16 * v + hex_digit c) 0 s"

lemma digits_less: "d \<in> set (digits 16 n) \<Longrightarrow> d < 16"
  by (induction "16::nat" n rule: digits.induct) (subst (asm) digits.simps, auto split: if_splits)

lemma foldl_digits: "foldl (\<lambda>v d. 16 * v + d) 0 (digits 16 n) = n"
proof (induction "16::nat" n rule: digits.induct)
  case (1 n)
  show ?case
  proof (cases "n < 16")
    case False
    then show ?thesis using 1 by (subst digits.simps) simp
  qed (subst digits.simps, simp)
qed

lemma hex_digit_char: "d < 16 \<Longrightarrow> hex_digit (digit_char 65 d) = d"
proof -
  assume "d < 16"
  then have "d \<in> {0, 1, 2, 3, 4, 5, 6, 7, 8, 9, 10, 11, 12, 13, 14, 15}"
    unfolding insert_iff empty_iff by presburger
  then show ?thesis by (auto simp: hex_digit_def digit_char_def)
qed

lemma hex_value_digits: "hex_value (map (digit_char 65) (digits 16 n)) = n"
proof -
  have "foldl (\<lambda>v c. 16 * v + hex_digit c) k (map (digit_char 65) ds) = foldl (\<lambda>v d. 16 * v + d) k ds"
    if "\<forall>d \<in> set ds. d < 16" for k ds
    using that by (induction ds arbitrary: k) (simp_all add: hex_digit_char)
  then show ?thesis using digits_less foldl_digits by (simp add: hex_value_def)
qed

lemma hex_value_fmt: "hex_value (fmt_X w v) = unat v"
proof -
  have "foldl (\<lambda>v c. 16 * v + hex_digit c) 0 (replicate k CHR ''0'') = 0" for k
    by (induction k) (simp_all add: hex_digit_def)
  then show ?thesis
    using hex_value_digits [of "unat v"] by (simp add: fmt_X_def pad_left_def hex_value_def)
qed

lemma length_fmt_byte: "length (fmt_X 2 (b :: u8)) = 2"
proof -
  have "length (digits 16 n) = (if n < 16 then 1 else 2)" if "n < 256" for n
  proof -
    have "n div 16 < 16" using that by linarith
    then show ?thesis by (simp add: digits.simps [of 16 n] digits.simps [of 16 "n div 16"])
  qed
  then show ?thesis using unat_u8_less [of b] by (simp add: fmt_X_def pad_left_def)
qed

lemma hex_value_append: "hex_value (s @ t) = hex_value s * 16 ^ length t + hex_value t"
proof -
  let ?f = "\<lambda>v c. 16 * v + hex_digit c"
  have "foldl ?f k t = k * 16 ^ length t + foldl ?f 0 t" for k
  proof (induction t arbitrary: k)
    case (Cons c t)
    have "foldl ?f k (c # t) = (16 * k + hex_digit c) * 16 ^ length t + foldl ?f 0 t"
      unfolding foldl_Cons by (rule Cons.IH)
    moreover have "foldl ?f 0 (c # t) = hex_digit c * 16 ^ length t + foldl ?f 0 t"
      unfolding foldl_Cons mult_0_right add_0 by (rule Cons.IH)
    ultimately show ?case by (simp add: distrib_right)
  qed simp
  from this [of "foldl ?f 0 s"] show ?thesis unfolding hex_value_def foldl_append .
qed

text \<open>For the examples: a return that is its own writer.\<close>

definition demo_return :: instruction_log where
  "demo_return = zero_log\<lparr>l_len := 1, l_bytes := [0x60, 0, 0, 0, 0, 0], l_pop_blame := [1, 0, 0, 0]\<rparr>"

section \<open>Properties\<close>

text \<open>
  C36: The disassembler and the interpreter know the same opcodes: an entry of the log that is not
  empty is listed as nothing at all exactly if \<open>execute_instruction\<close> fails in a state where the next
  opcode is that of the entry.
\<close>

theorem listed_iff_decoded:
  assumes "l_len l \<noteq> 0" and "next_opcode s = arg l 0"
  shows "disassemble_instruction (Suc n) m l = Text '''' \<longleftrightarrow> \<not> result_of (execute_instruction fu) s"
  using assms switch_ok [of fu "next_opcode s"]
  unfolding result_of_def execute_instruction_switch by (simp add: row_ok_def result_of_def listed_switch)

theorem listed_iff_decoded_witness:
  "disassemble_instruction 1 initial_machine (zero_log\<lparr>l_len := 1\<rparr>) \<noteq> Text '''' \<and>
   result_of (execute_instruction 0) initial_machine"
proof -
  have o: "next_opcode initial_machine = arg (zero_log\<lparr>l_len := 1\<rparr>) 0"
    by (simp add: next_opcode_low initial_defs arg_def)
  have "disassemble_instruction 1 initial_machine (zero_log\<lparr>l_len := 1\<rparr>) \<noteq> Text ''''"
    by (simp add: listed_switch arg_def zero_log_def undecoded_def)
  then show ?thesis using listed_iff_decoded [OF _ o, of 0 initial_machine 0] by simp
qed

text \<open>
  The two operand bytes can be read back from the listing of an absolute address.
\<close>

theorem listed_address_read_back:
  "\<exists>s. disassemble_abs l = Text (CHR ''$'' # s) \<and> length s = 4 \<and>
    hex_value s = 256 * unat (arg l 2) + unat (arg l 1)"
  by (rule exI [of _ "fmt_X 2 (arg l 2) @ fmt_X 2 (arg l 1)"])
     (simp add: disassemble_abs_def length_fmt_byte hex_value_append hex_value_fmt)

text \<open>
  C35: The disassembler follows the recorded writers of what an instruction popped or jumped through, and
  nothing else bounds its recursion. If \<open>n\<close> nested calls are not enough for an entry, there is a
  chain of \<open>n\<close> entries from it, each of them the recorded writer of an operand of the one before; and
  if the writers that are followed first never come to an end, as in a circle of any length, no number of
  calls is enough, so that the program does not return.
\<close>

theorem disassembly_depth:
  "(disassemble_instruction n m l = Deep \<longrightarrow> (\<exists>f. f 0 = l \<and> writer_chain m f n)) \<and>
   ((\<forall>k. \<exists>j. first_followed m (g k) = Some j \<and> log_entry m j = Inr (g (Suc k))) \<longrightarrow>
      (\<forall>n. disassemble_instruction n m (g 0) = Deep))"
proof (intro conjI impI allI)
  show "\<exists>f. f 0 = l \<and> writer_chain m f n" if "disassemble_instruction n m l = Deep"
    using that by (rule deep_chain)
next
  fix n
  assume "\<forall>k. \<exists>j. first_followed m (g k) = Some j \<and> log_entry m j = Inr (g (Suc k))"
  then have "disassemble_instruction n m (g k) = Deep" for k
  proof (induction n arbitrary: k)
    case (Suc n)
    from Suc.prems obtain j where "first_followed m (g k) = Some j" "log_entry m j = Inr (g (Suc k))" by blast
    from first_followed_deep [OF this Suc.IH [OF Suc.prems]] show ?case .
  qed simp
  then show "disassemble_instruction n m (g 0) = Deep" .
qed

theorem disassembly_depth_witness:
  "\<forall>n. disassemble_instruction n (initial_machine\<lparr>cpulog := [1 \<mapsto> 0], log_heap := [0 \<mapsto> demo_return]\<rparr>)
     demo_return = Deep"
proof -
  let ?m = "initial_machine\<lparr>cpulog := [1 \<mapsto> 0], log_heap := [0 \<mapsto> demo_return]\<rparr>"
  have "first_followed ?m demo_return = Some 1" "log_entry ?m 1 = Inr demo_return"
    by (simp_all add: first_followed_def pops_listed_def demo_return_def log_entry_def arg_def MAX_LOG_LENGTH_def)
  then show ?thesis using disassembly_depth [of 0 ?m demo_return "\<lambda>_. demo_return"] by blast
qed

text \<open>
  The shortest circle: an instruction that pops, and whose recorded writer is itself, is followed
  for ever. A new run starts the log again at one
  and keeps the old records of who wrote the stack.
\<close>

theorem disassembly_never_ends:
  assumes "log_entry m (unat (l_pop_blame l ! 0)) = Inr l" and "l_pop_blame l ! 0 \<noteq> 0"
    and "l_len l \<noteq> 0" and "arg l 0 \<in> {0x28, 0x60, 0x68, 0x7a, 0xfa, 0xfb}"
  shows "\<forall>n. disassemble_instruction n m l = Deep"
  using self_blamed_deep [OF assms] by blast

theorem disassembly_never_ends_witness:
  "\<forall>n. disassemble_instruction n (initial_machine\<lparr>cpulog := [1 \<mapsto> 0], log_heap := [0 \<mapsto> demo_return]\<rparr>)
     demo_return = Deep"
  by (rule disassembly_never_ends) (simp_all add: demo_return_def log_entry_def arg_def MAX_LOG_LENGTH_def)

text \<open>
  The label of an address is the first symbol at that address or, where there is none,
  one with the greatest address below it.
\<close>

theorem label_is_nearest:
  "(snd (label_loop a ss None) \<longleftrightarrow> (\<exists>s \<in> set ss. sym_addr s = a)) \<and>
   (if snd (label_loop a ss None) then fst (label_loop a ss None) = find (\<lambda>s. sym_addr s = a) ss
    else best_below a ss (fst (label_loop a ss None)))"
proof (cases "\<exists>s \<in> set ss. sym_addr s = a")
  case True
  then show ?thesis by (simp add: label_loop_exact)
next
  case False
  have "best_below a [] None" by (simp add: best_below_def)
  from label_loop_best [OF this] False show ?thesis by (simp add: label_loop_exact)
qed

text \<open>
  \<open>describe_address\<close> never names the symbol before an address: the last symbol at exactly
  that address is named, or none.
\<close>

theorem describe_address_exact_only:
  "describe_address m a = cut 8192
    (case find (\<lambda>s. sym_addr s = a) (rev (hyppo_symbols m)) of
       Some s \<Rightarrow> cat (Text (''$'' @ fmt_X 4 a @ '' (first instruction in '')) (cat (name_of m s) (Text '')''))
     | None \<Rightarrow> Text (''$'' @ fmt_X 4 a))"
proof -
  have "sym_addr s = a" if "find (\<lambda>s. sym_addr s = a) hs = Some s" for hs s
    using that by (induction hs) (auto split: if_splits)
  then show ?thesis
    using describe_loop_exact [of None a "hyppo_symbols m"]
    by (auto simp: describe_address_def split: option.split)
qed

end
