(* ===== verification/Rlepack.thy ===== *)
theory Rlepack
  imports Prelude
begin

text \<open>
  The tileset packer \<open>src/tools/pngprepare/rlepack.c\<close>: the dynamic programme over the offsets
  of the input, the walk back over the chosen tokens, the packed file, and the verification
  that unpacks it again.

  The input is the list of its bytes. \<open>raw_at\<close> reads the array \<open>raw\<close>, which is zero behind
  the input. The array \<open>dp_list\<close> is a function from offsets. The list of the ends that a loop
  visits is computed first, then the entries at these ends are updated in order: the loop
  conditions do not depend on the entries.
\<close>

definition MAX_RAW_SIZE :: nat where "MAX_RAW_SIZE = 128 * 1024"

definition raw_at :: "u8 list \<Rightarrow> nat \<Rightarrow> u8" where
  "raw_at raw i = (if i < length raw then raw ! i else 0)"

text \<open>An entry of the table; the pointer \<open>raw_region\<close> is the index that it points to.\<close>

record dp_item =
  code_byte :: u8
  code_byte2 :: u8
  raw_region :: nat
  cumulative_cost :: int
  parent :: int

definition dp_init :: "nat \<Rightarrow> dp_item" where
  "dp_init = (\<lambda>_. \<lparr>code_byte = 0, code_byte2 = 0, raw_region = 0, cumulative_cost = 999999999, parent = - 1\<rparr>)
     (0 := \<lparr>code_byte = 0, code_byte2 = 0, raw_region = 0, cumulative_cost = 0, parent = - 1\<rparr>)"

section \<open>The table\<close>

text \<open>\<open>if (this_cost + cumulative_cost < dp_list[end].cumulative_cost) ...\<close>\<close>

definition try_token :: "nat \<Rightarrow> int \<Rightarrow> (nat \<Rightarrow> int) \<Rightarrow> (nat \<Rightarrow> dp_item \<Rightarrow> dp_item) \<Rightarrow> nat \<Rightarrow>
    (nat \<Rightarrow> dp_item) \<Rightarrow> nat \<Rightarrow> dp_item" where
  "try_token start base this_cost code e dp =
    (if this_cost e + base < cumulative_cost (dp e)
     then dp(e := (code e (dp e))\<lparr>cumulative_cost := this_cost e + base, raw_region := start, parent := int start\<rparr>)
     else dp)"

function raw_ends :: "u8 list \<Rightarrow> nat \<Rightarrow> nat \<Rightarrow> nat list" where
  "raw_ends raw start e =
    (if e \<le> length raw \<and> e - start < 128 then e # raw_ends raw start (e + 1) else [])"
  by pat_completeness auto
termination by (relation "measure (\<lambda>(raw, start, e). length raw + 1 - e)") auto

function rle_ends :: "u8 list \<Rightarrow> nat \<Rightarrow> nat \<Rightarrow> nat list" where
  "rle_ends raw start e =
    (if raw_at raw (e - 1) = raw_at raw start \<and> e \<le> length raw \<and> e - start < 128
     then e # rle_ends raw start (e + 1) else [])"
  by pat_completeness auto
termination by (relation "measure (\<lambda>(raw, start, e). length raw + 1 - e)") auto

function pair_ends :: "u8 list \<Rightarrow> nat \<Rightarrow> nat \<Rightarrow> nat list" where
  "pair_ends raw start e =
    (if raw_at raw (e - 2) = raw_at raw start \<and> raw_at raw (e - 1) = raw_at raw (start + 1)
        \<and> e \<le> length raw \<and> e - start < 512
     then e # pair_ends raw start (e + 2) else [])"
  by pat_completeness auto
termination by (relation "measure (\<lambda>(raw, start, e). length raw + 1 - e)") auto

declare raw_ends.simps [simp del] rle_ends.simps [simp del] pair_ends.simps [simp del]

definition raw_code :: "nat \<Rightarrow> nat \<Rightarrow> dp_item \<Rightarrow> dp_item" where
  "raw_code start e d = d\<lparr>code_byte := 0x00 + of_nat (e - start)\<rparr>"

definition rle_code :: "nat \<Rightarrow> nat \<Rightarrow> dp_item \<Rightarrow> dp_item" where
  "rle_code start e d = d\<lparr>code_byte := 0x80 + of_nat (e - start)\<rparr>"

definition pair_code :: "nat \<Rightarrow> nat \<Rightarrow> dp_item \<Rightarrow> dp_item" where
  "pair_code start e d = d\<lparr>code_byte := 0x80, code_byte2 := of_nat (drop_bit 1 (e - start))\<rparr>"

text \<open>The body of the loop over the starts.\<close>

definition dp_step :: "u8 list \<Rightarrow> nat \<Rightarrow> (nat \<Rightarrow> dp_item) \<Rightarrow> nat \<Rightarrow> dp_item" where
  "dp_step raw start dp =
    (let base = cumulative_cost (dp start);
         dp = fold (try_token start base (\<lambda>e. 1 + int (e - start)) (raw_code start)) (raw_ends raw start (start + 1)) dp;
         dp = fold (try_token start base (\<lambda>_. 1 + 1) (rle_code start)) (rle_ends raw start (start + 1)) dp;
         dp = fold (try_token start base (\<lambda>_. 1 + 1 + 2) (pair_code start)) (pair_ends raw start (start + 2)) dp
     in dp)"

definition dp_table :: "u8 list \<Rightarrow> nat \<Rightarrow> dp_item" where
  "dp_table raw = fold (dp_step raw) [0..<length raw] dp_init"

section \<open>The packed file\<close>

text \<open>The queue of tokens, last one first; \<open>None\<close> is the exit for a circular path.\<close>

function walk_back :: "(nat \<Rightarrow> dp_item) \<Rightarrow> int \<Rightarrow> dp_item list \<Rightarrow> dp_item list option" where
  "walk_back dp offset queue =
    (if offset > 0 then
       (let it = dp (nat offset)
        in if parent it \<ge> offset then None else walk_back dp (parent it) (queue @ [it]))
     else Some queue)"
  by pat_completeness auto
termination by (relation "measure (\<lambda>(dp, offset, queue). nat offset)") auto

declare walk_back.simps [simp del]

definition token_bytes :: "u8 list \<Rightarrow> dp_item \<Rightarrow> u8 list" where
  "token_bytes raw d = code_byte d #
    (if code_byte d = 0x80 then [code_byte2 d, raw_at raw (raw_region d), raw_at raw (raw_region d + 1)]
     else if code_byte d AND 0x80 \<noteq> 0 then [raw_at raw (raw_region d)]
     else map (\<lambda>i. raw_at raw (raw_region d + i)) [0..<unat (code_byte d AND 0x7f)])"

definition pack :: "u8 list \<Rightarrow> u8 list option" where
  "pack raw = map_option (\<lambda>queue. concat (map (token_bytes raw) (rev queue)) @ [0x00])
     (walk_back (dp_table raw) (int (length raw)) [])"

section \<open>Verification\<close>

text \<open>
  The loop that unpacks. \<open>junk\<close> is what the array \<open>packed\<close> holds behind the bytes that were
  read; \<open>None\<close> is a store behind the end of the array \<open>unpacked\<close>.
\<close>

definition packed_at :: "(nat \<Rightarrow> u8) \<Rightarrow> u8 list \<Rightarrow> nat \<Rightarrow> u8" where
  "packed_at junk packed i = (if i < length packed then packed ! i else junk i)"

definition put_all :: "u8 list \<Rightarrow> u8 list \<Rightarrow> u8 list option" where
  "put_all unpacked bs = (if length unpacked + length bs \<le> MAX_RAW_SIZE then Some (unpacked @ bs) else None)"

function unpack_loop :: "(nat \<Rightarrow> u8) \<Rightarrow> u8 list \<Rightarrow> nat \<Rightarrow> nat \<Rightarrow> u8 list \<Rightarrow> (nat \<times> u8 list) option" where
  "unpack_loop junk packed raw_size offset unpacked =
    (if offset \<le> length packed \<and> length unpacked < raw_size then
       (let at = packed_at junk packed; c = at offset; count = unat (c AND 0x7f)
        in if c = 0x80 then
             (let count = unat (at (offset + 1))
              in case put_all unpacked (concat (replicate count [at (offset + 2), at (offset + 3)])) of
                   None \<Rightarrow> None | Some u \<Rightarrow> unpack_loop junk packed raw_size (offset + 4) u)
           else if c AND 0x80 \<noteq> 0 then
             (case put_all unpacked (replicate count (at (offset + 1))) of
                None \<Rightarrow> None | Some u \<Rightarrow> unpack_loop junk packed raw_size (offset + 2) u)
           else
             (case put_all unpacked (map (\<lambda>i. at (offset + 1 + i)) [0..<count]) of
                None \<Rightarrow> None | Some u \<Rightarrow> unpack_loop junk packed raw_size (offset + (1 + count)) u))
     else Some (offset, unpacked))"
  by pat_completeness auto
termination by (relation "measure (\<lambda>(junk, packed, raw_size, offset, unpacked). length packed + 1 - offset)") auto

declare unpack_loop.simps [simp del]

text \<open>The value of \<open>retVal\<close> behind the verification of a file.\<close>

definition verify :: "(nat \<Rightarrow> u8) \<Rightarrow> u8 list \<Rightarrow> u8 list \<Rightarrow> int option" where
  "verify junk raw file =
    (let packed = take (2 * MAX_RAW_SIZE) file
     in case unpack_loop junk packed (length raw) 0 [] of
          None \<Rightarrow> None
        | Some (offset, unpacked) \<Rightarrow>
            (let offset = (if packed_at junk packed offset = 0 then offset + 1 else offset)
             in if length unpacked \<noteq> length raw then Some 1
                else if offset \<noteq> length packed then Some 1
                else if \<exists>i < length raw. raw ! i \<noteq> unpacked ! i then Some 1
                else Some 0))"

text \<open>The program: the packed file and the exit code.\<close>

definition rlepack :: "(nat \<Rightarrow> u8) \<Rightarrow> u8 list \<Rightarrow> (u8 list option \<times> int option)" where
  "rlepack junk input =
    (let raw = take MAX_RAW_SIZE input
     in if length raw < 1 then (None, Some (- 1))
        else case pack raw of
          None \<Rightarrow> (None, Some (- 3))
        | Some file \<Rightarrow> (Some file, verify junk raw file))"

end
