(* ===== verification/RlepackLaws.thy ===== *)
theory RlepackLaws
  imports Rlepack
begin

text \<open>
  The packer is right: the dynamic programme finds a cheapest sequence of tokens, the walk
  back finds its tokens, and unpacking the file gives the input back.
\<close>

section \<open>Which tokens fit\<close>

definition can_raw :: "u8 list \<Rightarrow> nat \<Rightarrow> nat \<Rightarrow> bool" where
  "can_raw raw s e \<longleftrightarrow> s < e \<and> e \<le> length raw \<and> e - s < 128"

definition can_rle :: "u8 list \<Rightarrow> nat \<Rightarrow> nat \<Rightarrow> bool" where
  "can_rle raw s e \<longleftrightarrow> can_raw raw s e \<and> (\<forall>i. s \<le> i \<longrightarrow> i < e \<longrightarrow> raw_at raw i = raw_at raw s)"

definition can_pair :: "u8 list \<Rightarrow> nat \<Rightarrow> nat \<Rightarrow> bool" where
  "can_pair raw s e \<longleftrightarrow> s < e \<and> e \<le> length raw \<and> e - s < 512 \<and>
    (\<exists>k. e = s + 2 * k \<and> (\<forall>j < k. raw_at raw (s + 2 * j) = raw_at raw s \<and>
      raw_at raw (s + 2 * j + 1) = raw_at raw (s + 1)))"

lemma all_from_Suc:
  fixes j k :: nat
  assumes "j < k"
  shows "(\<forall>i. j \<le> i \<longrightarrow> i < k \<longrightarrow> P i) \<longleftrightarrow> P j \<and> (\<forall>i. Suc j \<le> i \<longrightarrow> i < k \<longrightarrow> P i)"
proof -
  have "j \<le> i \<longleftrightarrow> i = j \<or> Suc j \<le> i" for i by linarith
  then show ?thesis using assms by metis
qed

lemma set_raw_ends:
  assumes "s < b"
  shows "set (raw_ends raw s b) = {e. b \<le> e \<and> e \<le> length raw \<and> e - s < 128}"
  using assms
proof (induction "length raw + 1 - b" arbitrary: b rule: less_induct)
  case less
  show ?case
  proof (cases "b \<le> length raw \<and> b - s < 128")
    case True
    have "set (raw_ends raw s (b + 1)) = {e. b + 1 \<le> e \<and> e \<le> length raw \<and> e - s < 128}"
      by (rule less) (use less.prems True in auto)
    then have "set (raw_ends raw s b) = insert b {e. b + 1 \<le> e \<and> e \<le> length raw \<and> e - s < 128}"
      using True by (simp add: raw_ends.simps [of raw s b])
    also have "\<dots> = {e. b \<le> e \<and> e \<le> length raw \<and> e - s < 128}"
    proof -
      have "b \<le> e \<longleftrightarrow> e = b \<or> b + 1 \<le> e" for e by linarith
      then show ?thesis using True by blast
    qed
    finally show ?thesis .
  next
    case False
    then have "{e. b \<le> e \<and> e \<le> length raw \<and> e - s < 128} = {}" using less.prems by fastforce
    moreover have "raw_ends raw s b = []" using False by (subst raw_ends.simps) simp
    ultimately show ?thesis by simp
  qed
qed

lemma raw_ends_iff: "e \<in> set (raw_ends raw s (s + 1)) \<longleftrightarrow> can_raw raw s e"
  by (auto simp: set_raw_ends can_raw_def)

lemma set_rle_ends:
  assumes "s \<le> c"
  shows "set (rle_ends raw s (Suc c)) = {e. c < e \<and> e \<le> length raw \<and> e - s < 128 \<and>
     (\<forall>i. c \<le> i \<longrightarrow> i < e \<longrightarrow> raw_at raw i = raw_at raw s)}"
  using assms
proof (induction "length raw - c" arbitrary: c rule: less_induct)
  case less
  let ?c = "raw_at raw c = raw_at raw s \<and> Suc c \<le> length raw \<and> Suc c - s < 128"
  note one = all_from_Suc [of c _ "\<lambda>i. raw_at raw i = raw_at raw s"]
  show ?case
  proof (cases ?c)
    case True
    have "set (rle_ends raw s (Suc (Suc c))) = {e. Suc c < e \<and> e \<le> length raw \<and> e - s < 128 \<and>
        (\<forall>i. Suc c \<le> i \<longrightarrow> i < e \<longrightarrow> raw_at raw i = raw_at raw s)}"
      by (rule less) (use less.prems True in auto)
    then have "set (rle_ends raw s (Suc c)) = insert (Suc c) {e. Suc c < e \<and> e \<le> length raw \<and> e - s < 128 \<and>
        (\<forall>i. Suc c \<le> i \<longrightarrow> i < e \<longrightarrow> raw_at raw i = raw_at raw s)}"
      using True by (simp add: rle_ends.simps [of raw s "Suc c"])
    also have "\<dots> = {e. c < e \<and> e \<le> length raw \<and> e - s < 128 \<and>
     (\<forall>i. c \<le> i \<longrightarrow> i < e \<longrightarrow> raw_at raw i = raw_at raw s)}" (is "?L = ?R")
    proof (rule set_eqI)
      fix e
      have "c < e \<longleftrightarrow> e = Suc c \<or> Suc c < e" by linarith
      moreover have "\<forall>i. Suc c \<le> i \<longrightarrow> i < Suc c \<longrightarrow> raw_at raw i = raw_at raw s" by simp
      ultimately show "e \<in> ?L \<longleftrightarrow> e \<in> ?R"
        using True one [of e] unfolding mem_Collect_eq insert_iff by blast
    qed
    finally show ?thesis .
  next
    case False
    then have "rle_ends raw s (Suc c) = []" by (subst rle_ends.simps) simp
    moreover have "False" if "c < e" "e \<le> length raw" "e - s < 128"
      "\<forall>i. c \<le> i \<longrightarrow> i < e \<longrightarrow> raw_at raw i = raw_at raw s" for e
    proof -
      have "raw_at raw c = raw_at raw s" using that by blast
      with that(1-3) False show False by linarith
    qed
    ultimately show ?thesis by auto
  qed
qed

lemma rle_ends_iff: "e \<in> set (rle_ends raw s (s + 1)) \<longleftrightarrow> can_rle raw s e"
  using set_rle_ends [of s s raw] by (auto simp: can_rle_def can_raw_def)

text \<open>The pairs from the second one on, with \<open>k\<close> pairs seen before.\<close>

definition pairs_upto :: "u8 list \<Rightarrow> nat \<Rightarrow> nat \<Rightarrow> nat \<Rightarrow> bool" where
  "pairs_upto raw s j k \<longleftrightarrow> (\<forall>i. j \<le> i \<longrightarrow> i < k \<longrightarrow> raw_at raw (s + 2 * i) = raw_at raw s \<and>
      raw_at raw (s + 2 * i + 1) = raw_at raw (s + 1))"

lemma set_pair_ends:
  "set (pair_ends raw s (s + 2 * Suc j)) = {e. e \<le> length raw \<and> e - s < 512 \<and>
     (\<exists>k > j. e = s + 2 * k \<and> pairs_upto raw s j k)}"
proof (induction "length raw + 1 - (s + 2 * Suc j)" arbitrary: j rule: less_induct)
  case less
  let ?b = "s + 2 * Suc j"
  let ?c = "raw_at raw (?b - 2) = raw_at raw s \<and> raw_at raw (?b - 1) = raw_at raw (s + 1)
        \<and> ?b \<le> length raw \<and> ?b - s < 512"
  have one: "pairs_upto raw s j k \<longleftrightarrow> (raw_at raw (?b - 2) = raw_at raw s \<and> raw_at raw (?b - 1) = raw_at raw (s + 1))
      \<and> pairs_upto raw s (Suc j) k" if "j < k" for k
    using all_from_Suc [OF that, of "\<lambda>i. raw_at raw (s + 2 * i) = raw_at raw s \<and>
      raw_at raw (s + 2 * i + 1) = raw_at raw (s + 1)"] unfolding pairs_upto_def by simp
  show ?case
  proof (cases ?c)
    case True
    have "set (pair_ends raw s (s + 2 * Suc (Suc j))) = {e. e \<le> length raw \<and> e - s < 512 \<and>
       (\<exists>k > Suc j. e = s + 2 * k \<and> pairs_upto raw s (Suc j) k)}"
      by (rule less) (use conjunct1 [OF conjunct2 [OF conjunct2 [OF True]]] in arith)
    then have "set (pair_ends raw s ?b) = insert ?b {e. e \<le> length raw \<and> e - s < 512 \<and>
       (\<exists>k > Suc j. e = s + 2 * k \<and> pairs_upto raw s (Suc j) k)}"
      using True by (subst pair_ends.simps) simp
    moreover have "?b \<in> {e. e \<le> length raw \<and> e - s < 512 \<and> (\<exists>k > j. e = s + 2 * k \<and> pairs_upto raw s j k)}"
      using True by (auto simp: pairs_upto_def le_less intro!: exI [of _ "Suc j"])
    ultimately show ?thesis using True one by (auto simp: Suc_lessI dest: Suc_lessD)
  next
    case False
    then show ?thesis using one by (subst pair_ends.simps) auto
  qed
qed

lemma pair_ends_iff: "e \<in> set (pair_ends raw s (s + 2)) \<longleftrightarrow> can_pair raw s e"
  using set_pair_ends [of raw s 0] by (auto simp: can_pair_def pairs_upto_def)

section \<open>The table\<close>

text \<open>One of the three loops, entry by entry.\<close>

lemma fold_try_token:
  assumes "\<And>e d. cumulative_cost (code e d) = cumulative_cost d"
  shows "fold (try_token s base tc code) es dp e =
    (if e \<in> set es \<and> tc e + base < cumulative_cost (dp e)
     then (code e (dp e))\<lparr>cumulative_cost := tc e + base, raw_region := s, parent := int s\<rparr> else dp e)"
proof (induction es arbitrary: dp)
  case (Cons x es)
  then show ?case by (auto simp: try_token_def)
qed simp

lemma code_cost [simp]:
  "cumulative_cost (raw_code s e d) = cumulative_cost d"
  "cumulative_cost (rle_code s e d) = cumulative_cost d"
  "cumulative_cost (pair_code s e d) = cumulative_cost d"
  by (simp_all add: raw_code_def rle_code_def pair_code_def)

text \<open>The entry at \<open>e\<close> holds a token that fits from \<open>p\<close> to \<open>e\<close>, and its cost.\<close>

definition token_ok :: "u8 list \<Rightarrow> nat \<Rightarrow> nat \<Rightarrow> dp_item \<Rightarrow> int \<Rightarrow> bool" where
  "token_ok raw p e d c \<longleftrightarrow> raw_region d = p \<and> parent d = int p \<and>
    (code_byte d = of_nat (e - p) \<and> can_raw raw p e \<and> c = 1 + int (e - p) \<or>
     code_byte d = 0x80 + of_nat (e - p) \<and> can_rle raw p e \<and> c = 2 \<or>
     code_byte d = 0x80 \<and> code_byte2 d = of_nat ((e - p) div 2) \<and> can_pair raw p e \<and> c = 4)"

text \<open>The cost of the cheapest single token, as a relation.\<close>

definition token_cost :: "u8 list \<Rightarrow> nat \<Rightarrow> nat \<Rightarrow> int \<Rightarrow> bool" where
  "token_cost raw p e c \<longleftrightarrow>
    can_raw raw p e \<and> c = 1 + int (e - p) \<or> can_rle raw p e \<and> c = 2 \<or> can_pair raw p e \<and> c = 4"

lemma token_cost_less: "token_cost raw p e c \<Longrightarrow> p < e \<and> e \<le> length raw"
  by (auto simp: token_cost_def can_raw_def can_rle_def can_pair_def)

lemma token_ok_cost: "token_ok raw p e d c \<Longrightarrow> token_cost raw p e c"
  by (auto simp: token_ok_def token_cost_def)

lemma dp_step_entry:
  defines "base dp s \<equiv> cumulative_cost (dp s)"
  shows
    "e \<le> s \<Longrightarrow> dp_step raw s dp e = dp e"
    "token_cost raw s e c \<Longrightarrow> cumulative_cost (dp_step raw s dp e) \<le> base dp s + c"
    "cumulative_cost (dp_step raw s dp e) \<le> cumulative_cost (dp e)"
    "dp_step raw s dp e = dp e \<or>
      (\<exists>c. token_ok raw s e (dp_step raw s dp e) c \<and> cumulative_cost (dp_step raw s dp e) = base dp s + c)"
proof -
  note ends = raw_ends_iff [simplified] rle_ends_iff [simplified] pair_ends_iff [simplified]
  have [simp]: "\<not> can_raw raw s e" "\<not> can_rle raw s e" "\<not> can_pair raw s e" if "e \<le> s"
    using that by (auto simp: can_raw_def can_rle_def can_pair_def)
  show "e \<le> s \<Longrightarrow> dp_step raw s dp e = dp e"
    by (simp add: dp_step_def Let_def fold_try_token ends)
  show "cumulative_cost (dp_step raw s dp e) \<le> base dp s + c" if "token_cost raw s e c"
    using that by (auto simp: dp_step_def Let_def fold_try_token ends base_def token_cost_def)
  show "cumulative_cost (dp_step raw s dp e) \<le> cumulative_cost (dp e)"
    by (auto simp: dp_step_def Let_def fold_try_token ends)
  show "dp_step raw s dp e = dp e \<or>
      (\<exists>c. token_ok raw s e (dp_step raw s dp e) c \<and> cumulative_cost (dp_step raw s dp e) = base dp s + c)"
    by (auto simp: dp_step_def Let_def fold_try_token ends base_def token_ok_def
        raw_code_def rle_code_def pair_code_def drop_bit_eq_div)
qed

text \<open>The invariant of the loop over the starts.\<close>

definition table_ok :: "u8 list \<Rightarrow> nat \<Rightarrow> (nat \<Rightarrow> dp_item) \<Rightarrow> bool" where
  "table_ok raw n dp \<longleftrightarrow> dp 0 = dp_init 0 \<and>
    (\<forall>e > 0. dp e = dp_init e \<or>
       (\<exists>p c. p < n \<and> token_ok raw p e (dp e) c \<and> cumulative_cost (dp e) = cumulative_cost (dp p) + c)) \<and>
    (\<forall>p < n. \<forall>e c. token_cost raw p e c \<longrightarrow> cumulative_cost (dp e) \<le> cumulative_cost (dp p) + c)"

lemma table_ok_init: "table_ok raw 0 dp_init"
  by (simp add: table_ok_def)

lemma table_ok_step:
  assumes "table_ok raw s dp"
  shows "table_ok raw (Suc s) (dp_step raw s dp)"
proof -
  let ?d = "dp_step raw s dp"
  have same: "?d p = dp p" if "p \<le> s" for p using that by (rule dp_step_entry(1))
  have "?d e = dp_init e \<or>
       (\<exists>p c. p < Suc s \<and> token_ok raw p e (?d e) c \<and> cumulative_cost (?d e) = cumulative_cost (?d p) + c)" if "e > 0" for e
    using dp_step_entry(4) [where raw = raw and s = s and dp = dp and e = e]
  proof
    assume u: "?d e = dp e"
    from assms that consider "dp e = dp_init e" | p c where "p < s" "token_ok raw p e (dp e) c"
        "cumulative_cost (dp e) = cumulative_cost (dp p) + c"
      unfolding table_ok_def by blast
    then show ?thesis
    proof cases
      case 1
      then show ?thesis using u by simp
    next
      case (2 p c)
      then have "p < Suc s \<and> token_ok raw p e (?d e) c \<and> cumulative_cost (?d e) = cumulative_cost (?d p) + c"
        using u same [of p] by simp
      then show ?thesis by blast
    qed
  next
    assume "\<exists>c. token_ok raw s e (?d e) c \<and> cumulative_cost (?d e) = cumulative_cost (dp s) + c"
    then show ?thesis using same [of s] by auto
  qed
  moreover have "cumulative_cost (?d e) \<le> cumulative_cost (?d p) + c" if "p < Suc s" "token_cost raw p e c" for p e c
  proof (cases "p = s")
    case True
    then show ?thesis using dp_step_entry(2) that(2) same [of s] by simp
  next
    case False
    then have "cumulative_cost (dp e) \<le> cumulative_cost (dp p) + c" using assms that by (simp add: table_ok_def)
    then show ?thesis using dp_step_entry(3) [where raw = raw and s = s and dp = dp and e = e] same [of p] that(1) by simp
  qed
  moreover have "?d 0 = dp_init 0" using same [of 0] assms by (simp add: table_ok_def)
  ultimately show ?thesis by (simp add: table_ok_def)
qed

lemma table_ok_table: "table_ok raw (length raw) (dp_table raw)"
proof -
  have "table_ok raw n (fold (dp_step raw) [0..<n] dp_init)" for n
    by (induction n) (simp_all add: table_ok_init table_ok_step)
  then show ?thesis by (simp add: dp_table_def)
qed

section \<open>Shortest token sequences\<close>

text \<open>Sequences of tokens up to an offset, with what they cost.\<close>

inductive covers :: "u8 list \<Rightarrow> nat \<Rightarrow> int \<Rightarrow> bool" for raw where
  covers_0: "covers raw 0 0"
| covers_token: "covers raw p c \<Longrightarrow> token_cost raw p e t \<Longrightarrow> covers raw e (c + t)"

lemma cost_0: "cumulative_cost (dp_table raw 0) = 0"
  using table_ok_table [of raw] by (simp add: table_ok_def dp_init_def)

lemma table_edge:
  "token_cost raw p e c \<Longrightarrow> cumulative_cost (dp_table raw e) \<le> cumulative_cost (dp_table raw p) + c"
  using table_ok_table [of raw] token_cost_less [of raw p e c] unfolding table_ok_def by (meson order_less_le_trans)

lemma table_lower: "covers raw e c \<Longrightarrow> cumulative_cost (dp_table raw e) \<le> c"
proof (induction rule: covers.induct)
  case covers_0
  show ?case by (simp add: cost_0)
next
  case (covers_token p c e t)
  then show ?case using table_edge [of raw p e t] by simp
qed

text \<open>One byte at a time costs two bytes each, the first two bytes together three.\<close>

lemma table_bound:
  assumes "e \<le> length raw"
  shows "cumulative_cost (dp_table raw e) \<le> (if e < 2 then 2 * int e else 2 * int e - 1)"
  using assms
proof (induction e rule: nat_less_induct)
  case (1 e)
  show ?case
  proof (cases "e < 3")
    case True
    have "token_cost raw 0 e (1 + int e)" if "e \<noteq> 0" using that True "1.prems" by (simp add: token_cost_def can_raw_def)
    from table_edge [OF this] show ?thesis using True cost_0 [of raw] by (cases "e = 0") auto
  next
    case False
    have "token_cost raw (e - 1) e 2" using False "1.prems" by (simp add: token_cost_def can_raw_def of_nat_diff)
    moreover have "cumulative_cost (dp_table raw (e - 1)) \<le> 2 * int (e - 1) - 1"
    proof -
      have "\<not> e - 1 < 2" "e - 1 < e" "e - 1 \<le> length raw" using False "1.prems" by linarith+
      then show ?thesis using "1.IH" [rule_format, of "e - 1"] by presburger
    qed
    ultimately show ?thesis using table_edge [of raw "e - 1" e 2] False by (simp add: of_nat_diff)
  qed
qed

lemma table_token:
  assumes "0 < e" "e \<le> length raw" and "length raw \<le> MAX_RAW_SIZE"
  obtains p c where "p < e" "token_ok raw p e (dp_table raw e) c"
    "cumulative_cost (dp_table raw e) = cumulative_cost (dp_table raw p) + c"
proof -
  have "cumulative_cost (dp_table raw e) \<le> 2 * int e" using table_bound [OF assms(2)] by (simp split: if_splits)
  then have "dp_table raw e \<noteq> dp_init e" using assms by (auto simp: dp_init_def MAX_RAW_SIZE_def)
  then obtain p c where "token_ok raw p e (dp_table raw e) c"
      "cumulative_cost (dp_table raw e) = cumulative_cost (dp_table raw p) + c"
    using table_ok_table [of raw] assms(1) unfolding table_ok_def by blast
  moreover have "p < e" using token_cost_less [OF token_ok_cost [OF calculation(1)]] by simp
  ultimately show thesis using that by blast
qed

section \<open>The walk back\<close>

text \<open>The bytes of a sequence of tokens up to an offset.\<close>

inductive encodes :: "u8 list \<Rightarrow> nat \<Rightarrow> u8 list \<Rightarrow> bool" for raw where
  encodes_0: "encodes raw 0 []"
| encodes_token: "encodes raw p bs \<Longrightarrow> token_ok raw p e d c \<Longrightarrow> encodes raw e (bs @ token_bytes raw d)"

lemma code_bits:
  fixes c :: u8
  shows "c AND 0x80 \<noteq> 0 \<longleftrightarrow> odd (unat c div 128)" "unat (c AND 0x7f) = unat c mod 128"
proof -
  have "bit c 7 = bit (unat c) 7" by (simp add: bit_unsigned_iff)
  then show "c AND 0x80 \<noteq> 0 \<longleftrightarrow> odd (unat c div 128)"
    using and_exp_eq_0_iff_not_bit [of c 7] by (simp add: bit_iff_odd)
  have "c AND 0x7f = take_bit 7 c" by (simp add: take_bit_eq_mask mask_eq_exp_minus_1)
  then show "unat (c AND 0x7f) = unat c mod 128"
    by (simp only: unsigned_take_bit_eq) (simp add: take_bit_eq_mod)
qed

lemma token_codes:
  assumes "k < 128"
  shows "unat (of_nat k :: u8) = k" "unat (0x80 + of_nat k :: u8) = 128 + k"
    "(of_nat k :: u8) \<noteq> 0x80" "(0x80 + of_nat k :: u8) = 0x80 \<longleftrightarrow> k = 0"
    "(of_nat k :: u8) AND 0x80 = 0" "(0x80 + of_nat k :: u8) AND 0x80 \<noteq> 0"
    "unat ((of_nat k :: u8) AND 0x7f) = k" "unat ((0x80 + of_nat k :: u8) AND 0x7f) = k"
proof -
  show u: "unat (of_nat k :: u8) = k" using assms by (simp add: unat_of_nat)
  show v: "unat (0x80 + of_nat k :: u8) = 128 + k" using assms u by (simp add: unat_word_ariths)
  show "(of_nat k :: u8) \<noteq> 0x80" using assms u by (auto simp: word_unat_eq_iff)
  show "(0x80 + of_nat k :: u8) = 0x80 \<longleftrightarrow> k = 0" using v by (auto simp: word_unat_eq_iff)
  show "(of_nat k :: u8) AND 0x80 = 0" using code_bits(1) [of "of_nat k"] u assms by simp
  have "(128 + k) div 128 = 1" using assms by simp
  then show "(0x80 + of_nat k :: u8) AND 0x80 \<noteq> 0" using code_bits(1) [of "0x80 + of_nat k"] v by simp
  show "unat ((of_nat k :: u8) AND 0x7f) = k" using code_bits(2) [of "of_nat k"] u assms by simp
  show "unat ((0x80 + of_nat k :: u8) AND 0x7f) = k" using code_bits(2) [of "0x80 + of_nat k"] v assms by simp
qed

text \<open>The three shapes of a token, with the code bytes decoded.\<close>

lemma token_cases:
  assumes "token_ok raw p e d c"
  obtains (raw) k where "can_raw raw p e" "e = p + k" "0 < k" "k < 128" "code_byte d = of_nat k" "c = 1 + int k"
      "token_bytes raw d = of_nat k # map (\<lambda>i. raw_at raw (p + i)) [0..<k]"
  | (rle) k where "can_rle raw p e" "e = p + k" "0 < k" "k < 128" "code_byte d = 0x80 + of_nat k" "c = 2"
      "token_bytes raw d = [0x80 + of_nat k, raw_at raw p]"
  | (pair) k where "can_pair raw p e" "e = p + 2 * k" "0 < k" "k < 256" "c = 4"
      "token_bytes raw d = [0x80, of_nat k, raw_at raw p, raw_at raw (p + 1)]"
proof -
  have r: "raw_region d = p" using assms by (simp add: token_ok_def)
  from assms consider
      "code_byte d = of_nat (e - p)" "can_raw raw p e" "c = 1 + int (e - p)"
    | "code_byte d = 0x80 + of_nat (e - p)" "can_rle raw p e" "c = 2"
    | "code_byte d = 0x80" "code_byte2 d = of_nat ((e - p) div 2)" "can_pair raw p e" "c = 4"
    unfolding token_ok_def by blast
  then show thesis
  proof cases
    case 1
    then have k: "e = p + (e - p)" "0 < e - p" "e - p < 128" by (auto simp: can_raw_def)
    have "token_bytes raw d = of_nat (e - p) # map (\<lambda>i. raw_at raw (p + i)) [0..<e - p]"
      unfolding token_bytes_def 1(1) r using token_codes(3,5,7) [OF k(3)] by simp
    with 1 k show thesis by (intro that(1))
  next
    case 2
    then have k: "e = p + (e - p)" "0 < e - p" "e - p < 128" by (auto simp: can_raw_def can_rle_def)
    have "token_bytes raw d = [0x80 + of_nat (e - p), raw_at raw p]"
      unfolding token_bytes_def 2(1) r using token_codes(4,6) [OF k(3)] k(2) by simp
    with 2 k show thesis by (intro that(2))
  next
    case 3
    then obtain k where k: "e = p + 2 * k" by (auto simp: can_pair_def)
    with 3 have "0 < k" "k < 256" by (auto simp: can_pair_def)
    moreover have "token_bytes raw d = [0x80, of_nat k, raw_at raw p, raw_at raw (p + 1)]"
      unfolding token_bytes_def 3(1,2) r k by simp
    ultimately show thesis using 3 k by (intro that(3))
  qed
qed

lemma token_bytes_length: "token_ok raw p e d c \<Longrightarrow> int (length (token_bytes raw d)) = c"
  by (erule token_cases) simp_all

lemma walk_back_encodes:
  assumes "e \<le> length raw" and "length raw \<le> MAX_RAW_SIZE"
  shows "\<exists>ts. walk_back (dp_table raw) (int e) q = Some (q @ ts) \<and>
    encodes raw e (concat (map (token_bytes raw) (rev ts))) \<and>
    int (length (concat (map (token_bytes raw) (rev ts)))) = cumulative_cost (dp_table raw e)"
  using assms(1)
proof (induction e arbitrary: q rule: nat_less_induct)
  case (1 e)
  show ?case
  proof (cases "e = 0")
    case True
    then show ?thesis by (simp add: walk_back.simps encodes_0 cost_0)
  next
    case False
    let ?d = "dp_table raw e"
    from False obtain p c where p: "p < e" "token_ok raw p e ?d c" "cumulative_cost ?d = cumulative_cost (dp_table raw p) + c"
      using table_token [OF _ "1.prems" assms(2)] by blast
    have par: "parent ?d = int p" using p(2) by (simp add: token_ok_def)
    obtain ts where ts: "walk_back (dp_table raw) (int p) (q @ [?d]) = Some ((q @ [?d]) @ ts)"
      "encodes raw p (concat (map (token_bytes raw) (rev ts)))"
      "int (length (concat (map (token_bytes raw) (rev ts)))) = cumulative_cost (dp_table raw p)"
      using "1.IH" p(1) "1.prems" by (meson less_imp_le order_trans)
    have "walk_back (dp_table raw) (int e) q = Some (q @ ?d # ts)"
      using ts(1) False p(1) par by (subst walk_back.simps) (simp add: Let_def)
    moreover have "encodes raw e (concat (map (token_bytes raw) (rev (?d # ts))))"
      using encodes_token [OF ts(2) p(2)] by simp
    moreover have "int (length (concat (map (token_bytes raw) (rev (?d # ts))))) = cumulative_cost ?d"
      using ts(3) p(3) token_bytes_length [OF p(2)] by simp
    ultimately show ?thesis by blast
  qed
qed

section \<open>Unpacking\<close>

lemma take_raw_at: "e \<le> length raw \<Longrightarrow> take e raw = map (raw_at raw) [0..<e]"
  by (rule nth_equalityI) (simp_all add: raw_at_def)

lemma packed_at_token:
  assumes "packed = bs @ tb @ rest" and "i < length tb"
  shows "packed_at junk packed (length bs + i) = tb ! i"
  using assms by (simp add: packed_at_def nth_append)

lemma concat_pairs:
  "concat (replicate k [a, b]) = map (\<lambda>i. if even i then a else b) [0..<2 * k]"
  by (induction k) (simp_all flip: replicate_append_same)

text \<open>One turn of the loop, for each kind of token.\<close>

lemma unpack_raw:
  assumes go: "offset \<le> length packed \<and> length u < n"
    and "packed_at junk packed offset = of_nat k" and "k < 128"
    and "put_all u (map (\<lambda>i. packed_at junk packed (offset + 1 + i)) [0..<k]) = Some u'"
  shows "unpack_loop junk packed n offset u = unpack_loop junk packed n (offset + (1 + k)) u'"
  by (subst unpack_loop.simps)
     (simp only: go Let_def assms(2,4) token_codes [OF assms(3)] if_True if_False simp_thms option.case)

lemma unpack_rle:
  assumes go: "offset \<le> length packed \<and> length u < n"
    and "packed_at junk packed offset = 0x80 + of_nat k" and "0 < k" "k < 128"
    and "put_all u (replicate k (packed_at junk packed (offset + 1))) = Some u'"
  shows "unpack_loop junk packed n offset u = unpack_loop junk packed n (offset + 2) u'"
  using assms(3)
  by (subst unpack_loop.simps)
     (simp only: go Let_def assms(2,5) token_codes [OF assms(4)] if_True if_False simp_thms option.case
       gr_implies_not0)

lemma unpack_pair:
  assumes go: "offset \<le> length packed \<and> length u < n"
    and "packed_at junk packed offset = 0x80" and "unat (packed_at junk packed (offset + 1)) = k"
    and "put_all u (concat (replicate k [packed_at junk packed (offset + 2), packed_at junk packed (offset + 3)])) = Some u'"
  shows "unpack_loop junk packed n offset u = unpack_loop junk packed n (offset + 4) u'"
  by (subst unpack_loop.simps)
     (simp only: go Let_def assms if_True if_False simp_thms option.case)

lemma unpack_step:
  assumes "token_ok raw p e d c" and "length raw \<le> MAX_RAW_SIZE"
    and "packed = bs @ token_bytes raw d @ rest"
  shows "unpack_loop junk packed (length raw) (length bs) (map (raw_at raw) [0..<p])
    = unpack_loop junk packed (length raw) (length (bs @ token_bytes raw d)) (map (raw_at raw) [0..<e])"
proof -
  have pe: "p < e" "e \<le> length raw" using token_cost_less [OF token_ok_cost [OF assms(1)]] by simp_all
  have go: "length bs \<le> length packed \<and> p < length raw" using assms(3) pe by simp
  have go': "length bs \<le> length packed \<and> length (map (raw_at raw) [0..<p]) < length raw" using go by simp
  let ?at = "packed_at junk packed"
  have split: "map (raw_at raw) [0..<e] = map (raw_at raw) [0..<p] @ map (\<lambda>i. raw_at raw (p + i)) [0..<e - p]"
    using pe by (intro nth_equalityI) (auto simp: nth_append)
  have put: "put_all (map (raw_at raw) [0..<p]) (map (\<lambda>i. raw_at raw (p + i)) [0..<e - p]) = Some (map (raw_at raw) [0..<e])"
    using split pe assms(2) by (simp add: put_all_def)
  from assms(1) show ?thesis
  proof (cases rule: token_cases)
    case (raw k)
    have at0: "?at (length bs) = of_nat k" using packed_at_token [OF assms(3), of 0] raw by simp
    have m: "map (\<lambda>i. ?at (length bs + 1 + i)) [0..<k] = map (\<lambda>i. raw_at raw (p + i)) [0..<e - p]"
      using packed_at_token [OF assms(3), of "Suc _"] raw by simp
    have "put_all (map (raw_at raw) [0..<p]) (map (\<lambda>i. ?at (length bs + 1 + i)) [0..<k]) = Some (map (raw_at raw) [0..<e])"
      unfolding m by (rule put)
    from unpack_raw [OF go' at0 raw(4) this] show ?thesis using raw by simp
  next
    case (rle k)
    have at0: "?at (length bs) = 0x80 + of_nat k" using packed_at_token [OF assms(3), of 0] rle by simp
    have at1: "?at (length bs + 1) = raw_at raw p" using packed_at_token [OF assms(3), of 1] rle by simp
    have m: "replicate k (raw_at raw p) = map (\<lambda>i. raw_at raw (p + i)) [0..<e - p]"
    proof (intro nth_equalityI)
      fix i assume "i < length (replicate k (raw_at raw p))"
      then have "i < k" by simp
      then have "p \<le> p + i" "p + i < e" using rle(2) by simp_all
      then have "raw_at raw (p + i) = raw_at raw p" using rle(1) unfolding can_rle_def by blast
      then show "replicate k (raw_at raw p) ! i = map (\<lambda>i. raw_at raw (p + i)) [0..<e - p] ! i"
        using \<open>i < k\<close> rle(2) by simp
    qed (simp add: rle(2))
    have "put_all (map (raw_at raw) [0..<p]) (replicate k (?at (length bs + 1))) = Some (map (raw_at raw) [0..<e])"
      unfolding at1 m by (rule put)
    moreover have "length (bs @ token_bytes raw d) = length bs + 2" using rle(7) by simp
    ultimately show ?thesis using unpack_rle [OF go' at0 rle(3,4)] by (simp only:)
  next
    case (pair k)
    have at: "?at (length bs) = 0x80" "?at (length bs + 1) = of_nat k" "?at (length bs + 2) = raw_at raw p"
      "?at (length bs + 3) = raw_at raw (p + 1)"
      using packed_at_token [OF assms(3), of 0] packed_at_token [OF assms(3), of 1]
        packed_at_token [OF assms(3), of 2] packed_at_token [OF assms(3), of 3] pair by simp_all
    have u: "unat (of_nat k :: u8) = k" using pair(4) by (simp add: unat_of_nat)
    have q: "raw_at raw (p + 2 * j) = raw_at raw p \<and> raw_at raw (p + 2 * j + 1) = raw_at raw (p + 1)" if "j < k" for j
      using pair(1,2) that by (auto simp: can_pair_def)
    have "raw_at raw (p + i) = (if even i then raw_at raw p else raw_at raw (p + 1))" if "i < 2 * k" for i
    proof (cases "even i")
      case True
      then obtain j where "i = 2 * j" by (elim evenE)
      then show ?thesis using q [of j] that by simp
    next
      case False
      then obtain j where "i = 2 * j + 1" by (elim oddE)
      then show ?thesis using q [of j] that False by simp
    qed
    then have m: "concat (replicate k [raw_at raw p, raw_at raw (p + 1)]) = map (\<lambda>i. raw_at raw (p + i)) [0..<e - p]"
      using pair(2) by (simp add: concat_pairs)
    have "put_all (map (raw_at raw) [0..<p]) (concat (replicate k [?at (length bs + 2), ?at (length bs + 3)]))
        = Some (map (raw_at raw) [0..<e])"
      unfolding at m by (rule put)
    moreover have "unat (?at (length bs + 1)) = k" unfolding at(2) by (rule u)
    moreover have "length (bs @ token_bytes raw d) = length bs + 4" using pair(6) by simp
    ultimately show ?thesis using unpack_pair [OF go' at(1)] by (simp only:)
  qed
qed

lemma unpack_encoded:
  assumes "encodes raw e bs" and "length raw \<le> MAX_RAW_SIZE" and "packed = bs @ rest"
  shows "unpack_loop junk packed (length raw) 0 []
    = unpack_loop junk packed (length raw) (length bs) (map (raw_at raw) [0..<e])"
  using assms(1,3)
proof (induction arbitrary: rest rule: encodes.induct)
  case encodes_0
  then show ?case by simp
next
  case (encodes_token p bs e d c)
  then have "unpack_loop junk packed (length raw) 0 []
    = unpack_loop junk packed (length raw) (length bs) (map (raw_at raw) [0..<p])" by simp
  also have "\<dots> = unpack_loop junk packed (length raw) (length (bs @ token_bytes raw d)) (map (raw_at raw) [0..<e])"
    using encodes_token.prems by (intro unpack_step [OF encodes_token.hyps(2) assms(2)]) simp
  finally show ?case .
qed

lemma table_covers:
  assumes "e \<le> length raw" and "length raw \<le> MAX_RAW_SIZE"
  shows "covers raw e (cumulative_cost (dp_table raw e))"
  using assms(1)
proof (induction e rule: nat_less_induct)
  case (1 e)
  show ?case
  proof (cases "e = 0")
    case True
    then show ?thesis by (simp add: cost_0 covers_0)
  next
    case False
    then obtain p c where p: "p < e" "token_ok raw p e (dp_table raw e) c"
      "cumulative_cost (dp_table raw e) = cumulative_cost (dp_table raw p) + c"
      using table_token [OF _ "1.prems" assms(2)] by blast
    have "covers raw p (cumulative_cost (dp_table raw p))" using "1.IH" p(1) "1.prems" by simp
    then show ?thesis using covers_token [OF _ token_ok_cost [OF p(2)]] p(3) by simp
  qed
qed

lemma pack_file:
  assumes "length raw \<le> MAX_RAW_SIZE"
  obtains bs where "pack raw = Some (bs @ [0])" "encodes raw (length raw) bs"
    "int (length bs) = cumulative_cost (dp_table raw (length raw))"
  using walk_back_encodes [of "length raw" raw "[]"] assms by (auto simp: pack_def)

lemma unpack_file:
  assumes "encodes raw (length raw) bs" and "length raw \<le> MAX_RAW_SIZE"
  shows "unpack_loop junk (bs @ [0]) (length raw) 0 [] = Some (length bs, raw)"
proof -
  have "unpack_loop junk (bs @ [0]) (length raw) 0 []
    = unpack_loop junk (bs @ [0]) (length raw) (length bs) (map (raw_at raw) [0..<length raw])"
    by (rule unpack_encoded [OF assms refl])
  also have "map (raw_at raw) [0..<length raw] = raw" using take_raw_at [of "length raw" raw] by simp
  finally show ?thesis by (subst (asm) (2) unpack_loop.simps) simp
qed

section \<open>Properties\<close>

text \<open>
  C25: Packing is lossless: for every input that is not empty and fits the array, the program writes a file,
  unpacking the file gives the input, and the program's own verification succeeds. (On an empty input the
  program gives up.)
\<close>

theorem rlepack_roundtrip:
  assumes "raw \<noteq> []" and "length raw \<le> MAX_RAW_SIZE"
  shows "\<exists>file. rlepack junk raw = (Some file, Some 0) \<and>
    unpack_loop junk file (length raw) 0 [] = Some (length file - 1, raw)"
proof -
  obtain bs where bs: "pack raw = Some (bs @ [0])" "encodes raw (length raw) bs"
    "int (length bs) = cumulative_cost (dp_table raw (length raw))"
    using pack_file [OF assms(2)] .
  have u: "unpack_loop junk (bs @ [0]) (length raw) 0 [] = Some (length bs, raw)"
    by (rule unpack_file [OF bs(2) assms(2)])
  have "length bs < 2 * MAX_RAW_SIZE"
    using table_bound [of "length raw" raw] bs(3) assms by (auto simp: MAX_RAW_SIZE_def split: if_splits)
  then have "verify junk raw (bs @ [0]) = Some 0"
    using u by (simp add: verify_def Let_def packed_at_def)
  then show ?thesis using bs(1) u assms by (auto simp: rlepack_def Let_def Suc_le_eq)
qed

theorem rlepack_roundtrip_witness:
  "snd (rlepack (\<lambda>_. 0) [7, 7, 7, 1]) = Some 0"
  using rlepack_roundtrip [of "[7, 7, 7, 1]" "\<lambda>_. 0"] by (auto simp: MAX_RAW_SIZE_def)

text \<open>
  C26: The packed file is as short as the token format allows: its length without the end mark
  is the cost of a sequence of tokens that covers the input, and no such sequence costs less.
\<close>

theorem rlepack_optimal:
  assumes "length raw \<le> MAX_RAW_SIZE"
  shows "\<exists>file. pack raw = Some file \<and> covers raw (length raw) (int (length file) - 1) \<and>
    (\<forall>c. covers raw (length raw) c \<longrightarrow> int (length file) - 1 \<le> c)"
proof -
  obtain bs where bs: "pack raw = Some (bs @ [0])" "int (length bs) = cumulative_cost (dp_table raw (length raw))"
    using pack_file [OF assms] .
  then show ?thesis
    using table_covers [OF order_refl assms] table_lower [of raw "length raw"] by auto
qed

theorem rlepack_optimal_witness:
  "\<exists>file. pack [7, 7, 7, 1] = Some file \<and>
    covers [7, 7, 7, 1] (length [7, 7, 7, 1 :: u8]) (int (length file) - 1)"
proof -
  have "length [7, 7, 7, 1 :: u8] \<le> MAX_RAW_SIZE" by (simp add: MAX_RAW_SIZE_def)
  from rlepack_optimal [OF this] show ?thesis by blast
qed

end
