(* ===== verification/Sdcard.thy ===== *)
theory Sdcard
  imports Prelude
begin

text \<open>
  The SD card and FAT32 reader of the flash tool, \<open>src/utilities/megaflash/nohysdc.c\<close>: resetting
  the card, reading sectors with retries, finding the partition, following cluster chains,
  and reading directory entries with their long names.

  The SD controller is hardware: a parameter \<open>dev\<close> with one function for \<open>PEEK\<close>, one for
  \<open>POKE\<close> and one for the contents of the sector buffer at \<open>NHSD_SBUF\<close>, over a state of its
  own. The global variables of the file are the record \<open>sd\<close>; its field \<open>wild\<close> records an
  access outside an object and is no variable of the program.
\<close>

section \<open>State\<close>

record 'd sd_device =
  dev_peek :: "u32 \<Rightarrow> 'd \<Rightarrow> u8 \<times> 'd"
  dev_poke :: "u32 \<Rightarrow> u8 \<Rightarrow> 'd \<Rightarrow> 'd"
  dev_sector :: "'d \<Rightarrow> nat \<Rightarrow> u8"

record position =
  pos_cluster :: u32
  pos_sector :: u32
  sector_in_cluster :: u8

record dirent =
  d_ino :: u32
  d_reclen :: u32
  d_type :: u8
  d_name :: "nat \<Rightarrow> u8"

record 'd sd =
  hw :: 'd
  nhsd_buffer :: "u8 list option"
  nhsd_init_state :: u8
  nhsd_current_dir :: u32
  nhsd_part_start :: u32
  nhsd_part_end :: u32
  sectors_per_cluster :: u8
  reserved_sectors :: u32
  data_sectors :: u32
  sectors_per_fat :: u32
  cluster2_sector :: u32
  open_pos :: position
  open_offset_in_sector :: u16
  nhsd_dirent :: dirent
  wild :: bool

type_synonym ('d, 'a) sd_prog = "('d sd, 'a) state"

definition NHSD_CTRL :: u32 where "NHSD_CTRL = 0xd680"
definition NHSD_ADDR :: u32 where "NHSD_ADDR = 0xd681"

definition NHSD_INIT_SDBUS :: u8 where "NHSD_INIT_SDBUS = 0x02"
definition NHSD_INIT_MBR :: u8 where "NHSD_INIT_MBR = 0x04"
definition NHSD_INIT_PART :: u8 where "NHSD_INIT_PART = 0x08"
definition NHSD_INIT_FAT :: u8 where "NHSD_INIT_FAT = 0x10"
definition NHSD_INIT_OPENDIR :: u8 where "NHSD_INIT_OPENDIR = 0x20"
definition NHSD_INIT_OPENFILE :: u8 where "NHSD_INIT_OPENFILE = 0x40"
definition NHSD_INIT_BUSMASK :: u8 where "NHSD_INIT_BUSMASK = 0x01"
definition NHSD_INIT_INITMASK :: u8 where "NHSD_INIT_INITMASK = 0x1e"
definition NHSD_INIT_OPENMASK :: u8 where "NHSD_INIT_OPENMASK = 0x60"

definition NHSD_ERR_NOERROR :: u8 where "NHSD_ERR_NOERROR = 0"
definition NHSD_ERR_NOINIT :: u8 where "NHSD_ERR_NOINIT = 1"
definition NHSD_ERR_TIMEOUT :: u8 where "NHSD_ERR_TIMEOUT = 2"
definition NHSD_ERR_INVALID_MBR :: u8 where "NHSD_ERR_INVALID_MBR = 3"
definition NHSD_ERR_PART_NOT_FOUND :: u8 where "NHSD_ERR_PART_NOT_FOUND = 4"
definition NHSD_ERR_READERROR :: u8 where "NHSD_ERR_READERROR = 5"
definition NHSD_ERR_FILE_NOT_OPEN :: u8 where "NHSD_ERR_FILE_NOT_OPEN = 7"
definition NHSD_ERR_DIR_NOT_OPEN :: u8 where "NHSD_ERR_DIR_NOT_OPEN = 7"
definition NHSD_ERR_ALREADY_OPEN :: u8 where "NHSD_ERR_ALREADY_OPEN = 8"
definition NHSD_ERR_EOF :: u8 where "NHSD_ERR_EOF = 0x80"
definition NHSD_ROOT_INODE :: u32 where "NHSD_ROOT_INODE = 2"

lemmas sd_masks =
  NHSD_INIT_SDBUS_def NHSD_INIT_MBR_def NHSD_INIT_PART_def NHSD_INIT_FAT_def NHSD_INIT_OPENDIR_def
  NHSD_INIT_OPENFILE_def NHSD_INIT_BUSMASK_def NHSD_INIT_INITMASK_def NHSD_INIT_OPENMASK_def

lemmas sd_errors =
  NHSD_ERR_NOERROR_def NHSD_ERR_NOINIT_def NHSD_ERR_TIMEOUT_def NHSD_ERR_INVALID_MBR_def
  NHSD_ERR_PART_NOT_FOUND_def NHSD_ERR_READERROR_def NHSD_ERR_FILE_NOT_OPEN_def
  NHSD_ERR_DIR_NOT_OPEN_def NHSD_ERR_ALREADY_OPEN_def NHSD_ERR_EOF_def

definition PEEK :: "'d sd_device \<Rightarrow> u32 \<Rightarrow> ('d, u8) sd_prog" where
  "PEEK dev a = State (\<lambda>s. let (v, h) = dev_peek dev a (hw s) in (v, s\<lparr>hw := h\<rparr>))"

definition POKE :: "'d sd_device \<Rightarrow> u32 \<Rightarrow> u8 \<Rightarrow> ('d, unit) sd_prog" where
  "POKE dev a v = modify (\<lambda>s. s\<lparr>hw := dev_poke dev a v (hw s)\<rparr>)"

definition go_wild :: "('d, unit) sd_prog" where
  "go_wild = modify (\<lambda>s. s\<lparr>wild := True\<rparr>)"

definition set_state :: "u8 \<Rightarrow> ('d, unit) sd_prog" where
  "set_state v = modify (\<lambda>s. s\<lparr>nhsd_init_state := v\<rparr>)"

definition add_state :: "u8 \<Rightarrow> ('d, unit) sd_prog" where
  "add_state v = modify (\<lambda>s. s\<lparr>nhsd_init_state := nhsd_init_state s OR v\<rparr>)"

text \<open>\<open>nhsd_buffer[i]\<close>, and little endian numbers in the buffer.\<close>

definition buf :: "nat \<Rightarrow> ('d, u8) sd_prog" where
  "buf i = do {
     b \<leftarrow> gets nhsd_buffer;
     (case b of None \<Rightarrow> do { go_wild; return 0 }
      | Some bs \<Rightarrow> if i < length bs then return (bs ! i) else do { go_wild; return 0 })
   }"

definition le32 :: "u8 \<Rightarrow> u8 \<Rightarrow> u8 \<Rightarrow> u8 \<Rightarrow> u32" where
  "le32 b0 b1 b2 b3 =
    ucast b0 OR push_bit 8 (ucast b1) OR push_bit 16 (ucast b2) OR push_bit 24 (ucast b3)"

definition buf32 :: "nat \<Rightarrow> ('d, u32) sd_prog" where
  "buf32 i = do {
     b0 \<leftarrow> buf i; b1 \<leftarrow> buf (i + 1); b2 \<leftarrow> buf (i + 2); b3 \<leftarrow> buf (i + 3);
     return (le32 b0 b1 b2 b3)
   }"

section \<open>The card\<close>

text \<open>The loop that waits for the end of a reset; \<open>False\<close> is the timeout.\<close>

fun reset_wait :: "'d sd_device \<Rightarrow> nat \<Rightarrow> ('d, bool) sd_prog" where
  "reset_wait dev 0 = return False"
| "reset_wait dev (Suc n) = do {
     v \<leftarrow> PEEK dev NHSD_CTRL;
     if v AND 3 = 0 then return True else if n = 0 then return False else reset_wait dev n
   }"

definition nhsd_reset :: "'d sd_device \<Rightarrow> u8 \<Rightarrow> ('d, u8) sd_prog" where
  "nhsd_reset dev bus = do {
     POKE dev NHSD_CTRL (0xc0 OR bus);
     POKE dev NHSD_CTRL 0x40;
     POKE dev NHSD_CTRL 0;
     POKE dev NHSD_CTRL 1;
     ok \<leftarrow> reset_wait dev 100000;
     if \<not> ok then return NHSD_ERR_TIMEOUT
     else do { POKE dev NHSD_CTRL 0x41; return NHSD_ERR_NOERROR }
   }"

text \<open>The two loops that wait for the card; \<open>False\<close> is the jump to \<open>retry\<close>.\<close>

fun ready_wait :: "'d sd_device \<Rightarrow> nat \<Rightarrow> ('d, bool) sd_prog" where
  "ready_wait dev 0 = return False"
| "ready_wait dev (Suc n) = do {
     v \<leftarrow> PEEK dev NHSD_CTRL;
     if v AND 0x3 = 0 then return True
     else if n = 0 then return False
     else do {
       e \<leftarrow> PEEK dev NHSD_CTRL;
       if e AND 0x40 \<noteq> 0 then return False
       else do {
         b \<leftarrow> PEEK dev NHSD_CTRL;
         if b = 0x01 then return False else ready_wait dev n
       }
     }
   }"

definition copy_sector :: "'d sd_device \<Rightarrow> ('d, unit) sd_prog" where
  "copy_sector dev = do {
     b \<leftarrow> gets nhsd_buffer;
     (if b = None then go_wild
      else modify (\<lambda>s. s\<lparr>nhsd_buffer := Some (map (dev_sector dev (hw s)) [0..<512])\<rparr>))
   }"

fun read_tries :: "'d sd_device \<Rightarrow> nat \<Rightarrow> ('d, u8) sd_prog" where
  "read_tries dev 0 = return NHSD_ERR_READERROR"
| "read_tries dev (Suc k) = do {
     ready \<leftarrow> ready_wait dev 50000;
     done \<leftarrow> (if ready then do { POKE dev NHSD_CTRL 2; ready_wait dev 50000 } else return False);
     good \<leftarrow> (if done then do { v \<leftarrow> PEEK dev NHSD_CTRL; return (v AND 0x67 = 0) } else return False);
     if good then do { copy_sector dev; return NHSD_ERR_NOERROR }
     else do {
       POKE dev 0xD020 7;
       st \<leftarrow> gets nhsd_init_state;
       r \<leftarrow> nhsd_reset dev (st AND NHSD_INIT_BUSMASK);
       if r \<noteq> 0 then return NHSD_ERR_TIMEOUT
       else do { POKE dev 0xD020 0; read_tries dev k }
     }
   }"

definition nhsd_readsector :: "'d sd_device \<Rightarrow> u32 \<Rightarrow> ('d, u8) sd_prog" where
  "nhsd_readsector dev sector_address = do {
     POKE dev (NHSD_ADDR + 0) (ucast (drop_bit 0 sector_address AND 0xff));
     POKE dev (NHSD_ADDR + 1) (ucast (drop_bit 8 sector_address AND 0xff));
     POKE dev (NHSD_ADDR + 2) (ucast (drop_bit 16 sector_address AND 0xff));
     POKE dev (NHSD_ADDR + 3) (ucast (drop_bit 24 sector_address AND 0xff));
     read_tries dev 10
   }"

section \<open>The file system\<close>

text \<open>The exits of \<open>nhsd_init\<close> that give the buffer up.\<close>

definition init_fail :: "u8 \<Rightarrow> ('d, u8) sd_prog" where
  "init_fail e = do {
     modify (\<lambda>s. s\<lparr>nhsd_buffer := None\<rparr>);
     set_state 0;
     return e
   }"

text \<open>The loop over the partition table from entry \<open>p\<close> on: the offset of the first FAT32 entry.\<close>

fun find_partition :: "nat \<Rightarrow> nat \<Rightarrow> ('d, nat option) sd_prog" where
  "find_partition 0 p = return None"
| "find_partition (Suc k) p = do {
     let offset = 0x1be + push_bit 4 p;
     part_id \<leftarrow> buf (offset + 4);
     if part_id = 0x0c \<or> part_id = 0x0b then return (Some offset) else find_partition k (Suc p)
   }"

definition init_fat :: "'d sd_device \<Rightarrow> nat \<Rightarrow> ('d, u8) sd_prog" where
  "init_fat dev offset = do {
     a \<leftarrow> buf32 (offset + 8);
     b \<leftarrow> buf32 (offset + 12);
     modify (\<lambda>s. s\<lparr>nhsd_part_start := a, nhsd_part_end := b\<rparr>);
     add_state NHSD_INIT_PART;
     p \<leftarrow> nhsd_readsector dev a;
     if p \<noteq> 0 then init_fail p
     else do {
       spc \<leftarrow> buf 0x0d;
       r0 \<leftarrow> buf 0x0e;
       r1 \<leftarrow> buf 0x0f;
       dat \<leftarrow> buf32 0x20;
       fat \<leftarrow> buf32 0x24;
       modify (\<lambda>s. s\<lparr>sectors_per_cluster := spc,
         reserved_sectors := (reserved_sectors s AND 0xffff0000) OR le32 r0 r1 0 0,
         data_sectors := dat, sectors_per_fat := fat\<rparr>);
       modify (\<lambda>s. s\<lparr>cluster2_sector :=
         nhsd_part_start s + reserved_sectors s + sectors_per_fat s + sectors_per_fat s\<rparr>);
       modify (\<lambda>s. s\<lparr>nhsd_current_dir := NHSD_ROOT_INODE\<rparr>);
       add_state NHSD_INIT_FAT;
       return NHSD_ERR_NOERROR
     }
   }"

definition init_bus :: "'d sd_device \<Rightarrow> u8 \<Rightarrow> ('d, bool) sd_prog" where
  "init_bus dev bus = do {
     r \<leftarrow> nhsd_reset dev (bus AND 0x1);
     if r = 0 then do { set_state ((bus AND 0x1) OR NHSD_INIT_SDBUS); return True }
     else if bus AND 0x80 \<noteq> 0 then do {
       r \<leftarrow> nhsd_reset dev ((bus AND 0x1) XOR 0x1);
       if r = 0 then do { set_state (((bus AND 0x1) XOR 0x1) OR NHSD_INIT_SDBUS); return True }
       else return False
     } else return False
   }"

definition nhsd_init :: "'d sd_device \<Rightarrow> u8 \<Rightarrow> u8 list \<Rightarrow> ('d, u8) sd_prog" where
  "nhsd_init dev bus buffer = do {
     set_state 0;
     ok \<leftarrow> init_bus dev bus;
     if \<not> ok then return NHSD_ERR_TIMEOUT
     else do {
       modify (\<lambda>s. s\<lparr>nhsd_buffer := Some buffer\<rparr>);
       p \<leftarrow> nhsd_readsector dev 0;
       if p \<noteq> 0 then init_fail p
       else do {
         b0 \<leftarrow> buf 0x1fe;
         b1 \<leftarrow> buf 0x1ff;
         if b0 \<noteq> 0x55 \<or> b1 \<noteq> 0xAA then init_fail NHSD_ERR_INVALID_MBR
         else do {
           add_state NHSD_INIT_MBR;
           part \<leftarrow> find_partition 4 0;
           (case part of None \<Rightarrow> init_fail NHSD_ERR_PART_NOT_FOUND
            | Some offset \<Rightarrow> init_fat dev offset)
         }
       }
     }
   }"

definition nhsd_fat32_nextcluster :: "'d sd_device \<Rightarrow> u32 \<Rightarrow> ('d, u32) sd_prog" where
  "nhsd_fat32_nextcluster dev cluster = do {
     a \<leftarrow> gets (\<lambda>s. nhsd_part_start s + reserved_sectors s + drop_bit 7 cluster);
     r \<leftarrow> nhsd_readsector dev a;
     if r = 0 then buf32 (unat (push_bit 2 (cluster AND 0x7f))) else return 0xffffffff
   }"

text \<open>The first sector of a cluster.\<close>

definition cluster_sector :: "'d sd \<Rightarrow> u32 \<Rightarrow> u32" where
  "cluster_sector s c = (c - 2) * ucast (sectors_per_cluster s) + cluster2_sector s"

definition nhsd_open_inode :: "u32 \<Rightarrow> u8 \<Rightarrow> ('d, u8) sd_prog" where
  "nhsd_open_inode inode mode = do {
     st \<leftarrow> gets nhsd_init_state;
     if st AND NHSD_INIT_INITMASK \<noteq> NHSD_INIT_INITMASK then return NHSD_ERR_NOINIT
     else if st AND NHSD_INIT_OPENMASK \<noteq> 0 then return NHSD_ERR_ALREADY_OPEN
     else do {
       modify (\<lambda>s. s\<lparr>open_pos :=
         \<lparr>pos_cluster = inode, pos_sector = cluster_sector s inode, sector_in_cluster = 0\<rparr>\<rparr>);
       add_state (mode AND NHSD_INIT_OPENMASK);
       return NHSD_ERR_NOERROR
     }
   }"

definition nhsd_read :: "'d sd_device \<Rightarrow> ('d, u8) sd_prog" where
  "nhsd_read dev = do {
     the_sector \<leftarrow> gets (\<lambda>s. pos_sector (open_pos s));
     st \<leftarrow> gets nhsd_init_state;
     if st AND NHSD_INIT_OPENMASK = 0 then return NHSD_ERR_FILE_NOT_OPEN
     else do {
       c \<leftarrow> gets (\<lambda>s. pos_cluster (open_pos s));
       if c = 0 then return NHSD_ERR_EOF
       else do {
         modify (\<lambda>s. s\<lparr>open_pos := (open_pos s)\<lparr>
           sector_in_cluster := sector_in_cluster (open_pos s) + 1,
           pos_sector := pos_sector (open_pos s) + 1\<rparr>\<rparr>);
         n \<leftarrow> gets (\<lambda>s. sector_in_cluster (open_pos s));
         spc \<leftarrow> gets sectors_per_cluster;
         (if n \<ge> spc then do {
            modify (\<lambda>s. s\<lparr>open_pos := (open_pos s)\<lparr>sector_in_cluster := 0\<rparr>\<rparr>);
            next_c \<leftarrow> nhsd_fat32_nextcluster dev c;
            let next_c = (if next_c \<ge> 0x0ffffff0 \<or> next_c = 0 then 0 else next_c);
            modify (\<lambda>s. s\<lparr>open_pos := (open_pos s)\<lparr>pos_cluster := next_c,
              pos_sector := cluster_sector s next_c\<rparr>\<rparr>)
          } else return ());
         nhsd_readsector dev the_sector
       }
     }
   }"

definition nhsd_close :: "('d, u8) sd_prog" where
  "nhsd_close = do {
     st \<leftarrow> gets nhsd_init_state;
     if st AND NHSD_INIT_INITMASK \<noteq> NHSD_INIT_INITMASK then return NHSD_ERR_NOINIT
     else if st AND NHSD_INIT_OPENMASK = 0 then return NHSD_ERR_FILE_NOT_OPEN
     else do { set_state (st AND (0xff XOR NHSD_INIT_OPENMASK)); return NHSD_ERR_NOERROR }
   }"

section \<open>Directories\<close>

definition nhsd_opendir :: "('d, u8) sd_prog" where
  "nhsd_opendir = do {
     d \<leftarrow> gets nhsd_current_dir;
     err \<leftarrow> nhsd_open_inode d NHSD_INIT_OPENDIR;
     if err \<noteq> 0 then return err
     else do { modify (\<lambda>s. s\<lparr>open_offset_in_sector := 512\<rparr>); return NHSD_ERR_NOERROR }
   }"

definition nhsd_dir_next_entry :: "'d sd_device \<Rightarrow> ('d, u8) sd_prog" where
  "nhsd_dir_next_entry dev = do {
     modify (\<lambda>s. s\<lparr>open_offset_in_sector := open_offset_in_sector s + 0x20\<rparr>);
     o1 \<leftarrow> gets open_offset_in_sector;
     if o1 < 512 then return NHSD_ERR_NOERROR
     else do {
       err \<leftarrow> nhsd_read dev;
       if err \<noteq> 0 then return err
       else do { modify (\<lambda>s. s\<lparr>open_offset_in_sector := 0\<rparr>); return NHSD_ERR_NOERROR }
     }
   }"

text \<open>\<open>dirent_data[i]\<close>, and stores to \<open>nhsd_dirent.d_name\<close>, which has 256 elements.\<close>

definition ent :: "nat \<Rightarrow> ('d, u8) sd_prog" where
  "ent i = do { o1 \<leftarrow> gets open_offset_in_sector; buf (unat o1 + i) }"

definition put_name :: "int \<Rightarrow> u8 \<Rightarrow> ('d, unit) sd_prog" where
  "put_name i c =
    (if 0 \<le> i \<and> i < 256
     then modify (\<lambda>s. s\<lparr>nhsd_dirent := (nhsd_dirent s)\<lparr>d_name := (d_name (nhsd_dirent s))(nat i := c)\<rparr>\<rparr>)
     else go_wild)"

definition get_name :: "int \<Rightarrow> ('d, u8) sd_prog" where
  "get_name i = gets (\<lambda>s. d_name (nhsd_dirent s) (nat i))"

fun nhsd_copy_to_dnamechunk :: "int \<Rightarrow> nat \<Rightarrow> nat \<Rightarrow> ('d, unit) sd_prog" where
  "nhsd_copy_to_dnamechunk dname offset 0 = return ()"
| "nhsd_copy_to_dnamechunk dname offset (Suc n) = do {
     c \<leftarrow> ent offset;
     put_name dname c;
     nhsd_copy_to_dnamechunk (dname + 1) (offset + 2) n
   }"

definition nhsd_copy_vfat_chars_into_dname :: "int \<Rightarrow> ('d, unit) sd_prog" where
  "nhsd_copy_vfat_chars_into_dname seqnumber = do {
     let dname = 13 * (seqnumber - 1);
     nhsd_copy_to_dnamechunk dname 0x01 5;
     let dname = dname + 5;
     nhsd_copy_to_dnamechunk dname 0x0e 6;
     let dname = dname + 6;
     nhsd_copy_to_dnamechunk dname 0x1c 2
   }"

text \<open>The part of a long name that the current entry holds; the result is \<open>seqnumber\<close>.\<close>

definition vfat_part :: "u8 \<Rightarrow> ('d, u8) sd_prog" where
  "vfat_part d0 = do {
     let seqnumber = d0 AND 0x1f;
     (if d0 AND 0x40 \<noteq> 0 \<or> seqnumber = 19 then put_name (uint seqnumber * 13) 0 else return ());
     (if seqnumber < 20 then nhsd_copy_vfat_chars_into_dname (uint seqnumber) else return ());
     return seqnumber
   }"

text \<open>
  The loop over the entries of a long name: the error, \<open>vfatFlag\<close> and \<open>seqnumber\<close> behind it.
  \<open>fu\<close> bounds the number of entries; \<open>None\<close> says that it did not suffice.
\<close>

fun vfat_loop :: "'d sd_device \<Rightarrow> nat \<Rightarrow> u8 \<Rightarrow> u8 \<Rightarrow> ('d, (u8 \<times> u8 \<times> u8) option) sd_prog" where
  "vfat_loop dev 0 vfatFlag seqnumber = return None"
| "vfat_loop dev (Suc fu) vfatFlag seqnumber = do {
     d0 \<leftarrow> ent 0;
     let vfatFlag = (if d0 = 0xe5 then vfatFlag OR 0x80 else vfatFlag);
     seqnumber \<leftarrow> (if vfatFlag AND 0x80 = 0 then vfat_part d0 else return seqnumber);
     err \<leftarrow> nhsd_dir_next_entry dev;
     if err \<noteq> 0 then return (Some (err, vfatFlag, seqnumber))
     else do {
       attr \<leftarrow> ent 0x0b;
       if attr = 0x0f \<and> seqnumber > 1 then vfat_loop dev fu vfatFlag seqnumber
       else return (Some (0, vfatFlag, seqnumber))
     }
   }"

text \<open>The 8.3 name: the loop over its eleven bytes, the dots that are taken off its end.\<close>

fun short_loop :: "nat \<Rightarrow> nat \<Rightarrow> int \<Rightarrow> ('d, int) sd_prog" where
  "short_loop 0 i n = return n"
| "short_loop (Suc k) i n = do {
     c \<leftarrow> ent i;
     n \<leftarrow> (if c \<noteq> 0x20 \<and> c \<noteq> 0 then do { put_name n c; return (n + 1) } else return n);
     n \<leftarrow> (if i = 7 then do { put_name n 0x2e; return (n + 1) } else return n);
     short_loop k (Suc i) n
   }"

fun strip_dots :: "nat \<Rightarrow> ('d, nat) sd_prog" where
  "strip_dots 0 = return 0"
| "strip_dots (Suc n) = do {
     c \<leftarrow> get_name (int n);
     if c = 0x2e then strip_dots n else return (Suc n)
   }"

definition short_name :: "('d, unit) sd_prog" where
  "short_name = do {
     n \<leftarrow> short_loop 11 0 0;
     n \<leftarrow> strip_dots (nat n);
     put_name (int n) 0
   }"

definition take_entry :: "u8 \<Rightarrow> ('d, unit) sd_prog" where
  "take_entry vfatFlag = do {
     i0 \<leftarrow> ent 0x1a; i1 \<leftarrow> ent 0x1b; i2 \<leftarrow> ent 0x14; i3 \<leftarrow> ent 0x15;
     modify (\<lambda>s. s\<lparr>nhsd_dirent := (nhsd_dirent s)\<lparr>d_ino := le32 i0 i1 i2 i3\<rparr>\<rparr>);
     l0 \<leftarrow> ent 0x1c; l1 \<leftarrow> ent 0x1d; l2 \<leftarrow> ent 0x1e; l3 \<leftarrow> ent 0x1f;
     modify (\<lambda>s. s\<lparr>nhsd_dirent := (nhsd_dirent s)\<lparr>d_reclen := le32 l0 l1 l2 l3, d_type := 0\<rparr>\<rparr>);
     if vfatFlag = 0 then short_name else return ()
   }"

text \<open>
  The loop of \<open>nhsd_readdir\<close>. A long name and a short name leave 11 or the last sequence number
  in \<open>seqnumber\<close>, which the next turn starts with.
\<close>

fun readdir_loop :: "'d sd_device \<Rightarrow> nat \<Rightarrow> u8 \<Rightarrow> u8 \<Rightarrow> ('d, u8 option) sd_prog" where
  "readdir_loop dev 0 vfatFlag seqnumber = return None"
| "readdir_loop dev (Suc fu) vfatFlag seqnumber = do {
     err \<leftarrow> nhsd_dir_next_entry dev;
     if err \<noteq> 0 then return (Some err)
     else do {
       attr \<leftarrow> ent 0x0b;
       r \<leftarrow> (if attr = 0x0f then vfat_loop dev fu 1 seqnumber
             else return (Some (0, vfatFlag, seqnumber)));
       (case r of
          None \<Rightarrow> return None
        | Some (err, vfatFlag, seqnumber) \<Rightarrow>
            if err \<noteq> 0 then return (Some err)
            else do {
              d0 \<leftarrow> ent 0;
              c0 \<leftarrow> get_name 0;
              if vfatFlag AND 0x80 \<noteq> 0 \<or> d0 = 0xe5 \<or> d0 = 0x7e \<or> d0 = 0x5f \<or> vfatFlag \<noteq> 0 \<and> c0 = 0x2e
              then do { put_name 0 0; readdir_loop dev fu 0 seqnumber }
              else do {
                take_entry vfatFlag;
                c0 \<leftarrow> get_name 0;
                if c0 \<noteq> 0 then return (Some NHSD_ERR_NOERROR)
                else readdir_loop dev fu vfatFlag (if vfatFlag = 0 then 11 else seqnumber)
              }
            })
     }
   }"

text \<open>\<open>seqnumber\<close> is not initialised: \<open>junk\<close> is its first value.\<close>

definition nhsd_readdir :: "'d sd_device \<Rightarrow> nat \<Rightarrow> u8 \<Rightarrow> ('d, u8 option) sd_prog" where
  "nhsd_readdir dev fu junk = do {
     st \<leftarrow> gets nhsd_init_state;
     if st AND NHSD_INIT_OPENMASK \<noteq> NHSD_INIT_OPENDIR then return (Some NHSD_ERR_DIR_NOT_OPEN)
     else readdir_loop dev fu 0 junk
   }"

text \<open>The name found, as the string up to its zero byte.\<close>

definition name_string :: "(nat \<Rightarrow> u8) \<Rightarrow> u8 list" where
  "name_string f = takeWhile (\<lambda>c. c \<noteq> 0) (map f [0..<256])"

fun find_loop :: "'d sd_device \<Rightarrow> nat \<Rightarrow> nat \<Rightarrow> u8 \<Rightarrow> u8 list \<Rightarrow> ('d, u8 option) sd_prog" where
  "find_loop dev 0 fu junk filename = return None"
| "find_loop dev (Suc k) fu junk filename = do {
     r \<leftarrow> nhsd_readdir dev fu junk;
     (case r of None \<Rightarrow> return None
      | Some err \<Rightarrow>
          if err \<noteq> 0 then return (Some err)
          else do {
            n \<leftarrow> gets (\<lambda>s. name_string (d_name (nhsd_dirent s)));
            if n = filename then return (Some 0) else find_loop dev k fu junk filename
          })
   }"

definition nhsd_findfile :: "'d sd_device \<Rightarrow> nat \<Rightarrow> u8 \<Rightarrow> u8 list \<Rightarrow> ('d, u8 option) sd_prog" where
  "nhsd_findfile dev fu junk filename = do {
     st \<leftarrow> gets nhsd_init_state;
     if st AND NHSD_INIT_INITMASK \<noteq> NHSD_INIT_INITMASK then return (Some NHSD_ERR_NOINIT)
     else do {
       err \<leftarrow> nhsd_opendir;
       if err \<noteq> 0 then return (Some err)
       else do {
         r \<leftarrow> find_loop dev fu fu junk filename;
         (case r of None \<Rightarrow> return None | Some err \<Rightarrow> do { nhsd_close; return (Some err) })
       }
     }
   }"

end
