(* ===== verification/SdcardLaws.thy ===== *)
theory SdcardLaws
  imports Sdcard
begin

text \<open>
  Properties of the SD card and FAT32 reader: what reading a sector can do on any hardware, what
  a read file consists of on a card that works, and how a card is recognised.
\<close>

section \<open>Reading a sector\<close>

text \<open>
  Only the hardware is touched: the relation of the waiting loops and of a reset.
\<close>

definition only_hw :: "'d sd \<Rightarrow> 'd sd \<Rightarrow> bool" where
  "only_hw s t \<longleftrightarrow> (\<exists>h. t = s\<lparr>hw := h\<rparr>)"

lemma only_hwI: "only_hw s (s\<lparr>hw := h\<rparr>)"
  by (auto simp: only_hw_def)

lemma only_hwE:
  assumes "only_hw s t"
  obtains h where "t = s\<lparr>hw := h\<rparr>"
  using assms unfolding only_hw_def by blast

interpretation touching: stable_rel only_hw
proof unfold_locales
  fix s t u :: "'a sd"
  show "only_hw s s" using only_hwI [of s "hw s"] by simp
  assume "only_hw s t" "only_hw t u"
  then show "only_hw s u" by (elim only_hwE) (simp add: only_hwI)
qed

lemma touching_PEEK: "obeys only_hw (PEEK dev a)"
  by (simp add: obeys_def PEEK_def state_after_def only_hwI split: prod.split)

lemma touching_POKE: "obeys only_hw (POKE dev a v)"
  by (simp add: obeys_def POKE_def only_hwI)

lemmas touching_steps = touching.obeys_basic touching_PEEK touching_POKE

lemma touching_reset_wait: "obeys only_hw (reset_wait dev n)"
  by (induction n) (auto intro!: touching_steps)

lemma touching_ready_wait: "obeys only_hw (ready_wait dev n)"
  by (induction n) (auto intro!: touching_steps)

lemma touching_reset: "obeys only_hw (nhsd_reset dev bus)"
  unfolding nhsd_reset_def by (intro touching_steps touching_reset_wait)

lemma reset_result: "result_of (nhsd_reset dev bus) s \<in> {NHSD_ERR_NOERROR, NHSD_ERR_TIMEOUT}"
  by (simp add: nhsd_reset_def)

text \<open>What reading a sector leaves behind, with the result \<open>r\<close>.\<close>

definition sector_outcome :: "'d sd_device \<Rightarrow> 'd sd \<Rightarrow> u8 \<Rightarrow> 'd sd \<Rightarrow> bool" where
  "sector_outcome dev s r t \<longleftrightarrow>
    r \<in> {NHSD_ERR_NOERROR, NHSD_ERR_TIMEOUT, NHSD_ERR_READERROR} \<and>
    (\<exists>h. t = s\<lparr>hw := h,
       nhsd_buffer := (if r = NHSD_ERR_NOERROR
         then map_option (\<lambda>_. map (dev_sector dev h) [0..<512]) (nhsd_buffer s) else nhsd_buffer s),
       wild := (wild s \<or> r = NHSD_ERR_NOERROR \<and> nhsd_buffer s = None)\<rparr>)"

lemma sector_outcome_hw:
  "only_hw s s' \<Longrightarrow> sector_outcome dev s' r t \<Longrightarrow> sector_outcome dev s r t"
  by (elim only_hwE) (cases "r = NHSD_ERR_NOERROR"; auto simp: sector_outcome_def)

lemma sector_outcome_fail:
  "r \<in> {NHSD_ERR_TIMEOUT, NHSD_ERR_READERROR} \<Longrightarrow> only_hw s t \<Longrightarrow> sector_outcome dev s r t"
  unfolding only_hw_def sector_outcome_def by (elim exE insertE) (auto simp: sd_errors)

lemma sector_outcome_copy:
  "sector_outcome dev s NHSD_ERR_NOERROR (state_after (copy_sector dev) s)"
  by (cases "nhsd_buffer s") (auto simp: sector_outcome_def copy_sector_def go_wild_def intro: exI [of _ "hw s"])

lemma touching_attempt:
  "obeys only_hw (if b then do { POKE dev NHSD_CTRL 2; ready_wait dev 50000 } else return False)"
  by (intro touching_steps touching_ready_wait)

lemma read_tries_outcome:
  "sector_outcome dev s (result_of (read_tries dev k) s) (state_after (read_tries dev k) s)"
proof (induction k arbitrary: s)
  case 0
  show ?case by (simp add: sector_outcome_fail touching.rel_refl)
next
  case (Suc k)
  define good where "good = do {
     ready \<leftarrow> ready_wait dev 50000;
     done \<leftarrow> (if ready then do { POKE dev NHSD_CTRL 2; ready_wait dev 50000 } else return False);
     (if done then do { v \<leftarrow> PEEK dev NHSD_CTRL; return (v AND 0x67 = 0) } else return False) }"
  define retry where "retry = do {
       POKE dev 0xD020 7;
       st \<leftarrow> gets nhsd_init_state;
       nhsd_reset dev (st AND NHSD_INIT_BUSMASK) }"
  have good: "obeys only_hw good"
    unfolding good_def by (intro touching_steps touching_ready_wait)
  have retry: "obeys only_hw retry"
    unfolding retry_def by (intro touching_steps touching_reset)
  let ?s1 = "state_after good s" and ?s2 = "state_after retry (state_after good s)"
  have s1: "only_hw s ?s1" by (rule obeysD [OF good])
  have s2: "only_hw s ?s2" by (rule touching.rel_trans [OF s1 obeysD [OF retry]])
  have s3: "only_hw s (state_after (POKE dev 0xD020 0) ?s2)"
    by (rule touching.rel_trans [OF s2 obeysD [OF touching_POKE]])
  have unfold: "read_tries dev (Suc k) = do {
     g \<leftarrow> good;
     if g then do { copy_sector dev; return NHSD_ERR_NOERROR }
     else do {
       r \<leftarrow> retry;
       if r \<noteq> 0 then return NHSD_ERR_TIMEOUT
       else do { POKE dev 0xD020 0; read_tries dev k } } }"
    by (simp add: good_def retry_def cong: if_cong)
  show ?case
    unfolding unfold
    using s1 s2 sector_outcome_hw [OF s1 sector_outcome_copy] sector_outcome_hw [OF s3 Suc.IH]
    by (simp add: sector_outcome_fail)
qed

lemma readsector_effect:
  "sector_outcome dev s (result_of (nhsd_readsector dev a) s) (state_after (nhsd_readsector dev a) s)"
proof -
  let ?p = "do {
     POKE dev (NHSD_ADDR + 0) (ucast (drop_bit 0 a AND 0xff));
     POKE dev (NHSD_ADDR + 1) (ucast (drop_bit 8 a AND 0xff));
     POKE dev (NHSD_ADDR + 2) (ucast (drop_bit 16 a AND 0xff));
     POKE dev (NHSD_ADDR + 3) (ucast (drop_bit 24 a AND 0xff)) }"
  have "obeys only_hw ?p" by (intro touching_steps)
  then have "only_hw s (state_after ?p s)" by (rule obeysD)
  then have "sector_outcome dev s (result_of (read_tries dev 10) (state_after ?p s))
      (state_after (read_tries dev 10) (state_after ?p s))"
    by (rule sector_outcome_hw) (rule read_tries_outcome)
  then show ?thesis by (simp add: nhsd_readsector_def)
qed

section \<open>Waiting for the controller\<close>

text \<open>
  \<open>settles dev b n Q h\<close>: from the state \<open>h\<close> the controller comes to a state in \<open>Q\<close> when its status register
  is read, at most \<open>n\<close> times, and up to then every status that is read satisfies \<open>b\<close>.
\<close>

fun settles :: "'d sd_device \<Rightarrow> (u8 \<Rightarrow> bool) \<Rightarrow> nat \<Rightarrow> ('d \<Rightarrow> bool) \<Rightarrow> 'd \<Rightarrow> bool" where
  "settles dev b 0 Q h \<longleftrightarrow> Q h"
| "settles dev b (Suc n) Q h \<longleftrightarrow>
    Q h \<or> (case dev_peek dev NHSD_CTRL h of (v, h') \<Rightarrow> b v \<and> settles dev b n Q h')"

text \<open>
  The status while the controller works on a command: one of the two busy bits is set, the error bit is
  not, and another bit is set besides bit 0 (bit 4 is when an SDHC card is in use).
\<close>

definition busy :: "u8 \<Rightarrow> bool" where
  "busy v \<longleftrightarrow> v AND 3 \<noteq> 0 \<and> v AND 0x40 = 0 \<and> v \<noteq> 1"

text \<open>A set of states that reading the status does not leave, with the status there.\<close>

definition steady :: "'d sd_device \<Rightarrow> (u8 \<Rightarrow> bool) \<Rightarrow> ('d \<Rightarrow> bool) \<Rightarrow> bool" where
  "steady dev c Q \<longleftrightarrow> (\<forall>h. Q h \<longrightarrow> (case dev_peek dev NHSD_CTRL h of (v, h') \<Rightarrow> c v \<and> Q h'))"

lemma steadyD:
  assumes "steady dev c Q" and "Q h" and "dev_peek dev NHSD_CTRL h = (v, h')"
  shows "c v \<and> Q h'"
  using assms(1) [unfolded steady_def, rule_format, OF assms(2)] by (simp add: assms(3))

lemma settles_now: "Q h \<Longrightarrow> settles dev b n Q h"
  by (cases n) simp_all

lemma settles_peek:
  assumes "steady dev c Q" and "settles dev b n Q h" and "dev_peek dev NHSD_CTRL h = (v, h')"
  obtains (there) "c v" "Q h'" "settles dev b (n - 1) Q h'" | (coming) "0 < n" "b v" "settles dev b (n - 1) Q h'"
proof (cases "Q h")
  case True
  from steadyD [OF assms(1) True assms(3)] show thesis by (intro there settles_now) simp_all
next
  case False
  with assms(2,3) show thesis by (cases n) (auto intro: coming)
qed

lemma run_PEEK:
  "result_of (PEEK dev a) s = fst (dev_peek dev a (hw s))"
  "state_after (PEEK dev a) s = s\<lparr>hw := snd (dev_peek dev a (hw s))\<rparr>"
  by (simp_all add: PEEK_def result_of_def state_after_def split: prod.split)

lemma idle_bits: "(v :: u8) AND 0x67 = 0 \<Longrightarrow> v AND 3 = 0 \<and> v AND 0x40 = 0 \<and> v \<noteq> 1"
proof -
  assume v: "v AND 0x67 = 0"
  have "v AND 3 = (v AND 0x67) AND 3" "v AND 0x40 = (v AND 0x67) AND 0x40" by (simp_all add: and.assoc)
  with v show ?thesis by auto
qed

text \<open>The two loops that wait, when the controller becomes idle, and when it reports an error.\<close>

lemma ready_wait_idle:
  assumes "steady dev (\<lambda>v. v AND 0x67 = 0) Q"
  shows "settles dev busy n Q (hw s) \<Longrightarrow> n < m \<Longrightarrow>
    \<exists>h. result_of (ready_wait dev m) s \<and> state_after (ready_wait dev m) s = s\<lparr>hw := h\<rparr> \<and> Q h"
proof (induction m arbitrary: n s)
  case (Suc m)
  obtain v h1 where v: "dev_peek dev NHSD_CTRL (hw s) = (v, h1)" by fastforce
  obtain e h2 where e: "dev_peek dev NHSD_CTRL h1 = (e, h2)" by fastforce
  obtain w h3 where w: "dev_peek dev NHSD_CTRL h2 = (w, h3)" by fastforce
  show ?case
  proof (rule settles_peek [OF assms Suc.prems(1) v], goal_cases)
    case there: 1
    then show ?case using v idle_bits by (auto simp: run_PEEK intro!: exI [of _ h1])
  next
    case coming: 2
    have e': "e AND 0x40 = 0" "settles dev busy (n - 1 - 1) Q h2"
      using settles_peek [OF assms coming(3) e] idle_bits unfolding busy_def by blast+
    have w': "w \<noteq> 1" "settles dev busy (n - 1 - 1 - 1) Q h3"
      using settles_peek [OF assms e'(2) w] idle_bits unfolding busy_def by blast+
    have "n - 1 - 1 - 1 < m" "m \<noteq> 0" "v AND 3 \<noteq> 0"
      using Suc.prems(2) coming(1,2) by (auto simp: busy_def)
    moreover obtain h where "result_of (ready_wait dev m) (s\<lparr>hw := h3\<rparr>)"
      "state_after (ready_wait dev m) (s\<lparr>hw := h3\<rparr>) = s\<lparr>hw := h\<rparr>" "Q h"
      using Suc.IH [of "n - 1 - 1 - 1" "s\<lparr>hw := h3\<rparr>"] w'(2) calculation(1) by auto
    ultimately show ?case using v e w e'(1) w'(1) by (auto simp: run_PEEK)
  qed
qed simp

lemma ready_wait_fails:
  assumes "steady dev (\<lambda>v. v AND 0x40 \<noteq> 0) Q"
  shows "settles dev busy n Q (hw s) \<Longrightarrow> n < m \<Longrightarrow>
    \<exists>h. state_after (ready_wait dev m) s = s\<lparr>hw := h\<rparr> \<and> Q h"
proof (induction m arbitrary: n s)
  case (Suc m)
  obtain v h1 where v: "dev_peek dev NHSD_CTRL (hw s) = (v, h1)" by fastforce
  obtain e h2 where e: "dev_peek dev NHSD_CTRL h1 = (e, h2)" by fastforce
  obtain w h3 where w: "dev_peek dev NHSD_CTRL h2 = (w, h3)" by fastforce
  show ?case
  proof (rule settles_peek [OF assms Suc.prems(1) v], goal_cases)
    case there: 1
    then have "e AND 0x40 \<noteq> 0" "Q h2" using steadyD [OF assms _ e] by blast+
    then show ?case using there v e by (auto simp: run_PEEK)
  next
    case coming: 2
    show ?case
    proof (rule settles_peek [OF assms coming(3) e], goal_cases)
      case there: 1
      then show ?case using coming v e Suc.prems(2) by (auto simp: run_PEEK busy_def)
    next
      case more: 2
      have w': "w \<noteq> 1 \<and> settles dev busy (n - 1 - 1 - 1) Q h3"
        by (rule settles_peek [OF assms more(3) w]) (auto simp: busy_def [of w])
      have "n - 1 - 1 - 1 < m" "m \<noteq> 0" "v AND 3 \<noteq> 0" "e AND 0x40 = 0"
        using Suc.prems(2) coming(1,2) more(2) by (auto simp: busy_def)
      moreover obtain h where "state_after (ready_wait dev m) (s\<lparr>hw := h3\<rparr>) = s\<lparr>hw := h\<rparr>" "Q h"
        using Suc.IH [of "n - 1 - 1 - 1" "s\<lparr>hw := h3\<rparr>"] w' calculation(1) by auto
      ultimately show ?case using v e w w' by (auto simp: run_PEEK)
    qed
  qed
qed simp

lemma reset_wait_idle:
  assumes "steady dev (\<lambda>v. v AND 0x67 = 0) Q"
  shows "settles dev (\<lambda>v. v AND 3 \<noteq> 0) n Q (hw s) \<Longrightarrow> n < m \<Longrightarrow>
    \<exists>h. result_of (reset_wait dev m) s \<and> state_after (reset_wait dev m) s = s\<lparr>hw := h\<rparr> \<and> Q h"
proof (induction m arbitrary: n s)
  case (Suc m)
  obtain v h1 where v: "dev_peek dev NHSD_CTRL (hw s) = (v, h1)" by fastforce
  show ?case
  proof (rule settles_peek [OF assms Suc.prems(1) v], goal_cases)
    case 1
    then show ?case using v idle_bits by (auto simp: run_PEEK intro!: exI [of _ h1])
  next
    case coming: 2
    then have "n - 1 < m" "m \<noteq> 0" using Suc.prems(2) by auto
    moreover obtain h where "result_of (reset_wait dev m) (s\<lparr>hw := h1\<rparr>)"
      "state_after (reset_wait dev m) (s\<lparr>hw := h1\<rparr>) = s\<lparr>hw := h\<rparr>" "Q h"
      using Suc.IH [of "n - 1" "s\<lparr>hw := h1\<rparr>"] coming(3) calculation(1) by auto
    ultimately show ?case using v coming(2) by (auto simp: run_PEEK)
  qed
qed simp

section \<open>A card that works\<close>

text \<open>
  The documented behaviour of the SD controller with a card whose sector \<open>a\<close> holds the bytes
  \<open>disk a\<close> (\<open>docs/sdcard-and-floppy-drive.md\<close>, \<open>src/vhdl/sdcardio.vhdl\<close>). While it is \<open>ready\<close> for a
  command its status shows neither busy nor error, and the four address registers \<open>reg\<close> keep what is
  stored to them. After the read command it is busy for some time, at most 49999 reads of its status, and
  then it is ready again with the addressed sector in its buffer.
\<close>

definition serves ::
    "'d sd_device \<Rightarrow> ('d \<Rightarrow> bool) \<Rightarrow> ('d \<Rightarrow> nat \<Rightarrow> u8) \<Rightarrow> (u32 \<Rightarrow> nat \<Rightarrow> u8) \<Rightarrow> bool" where
  "serves dev ready reg disk \<longleftrightarrow>
    (\<forall>h. ready h \<longrightarrow> (case dev_peek dev NHSD_CTRL h of (v, h') \<Rightarrow>
       v AND 0x67 = 0 \<and> ready h' \<and> reg h' = reg h \<and> dev_sector dev h' = dev_sector dev h)) \<and>
    (\<forall>h i v. ready h \<longrightarrow> i < 4 \<longrightarrow> ready (dev_poke dev (NHSD_ADDR + of_nat i) v h) \<and>
       reg (dev_poke dev (NHSD_ADDR + of_nat i) v h) = (reg h)(i := v)) \<and>
    (\<forall>h. ready h \<longrightarrow> settles dev busy 49999
       (\<lambda>h'. ready h' \<and> dev_sector dev h' = disk (le32 (reg h 0) (reg h 1) (reg h 2) (reg h 3)))
       (dev_poke dev NHSD_CTRL 2 h))"

text \<open>
  A reset of the card in the slot \<open>bus\<close>: it is busy for at most 99999 reads of its status and then ready,
  whatever its state was before.
\<close>

definition reset_pokes :: "'d sd_device \<Rightarrow> u8 \<Rightarrow> 'd \<Rightarrow> 'd" where
  "reset_pokes dev bus h = dev_poke dev NHSD_CTRL 1 (dev_poke dev NHSD_CTRL 0 (dev_poke dev NHSD_CTRL 0x40
    (dev_poke dev NHSD_CTRL (0xc0 OR bus) h)))"

definition resets :: "'d sd_device \<Rightarrow> ('d \<Rightarrow> bool) \<Rightarrow> u8 \<Rightarrow> bool" where
  "resets dev ready bus \<longleftrightarrow>
    (\<forall>h. settles dev (\<lambda>v. v AND 3 \<noteq> 0) 99999 ready (reset_pokes dev bus h)) \<and>
    (\<forall>h. ready h \<longrightarrow> ready (dev_poke dev NHSD_CTRL 0x41 h))"

text \<open>
  A card of that kind: the address registers, the address of the loaded sector, and for how many reads of
  the status it is still busy: three after a read command, two after a reset.
\<close>

type_synonym card_state = "(nat \<Rightarrow> u8) \<times> u32 \<times> nat"

definition ideal_card :: "(u32 \<Rightarrow> nat \<Rightarrow> u8) \<Rightarrow> card_state sd_device" where
  "ideal_card disk = \<lparr>
     dev_peek = (\<lambda>a (r, l, w). if a = NHSD_CTRL then (if w = 0 then 0x10 else 0x13, r, l, w - 1) else (0, r, l, w)),
     dev_poke = (\<lambda>a v (r, l, w).
       if a = NHSD_CTRL then
         if v = 2 then (r, le32 (r 0) (r 1) (r 2) (r 3), 3) else if v = 1 then (r, l, 2) else (r, l, w)
       else (r(unat (a - NHSD_ADDR) := v), l, w)),
     dev_sector = (\<lambda>(r, l, w). if w = 0 then disk l else (\<lambda>_. 0))\<rparr>"

definition card_idle :: "card_state \<Rightarrow> bool" where
  "card_idle h \<longleftrightarrow> snd (snd h) = 0"

lemma address_registers:
  assumes "i < 4"
  shows "NHSD_ADDR + of_nat i \<noteq> NHSD_CTRL" "unat (of_nat i :: u32) = i"
proof -
  from assms have "i = 0 \<or> i = 1 \<or> i = 2 \<or> i = 3" by arith
  then show "NHSD_ADDR + of_nat i \<noteq> NHSD_CTRL" "unat (of_nat i :: u32) = i"
    by (auto simp: NHSD_ADDR_def NHSD_CTRL_def)
qed

lemma settles_steps:
  "0 < n \<Longrightarrow> dev_peek dev NHSD_CTRL h = (v, h') \<Longrightarrow> b v \<Longrightarrow> settles dev b (n - 1) Q h' \<Longrightarrow> settles dev b n Q h"
  by (cases n) simp_all

lemma ideal_card_settles:
  assumes "b 0x13" and "w \<le> n" and "Q (r, l, 0)"
  shows "settles (ideal_card disk) b n Q (r, l, w)"
  using assms(2)
proof (induction w arbitrary: n)
  case 0
  show ?case using assms(3) by (rule settles_now)
next
  case (Suc w)
  then show ?case
    using assms(1) by (intro settles_steps [of n _ _ "0x13" "(r, l, w)"]) (simp_all add: ideal_card_def)
qed

lemma ideal_card_serves: "serves (ideal_card disk) card_idle fst disk"
proof -
  have "settles (ideal_card disk) busy 49999 (\<lambda>h'. card_idle h' \<and>
      dev_sector (ideal_card disk) h' = disk (le32 (fst h 0) (fst h 1) (fst h 2) (fst h 3)))
      (dev_poke (ideal_card disk) NHSD_CTRL 2 h)" for h :: card_state
  proof -
    obtain r l w where h: "h = (r, l, w)" by (metis surj_pair)
    have "dev_poke (ideal_card disk) NHSD_CTRL 2 h = (r, le32 (r 0) (r 1) (r 2) (r 3), 3)"
      by (simp add: ideal_card_def h)
    moreover have "settles (ideal_card disk) busy 49999 (\<lambda>h'. card_idle h' \<and>
        dev_sector (ideal_card disk) h' = disk (le32 (r 0) (r 1) (r 2) (r 3))) (r, le32 (r 0) (r 1) (r 2) (r 3), 3)"
      by (rule ideal_card_settles) (simp_all add: busy_def card_idle_def ideal_card_def)
    ultimately show ?thesis by (simp add: h)
  qed
  then show ?thesis
    unfolding serves_def using address_registers
    by (intro conjI allI impI) (auto simp: ideal_card_def card_idle_def)
qed

lemma ideal_card_resets: "resets (ideal_card disk) card_idle bus"
proof -
  have "settles (ideal_card disk) (\<lambda>v. v AND 3 \<noteq> 0) 99999 card_idle (reset_pokes (ideal_card disk) bus h)"
    for h :: card_state
  proof -
    let ?p = "dev_poke (ideal_card disk) NHSD_CTRL"
    define h0 where "h0 = ?p (0xc0 OR bus) h"
    obtain r l w where h0: "h0 = (r, l, w)" by (metis surj_pair)
    have "reset_pokes (ideal_card disk) bus h = ?p 1 (?p 0 (?p 0x40 h0))" by (simp add: reset_pokes_def h0_def)
    also have "\<dots> = (r, l, 2)" by (simp add: h0 ideal_card_def)
    finally have "reset_pokes (ideal_card disk) bus h = (r, l, 2)" .
    moreover have "settles (ideal_card disk) (\<lambda>v. v AND 3 \<noteq> 0) 99999 card_idle (r, l, 2)"
      by (rule ideal_card_settles) (simp_all add: card_idle_def)
    ultimately show ?thesis by simp
  qed
  then show ?thesis by (auto simp: resets_def ideal_card_def card_idle_def)
qed

lemma le32_bytes:
  "le32 (ucast a) (ucast (drop_bit 8 a)) (ucast (drop_bit 16 a)) (ucast (drop_bit 24 a)) = (a :: u32)"
proof (rule bit_word_eqI)
  fix n
  assume "n < LENGTH(32)"
  then show "bit (le32 (ucast a) (ucast (drop_bit 8 a)) (ucast (drop_bit 16 a)) (ucast (drop_bit 24 a))) n
      \<longleftrightarrow> bit a n"
    by (cases "n < 8"; cases "n < 16"; cases "n < 24")
      (auto simp: le32_def bit_or_iff bit_push_bit_iff bit_ucast_iff bit_drop_bit_eq possible_bit_def)
qed

lemma ucast_low: "(ucast ((a :: u32) AND 0xff) :: u8) = ucast a"
proof -
  have "(0xff :: u32) = mask 8" by (simp add: mask_eq_exp_minus_1)
  then show ?thesis
    by (intro bit_word_eqI) (simp only: bit_ucast_iff bit_and_iff bit_mask_iff possible_bit_def, auto)
qed

text \<open>A state with the card ready; the sector buffer is there.\<close>

definition on_card :: "('d \<Rightarrow> bool) \<Rightarrow> 'd sd \<Rightarrow> bool" where
  "on_card ready s \<longleftrightarrow> ready (hw s) \<and> nhsd_buffer s \<noteq> None"

lemma serves_steady:
  assumes "serves dev ready reg disk"
  shows "steady dev (\<lambda>v. v AND 0x67 = 0) (\<lambda>h. ready h \<and> reg h = r)"
    and "steady dev (\<lambda>v. v AND 0x67 = 0) (\<lambda>h. ready h \<and> dev_sector dev h = d)"
    and "steady dev (\<lambda>v. v AND 0x67 = 0) ready"
  using assms by (auto simp: serves_def steady_def)

lemma read_tries_served:
  assumes dev: "serves dev ready reg disk" and s: "on_card ready s"
  obtains h where "result_of (read_tries dev (Suc k)) s = 0" "ready h"
    "state_after (read_tries dev (Suc k)) s = s\<lparr>hw := h, nhsd_buffer :=
       Some (map (disk (le32 (reg (hw s) 0) (reg (hw s) 1) (reg (hw s) 2) (reg (hw s) 3))) [0..<512])\<rparr>"
proof -
  let ?d = "disk (le32 (reg (hw s) 0) (reg (hw s) 1) (reg (hw s) 2) (reg (hw s) 3))"
  from s obtain bs where r0: "ready (hw s)" and b: "nhsd_buffer s = Some bs" by (auto simp: on_card_def)
  have "settles dev busy 0 (\<lambda>h. ready h \<and> reg h = reg (hw s)) (hw s)" using r0 by simp
  from ready_wait_idle [OF serves_steady(1) [OF dev] this, of 50000] obtain h1 where h1:
    "result_of (ready_wait dev 50000) s" "state_after (ready_wait dev 50000) s = s\<lparr>hw := h1\<rparr>"
    "ready h1" "reg h1 = reg (hw s)" by auto
  define h2 where "h2 = dev_poke dev NHSD_CTRL 2 h1"
  have "settles dev busy 49999 (\<lambda>h. ready h \<and> dev_sector dev h = ?d) (hw (s\<lparr>hw := h2\<rparr>))"
    using dev [unfolded serves_def, THEN conjunct2, THEN conjunct2, rule_format, OF h1(3)]
    by (simp add: h1(4) h2_def)
  from ready_wait_idle [OF serves_steady(2) [OF dev] this, of 50000] obtain h3 where h3:
    "result_of (ready_wait dev 50000) (s\<lparr>hw := h2\<rparr>)"
    "state_after (ready_wait dev 50000) (s\<lparr>hw := h2\<rparr>) = s\<lparr>hw := h3\<rparr>"
    "ready h3 \<and> dev_sector dev h3 = ?d" by auto
  obtain v h4 where p: "dev_peek dev NHSD_CTRL h3 = (v, h4)" by fastforce
  from steadyD [OF serves_steady(2) [OF dev] h3(3) p]
  have h4: "v AND 0x67 = 0" "ready h4" "dev_sector dev h4 = ?d" by simp_all
  have poke: "state_after (POKE dev NHSD_CTRL 2) (s\<lparr>hw := h1\<rparr>) = s\<lparr>hw := h2\<rparr>"
    by (simp add: POKE_def h2_def)
  show thesis
    using h1(1,2) poke h3(1,2) p h4 b
    by (intro that [of h4]) (simp_all add: copy_sector_def NHSD_ERR_NOERROR_def run_PEEK)
qed

lemma readsector_served:
  assumes dev: "serves dev ready reg disk" and s: "on_card ready s"
  obtains h where "result_of (nhsd_readsector dev a) s = 0" "ready h"
    "state_after (nhsd_readsector dev a) s = s\<lparr>hw := h, nhsd_buffer := Some (map (disk a) [0..<512])\<rparr>"
proof -
  have poke: "ready (dev_poke dev (NHSD_ADDR + n) v h) \<and>
      reg (dev_poke dev (NHSD_ADDR + n) v h) = (reg h)(i := v)" if "ready h" "n = of_nat i" "i < 4" for n i v h
    using dev that by (auto simp: serves_def)
  define h0 where "h0 = dev_poke dev (NHSD_ADDR + 0) (ucast (drop_bit 0 a AND 0xff)) (hw s)"
  define h1 where "h1 = dev_poke dev (NHSD_ADDR + 1) (ucast (drop_bit 8 a AND 0xff)) h0"
  define h2 where "h2 = dev_poke dev (NHSD_ADDR + 2) (ucast (drop_bit 16 a AND 0xff)) h1"
  define h3 where "h3 = dev_poke dev (NHSD_ADDR + 3) (ucast (drop_bit 24 a AND 0xff)) h2"
  have h0: "ready h0" "reg h0 = (reg (hw s))(0 := ucast a)"
    using poke [of "hw s" 0 0] s by (simp_all add: h0_def on_card_def ucast_low)
  have h1: "ready h1" "reg h1 = (reg h0)(1 := ucast (drop_bit 8 a))"
    using poke [of h0 1 1] h0 by (simp_all add: h1_def ucast_low)
  have h2: "ready h2" "reg h2 = (reg h1)(2 := ucast (drop_bit 16 a))"
    using poke [of h1 2 2] h1 by (simp_all add: h2_def ucast_low)
  have h3: "ready h3" "reg h3 = (reg h2)(3 := ucast (drop_bit 24 a))"
    using poke [of h2 3 3] h2 by (simp_all add: h3_def ucast_low)
  from h3 h2 h1 h0 have reg: "le32 (reg h3 0) (reg h3 1) (reg h3 2) (reg h3 3) = a"
    by (simp add: le32_bytes)
  have on: "on_card ready (s\<lparr>hw := h3\<rparr>)" using h3 s by (simp add: on_card_def)
  have parts: "result_of (nhsd_readsector dev a) s = result_of (read_tries dev 10) (s\<lparr>hw := h3\<rparr>)"
    "state_after (nhsd_readsector dev a) s = state_after (read_tries dev 10) (s\<lparr>hw := h3\<rparr>)"
    by (simp_all add: nhsd_readsector_def POKE_def h0_def h1_def h2_def h3_def del: read_tries.simps)
  show thesis
    using read_tries_served [OF dev on, of 9] reg that by (auto simp: parts del: read_tries.simps)
qed

section \<open>Reading a file\<close>

text \<open>
  The entry of a cluster in the file allocation table that starts at sector \<open>fat\<close>, 0 at the end
  of the chain, and the clusters of a file in their order: the chain stays at 0 behind its end.
\<close>

definition fat_next :: "(u32 \<Rightarrow> nat \<Rightarrow> u8) \<Rightarrow> u32 \<Rightarrow> u32 \<Rightarrow> u32" where
  "fat_next disk fat c =
    (let b = disk (fat + drop_bit 7 c); i = unat (push_bit 2 (c AND 0x7f));
         e = le32 (b i) (b (i + 1)) (b (i + 2)) (b (i + 3))
     in if e \<ge> 0x0ffffff0 then 0 else e)"

primrec chain :: "(u32 \<Rightarrow> nat \<Rightarrow> u8) \<Rightarrow> u32 \<Rightarrow> u32 \<Rightarrow> nat \<Rightarrow> u32" where
  "chain disk fat c 0 = c"
| "chain disk fat c (Suc n) = (if chain disk fat c n = 0 then 0 else fat_next disk fat (chain disk fat c n))"

text \<open>The volume: where the table and the clusters are.\<close>

definition fat_start :: "'d sd \<Rightarrow> u32" where
  "fat_start s = nhsd_part_start s + reserved_sectors s"

definition file_sector :: "(u32 \<Rightarrow> nat \<Rightarrow> u8) \<Rightarrow> 'd sd \<Rightarrow> u32 \<Rightarrow> nat \<Rightarrow> u32 option" where
  "file_sector disk s inode k =
    (let spc = unat (sectors_per_cluster s); c = chain disk (fat_start s) inode (k div spc)
     in if c = 0 then None else Some (cluster_sector s c + of_nat (k mod spc)))"

definition expected_read :: "(u32 \<Rightarrow> nat \<Rightarrow> u8) \<Rightarrow> 'd sd \<Rightarrow> u32 \<Rightarrow> nat \<Rightarrow> u8 \<times> u8 list option" where
  "expected_read disk s inode k =
    (case file_sector disk s inode k of
       None \<Rightarrow> (NHSD_ERR_EOF, None)
     | Some a \<Rightarrow> (NHSD_ERR_NOERROR, Some (map (disk a) [0..<512])))"

text \<open>A client that reads \<open>n\<close> times and notes the results and the sectors.\<close>

fun read_sectors :: "'d sd_device \<Rightarrow> nat \<Rightarrow> ('d, (u8 \<times> u8 list option) list) sd_prog" where
  "read_sectors dev 0 = return []"
| "read_sectors dev (Suc n) = do {
     r \<leftarrow> nhsd_read dev;
     b \<leftarrow> gets nhsd_buffer;
     rs \<leftarrow> read_sectors dev n;
     return ((r, if r = 0 then b else None) # rs)
   }"

lemma fat_offset: "unat (push_bit 2 ((c :: u32) AND 0x7f)) + 3 < 512"
  using unat_push_bit_le [of 2 "c AND 0x7f"] unat_and_le [of c "0x7f"] by simp

lemma buf_at:
  assumes "nhsd_buffer s = Some bs" "i < length bs"
  shows "result_of (buf i) s = bs ! i" "state_after (buf i) s = s"
  using assms by (simp_all add: buf_def)

lemma nextcluster_served:
  assumes dev: "serves dev ready reg disk" and s: "on_card ready s"
  obtains h b where "ready h" "state_after (nhsd_fat32_nextcluster dev c) s = s\<lparr>hw := h, nhsd_buffer := Some b\<rparr>"
    "(let e = result_of (nhsd_fat32_nextcluster dev c) s in if e \<ge> 0x0ffffff0 \<or> e = 0 then 0 else e) =
       fat_next disk (fat_start s) c"
proof -
  from readsector_served [OF dev s, of "fat_start s + drop_bit 7 c"] obtain h where h:
    "result_of (nhsd_readsector dev (fat_start s + drop_bit 7 c)) s = 0" "ready h"
    "state_after (nhsd_readsector dev (fat_start s + drop_bit 7 c)) s =
       s\<lparr>hw := h, nhsd_buffer := Some (map (disk (fat_start s + drop_bit 7 c)) [0..<512])\<rparr>" .
  then show thesis
    using fat_offset [of c]
    by (intro that [of h]) (simp_all add: nhsd_fat32_nextcluster_def buf32_def buf_at fat_start_def
        fat_next_def Let_def)
qed

text \<open>The position behind \<open>k\<close> reads of a file.\<close>

definition pos_at :: "(u32 \<Rightarrow> nat \<Rightarrow> u8) \<Rightarrow> 'd sd \<Rightarrow> u32 \<Rightarrow> nat \<Rightarrow> position \<Rightarrow> bool" where
  "pos_at disk s inode k p \<longleftrightarrow>
    pos_cluster p = chain disk (fat_start s) inode (k div unat (sectors_per_cluster s)) \<and>
    (pos_cluster p \<noteq> 0 \<longrightarrow>
       pos_sector p = cluster_sector s (pos_cluster p) + of_nat (k mod unat (sectors_per_cluster s)) \<and>
       unat (sector_in_cluster p) = k mod unat (sectors_per_cluster s))"

lemma u8_next_below:
  assumes "unat (n :: u8) < unat (m :: u8)"
  shows "unat (n + 1) = Suc (unat n)" "m \<le> n + 1 \<longleftrightarrow> Suc (unat n) = unat m"
proof -
  from assms unat_u8_less [of m] have "unat n + 1 < 2 ^ LENGTH(8)" by simp
  then show s: "unat (n + 1) = Suc (unat n)" by (simp add: unat_word_ariths)
  from assms show "m \<le> n + 1 \<longleftrightarrow> Suc (unat n) = unat m" by (auto simp: word_le_nat_alt s)
qed

definition reading :: "'d sd \<Rightarrow> 'd \<Rightarrow> u8 list \<Rightarrow> position \<Rightarrow> 'd sd" where
  "reading s h b p = s\<lparr>hw := h, nhsd_buffer := Some b, open_pos := p\<rparr>"

lemma reading_simps [simp]:
  "hw (reading s h b p) = h" "nhsd_buffer (reading s h b p) = Some b" "open_pos (reading s h b p) = p"
  "nhsd_init_state (reading s h b p) = nhsd_init_state s"
  "sectors_per_cluster (reading s h b p) = sectors_per_cluster s"
  "fat_start (reading s h b p) = fat_start s"
  "cluster_sector (reading s h b p) c = cluster_sector s c"
  "(reading s h b p)\<lparr>hw := h', nhsd_buffer := Some b'\<rparr> = reading s h' b' p"
  "(reading s h b p)\<lparr>open_pos := p'\<rparr> = reading s h b p'"
  by (simp_all add: reading_def fat_start_def cluster_sector_def)

lemma on_card_reading: "on_card ready (reading s h b p) \<longleftrightarrow> ready h"
  by (simp add: on_card_def)

lemma pos_at_end: "pos_at disk s inode k p \<Longrightarrow> pos_cluster p = 0 \<Longrightarrow> pos_at disk s inode (Suc k) p"
  by (auto simp: pos_at_def div_Suc)

lemma nhsd_read_at_end:
  assumes "nhsd_init_state s AND NHSD_INIT_OPENMASK \<noteq> 0" "pos_cluster (open_pos s) = 0"
  shows "result_of (nhsd_read dev) s = NHSD_ERR_EOF" "state_after (nhsd_read dev) s = s"
  using assms by (simp_all add: nhsd_read_def)

lemma nhsd_read_inside:
  assumes dev: "serves dev ready reg disk" and h: "ready h"
    and op: "nhsd_init_state s AND NHSD_INIT_OPENMASK \<noteq> 0" and c: "pos_cluster p \<noteq> 0"
    and n: "sector_in_cluster p + 1 < sectors_per_cluster s"
  obtains h' where "ready h'" "result_of (nhsd_read dev) (reading s h b p) = 0"
    "state_after (nhsd_read dev) (reading s h b p) = reading s h' (map (disk (pos_sector p)) [0..<512])
       (p\<lparr>sector_in_cluster := sector_in_cluster p + 1, pos_sector := pos_sector p + 1\<rparr>)"
proof -
  let ?p = "p\<lparr>sector_in_cluster := sector_in_cluster p + 1, pos_sector := pos_sector p + 1\<rparr>"
  have "on_card ready (reading s h b ?p)" using h by (simp add: on_card_reading)
  from readsector_served [OF dev this, of "pos_sector p"] obtain h' where
    "result_of (nhsd_readsector dev (pos_sector p)) (reading s h b ?p) = 0" "ready h'"
    "state_after (nhsd_readsector dev (pos_sector p)) (reading s h b ?p) =
       reading s h' (map (disk (pos_sector p)) [0..<512]) ?p" by auto
  moreover from n have "(sectors_per_cluster s \<le> sector_in_cluster p + 1) = False" by simp
  ultimately show thesis
    using op c by (intro that [of h']) (simp_all only: nhsd_read_def, simp_all)
qed

lemma position_eta:
  "p\<lparr>sector_in_cluster := n, pos_cluster := c, pos_sector := a\<rparr> =
    \<lparr>pos_cluster = c, pos_sector = a, sector_in_cluster = n\<rparr>"
  by (cases p) simp

lemma nhsd_read_last:
  assumes dev: "serves dev ready reg disk" and h: "ready h"
    and op: "nhsd_init_state s AND NHSD_INIT_OPENMASK \<noteq> 0" and c: "pos_cluster p \<noteq> 0"
    and n: "sectors_per_cluster s \<le> sector_in_cluster p + 1"
    and nx: "nx = fat_next disk (fat_start s) (pos_cluster p)"
  obtains h' where "ready h'" "result_of (nhsd_read dev) (reading s h b p) = 0"
    "state_after (nhsd_read dev) (reading s h b p) = reading s h' (map (disk (pos_sector p)) [0..<512])
       \<lparr>pos_cluster = nx, pos_sector = cluster_sector s nx, sector_in_cluster = 0\<rparr>"
proof -
  let ?p = "p\<lparr>pos_sector := pos_sector p + 1, sector_in_cluster := 0\<rparr>"
  let ?q = "\<lparr>pos_cluster = nx, pos_sector = cluster_sector s nx, sector_in_cluster = 0\<rparr>"
  have "on_card ready (reading s h b ?p)" using h by (simp add: on_card_reading)
  from nextcluster_served [OF dev this, of "pos_cluster p"] obtain h1 b1 where h1: "ready h1"
    "state_after (nhsd_fat32_nextcluster dev (pos_cluster p)) (reading s h b ?p) = reading s h1 b1 ?p"
    "(let e = result_of (nhsd_fat32_nextcluster dev (pos_cluster p)) (reading s h b ?p)
      in if e \<ge> 0x0ffffff0 \<or> e = 0 then 0 else e) = nx"
    by (auto simp: nx)
  have "on_card ready (reading s h1 b1 ?q)" using h1 by (simp add: on_card_reading)
  from readsector_served [OF dev this, of "pos_sector p"] obtain h' where
    "result_of (nhsd_readsector dev (pos_sector p)) (reading s h1 b1 ?q) = 0" "ready h'"
    "state_after (nhsd_readsector dev (pos_sector p)) (reading s h1 b1 ?q) =
       reading s h' (map (disk (pos_sector p)) [0..<512]) ?q" by auto
  with n op c h1 show thesis
    by (intro that [of h']) (auto simp: nhsd_read_def Let_def position_eta)
qed

text \<open>One read takes the position from \<open>k\<close> to \<open>k + 1\<close>, and gives sector \<open>k\<close> of the file.\<close>

lemma nhsd_read_step:
  assumes dev: "serves dev ready reg disk" and h: "ready h"
    and op: "nhsd_init_state s AND NHSD_INIT_OPENMASK \<noteq> 0" and spc: "sectors_per_cluster s \<noteq> 0"
    and p: "pos_at disk s inode k p"
  obtains h' b' p' r where "ready h'" "result_of (nhsd_read dev) (reading s h b p) = r"
    "state_after (nhsd_read dev) (reading s h b p) = reading s h' b' p'"
    "pos_at disk s inode (Suc k) p'" "(r, if r = 0 then Some b' else None) = expected_read disk s inode k"
proof (cases "pos_cluster p = 0")
  case True
  with op nhsd_read_at_end [of "reading s h b p" dev] have
    "result_of (nhsd_read dev) (reading s h b p) = NHSD_ERR_EOF"
    "state_after (nhsd_read dev) (reading s h b p) = reading s h b p" by simp_all
  moreover from True p have "expected_read disk s inode k = (NHSD_ERR_EOF, None)"
    by (simp add: expected_read_def file_sector_def pos_at_def Let_def)
  ultimately show thesis
    using that [of h _ b p] h pos_at_end [OF p True] by (simp add: NHSD_ERR_EOF_def)
next
  case False
  let ?n = "unat (sectors_per_cluster s)"
  have n: "0 < ?n" using spc by (simp add: unat_gt_0)
  with p False have sic: "unat (sector_in_cluster p) < ?n" "unat (sector_in_cluster p) = k mod ?n"
    by (auto simp: pos_at_def)
  note next_sic = u8_next_below [OF sic(1)]
  have exp: "expected_read disk s inode k = (0, Some (map (disk (pos_sector p)) [0..<512]))"
    using p False by (simp add: expected_read_def file_sector_def pos_at_def Let_def NHSD_ERR_NOERROR_def)
  show thesis
  proof (cases "sectors_per_cluster s \<le> sector_in_cluster p + 1")
    case True
    obtain h' where "ready h'" "result_of (nhsd_read dev) (reading s h b p) = 0"
      "state_after (nhsd_read dev) (reading s h b p) = reading s h' (map (disk (pos_sector p)) [0..<512])
       \<lparr>pos_cluster = fat_next disk (fat_start s) (pos_cluster p),
        pos_sector = cluster_sector s (fat_next disk (fat_start s) (pos_cluster p)), sector_in_cluster = 0\<rparr>"
      by (rule nhsd_read_last [OF dev h op False True refl])
    moreover from True sic next_sic have "Suc k mod ?n = 0" "Suc k div ?n = Suc (k div ?n)"
      by (simp_all add: mod_Suc div_Suc)
    ultimately show thesis
      using p False exp by (intro that) (auto simp: pos_at_def)
  next
    case below: False
    then have lt: "sector_in_cluster p + 1 < sectors_per_cluster s" by simp
    from below next_sic sic have "Suc (k mod ?n) \<noteq> ?n" by simp
    then have "Suc k mod ?n = Suc (k mod ?n)" "Suc k div ?n = k div ?n"
      by (simp_all add: mod_Suc div_Suc)
    moreover obtain h' where "ready h'" "result_of (nhsd_read dev) (reading s h b p) = 0"
      "state_after (nhsd_read dev) (reading s h b p) = reading s h' (map (disk (pos_sector p)) [0..<512])
       (p\<lparr>sector_in_cluster := sector_in_cluster p + 1, pos_sector := pos_sector p + 1\<rparr>)"
      by (rule nhsd_read_inside [OF dev h op False lt])
    ultimately show thesis
      using p False exp sic next_sic by (intro that) (auto simp: pos_at_def)
  qed
qed

lemma read_sectors_from:
  assumes dev: "serves dev ready reg disk" and h: "ready h"
    and op: "nhsd_init_state s AND NHSD_INIT_OPENMASK \<noteq> 0" and spc: "sectors_per_cluster s \<noteq> 0"
    and p: "pos_at disk s inode k p"
  shows "result_of (read_sectors dev n) (reading s h b p) = map (expected_read disk s inode) [k..<k + n]"
  using h p
proof (induction n arbitrary: h b p k)
  case (Suc n)
  obtain h' b' p' r where step: "ready h'" "result_of (nhsd_read dev) (reading s h b p) = r"
    "state_after (nhsd_read dev) (reading s h b p) = reading s h' b' p'"
    "pos_at disk s inode (Suc k) p'" "(r, if r = 0 then Some b' else None) = expected_read disk s inode k"
    by (rule nhsd_read_step [OF dev Suc.prems(1) op spc Suc.prems(2)])
  have "[k..<k + Suc n] = k # [Suc k..<Suc k + n]" by (simp add: upt_conv_Cons del: upt_Suc)
  with Suc.IH [OF step(1,4), of b'] step(2,3) step(5) [symmetric] show ?case by (simp del: upt_Suc)
qed simp

lemma open_inode_opens:
  assumes "nhsd_init_state s AND NHSD_INIT_INITMASK = NHSD_INIT_INITMASK"
    and "nhsd_init_state s AND NHSD_INIT_OPENMASK = 0"
  shows "result_of (nhsd_open_inode inode mode) s = NHSD_ERR_NOERROR"
    "state_after (nhsd_open_inode inode mode) s =
      s\<lparr>open_pos := \<lparr>pos_cluster = inode, pos_sector = cluster_sector s inode, sector_in_cluster = 0\<rparr>,
        nhsd_init_state := nhsd_init_state s OR (mode AND NHSD_INIT_OPENMASK)\<rparr>"
  using assms by (simp_all add: nhsd_open_inode_def add_state_def)

lemma open_mask_or:
  assumes "mode AND NHSD_INIT_OPENMASK \<noteq> 0"
  shows "(st OR (mode AND NHSD_INIT_OPENMASK)) AND NHSD_INIT_OPENMASK \<noteq> 0"
proof
  assume z: "(st OR (mode AND NHSD_INIT_OPENMASK)) AND NHSD_INIT_OPENMASK = 0"
  have "mode AND NHSD_INIT_OPENMASK =
      (mode AND NHSD_INIT_OPENMASK) AND ((st OR (mode AND NHSD_INIT_OPENMASK)) AND NHSD_INIT_OPENMASK)"
    by (rule bit_word_eqI) (auto simp: bit_and_iff bit_or_iff)
  with z assms show False by simp
qed

text \<open>
  C27: reading a file on a card that works (it may be busy after a command for a time within the program's
  patience, and is then without an error) with the file system recognised, no file open and at least one sector
  to a cluster: after opening a file by its first cluster, the \<open>k\<close>-th read delivers the
  \<open>k\<close>-th sector of the file, that is the sector of the cluster that the chain of the allocation
  table has at position \<open>k div spc\<close>, and every read behind the end of the chain reports the end of
  the file.
\<close>

theorem file_read_follows_chain:
  assumes "serves dev ready reg disk" and "on_card ready s"
    and "nhsd_init_state s AND NHSD_INIT_INITMASK = NHSD_INIT_INITMASK"
    and "nhsd_init_state s AND NHSD_INIT_OPENMASK = 0"
    and "mode AND NHSD_INIT_OPENMASK \<noteq> 0" and "sectors_per_cluster s \<noteq> 0"
  shows "result_of (do { nhsd_open_inode inode mode; read_sectors dev n }) s =
    map (expected_read disk s inode) [0..<n]"
proof -
  let ?t = "state_after (nhsd_open_inode inode mode) s"
  let ?p = "\<lparr>pos_cluster = inode, pos_sector = cluster_sector s inode, sector_in_cluster = 0\<rparr>"
  obtain b where b: "nhsd_buffer s = Some b" "ready (hw s)" using assms(2) by (auto simp: on_card_def)
  have t: "?t = reading (s\<lparr>nhsd_init_state := nhsd_init_state s OR (mode AND NHSD_INIT_OPENMASK)\<rparr>) (hw s) b ?p"
    using b by (simp add: open_inode_opens [OF assms(3,4)] reading_def)
  let ?s = "s\<lparr>nhsd_init_state := nhsd_init_state s OR (mode AND NHSD_INIT_OPENMASK)\<rparr>"
  have "pos_at disk ?s inode 0 ?p" by (simp add: pos_at_def cluster_sector_def)
  moreover have "nhsd_init_state ?s AND NHSD_INIT_OPENMASK \<noteq> 0" using open_mask_or [OF assms(5)] by simp
  ultimately have "result_of (read_sectors dev n) ?t = map (expected_read disk ?s inode) [0..<0 + n]"
    unfolding t using assms(6) by (intro read_sectors_from [OF assms(1) b(2)]) simp_all
  moreover have "expected_read disk ?s inode = expected_read disk s inode"
    by (rule ext) (simp add: expected_read_def file_sector_def fat_start_def cluster_sector_def Let_def)
  ultimately show ?thesis by simp
qed

text \<open>A card with a file in the clusters 5 and 6 of two sectors each, and a state that knows it.\<close>

definition sample_disk :: "u32 \<Rightarrow> nat \<Rightarrow> u8" where
  "sample_disk a i =
    (if a = 10 then if i = 20 then 6 else if 24 \<le> i \<and> i < 28 then 0xff else 0 else ucast a)"

definition sample_sd :: "card_state sd" where
  "sample_sd = \<lparr>hw = (\<lambda>_. 0, 0, 0), nhsd_buffer = Some (replicate 512 0), nhsd_init_state = 0x1e,
     nhsd_current_dir = 2, nhsd_part_start = 8, nhsd_part_end = 0, sectors_per_cluster = 2,
     reserved_sectors = 2, data_sectors = 0, sectors_per_fat = 0, cluster2_sector = 100,
     open_pos = \<lparr>pos_cluster = 0, pos_sector = 0, sector_in_cluster = 0\<rparr>, open_offset_in_sector = 0,
     nhsd_dirent = \<lparr>d_ino = 0, d_reclen = 0, d_type = 0, d_name = (\<lambda>_. 0)\<rparr>, wild = False\<rparr>"

lemma file_read_follows_chain_witness:
  "result_of (do { nhsd_open_inode 5 NHSD_INIT_OPENFILE; read_sectors (ideal_card sample_disk) 5 }) sample_sd =
    map (\<lambda>a. (0, Some (map (sample_disk a) [0..<512]))) [106, 107, 108, 109] @ [(0x80, None)]"
proof -
  have "result_of (do { nhsd_open_inode 5 NHSD_INIT_OPENFILE; read_sectors (ideal_card sample_disk) 5 }) sample_sd =
    map (expected_read sample_disk sample_sd 5) [0..<5]"
    by (rule file_read_follows_chain [OF ideal_card_serves])
      (simp_all add: on_card_def card_idle_def sample_sd_def sd_masks)
  moreover have "[0..<5] = [0, 1, 2, 3, 4 :: nat]" by (simp add: upt_rec)
  moreover have sectors:
    "file_sector sample_disk sample_sd 5 0 = Some 106" "file_sector sample_disk sample_sd 5 1 = Some 107"
    "file_sector sample_disk sample_sd 5 2 = Some 108" "file_sector sample_disk sample_sd 5 3 = Some 109"
    "file_sector sample_disk sample_sd 5 4 = None"
  proof -
    have two: "2 = Suc (Suc 0)" by simp
    have "fat_next sample_disk 10 5 = 6" "fat_next sample_disk 10 6 = 0"
      by (simp_all add: fat_next_def sample_disk_def le32_def)
    then have "chain sample_disk 10 5 (Suc 0) = 6" "chain sample_disk 10 5 2 = 0"
      unfolding two by simp_all
    then show "file_sector sample_disk sample_sd 5 0 = Some 106" "file_sector sample_disk sample_sd 5 1 = Some 107"
      "file_sector sample_disk sample_sd 5 2 = Some 108" "file_sector sample_disk sample_sd 5 3 = Some 109"
      "file_sector sample_disk sample_sd 5 4 = None"
      by (simp_all add: file_sector_def fat_start_def sample_sd_def cluster_sector_def)
  qed
  ultimately show ?thesis by (simp add: expected_read_def sd_errors)
qed

section \<open>Recognising a card\<close>

lemma reset_served:
  assumes dev: "serves dev ready reg disk" and "resets dev ready bus"
  obtains h where "result_of (nhsd_reset dev bus) s = 0" "state_after (nhsd_reset dev bus) s = s\<lparr>hw := h\<rparr>"
    "ready h"
proof -
  let ?h = "reset_pokes dev bus (hw s)"
  have "settles dev (\<lambda>v. v AND 3 \<noteq> 0) 99999 ready (hw (s\<lparr>hw := ?h\<rparr>))"
    using assms(2) by (simp add: resets_def)
  from reset_wait_idle [OF serves_steady(3) [OF dev] this, of 100000] obtain h where h:
    "result_of (reset_wait dev 100000) (s\<lparr>hw := ?h\<rparr>)"
    "state_after (reset_wait dev 100000) (s\<lparr>hw := ?h\<rparr>) = s\<lparr>hw := h\<rparr>" "ready h" by auto
  moreover from h(3) assms(2) have "ready (dev_poke dev NHSD_CTRL 0x41 h)" by (simp add: resets_def)
  ultimately show thesis
    by (intro that [of "dev_poke dev NHSD_CTRL 0x41 h"])
      (simp_all add: nhsd_reset_def POKE_def NHSD_ERR_NOERROR_def reset_pokes_def)
qed

text \<open>
  The entry of the partition table that is used, the first FAT32 one, and what the first sector
  of its partition says of the volume.
\<close>

definition fat32_entry :: "(nat \<Rightarrow> u8) \<Rightarrow> nat option" where
  "fat32_entry mbr = find (\<lambda>p. mbr (0x1be + 16 * p + 4) \<in> {0x0c, 0x0b}) [0..<4]"

definition le32_at :: "(nat \<Rightarrow> u8) \<Rightarrow> nat \<Rightarrow> u32" where
  "le32_at b i = le32 (b i) (b (i + 1)) (b (i + 2)) (b (i + 3))"

definition given_up :: "u8 \<Rightarrow> u8 \<times> 'd sd \<Rightarrow> bool" where
  "given_up e rt \<longleftrightarrow> fst rt = e \<and> nhsd_init_state (snd rt) = 0 \<and> nhsd_buffer (snd rt) = None"

definition mounted :: "u8 \<Rightarrow> u32 \<Rightarrow> (nat \<Rightarrow> u8) \<Rightarrow> u8 \<times> 'd sd \<Rightarrow> bool" where
  "mounted bus start boot rt \<longleftrightarrow>
    fst rt = NHSD_ERR_NOERROR \<and>
    nhsd_init_state (snd rt) = (bus AND 1) OR NHSD_INIT_INITMASK \<and>
    nhsd_buffer (snd rt) = Some (map boot [0..<512]) \<and>
    nhsd_part_start (snd rt) = start \<and>
    sectors_per_cluster (snd rt) = boot 0x0d \<and>
    reserved_sectors (snd rt) = le32 (boot 0x0e) (boot 0x0f) 0 0 \<and>
    sectors_per_fat (snd rt) = le32_at boot 0x24 \<and>
    cluster2_sector (snd rt) = start + le32 (boot 0x0e) (boot 0x0f) 0 0 + 2 * le32_at boot 0x24 \<and>
    nhsd_current_dir (snd rt) = NHSD_ROOT_INODE"

definition recognised :: "(u32 \<Rightarrow> nat \<Rightarrow> u8) \<Rightarrow> u8 \<Rightarrow> u8 \<times> 'd sd \<Rightarrow> bool" where
  "recognised disk bus rt \<longleftrightarrow>
    (if disk 0 0x1fe \<noteq> 0x55 \<or> disk 0 0x1ff \<noteq> 0xaa then given_up NHSD_ERR_INVALID_MBR rt
     else case fat32_entry (disk 0) of
       None \<Rightarrow> given_up NHSD_ERR_PART_NOT_FOUND rt
     | Some p \<Rightarrow> (let start = le32_at (disk 0) (0x1be + 16 * p + 8) in mounted bus start (disk start) rt))"

lemma find_partition_finds:
  assumes "nhsd_buffer s = Some (map mbr [0..<512])" "p + k \<le> 4"
  shows "run_state (find_partition k p) s =
      (map_option (\<lambda>p. 0x1be + 16 * p) (find (\<lambda>p. mbr (0x1be + 16 * p + 4) \<in> {0x0c, 0x0b}) [p..<p + k]), s)"
  using assms(2)
proof (induction k arbitrary: p)
  case 0
  show ?case by simp
next
  case (Suc k)
  have p: "0x1be + 16 * p + 4 < 512" using Suc.prems by simp
  have off: "0x1be + push_bit 4 p = 0x1be + 16 * p" by (simp add: push_bit_eq_mult)
  have "[p..<p + Suc k] = p # [Suc p..<Suc p + k]" by (simp add: upt_conv_Cons del: upt_Suc)
  moreover have "run_state (buf (0x1be + 16 * p + 4)) s = (mbr (0x1be + 16 * p + 4), s)"
    using p assms(1) by (simp add: run_state_pair buf_at)
  moreover have "run_state (find_partition k (Suc p)) s =
      (map_option (\<lambda>p. 0x1be + 16 * p)
        (find (\<lambda>p. mbr (0x1be + 16 * p + 4) \<in> {0x0c, 0x0b}) [Suc p..<Suc p + k]), s)"
    using Suc.prems by (intro Suc.IH) simp
  ultimately show ?case
    by (simp add: off Let_def del: upt_Suc)
qed

lemma buf32_at:
  assumes "nhsd_buffer s = Some (map b [0..<512])" "i + 3 < 512"
  shows "result_of (buf32 i) s = le32_at b i" "state_after (buf32 i) s = s"
  using assms by (simp_all add: buf32_def buf_at le32_at_def)

lemma init_mask_bits:
  "(NHSD_INIT_SDBUS OR NHSD_INIT_MBR OR NHSD_INIT_PART) OR NHSD_INIT_FAT = NHSD_INIT_INITMASK"
  by (simp add: sd_masks)

lemma init_fat_mounts:
  assumes dev: "serves dev ready reg disk" and "ready (hw s)"
    and buf: "nhsd_buffer s = Some (map mbr [0..<512])"
    and off: "offset + 15 < 512" and res: "reserved_sectors s AND 0xffff0000 = 0"
    and st: "nhsd_init_state s = (bus AND 1) OR NHSD_INIT_SDBUS OR NHSD_INIT_MBR"
  shows "mounted bus (le32_at mbr (offset + 8)) (disk (le32_at mbr (offset + 8)))
    (run_state (init_fat dev offset) s)"
proof -
  let ?start = "le32_at mbr (offset + 8)"
  let ?s = "s\<lparr>nhsd_part_start := ?start, nhsd_part_end := le32_at mbr (offset + 12),
    nhsd_init_state := nhsd_init_state s OR NHSD_INIT_PART\<rparr>"
  have "on_card ready ?s" using assms by (simp add: on_card_def)
  from readsector_served [OF dev this, of ?start] obtain h where h:
    "result_of (nhsd_readsector dev ?start) ?s = 0" "ready h"
    "state_after (nhsd_readsector dev ?start) ?s =
       ?s\<lparr>hw := h, nhsd_buffer := Some (map (disk ?start) [0..<512])\<rparr>" .
  have st': "(((bus AND 1) OR NHSD_INIT_SDBUS OR NHSD_INIT_MBR) OR NHSD_INIT_PART) OR NHSD_INIT_FAT =
      (bus AND 1) OR NHSD_INIT_INITMASK"
    by (simp add: init_mask_bits [symmetric] or.assoc)
  define t where "t = state_after (nhsd_readsector dev ?start) ?s"
  have t: "nhsd_buffer t = Some (map (disk ?start) [0..<512])" "nhsd_part_start t = ?start"
    "reserved_sectors t = reserved_sectors s" "nhsd_init_state t = nhsd_init_state s OR NHSD_INIT_PART"
    unfolding t_def h by simp_all
  have "run_state (init_fat dev offset) s = run_state (do {
       spc \<leftarrow> buf 0x0d;
       r0 \<leftarrow> buf 0x0e;
       r1 \<leftarrow> buf 0x0f;
       dat \<leftarrow> buf32 0x20;
       fat \<leftarrow> buf32 0x24;
       modify (\<lambda>s. s\<lparr>sectors_per_cluster := spc,
         reserved_sectors := (reserved_sectors s AND 0xffff0000) OR le32 r0 r1 0 0,
         data_sectors := dat, sectors_per_fat := fat\<rparr>);
       modify (\<lambda>s. s\<lparr>cluster2_sector :=
         nhsd_part_start s + reserved_sectors s + sectors_per_fat s + sectors_per_fat s\<rparr>);
       modify (\<lambda>s. s\<lparr>nhsd_current_dir := NHSD_ROOT_INODE\<rparr>);
       add_state NHSD_INIT_FAT;
       return NHSD_ERR_NOERROR }) t"
    unfolding run_state_pair t_def
    using off by (simp add: init_fat_def buf32_at [OF buf] add_state_def h(1))
  then show ?thesis
    by (simp add: mounted_def run_state_pair buf32_at [OF t(1)] buf_at [OF t(1)] add_state_def t res st st')
qed

lemma init_fail_gives_up: "given_up e (run_state (init_fail e) s)"
  by (simp add: given_up_def run_state_pair init_fail_def set_state_def)

text \<open>
  C29: recognising a card that works (it may be busy after a reset or a read command for a time within the
  program's patience, and is then without an error), when the upper half of the variable
  \<open>reserved_sectors\<close> is zero, as it is at the start and stays, the program writing the lower half
  only: without the signature of a boot record or without a FAT32 partition nothing stays initialised and the
  buffer is released; otherwise the geometry of the volume is that of the first FAT32 partition's boot sector,
  all stages are noted in the state with the bus, and the root directory is current.
\<close>

theorem init_recognises_card:
  assumes "serves dev ready reg disk" and "resets dev ready (bus AND 1)" and "reserved_sectors s AND 0xffff0000 = 0"
  shows "recognised disk bus (run_state (nhsd_init dev bus buffer) s)"
proof -
  define s0 where "s0 = s\<lparr>nhsd_init_state := 0\<rparr>"
  from reset_served [OF assms(1,2), of s0] obtain h1 where h1:
    "result_of (nhsd_reset dev (bus AND 1)) s0 = 0"
    "state_after (nhsd_reset dev (bus AND 1)) s0 = s0\<lparr>hw := h1\<rparr>" "ready h1" .
  define s1 where "s1 = s0\<lparr>hw := h1, nhsd_init_state := (bus AND 1) OR NHSD_INIT_SDBUS\<rparr>"
  define s2 where "s2 = s1\<lparr>nhsd_buffer := Some buffer\<rparr>"
  have "on_card ready s2" using h1 by (simp add: on_card_def s2_def s1_def)
  from readsector_served [OF assms(1) this, of 0] obtain h2 where h2:
    "result_of (nhsd_readsector dev 0) s2 = 0" "ready h2"
    "state_after (nhsd_readsector dev 0) s2 = s2\<lparr>hw := h2, nhsd_buffer := Some (map (disk 0) [0..<512])\<rparr>" .
  define s3 where "s3 = s2\<lparr>hw := h2, nhsd_buffer := Some (map (disk 0) [0..<512])\<rparr>"
  define s4 where "s4 = s3\<lparr>nhsd_init_state := nhsd_init_state s3 OR NHSD_INIT_MBR\<rparr>"
  have b4: "nhsd_buffer s4 = Some (map (disk 0) [0..<512])" by (simp add: s4_def s3_def)
  have "run_state (set_state 0) s = ((), s0)" "run_state (init_bus dev bus) s0 = (True, s1)"
    "run_state (modify (\<lambda>s. s\<lparr>nhsd_buffer := Some buffer\<rparr>)) s1 = ((), s2)"
    "run_state (nhsd_readsector dev 0) s2 = (0, s3)"
    "run_state (buf 0x1fe) s3 = (disk 0 0x1fe, s3)" "run_state (buf 0x1ff) s3 = (disk 0 0x1ff, s3)"
    "run_state (add_state NHSD_INIT_MBR) s3 = ((), s4)"
    using h1 h2
    by (simp_all add: run_state_pair set_state_def s0_def init_bus_def s1_def s2_def s3_def buf_def
        add_state_def s4_def)
  moreover have "run_state (find_partition 4 0) s4 =
      (map_option (\<lambda>p. 0x1be + 16 * p) (fat32_entry (disk 0)), s4)"
    using find_partition_finds [OF b4, of 0 4] by (simp add: fat32_entry_def del: insert_iff)
  ultimately have run: "run_state (nhsd_init dev bus buffer) s =
      (if disk 0 0x1fe \<noteq> 0x55 \<or> disk 0 0x1ff \<noteq> 0xaa then run_state (init_fail NHSD_ERR_INVALID_MBR) s3
       else case fat32_entry (disk 0) of None \<Rightarrow> run_state (init_fail NHSD_ERR_PART_NOT_FOUND) s4
       | Some p \<Rightarrow> run_state (init_fat dev (0x1be + 16 * p)) s4)"
    by (simp add: nhsd_init_def split: option.split)
  have "mounted bus (le32_at (disk 0) (0x1be + 16 * p + 8)) (disk (le32_at (disk 0) (0x1be + 16 * p + 8)))
      (run_state (init_fat dev (0x1be + 16 * p)) s4)" if "fat32_entry (disk 0) = Some p" for p
  proof (rule init_fat_mounts [OF assms(1) _ b4])
    from that have "p < 4" by (auto simp: fat32_entry_def find_Some_iff)
    then show "0x1be + 16 * p + 15 < 512" by simp
    show "ready (hw s4)" "reserved_sectors s4 AND 0xffff0000 = 0"
      using h2 assms by (simp_all add: s4_def s3_def s2_def s1_def s0_def)
    show "nhsd_init_state s4 = (bus AND 1) OR NHSD_INIT_SDBUS OR NHSD_INIT_MBR"
      by (simp add: s4_def s3_def s2_def s1_def or.assoc)
  qed
  then show ?thesis
    by (auto simp: recognised_def run init_fail_gives_up Let_def split: option.split)
qed

text \<open>A card with two partitions, of which the second is a FAT32 one.\<close>

definition boot_disk :: "u32 \<Rightarrow> nat \<Rightarrow> u8" where
  "boot_disk a i =
    (if a = 0 then
       if i = 0x1fe then 0x55 else if i = 0x1ff then 0xaa else if i = 0x1c2 then 0x83
       else if i = 0x1d2 then 0x0c else if i = 0x1d6 then 8 else 0
     else if a = 8 then if i = 0x0d then 2 else if i = 0x0e then 2 else if i = 0x24 then 45 else 0
     else ucast a)"

lemma init_recognises_card_witness:
  "let rt = run_state (nhsd_init (ideal_card boot_disk) 0x81 (replicate 512 0)) sample_sd
   in fst rt = 0 \<and> nhsd_init_state (snd rt) = 0x1f \<and> nhsd_part_start (snd rt) = 8 \<and>
      sectors_per_cluster (snd rt) = 2 \<and> cluster2_sector (snd rt) = 100"
proof -
  let ?rt = "run_state (nhsd_init (ideal_card boot_disk) 0x81 (replicate 512 0)) sample_sd"
  have "recognised boot_disk 0x81 ?rt"
    by (rule init_recognises_card [OF ideal_card_serves ideal_card_resets]) (simp add: sample_sd_def)
  moreover have "fat32_entry (boot_disk 0) = Some 1"
  proof -
    have "[0..<4] = [0, 1, 2, 3 :: nat]" by (simp add: upt_rec)
    then show ?thesis by (simp add: fat32_entry_def boot_disk_def)
  qed
  moreover have "le32_at (boot_disk 0) 0x1d6 = 8" by (simp add: le32_at_def le32_def boot_disk_def)
  ultimately have "mounted 0x81 8 (boot_disk 8) ?rt"
    by (simp add: recognised_def boot_disk_def)
  moreover have "le32_at (boot_disk 8) 0x24 = 45" "le32 (boot_disk 8 0x0e) (boot_disk 8 0x0f) 0 0 = 2"
    by (simp_all add: le32_at_def le32_def boot_disk_def)
  ultimately show ?thesis
    by (simp add: mounted_def Let_def sd_masks sd_errors boot_disk_def)
qed

section \<open>A card with read errors\<close>

text \<open>
  What is watched of a controller: the address registers, how many of the next read commands will fail,
  and the addresses of all the read commands it got.
\<close>

record card_view =
  addr_regs :: "nat \<Rightarrow> u8"
  bad_reads :: nat
  commands :: "u32 list"

definition addressed :: "card_view \<Rightarrow> u32" where
  "addressed w = le32 (addr_regs w 0) (addr_regs w 1) (addr_regs w 2) (addr_regs w 3)"

definition commanded :: "card_view \<Rightarrow> card_view" where
  "commanded w = w\<lparr>bad_reads := bad_reads w - 1, commands := commands w @ [addressed w]\<rparr>"

lemma commanded_simps [simp]:
  "addressed (commanded w) = addressed w" "bad_reads (commanded w) = bad_reads w - 1"
  "commands (commanded w) = commands w @ [addressed w]"
  by (simp_all add: commanded_def addressed_def)

text \<open>
  A controller as in \<open>serves\<close>, but for the read commands that fail: after one of them it is busy and then
  \<open>failed\<close>, and reports an error until it is reset.
\<close>

definition unreliable ::
    "'d sd_device \<Rightarrow> ('d \<Rightarrow> bool) \<Rightarrow> ('d \<Rightarrow> bool) \<Rightarrow> ('d \<Rightarrow> card_view) \<Rightarrow> (u32 \<Rightarrow> nat \<Rightarrow> u8) \<Rightarrow> bool" where
  "unreliable dev ready failed view disk \<longleftrightarrow>
    (\<forall>h. ready h \<longrightarrow> (case dev_peek dev NHSD_CTRL h of (v, h') \<Rightarrow>
       v AND 0x67 = 0 \<and> ready h' \<and> view h' = view h \<and> dev_sector dev h' = dev_sector dev h)) \<and>
    (\<forall>h. failed h \<longrightarrow> (case dev_peek dev NHSD_CTRL h of (v, h') \<Rightarrow>
       v AND 0x40 \<noteq> 0 \<and> failed h' \<and> view h' = view h)) \<and>
    (\<forall>h i v. ready h \<longrightarrow> i < 4 \<longrightarrow> ready (dev_poke dev (NHSD_ADDR + of_nat i) v h) \<and>
       view (dev_poke dev (NHSD_ADDR + of_nat i) v h) = (view h)\<lparr>addr_regs := (addr_regs (view h))(i := v)\<rparr>) \<and>
    (\<forall>h. ready h \<longrightarrow> settles dev busy 49999
       (\<lambda>h'. view h' = commanded (view h) \<and>
         (if bad_reads (view h) = 0 then ready h' \<and> dev_sector dev h' = disk (addressed (view h)) else failed h'))
       (dev_poke dev NHSD_CTRL 2 h)) \<and>
    (\<forall>h bus. failed h \<longrightarrow> settles dev (\<lambda>v. v AND 3 \<noteq> 0) 99999 (\<lambda>h'. ready h' \<and> view h' = view h)
       (reset_pokes dev bus (dev_poke dev 0xd020 7 h))) \<and>
    (\<forall>h. ready h \<longrightarrow> ready (dev_poke dev NHSD_CTRL 0x41 h) \<and> view (dev_poke dev NHSD_CTRL 0x41 h) = view h) \<and>
    (\<forall>h. ready h \<longrightarrow> ready (dev_poke dev 0xd020 0 h) \<and> view (dev_poke dev 0xd020 0 h) = view h)"

lemma unreliable_steady:
  assumes "unreliable dev ready failed view disk"
  shows "steady dev (\<lambda>v. v AND 0x67 = 0) (\<lambda>h. ready h \<and> view h = w)"
    and "steady dev (\<lambda>v. v AND 0x67 = 0) (\<lambda>h. view h = w \<and> ready h \<and> dev_sector dev h = d)"
    and "steady dev (\<lambda>v. v AND 0x40 \<noteq> 0) (\<lambda>h. view h = w \<and> failed h)"
  using assms by (auto simp: unreliable_def steady_def)

lemma unreliable_parts:
  assumes "unreliable dev ready failed view disk" and "ready h"
  shows "i < 4 \<Longrightarrow> ready (dev_poke dev (NHSD_ADDR + of_nat i) v h) \<and>
      view (dev_poke dev (NHSD_ADDR + of_nat i) v h) = (view h)\<lparr>addr_regs := (addr_regs (view h))(i := v)\<rparr>"
    and "bad_reads (view h) = 0 \<Longrightarrow> settles dev busy 49999
       (\<lambda>h'. view h' = commanded (view h) \<and> ready h' \<and> dev_sector dev h' = disk (addressed (view h)))
       (dev_poke dev NHSD_CTRL 2 h)"
    and "bad_reads (view h) \<noteq> 0 \<Longrightarrow> settles dev busy 49999
       (\<lambda>h'. view h' = commanded (view h) \<and> failed h') (dev_poke dev NHSD_CTRL 2 h)"
    and "ready (dev_poke dev NHSD_CTRL 0x41 h)" "view (dev_poke dev NHSD_CTRL 0x41 h) = view h"
    and "ready (dev_poke dev 0xd020 0 h)" "view (dev_poke dev 0xd020 0 h) = view h"
proof -
  have read: "settles dev busy 49999
     (\<lambda>h'. view h' = commanded (view h) \<and>
       (if bad_reads (view h) = 0 then ready h' \<and> dev_sector dev h' = disk (addressed (view h)) else failed h'))
     (dev_poke dev NHSD_CTRL 2 h)"
    using assms unfolding unreliable_def by blast
  show "bad_reads (view h) = 0 \<Longrightarrow> settles dev busy 49999
       (\<lambda>h'. view h' = commanded (view h) \<and> ready h' \<and> dev_sector dev h' = disk (addressed (view h)))
       (dev_poke dev NHSD_CTRL 2 h)"
    using read by simp
  show "bad_reads (view h) \<noteq> 0 \<Longrightarrow> settles dev busy 49999
       (\<lambda>h'. view h' = commanded (view h) \<and> failed h') (dev_poke dev NHSD_CTRL 2 h)"
    using read by simp
qed (use assms in \<open>unfold unreliable_def, blast+\<close>)

lemma unreliable_reset:
  assumes dev: "unreliable dev ready failed view disk" and "failed h"
  obtains h' where "result_of (nhsd_reset dev bus) (s\<lparr>hw := dev_poke dev 0xd020 7 h\<rparr>) = 0"
    "state_after (nhsd_reset dev bus) (s\<lparr>hw := dev_poke dev 0xd020 7 h\<rparr>) = s\<lparr>hw := h'\<rparr>" "ready h'" "view h' = view h"
proof -
  let ?h = "reset_pokes dev bus (dev_poke dev 0xd020 7 h)"
  have "settles dev (\<lambda>v. v AND 3 \<noteq> 0) 99999 (\<lambda>h'. ready h' \<and> view h' = view h) (hw (s\<lparr>hw := ?h\<rparr>))"
    using assms by (simp add: unreliable_def)
  from reset_wait_idle [OF unreliable_steady(1) [OF dev] this, of 100000] obtain h1 where h1:
    "result_of (reset_wait dev 100000) (s\<lparr>hw := ?h\<rparr>)"
    "state_after (reset_wait dev 100000) (s\<lparr>hw := ?h\<rparr>) = s\<lparr>hw := h1\<rparr>" "ready h1" "view h1 = view h" by auto
  then show thesis
    using unreliable_parts(4,5) [OF dev h1(3)]
    by (intro that [of "dev_poke dev NHSD_CTRL 0x41 h1"])
      (simp_all add: nhsd_reset_def POKE_def NHSD_ERR_NOERROR_def reset_pokes_def)
qed

text \<open>One round of the loop, with a read command that works and with one that fails.\<close>

lemma first_wait:
  assumes "unreliable dev ready failed view disk" and "ready (hw s)"
  obtains h where "result_of (ready_wait dev 50000) s" "state_after (ready_wait dev 50000) s = s\<lparr>hw := h\<rparr>"
    "ready h" "view h = view (hw s)"
proof -
  have "settles dev busy 0 (\<lambda>h. ready h \<and> view h = view (hw s)) (hw s)" using assms(2) by simp
  from ready_wait_idle [OF unreliable_steady(1) [OF assms(1)] this, of 50000] show thesis using that by auto
qed

lemma round_works:
  assumes dev: "unreliable dev ready failed view disk" and r0: "ready (hw s)" and b: "nhsd_buffer s = Some bs"
    and k: "bad_reads (view (hw s)) = 0"
  obtains h where "run_state (read_tries dev (Suc n)) s =
      (NHSD_ERR_NOERROR, s\<lparr>hw := h, nhsd_buffer := Some (map (disk (addressed (view (hw s)))) [0..<512])\<rparr>)"
    "view h = commanded (view (hw s))"
proof -
  let ?d = "disk (addressed (view (hw s)))"
  obtain h1 where h1: "result_of (ready_wait dev 50000) s" "state_after (ready_wait dev 50000) s = s\<lparr>hw := h1\<rparr>"
    "ready h1" "view h1 = view (hw s)" by (rule first_wait [OF dev r0])
  define h2 where "h2 = dev_poke dev NHSD_CTRL 2 h1"
  have "settles dev busy 49999 (\<lambda>h. view h = commanded (view (hw s)) \<and> ready h \<and> dev_sector dev h = ?d) (hw (s\<lparr>hw := h2\<rparr>))"
    using unreliable_parts(2) [OF dev h1(3)] k by (simp add: h1(4) h2_def)
  from ready_wait_idle [OF unreliable_steady(2) [OF dev] this, of 50000] obtain h3 where h3:
    "result_of (ready_wait dev 50000) (s\<lparr>hw := h2\<rparr>)"
    "state_after (ready_wait dev 50000) (s\<lparr>hw := h2\<rparr>) = s\<lparr>hw := h3\<rparr>"
    "view h3 = commanded (view (hw s)) \<and> ready h3 \<and> dev_sector dev h3 = ?d" by auto
  obtain v h4 where p: "dev_peek dev NHSD_CTRL h3 = (v, h4)" by fastforce
  from steadyD [OF unreliable_steady(2) [OF dev] h3(3) p]
  have h4: "v AND 0x67 = 0" "view h4 = commanded (view (hw s))" "dev_sector dev h4 = ?d" by simp_all
  have poke: "state_after (POKE dev NHSD_CTRL 2) (s\<lparr>hw := h1\<rparr>) = s\<lparr>hw := h2\<rparr>"
    by (simp add: POKE_def h2_def)
  show thesis
    using h1(1,2) poke h3(1,2) p h4 b
    by (intro that [of h4]) (simp_all add: run_state_pair copy_sector_def NHSD_ERR_NOERROR_def run_PEEK)
qed

lemma round_fails:
  assumes dev: "unreliable dev ready failed view disk" and r0: "ready (hw s)"
    and k: "bad_reads (view (hw s)) \<noteq> 0"
  obtains h where "run_state (read_tries dev (Suc n)) s = run_state (read_tries dev n) (s\<lparr>hw := h\<rparr>)"
    "ready h" "view h = commanded (view (hw s))"
proof -
  let ?w = "commanded (view (hw s))"
  obtain h1 where h1: "result_of (ready_wait dev 50000) s" "state_after (ready_wait dev 50000) s = s\<lparr>hw := h1\<rparr>"
    "ready h1" "view h1 = view (hw s)" by (rule first_wait [OF dev r0])
  define h2 where "h2 = dev_poke dev NHSD_CTRL 2 h1"
  have "settles dev busy 49999 (\<lambda>h. view h = ?w \<and> failed h) (hw (s\<lparr>hw := h2\<rparr>))"
    using unreliable_parts(3) [OF dev h1(3)] k by (simp add: h1(4) h2_def)
  from ready_wait_fails [OF unreliable_steady(3) [OF dev] this, of 50000] obtain h3 where h3:
    "state_after (ready_wait dev 50000) (s\<lparr>hw := h2\<rparr>) = s\<lparr>hw := h3\<rparr>" "view h3 = ?w \<and> failed h3" by auto
  obtain v h4 where p: "dev_peek dev NHSD_CTRL h3 = (v, h4)" by fastforce
  from steadyD [OF unreliable_steady(3) [OF dev] h3(2) p]
  have h4: "v AND 0x40 \<noteq> 0" "view h4 = ?w" "failed h4" by simp_all
  then have v: "v AND 0x67 \<noteq> 0" using idle_bits by blast
  define h5 where "h5 = (if result_of (ready_wait dev 50000) (s\<lparr>hw := h2\<rparr>) then h4 else h3)"
  have h5: "view h5 = ?w" "failed h5" using h3(2) h4 by (simp_all add: h5_def)
  let ?bus = "nhsd_init_state s AND NHSD_INIT_BUSMASK"
  obtain h6 where h6: "result_of (nhsd_reset dev ?bus) (s\<lparr>hw := dev_poke dev 0xd020 7 h5\<rparr>) = 0"
    "state_after (nhsd_reset dev ?bus) (s\<lparr>hw := dev_poke dev 0xd020 7 h5\<rparr>) = s\<lparr>hw := h6\<rparr>"
    "ready h6" "view h6 = ?w"
    using unreliable_reset [OF dev h5(2)] h5(1) by metis
  have poke: "state_after (POKE dev NHSD_CTRL 2) (s\<lparr>hw := h1\<rparr>) = s\<lparr>hw := h2\<rparr>"
    by (simp add: POKE_def h2_def)
  have "run_state (read_tries dev (Suc n)) s = run_state (read_tries dev n) (s\<lparr>hw := dev_poke dev 0xd020 0 h6\<rparr>)"
    using h1(1,2) poke h3(1) p v h6(1,2)
    by (cases "result_of (ready_wait dev 50000) (s\<lparr>hw := h2\<rparr>)")
      (simp_all add: run_state_pair run_PEEK POKE_def h5_def)
  then show thesis using unreliable_parts(6,7) [OF dev h6(3)] h6(4) by (intro that) simp_all
qed

lemma read_tries_retries:
  assumes dev: "unreliable dev ready failed view disk"
  shows "ready (hw s) \<Longrightarrow> nhsd_buffer s = Some bs \<Longrightarrow> addressed (view (hw s)) = a \<Longrightarrow> bad_reads (view (hw s)) = k \<Longrightarrow>
    \<exists>h. run_state (read_tries dev n) s = (if k < n
        then (NHSD_ERR_NOERROR, s\<lparr>hw := h, nhsd_buffer := Some (map (disk a) [0..<512])\<rparr>)
        else (NHSD_ERR_READERROR, s\<lparr>hw := h\<rparr>)) \<and>
      commands (view h) = commands (view (hw s)) @ replicate (min n (Suc k)) a"
proof (induction n arbitrary: s k)
  case 0
  then show ?case by (intro exI [of _ "hw s"]) (simp add: run_state_pair)
next
  case (Suc n)
  show ?case
  proof (cases k)
    case 0
    then have z: "bad_reads (view (hw s)) = 0" using Suc.prems(4) by simp
    obtain h where "run_state (read_tries dev (Suc n)) s =
        (NHSD_ERR_NOERROR, s\<lparr>hw := h, nhsd_buffer := Some (map (disk (addressed (view (hw s)))) [0..<512])\<rparr>)"
      "view h = commanded (view (hw s))"
      by (rule round_works [OF dev Suc.prems(1,2) z])
    then show ?thesis using 0 Suc.prems(3) by (intro exI [of _ h]) (simp del: read_tries.simps)
  next
    case (Suc k')
    then have nz: "bad_reads (view (hw s)) \<noteq> 0" using Suc.prems(4) by simp
    obtain h where h: "run_state (read_tries dev (Suc n)) s = run_state (read_tries dev n) (s\<lparr>hw := h\<rparr>)"
      "ready h" "view h = commanded (view (hw s))"
      by (rule round_fails [OF dev Suc.prems(1) nz])
    obtain h' where h': "run_state (read_tries dev n) (s\<lparr>hw := h\<rparr>) = (if k' < n
        then (NHSD_ERR_NOERROR, s\<lparr>hw := h', nhsd_buffer := Some (map (disk a) [0..<512])\<rparr>)
        else (NHSD_ERR_READERROR, s\<lparr>hw := h'\<rparr>))"
      "commands (view h') = commands (view h) @ replicate (min n (Suc k')) a"
      using Suc.IH [of "s\<lparr>hw := h\<rparr>" k'] h(2,3) Suc.prems(2-4) Suc
      by (auto cong del: if_weak_cong simp del: read_tries.simps)
    have "commands (view h') = commands (view (hw s)) @ replicate (min (Suc n) (Suc k)) a"
      using h'(2) h(3) Suc Suc.prems(3) by simp
    then show ?thesis using h(1) h'(1) Suc by (intro exI [of _ h']) (simp del: read_tries.simps)
  qed
qed


definition address_pokes :: "'d sd_device \<Rightarrow> u32 \<Rightarrow> 'd \<Rightarrow> 'd" where
  "address_pokes dev a h = dev_poke dev (NHSD_ADDR + 3) (ucast (drop_bit 24 a)) (dev_poke dev (NHSD_ADDR + 2) (ucast (drop_bit 16 a))
    (dev_poke dev (NHSD_ADDR + 1) (ucast (drop_bit 8 a)) (dev_poke dev (NHSD_ADDR + 0) (ucast a) h)))"

lemma readsector_pokes:
  "run_state (nhsd_readsector dev a) s = run_state (read_tries dev 10) (s\<lparr>hw := address_pokes dev a (hw s)\<rparr>)"
  by (simp add: run_state_pair nhsd_readsector_def address_pokes_def POKE_def ucast_low del: read_tries.simps)

text \<open>
  C37: reading a sector of a card with read errors, of which the next \<open>k\<close> read commands fail: with
  \<open>k\<close> below ten the sector is in the buffer in the end, after \<open>k + 1\<close> commands, and no error is
  reported; else a read error is, after ten commands, and the buffer is as before. Every read command is
  for the sector that was asked for, and there are no more of them than that. The controller is one that
  reports the error of a failed command and that a reset makes work again.
\<close>

theorem read_retries:
  assumes "unreliable dev ready failed view disk" and "ready (hw s)" and "nhsd_buffer s = Some bs"
    and "k = bad_reads (view (hw s))"
  shows "\<exists>h. run_state (nhsd_readsector dev a) s = (if k < 10
      then (NHSD_ERR_NOERROR, s\<lparr>hw := h, nhsd_buffer := Some (map (disk a) [0..<512])\<rparr>)
      else (NHSD_ERR_READERROR, s\<lparr>hw := h\<rparr>)) \<and>
    commands (view h) = commands (view (hw s)) @ replicate (min 10 (Suc k)) a"
proof -
  note poke = unreliable_parts(1) [OF assms(1)]
  define h0 where "h0 = dev_poke dev (NHSD_ADDR + 0) (ucast a) (hw s)"
  define h1 where "h1 = dev_poke dev (NHSD_ADDR + 1) (ucast (drop_bit 8 a)) h0"
  define h2 where "h2 = dev_poke dev (NHSD_ADDR + 2) (ucast (drop_bit 16 a)) h1"
  define h3 where "h3 = dev_poke dev (NHSD_ADDR + 3) (ucast (drop_bit 24 a)) h2"
  have h0: "ready h0 \<and> view h0 = (view (hw s))\<lparr>addr_regs := (addr_regs (view (hw s)))(0 := ucast a)\<rparr>"
    using poke [OF assms(2), of 0] by (simp add: h0_def)
  have h1: "ready h1 \<and> view h1 = (view h0)\<lparr>addr_regs := (addr_regs (view h0))(1 := ucast (drop_bit 8 a))\<rparr>"
    using poke [OF conjunct1 [OF h0], of 1] by (simp add: h1_def)
  have h2: "ready h2 \<and> view h2 = (view h1)\<lparr>addr_regs := (addr_regs (view h1))(2 := ucast (drop_bit 16 a))\<rparr>"
    using poke [OF conjunct1 [OF h1], of 2] by (simp add: h2_def)
  have h3: "ready h3 \<and> view h3 = (view h2)\<lparr>addr_regs := (addr_regs (view h2))(3 := ucast (drop_bit 24 a))\<rparr>"
    using poke [OF conjunct1 [OF h2], of 3] by (simp add: h3_def)
  have "address_pokes dev a (hw s) = h3" by (simp add: address_pokes_def h0_def h1_def h2_def h3_def)
  moreover have "addressed (view h3) = a" "bad_reads (view h3) = k" "commands (view h3) = commands (view (hw s))"
    using h0 h1 h2 h3 assms(4) by (simp_all add: addressed_def le32_bytes)
  ultimately show ?thesis
    using read_tries_retries [OF assms(1), of "s\<lparr>hw := h3\<rparr>" bs a k 10] h3 assms(3)
    by (auto simp: readsector_pokes simp del: read_tries.simps)
qed

text \<open>A card whose next three read commands fail; the last component says whether the card has failed.\<close>

type_synonym shaky_state = "card_view \<times> u32 \<times> nat \<times> bool"

definition shaky_card :: "(u32 \<Rightarrow> nat \<Rightarrow> u8) \<Rightarrow> shaky_state sd_device" where
  "shaky_card disk = \<lparr>
     dev_peek = (\<lambda>a (c, l, w, f). if a = NHSD_CTRL
       then (if w \<noteq> 0 then 0x13 else if f then 0x50 else 0x10, c, l, w - 1, f) else (0, c, l, w, f)),
     dev_poke = (\<lambda>a v (c, l, w, f).
       if a = NHSD_CTRL then
         if v = 2 then (commanded c, addressed c, 3, bad_reads c \<noteq> 0)
         else if v = 1 then (c, l, 2, False) else (c, l, w, f)
       else if a = 0xd020 then (c, l, w, f)
       else (c\<lparr>addr_regs := (addr_regs c)(unat (a - NHSD_ADDR) := v)\<rparr>, l, w, f)),
     dev_sector = (\<lambda>(c, l, w, f). if w = 0 \<and> \<not> f then disk l else (\<lambda>_. 0))\<rparr>"

definition shaky_ready :: "shaky_state \<Rightarrow> bool" where
  "shaky_ready h \<longleftrightarrow> (case h of (c, l, w, f) \<Rightarrow> w = 0 \<and> \<not> f)"

definition shaky_failed :: "shaky_state \<Rightarrow> bool" where
  "shaky_failed h \<longleftrightarrow> (case h of (c, l, w, f) \<Rightarrow> w = 0 \<and> f)"

lemma shaky_card_settles:
  assumes "b 0x13" and "w \<le> n" and "Q (c, l, 0, f)"
  shows "settles (shaky_card disk) b n Q (c, l, w, f)"
  using assms(2)
proof (induction w arbitrary: n)
  case 0
  show ?case using assms(3) by (rule settles_now)
next
  case (Suc w)
  then show ?case
    using assms(1) by (intro settles_steps [of n _ _ "0x13" "(c, l, w, f)"]) (simp_all add: shaky_card_def)
qed

lemma shaky_card_unreliable: "unreliable (shaky_card disk) shaky_ready shaky_failed fst disk"
proof -
  have read: "settles (shaky_card disk) busy 49999
       (\<lambda>h'. fst h' = commanded (fst h) \<and> (if bad_reads (fst h) = 0
         then shaky_ready h' \<and> dev_sector (shaky_card disk) h' = disk (addressed (fst h)) else shaky_failed h'))
       (dev_poke (shaky_card disk) NHSD_CTRL 2 h)" for h :: shaky_state
  proof -
    obtain c l w f where h: "h = (c, l, w, f)" by (metis surj_pair)
    have "dev_poke (shaky_card disk) NHSD_CTRL 2 h = (commanded c, addressed c, 3, bad_reads c \<noteq> 0)"
      by (simp add: h shaky_card_def)
    moreover have "settles (shaky_card disk) busy 49999
       (\<lambda>h'. fst h' = commanded c \<and> (if bad_reads c = 0
         then shaky_ready h' \<and> dev_sector (shaky_card disk) h' = disk (addressed c) else shaky_failed h'))
       (commanded c, addressed c, 3, bad_reads c \<noteq> 0)"
      by (rule shaky_card_settles) (simp_all add: busy_def shaky_ready_def shaky_failed_def shaky_card_def)
    ultimately show ?thesis by (simp only: h fst_conv)
  qed
  have reset: "settles (shaky_card disk) (\<lambda>v. v AND 3 \<noteq> 0) 99999 (\<lambda>h'. shaky_ready h' \<and> fst h' = fst h)
       (reset_pokes (shaky_card disk) bus (dev_poke (shaky_card disk) 0xd020 7 h))" if "0xc0 OR bus \<noteq> 2" for h bus
  proof -
    obtain c l w f where h: "h = (c, l, w, f)" by (metis surj_pair)
    let ?p = "dev_poke (shaky_card disk) NHSD_CTRL"
    have b1: "0xc0 OR bus \<noteq> 1" using le_word_or2 [of "0xc0 :: u8" bus] by (auto simp: word_le_nat_alt)
    have "dev_poke (shaky_card disk) 0xd020 7 h = (c, l, w, f)" by (simp add: h shaky_card_def NHSD_CTRL_def)
    moreover have "?p (0xc0 OR bus) (c, l, w, f) = (c, l, w, f)" using that b1 by (simp add: shaky_card_def)
    moreover have "?p 1 (?p 0 (?p 0x40 (c, l, w, f))) = (c, l, 2, False)" by (simp add: shaky_card_def)
    ultimately have "reset_pokes (shaky_card disk) bus (dev_poke (shaky_card disk) 0xd020 7 h) = (c, l, 2, False)"
      by (simp add: reset_pokes_def)
    moreover have "settles (shaky_card disk) (\<lambda>v. v AND 3 \<noteq> 0) 99999 (\<lambda>h'. shaky_ready h' \<and> fst h' = c) (c, l, 2, False)"
      by (rule shaky_card_settles) (simp_all add: shaky_ready_def)
    ultimately show ?thesis by (simp add: h)
  qed
  have bus: "0xc0 OR bus \<noteq> (2 :: u8)" for bus using le_word_or2 [of "0xc0 :: u8" bus] by auto
  have d: "NHSD_ADDR + of_nat i \<noteq> 0xd020" if "i < 4" for i
  proof -
    from that have "i = 0 \<or> i = 1 \<or> i = 2 \<or> i = 3" by arith
    then show ?thesis by (auto simp: NHSD_ADDR_def)
  qed
  show ?thesis
    unfolding unreliable_def using read reset [OF bus] d address_registers
    by (intro conjI allI impI) (auto simp: shaky_card_def shaky_ready_def shaky_failed_def NHSD_CTRL_def)
qed

definition shaky_sd :: "nat \<Rightarrow> shaky_state sd" where
  "shaky_sd k = \<lparr>hw = (\<lparr>addr_regs = (\<lambda>_. 0), bad_reads = k, commands = []\<rparr>, 0, 0, False),
     nhsd_buffer = Some [], nhsd_init_state = 0x1e,
     nhsd_current_dir = 2, nhsd_part_start = 0, nhsd_part_end = 0, sectors_per_cluster = 1,
     reserved_sectors = 0, data_sectors = 0, sectors_per_fat = 0, cluster2_sector = 0,
     open_pos = \<lparr>pos_cluster = 0, pos_sector = 0, sector_in_cluster = 0\<rparr>, open_offset_in_sector = 0,
     nhsd_dirent = \<lparr>d_ino = 0, d_reclen = 0, d_type = 0, d_name = (\<lambda>_. 0)\<rparr>, wild = False\<rparr>"

lemma read_retries_witness:
  "\<exists>h t. run_state (nhsd_readsector (shaky_card (\<lambda>a i. ucast a)) 7) (shaky_sd 3) = (NHSD_ERR_NOERROR, t) \<and>
    nhsd_buffer t = Some (replicate 512 7) \<and> commands (fst (hw t)) = [7, 7, 7, 7] \<and>
    run_state (nhsd_readsector (shaky_card (\<lambda>a i. ucast a)) 7) (shaky_sd 12) = (NHSD_ERR_READERROR, (shaky_sd 12)\<lparr>hw := h\<rparr>)"
proof -
  have s: "shaky_ready (hw (shaky_sd k))" "nhsd_buffer (shaky_sd k) = Some []" "bad_reads (fst (hw (shaky_sd k))) = k"
    "commands (fst (hw (shaky_sd k))) = []" for k
    by (simp_all add: shaky_ready_def shaky_sd_def)
  let ?d = "\<lambda>(a :: u32) (i :: nat). ucast a :: u8"
  obtain h where h: "run_state (nhsd_readsector (shaky_card ?d) 7) (shaky_sd 3) =
      (NHSD_ERR_NOERROR, (shaky_sd 3)\<lparr>hw := h, nhsd_buffer := Some (map (?d 7) [0..<512])\<rparr>)"
    "commands (fst h) = replicate (min 10 (Suc 3)) 7"
    using read_retries [OF shaky_card_unreliable s(1,2) s(3) [symmetric], where disk = ?d and k = 3 and a = 7] s(4)
    by auto
  obtain h' where h': "run_state (nhsd_readsector (shaky_card ?d) 7) (shaky_sd 12) =
      (NHSD_ERR_READERROR, (shaky_sd 12)\<lparr>hw := h'\<rparr>)"
    using read_retries [OF shaky_card_unreliable s(1,2) s(3) [symmetric], where disk = ?d and k = 12 and a = 7]
    by auto
  have "map (?d 7) [0..<512] = replicate 512 7" by (rule nth_equalityI) simp_all
  moreover have "replicate (min 10 (Suc 3)) (7 :: u32) = [7, 7, 7, 7]" by (simp add: numeral_eq_Suc)
  ultimately show ?thesis using h h'
    by (intro exI [of _ h'] exI [of _ "(shaky_sd 3)\<lparr>hw := h, nhsd_buffer := Some (replicate 512 7)\<rparr>"] conjI) simp_all
qed

end
