(* ===== verification/DirectoryLaws.thy ===== *)
theory DirectoryLaws
  imports SdcardLaws
begin

text \<open>
  Properties of the directory reader: which long-name entries write outside the name buffer, the
  names of entries with a short and with a long name, the walk over the entries of a directory,
  and that a search leaves nothing open.
\<close>

section \<open>Names\<close>

text \<open>Storing \<open>n\<close> characters at index \<open>d\<close> of the name buffer, which has 256 elements.\<close>

definition store_name :: "int \<Rightarrow> nat \<Rightarrow> (nat \<Rightarrow> u8) \<Rightarrow> 'd sd \<Rightarrow> 'd sd" where
  "store_name d n c s = s\<lparr>nhsd_dirent := (nhsd_dirent s)\<lparr>d_name := (\<lambda>i.
       if d \<le> int i \<and> int i < d + int n \<and> i < 256 then c (nat (int i - d)) else d_name (nhsd_dirent s) i)\<rparr>,
     wild := (wild s \<or> 0 < n \<and> (d < 0 \<or> 256 < d + int n))\<rparr>"

lemma store_name_simps [simp]:
  "hw (store_name d n c s) = hw s" "nhsd_buffer (store_name d n c s) = nhsd_buffer s"
  "open_offset_in_sector (store_name d n c s) = open_offset_in_sector s"
  "nhsd_init_state (store_name d n c s) = nhsd_init_state s"
  "wild (store_name d n c s) \<longleftrightarrow> wild s \<or> 0 < n \<and> (d < 0 \<or> 256 < d + int n)"
  by (simp_all add: store_name_def)

lemma store_name_0: "store_name d 0 c s = s"
proof -
  have "(\<lambda>i. if d \<le> int i \<and> int i < d + int 0 \<and> i < 256 then c (nat (int i - d)) else d_name (nhsd_dirent s) i) =
      d_name (nhsd_dirent s)"
    by (auto simp: fun_eq_iff)
  then show ?thesis unfolding store_name_def by (simp only:) simp
qed

lemma store_name_add:
  "store_name (d + int m) n (\<lambda>j. c (j + m)) (store_name d m c s) = store_name d (m + n) c s"
proof -
  have index: "nat (int i - (d + int m)) + m = nat (int i - d)" if "d + int m \<le> int i" for i
    using that by simp
  have "(0 < m \<and> (d < 0 \<or> 256 < d + int m) \<or> 0 < n \<and> (d + int m < 0 \<or> 256 < d + int m + int n)) =
      (0 < m + n \<and> (d < 0 \<or> 256 < d + int (m + n)))"
    by auto
  then show ?thesis by (auto simp: store_name_def fun_eq_iff index)
qed

lemma put_name_store: "run_state (put_name d c) s = ((), store_name d 1 (\<lambda>_. c) s)"
proof (cases "0 \<le> d \<and> d < 256")
  case True
  then have upd: "(\<lambda>i. if d \<le> int i \<and> int i < d + int 1 \<and> i < 256 then c else d_name (nhsd_dirent s) i) =
      (d_name (nhsd_dirent s))(nat d := c)"
    by (auto simp: fun_eq_iff)
  from True have "\<not> d < 0" "\<not> 256 < d + int 1" by simp_all
  with True show ?thesis unfolding store_name_def upd by (simp add: put_name_def)
next
  case False
  then have upd: "(\<lambda>i. if d \<le> int i \<and> int i < d + int 1 \<and> i < 256 then c else d_name (nhsd_dirent s) i) =
      d_name (nhsd_dirent s)"
    by (auto simp: fun_eq_iff)
  from False have "d < 0 \<or> 256 < d + int 1" by arith
  moreover from False have "run_state (put_name d c) s = run_state go_wild s" by (simp only: put_name_def if_False)
  ultimately show ?thesis unfolding store_name_def upd by (simp add: go_wild_def)
qed

text \<open>The directory entry at the current offset of the buffer.\<close>

definition at_entry :: "(nat \<Rightarrow> u8) \<Rightarrow> 'd sd \<Rightarrow> bool" where
  "at_entry e s \<longleftrightarrow>
    (case nhsd_buffer s of None \<Rightarrow> False
     | Some bs \<Rightarrow> length bs = 512 \<and> unat (open_offset_in_sector s) + 32 \<le> 512 \<and>
         (\<forall>i<32. bs ! (unat (open_offset_in_sector s) + i) = e i))"

lemma at_entry_store [simp]: "at_entry e (store_name d n c s) = at_entry e s"
  by (simp add: at_entry_def split: option.split)

lemma ent_at: "at_entry e s \<Longrightarrow> i < 32 \<Longrightarrow> run_state (ent i) s = (e i, s)"
  by (auto simp: at_entry_def ent_def run_state_pair buf_at split: option.splits)

lemma copy_chunk:
  "at_entry e s \<Longrightarrow> offset + 2 * n \<le> 33 \<Longrightarrow>
   run_state (nhsd_copy_to_dnamechunk d offset n) s = ((), store_name d n (\<lambda>j. e (offset + 2 * j)) s)"
proof (induction n arbitrary: d offset s)
  case 0
  show ?case by (simp add: store_name_0)
next
  case (Suc n)
  let ?c = "\<lambda>j. e (offset + 2 * j)"
  let ?s = "store_name d 1 ?c s"
  have first: "run_state (put_name d (e offset)) s = ((), ?s)"
    by (simp add: put_name_store store_name_def cong: if_cong)
  have "run_state (nhsd_copy_to_dnamechunk (d + 1) (offset + 2) n) ?s =
      ((), store_name (d + 1) n (\<lambda>j. e (offset + 2 + 2 * j)) ?s)"
    using Suc.prems by (intro Suc.IH) simp_all
  also have "store_name (d + 1) n (\<lambda>j. e (offset + 2 + 2 * j)) ?s = store_name d (Suc n) ?c s"
    using store_name_add [of d 1 n ?c s] by (simp add: algebra_simps)
  finally show ?case
    using Suc.prems by (simp add: ent_at first)
qed

text \<open>The thirteen characters of a name that a long-name entry holds.\<close>

definition lfn_char :: "(nat \<Rightarrow> u8) \<Rightarrow> nat \<Rightarrow> u8" where
  "lfn_char e j = e (if j < 5 then 1 + 2 * j else if j < 11 then 0x0e + 2 * (j - 5) else 0x1c + 2 * (j - 11))"

lemma store_name_cong:
  assumes "\<And>j. j < n \<Longrightarrow> c j = c' j"
  shows "store_name d n c s = store_name d n c' s"
proof -
  have "(\<lambda>i. if d \<le> int i \<and> int i < d + int n \<and> i < 256 then c (nat (int i - d)) else d_name (nhsd_dirent s) i) =
      (\<lambda>i. if d \<le> int i \<and> int i < d + int n \<and> i < 256 then c' (nat (int i - d)) else d_name (nhsd_dirent s) i)"
    using assms by (auto simp: fun_eq_iff)
  then show ?thesis unfolding store_name_def by (simp only:)
qed

lemma copy_chunk_as:
  assumes "at_entry e s" "offset + 2 * n \<le> 33" "\<And>j. j < n \<Longrightarrow> c j = e (offset + 2 * j)"
  shows "run_state (nhsd_copy_to_dnamechunk d offset n) s = ((), store_name d n c s)"
  using copy_chunk [OF assms(1,2)] store_name_cong [of n c "\<lambda>j. e (offset + 2 * j)"] assms(3) by metis

lemma lfn_copy:
  assumes e: "at_entry e s"
  shows "run_state (nhsd_copy_vfat_chars_into_dname q) s = ((), store_name (13 * (q - 1)) 13 (lfn_char e) s)"
proof -
  let ?d = "13 * (q - 1)"
  let ?s5 = "store_name ?d 5 (lfn_char e) s" and ?s11 = "store_name ?d 11 (lfn_char e) s"
  have "run_state (nhsd_copy_to_dnamechunk ?d 0x01 5) s = ((), ?s5)"
    by (rule copy_chunk_as [OF e]) (simp_all add: lfn_char_def)
  moreover have "run_state (nhsd_copy_to_dnamechunk (?d + 5) 0x0e 6) ?s5 =
      ((), store_name (?d + int 5) 6 (\<lambda>j. lfn_char e (j + 5)) ?s5)"
    unfolding of_nat_numeral by (rule copy_chunk_as [of e]) (simp_all add: e lfn_char_def)
  moreover have "store_name (?d + int 5) 6 (\<lambda>j. lfn_char e (j + 5)) ?s5 = ?s11"
    unfolding store_name_add by simp
  moreover have "run_state (nhsd_copy_to_dnamechunk (?d + 5 + 6) 0x1c 2) ?s11 =
      ((), store_name (?d + int 11) 2 (\<lambda>j. lfn_char e (j + 11)) ?s11)"
  proof -
    have eleven: "?d + 5 + 6 = ?d + int 11" by simp
    show ?thesis unfolding eleven by (rule copy_chunk_as [of e]) (simp_all add: e lfn_char_def)
  qed
  moreover have "store_name (?d + int 11) 2 (\<lambda>j. lfn_char e (j + 11)) ?s11 = store_name ?d 13 (lfn_char e) s"
    unfolding store_name_add by simp
  ultimately show ?thesis
    by (simp only: nhsd_copy_vfat_chars_into_dname_def Let_def run_state_bind) simp
qed

text \<open>What a long-name entry with the first byte \<open>d0\<close> stores.\<close>

definition store_part :: "(nat \<Rightarrow> u8) \<Rightarrow> 'd sd \<Rightarrow> 'd sd" where
  "store_part e s =
    (let q = e 0 AND 0x1f;
         s' = (if e 0 AND 0x40 \<noteq> 0 \<or> q = 19 then store_name (13 * uint q) 1 (\<lambda>_. 0) s else s)
     in if q < 20 then store_name (13 * (uint q - 1)) 13 (lfn_char e) s' else s')"

lemma at_entry_part [simp]: "at_entry e (store_part e' s) = at_entry e s"
  by (simp add: store_part_def Let_def)

lemma vfat_part_stores:
  assumes "at_entry e s"
  shows "run_state (vfat_part (e 0)) s = (e 0 AND 0x1f, store_part e s)"
  using assms by (simp add: vfat_part_def store_part_def Let_def put_name_store lfn_copy mult.commute)

text \<open>
  C40: which long-name entries are stored outside the name buffer of 256 characters: exactly those
  with sequence number 0, whose characters go in front of it, and those with a number of 20 or
  more that are marked as the last part, whose terminating zero goes behind it.
\<close>

theorem vfat_part_bounds:
  assumes "at_entry e s" and "\<not> wild s"
  shows "wild (state_after (vfat_part (e 0)) s) \<longleftrightarrow>
    e 0 AND 0x1f = 0 \<or> e 0 AND 0x1f \<ge> 20 \<and> e 0 AND 0x40 \<noteq> 0"
proof -
  define n where "n = unat (e 0 AND 0x1f)"
  have le: "n \<le> 31" using unat_and_le [of "e 0" "0x1f"] by (simp add: n_def)
  have u: "uint (e 0 AND 0x1f) = int n" by (simp add: n_def)
  have q: "e 0 AND 0x1f = 0 \<longleftrightarrow> n = 0" "e 0 AND 0x1f < 20 \<longleftrightarrow> n < 20" "20 \<le> e 0 AND 0x1f \<longleftrightarrow> 20 \<le> n"
    "e 0 AND 0x1f = 19 \<longleftrightarrow> n = 19"
    by (simp_all only: n_def word_less_nat_alt word_le_nat_alt word_unat_eq_iff) simp_all
  have "state_after (vfat_part (e 0)) s = store_part e s"
    using vfat_part_stores [OF assms(1)] by (simp add: state_after_def)
  moreover have "wild (store_part e s) \<longleftrightarrow> n = 0 \<or> 20 \<le> n \<and> e 0 AND 0x40 \<noteq> 0"
    using assms(2) le unfolding store_part_def Let_def u q by auto
  ultimately show ?thesis by (simp only: q)
qed

text \<open>A state whose entry starts with \<open>v\<close> and has zeros otherwise.\<close>

definition sample_entry :: "u8 \<Rightarrow> card_state sd" where
  "sample_entry v = sample_sd\<lparr>nhsd_buffer := Some (v # replicate 511 0)\<rparr>"

lemma vfat_part_bounds_witness:
  "wild (state_after (vfat_part 0x40) (sample_entry 0x40)) \<and>
   wild (state_after (vfat_part 0x54) (sample_entry 0x54)) \<and>
   \<not> wild (state_after (vfat_part 0x53) (sample_entry 0x53))"
proof -
  have at: "at_entry (\<lambda>i. if i = 0 then v else 0) (sample_entry v)" "\<not> wild (sample_entry v)" for v
    by (simp_all add: at_entry_def sample_entry_def sample_sd_def nth_Cons')
  from vfat_part_bounds [OF at(1,2), of "0x40"] vfat_part_bounds [OF at(1,2), of "0x54"]
    vfat_part_bounds [OF at(1,2), of "0x53"]
  show ?thesis by simp
qed

subsection \<open>Short names\<close>

definition store_list :: "nat \<Rightarrow> u8 list \<Rightarrow> 'd sd \<Rightarrow> 'd sd" where
  "store_list d cs s = store_name (int d) (length cs) ((!) cs) s"

lemma store_list_Nil [simp]: "store_list d [] s = s"
  by (simp add: store_list_def store_name_0)

lemma at_entry_store_list [simp]: "at_entry e (store_list d cs s) = at_entry e s"
  by (simp add: store_list_def)

lemma store_list_append: "store_list (d + length xs) ys (store_list d xs s) = store_list d (xs @ ys) s"
proof -
  have "store_name (int d) (length xs) ((!) xs) s = store_name (int d) (length xs) ((!) (xs @ ys)) s"
    by (rule store_name_cong) (simp add: nth_append)
  moreover have "store_name (int d + int (length xs)) (length ys) ((!) ys) u =
      store_name (int d + int (length xs)) (length ys) (\<lambda>j. (xs @ ys) ! (j + length xs)) u" for u :: "'a sd"
    by (rule store_name_cong) (simp add: nth_append)
  ultimately show ?thesis
    using store_name_add [of "int d" "length xs" "length ys" "(!) (xs @ ys)" s]
    by (simp add: store_list_def)
qed

lemma put_name_list: "run_state (put_name (int d) c) s = ((), store_list d [c] s)"
proof -
  have "store_name (int d) 1 (\<lambda>_. c) s = store_name (int d) 1 ((!) [c]) s"
    by (rule store_name_cong) simp
  then show ?thesis by (simp add: put_name_store store_list_def)
qed

text \<open>The bytes of a short name that are kept, and the dot behind the first eight.\<close>

definition short_piece :: "(nat \<Rightarrow> u8) \<Rightarrow> nat \<Rightarrow> u8 list" where
  "short_piece e i = filter (\<lambda>c. c \<noteq> 0x20 \<and> c \<noteq> 0) [e i] @ (if i = 7 then [0x2e] else [])"

lemma short_loop_stores:
  "at_entry e s \<Longrightarrow> i + k \<le> 11 \<Longrightarrow>
   run_state (short_loop k i (int n)) s =
     (int (n + length (concat (map (short_piece e) [i..<i + k]))),
      store_list n (concat (map (short_piece e) [i..<i + k])) s)"
proof (induction k arbitrary: i n s)
  case 0
  show ?case by simp
next
  case (Suc k)
  let ?p = "short_piece e i" and ?r = "concat (map (short_piece e) [Suc i..<Suc i + k])"
  have "run_state (short_loop (Suc k) i (int n)) s =
      run_state (short_loop k (Suc i) (int (n + length ?p))) (store_list n ?p s)"
  proof -
    have one: "run_state (put_name (1 + int n) c) u = ((), store_list (Suc n) [c] u)" for c and u :: "'a sd"
      using put_name_list [of "Suc n" c u] by (simp add: add.commute)
    have two: "store_list (Suc n) [c] (store_list n [b] s) = store_list n [b, c] s" for b c
      using store_list_append [of n "[b]" "[c]" s] by simp
    have ent: "run_state (ent i) s = (e i, s)" using Suc.prems by (intro ent_at) simp_all
    show ?thesis
      by (auto simp: ent put_name_list one two short_piece_def add.commute)
  qed
  also have "\<dots> = (int (n + length ?p + length ?r), store_list (n + length ?p) ?r (store_list n ?p s))"
    using Suc.prems by (intro Suc.IH) simp_all
  finally show ?case
    by (simp add: store_list_append upt_conv_Cons add.assoc del: upt_Suc)
qed

lemma strip_dots_result:
  "run_state (strip_dots n) s =
    (length (dropWhile (\<lambda>c. c = 0x2e) (rev (map (d_name (nhsd_dirent s)) [0..<n]))), s)"
  by (induction n) (simp_all add: get_name_def)

lemma name_string_upto:
  assumes "m < 256" "\<And>i. i < m \<Longrightarrow> f i \<noteq> 0" "f m = 0"
  shows "name_string f = map f [0..<m]"
proof -
  have "[0..<256] = [0..<m] @ m # [Suc m..<256]"
    using assms(1) upt_add_eq_append [of 0 m "256 - m"] by (simp add: upt_conv_Cons)
  moreover have "takeWhile (\<lambda>c. c \<noteq> 0) (map f [0..<m] @ 0 # map f [Suc m..<256]) = map f [0..<m]"
    using assms(2) by (subst takeWhile_append2) auto
  ultimately show ?thesis using assms(3) by (simp add: name_string_def del: upt_Suc)
qed

lemma d_name_store_list:
  "d + length cs \<le> 256 \<Longrightarrow> d_name (nhsd_dirent (store_list d cs s)) i =
    (if d \<le> i \<and> i < d + length cs then cs ! (i - d) else d_name (nhsd_dirent s) i)"
  by (auto simp: store_list_def store_name_def nat_diff_distrib')

text \<open>The name of the 8.3 entry \<open>e\<close>: base, dot and extension, without dots at the end.\<close>

definition short_spec :: "(nat \<Rightarrow> u8) \<Rightarrow> u8 list" where
  "short_spec e =
    (let visible = filter (\<lambda>c. c \<noteq> 0x20 \<and> c \<noteq> 0) in
     rev (dropWhile (\<lambda>c. c = 0x2e) (rev
       (visible (map e [0..<8]) @ [0x2e] @ visible (map e [8..<11])))))"

lemma concat_short_pieces:
  "concat (map (short_piece e) [0..<11]) =
    filter (\<lambda>c. c \<noteq> 0x20 \<and> c \<noteq> 0) (map e [0..<8]) @ [0x2e] @ filter (\<lambda>c. c \<noteq> 0x20 \<and> c \<noteq> 0) (map e [8..<11])"
proof -
  have pieces: "concat (map (short_piece e) is) = filter (\<lambda>c. c \<noteq> 0x20 \<and> c \<noteq> 0) (map e is)" if "7 \<notin> set is" for "is"
    using that by (induction "is") (auto simp: short_piece_def)
  have "[0..<11] = [0..<7] @ 7 # [8..<11]" "[0..<8] = [0..<7] @ [7 :: nat]"
    by (simp_all add: upt_rec)
  then show ?thesis by (simp add: pieces short_piece_def del: upt_Suc upt_rec_numeral)
qed

text \<open>
  the name of a directory entry without a long name: its base name, a dot and its extension
  without spaces and zeros, and without dots at the end.
\<close>

theorem short_name_spec:
  assumes e: "at_entry e s"
  shows "name_string (d_name (nhsd_dirent (state_after short_name s))) = short_spec e"
proof -
  define cs where "cs = concat (map (short_piece e) [0..<11])"
  define m where "m = length (dropWhile (\<lambda>c. c = 0x2e) (rev cs))"
  let ?s = "store_list 0 cs s"
  have len: "length cs \<le> 12"
  proof -
    have "length cs \<le> sum_list (map (\<lambda>i. if i = 7 then 2 else 1) [0..<11])"
      unfolding cs_def length_concat map_map
      by (rule sum_list_mono) (simp add: short_piece_def)
    then show ?thesis by (simp add: upt_rec)
  qed
  have m: "m \<le> length cs" unfolding m_def by (metis length_dropWhile_le length_rev)
  have spec: "short_spec e = take m cs"
    unfolding short_spec_def Let_def concat_short_pieces [symmetric] cs_def [symmetric] m_def
    by (simp add: dropWhile_eq_drop rev_drop)
  have names: "map (d_name (nhsd_dirent ?s)) [0..<length cs] = cs"
    using len by (intro nth_equalityI) (simp_all add: d_name_store_list)
  have "run_state (short_loop 11 0 0) s = (int (length cs), ?s)"
    using short_loop_stores [OF e, of 0 11 0] by (simp add: cs_def)
  moreover have "run_state (strip_dots (length cs)) ?s = (m, ?s)"
    by (simp only: strip_dots_result names m_def)
  ultimately have after: "state_after short_name s = store_list m [0] ?s"
    by (simp add: short_name_def put_name_list state_after_def)
  have at: "d_name (nhsd_dirent (store_list m [0] ?s)) i = (if i = m then 0 else if i < length cs then cs ! i
      else d_name (nhsd_dirent s) i)" for i
    using len m by (simp add: d_name_store_list)
  have nonzero: "cs ! i \<noteq> 0" if "i < length cs" for i
  proof -
    from that have "cs ! i \<in> set cs" by simp
    then show ?thesis by (auto simp: cs_def short_piece_def split: if_splits)
  qed
  have "name_string (d_name (nhsd_dirent (store_list m [0] ?s))) =
      map (d_name (nhsd_dirent (store_list m [0] ?s))) [0..<m]"
    using len m by (intro name_string_upto) (auto simp: at nonzero)
  also have "\<dots> = take m cs"
    using m by (intro nth_equalityI) (simp_all add: at)
  finally show ?thesis by (simp only: after spec)
qed

lemma short_name_spec_witness:
  "name_string (d_name (nhsd_dirent (state_after short_name (sample_sd\<lparr>nhsd_buffer :=
     Some ([0x52, 0x45, 0x41, 0x44, 0x20, 0x20, 0x20, 0x20, 0x4d, 0x20, 0x20] @ replicate 501 0)\<rparr>)))) =
   [0x52, 0x45, 0x41, 0x44, 0x2e, 0x4d]"
proof -
  let ?e = "\<lambda>i. ([0x52, 0x45, 0x41, 0x44, 0x20, 0x20, 0x20, 0x20, 0x4d, 0x20, 0x20] @ replicate 501 0 :: u8 list) ! i"
  have "at_entry ?e (sample_sd\<lparr>nhsd_buffer :=
     Some ([0x52, 0x45, 0x41, 0x44, 0x20, 0x20, 0x20, 0x20, 0x4d, 0x20, 0x20] @ replicate 501 0)\<rparr>)"
    by (simp add: at_entry_def sample_sd_def)
  from short_name_spec [OF this] show ?thesis by (simp add: short_spec_def upt_rec)
qed

subsection \<open>Walking a directory\<close>

text \<open>Entry \<open>k\<close> of the directory in the file that starts at cluster \<open>dir\<close>.\<close>

definition dir_entry :: "(u32 \<Rightarrow> nat \<Rightarrow> u8) \<Rightarrow> 'd sd \<Rightarrow> u32 \<Rightarrow> nat \<Rightarrow> (nat \<Rightarrow> u8) option" where
  "dir_entry disk s dir k =
    map_option (\<lambda>a i. disk a (32 * (k mod 16) + i)) (file_sector disk s dir (k div 16))"

text \<open>
  The states of a walk through the directory of the volume \<open>s\<close> whose next entry is \<open>k\<close>: the
  sector of that entry is in the buffer already, or it is the next one to be read.
\<close>

definition dir_before ::
    "('d \<Rightarrow> bool) \<Rightarrow> (u32 \<Rightarrow> nat \<Rightarrow> u8) \<Rightarrow> 'd sd \<Rightarrow> u32 \<Rightarrow> nat \<Rightarrow> 'd sd \<Rightarrow> bool" where
  "dir_before ready disk s dir k u \<longleftrightarrow>
    (\<exists>h b p o1 n w. u = (reading s h b p)\<lparr>open_offset_in_sector := o1, nhsd_dirent := n, wild := w\<rparr> \<and> ready h \<and>
      pos_at disk s dir ((k + 15) div 16) p \<and>
      (if k mod 16 = 0 then 512 \<le> unat o1 + 32 \<and> unat o1 \<le> 512
       else unat o1 + 32 = 32 * (k mod 16) \<and>
         (\<exists>a. file_sector disk s dir (k div 16) = Some a \<and> b = map (disk a) [0..<512])))"

lemma dir_beforeE:
  assumes "dir_before ready disk s dir k u"
  obtains h b p o1 n w where
    "u = (reading s h b p)\<lparr>open_offset_in_sector := o1, nhsd_dirent := n, wild := w\<rparr>" "ready h"
    "pos_at disk s dir ((k + 15) div 16) p"
    "if k mod 16 = 0 then 512 \<le> unat o1 + 32 \<and> unat o1 \<le> 512
     else unat o1 + 32 = 32 * (k mod 16) \<and>
       (\<exists>a. file_sector disk s dir (k div 16) = Some a \<and> b = map (disk a) [0..<512])"
  using assms unfolding dir_before_def by blast

lemma dir_before_name:
  assumes "dir_before ready disk s dir k u"
  shows "dir_before ready disk s dir k (u\<lparr>nhsd_dirent := n, wild := w\<rparr>)"
proof -
  from assms obtain h b p o1 n' w' where
    "u = (reading s h b p)\<lparr>open_offset_in_sector := o1, nhsd_dirent := n', wild := w'\<rparr>" "ready h"
    "pos_at disk s dir ((k + 15) div 16) p"
    "if k mod 16 = 0 then 512 \<le> unat o1 + 32 \<and> unat o1 \<le> 512
     else unat o1 + 32 = 32 * (k mod 16) \<and>
       (\<exists>a. file_sector disk s dir (k div 16) = Some a \<and> b = map (disk a) [0..<512])"
    by (rule dir_beforeE)
  then show ?thesis
    unfolding dir_before_def
    by (intro exI [of _ h] exI [of _ b] exI [of _ p] exI [of _ o1] exI [of _ n] exI [of _ w]) simp
qed

lemma volume_simps [simp]:
  "file_sector disk (s\<lparr>open_offset_in_sector := o1, nhsd_dirent := n, wild := w\<rparr>) = file_sector disk s"
  "expected_read disk (s\<lparr>open_offset_in_sector := o1, nhsd_dirent := n, wild := w\<rparr>) = expected_read disk s"
  "pos_at disk (s\<lparr>open_offset_in_sector := o1, nhsd_dirent := n, wild := w\<rparr>) = pos_at disk s"
  by (auto simp: fun_eq_iff file_sector_def expected_read_def pos_at_def fat_start_def cluster_sector_def Let_def)

lemma reading_update:
  "(reading s h b p)\<lparr>open_offset_in_sector := o1, nhsd_dirent := n, wild := w\<rparr> =
    reading (s\<lparr>open_offset_in_sector := o1, nhsd_dirent := n, wild := w\<rparr>) h b p"
  by (simp add: reading_def)

text \<open>A sector has sixteen entries.\<close>

lemma same_block:
  fixes k :: nat
  assumes "k mod 16 \<noteq> 0"
  shows "(Suc k + 15) div 16 = (k + 15) div 16"
proof -
  define q r where "q = k div 16" and "r = k mod 16 - 1"
  have "k mod 16 < 16" by simp
  then have r: "r < 15" "k mod 16 = Suc r" using assms by (simp_all add: r_def)
  have "k = 16 * q + k mod 16" by (simp add: q_def)
  then have k: "k = 16 * q + Suc r" by (simp only: r)
  have "(k + 15) div 16 = q + 1" "(Suc k + 15) div 16 = q + 1"
    using r(1) by (simp_all add: k div_nat_eqI)
  then show ?thesis by simp
qed

lemma next_block:
  fixes k :: nat
  assumes "k mod 16 = 0"
  shows "(Suc k + 15) div 16 = Suc (k div 16)" "Suc k mod 16 = 1" "Suc k div 16 = k div 16"
proof -
  from assms obtain q where "k = 16 * q" by (metis mod_0_imp_dvd dvdE)
  then show "(Suc k + 15) div 16 = Suc (k div 16)" "Suc k mod 16 = 1" "Suc k div 16 = k div 16"
    by (simp_all add: mod_Suc div_Suc)
qed

lemma next_entry_served:
  assumes dev: "serves dev ready reg disk" and op: "nhsd_init_state s AND NHSD_INIT_OPENMASK \<noteq> 0"
    and spc: "sectors_per_cluster s \<noteq> 0"
    and u: "dir_before ready disk s dir k u" and e: "dir_entry disk s dir k = Some e"
  obtains v where "run_state (nhsd_dir_next_entry dev) u = (0, v)" "dir_before ready disk s dir (Suc k) v"
    "at_entry e v" "nhsd_dirent v = nhsd_dirent u" "wild v = wild u"
proof -
  from u obtain h b p o1 n w where
    st: "u = (reading s h b p)\<lparr>open_offset_in_sector := o1, nhsd_dirent := n, wild := w\<rparr>" and h: "ready h"
    and p: "pos_at disk s dir ((k + 15) div 16) p"
    and off: "if k mod 16 = 0 then 512 \<le> unat o1 + 32 \<and> unat o1 \<le> 512
     else unat o1 + 32 = 32 * (k mod 16) \<and>
       (\<exists>a. file_sector disk s dir (k div 16) = Some a \<and> b = map (disk a) [0..<512])"
    by (rule dir_beforeE)
  from e obtain a where a: "file_sector disk s dir (k div 16) = Some a"
    and e': "e = (\<lambda>i. disk a (32 * (k mod 16) + i))"
    by (auto simp: dir_entry_def)
  have "unat o1 \<le> 512" using off by (auto split: if_splits)
  then have add: "unat (o1 + 0x20) = unat o1 + 32" by (simp add: unat_word_ariths)
  show thesis
  proof (cases "k mod 16 = 0")
    case False
    let ?v = "(reading s h b p)\<lparr>open_offset_in_sector := o1 + 0x20, nhsd_dirent := n, wild := w\<rparr>"
    have o: "unat (o1 + 0x20) = 32 * (k mod 16)" "b = map (disk a) [0..<512]" using False off add a by auto
    have small: "k mod 16 < 16" by simp
    then have "o1 + 0x20 < 512" using o(1) by (simp add: word_less_nat_alt)
    then have "run_state (nhsd_dir_next_entry dev) u = (0, ?v)"
      by (simp add: nhsd_dir_next_entry_def st NHSD_ERR_NOERROR_def)
    moreover have "dir_before ready disk s dir (Suc k) ?v"
    proof -
      have "(Suc k + 15) div 16 = (k + 15) div 16" using False by (rule same_block)
      with p h a o have "pos_at disk s dir ((Suc k + 15) div 16) p" by simp
      moreover have "if Suc k mod 16 = 0 then 512 \<le> unat (o1 + 0x20) + 32 \<and> unat (o1 + 0x20) \<le> 512
         else unat (o1 + 0x20) + 32 = 32 * (Suc k mod 16) \<and>
           (\<exists>a. file_sector disk s dir (Suc k div 16) = Some a \<and> b = map (disk a) [0..<512])"
        using a o small by (simp add: mod_Suc div_Suc)
      ultimately show ?thesis using h unfolding dir_before_def by blast
    qed
    moreover have "at_entry e ?v" using o small by (simp add: at_entry_def e')
    moreover have "nhsd_dirent ?v = nhsd_dirent u" "wild ?v = wild u" by (simp_all add: st)
    ultimately show thesis by (rule that)
  next
    case True
    let ?s = "s\<lparr>open_offset_in_sector := o1 + 0x20, nhsd_dirent := n, wild := w\<rparr>"
    have start: "pos_at disk ?s dir (k div 16) p" using p True by (simp add: div_add1_eq)
    obtain h' b' p' r where r: "ready h'" "result_of (nhsd_read dev) (reading ?s h b p) = r"
      "state_after (nhsd_read dev) (reading ?s h b p) = reading ?s h' b' p'"
      "pos_at disk ?s dir (Suc (k div 16)) p'"
      "(r, if r = 0 then Some b' else None) = expected_read disk ?s dir (k div 16)"
      by (rule nhsd_read_step [OF dev h _ _ start]) (simp_all add: op spc)
    from r(5) a have r0: "r = 0" "b' = map (disk a) [0..<512]"
      by (auto simp: expected_read_def NHSD_ERR_NOERROR_def split: if_splits)
    let ?v = "(reading s h' b' p')\<lparr>open_offset_in_sector := 0, nhsd_dirent := n, wild := w\<rparr>"
    have bump: "u\<lparr>open_offset_in_sector := open_offset_in_sector u + 0x20\<rparr> = reading ?s h b p"
      "(reading ?s h' b' p')\<lparr>open_offset_in_sector := 0\<rparr> = ?v"
      by (rule sd.equality; simp add: st reading_def)+
    have o: "open_offset_in_sector (reading ?s h b p) = o1 + 0x20" by (simp add: reading_def)
    have "\<not> o1 + 0x20 < 512" using True off add by (simp add: word_less_nat_alt)
    then have "run_state (nhsd_dir_next_entry dev) u = (0, ?v)"
      using r(2,3) r0(1) bump(2) unfolding run_state_pair
      by (simp add: nhsd_dir_next_entry_def bump(1) o NHSD_ERR_NOERROR_def)
    moreover have "dir_before ready disk s dir (Suc k) ?v"
    proof -
      have "(Suc k + 15) div 16 = Suc (k div 16)" "Suc k mod 16 = 1" "Suc k div 16 = k div 16"
        using next_block [OF True] by simp_all
      then show ?thesis
        unfolding dir_before_def using r(1,4) a r0(2)
        by (intro exI [of _ h'] exI [of _ b'] exI [of _ p'] exI [of _ "0 :: u16"] exI [of _ n] exI [of _ w]) simp
    qed
    moreover have "at_entry e ?v" using True r0 by (simp add: at_entry_def e')
    moreover have "nhsd_dirent ?v = nhsd_dirent u" "wild ?v = wild u" by (simp_all add: st)
    ultimately show thesis by (rule that)
  qed
qed

lemma dir_before_store: "dir_before ready disk s dir k u \<Longrightarrow> dir_before ready disk s dir k (store_name d n c u)"
  unfolding store_name_def by (rule dir_before_name)

lemma dir_before_part: "dir_before ready disk s dir k u \<Longrightarrow> dir_before ready disk s dir k (store_part e u)"
  by (simp add: store_part_def Let_def dir_before_store)

text \<open>
  A part of a long name that is not deleted, with its sequence number; \<open>fin\<close> says whether it is
  marked as the last part, which comes first in the directory.
\<close>

definition lfn_entry :: "(nat \<Rightarrow> u8) \<Rightarrow> nat \<Rightarrow> bool \<Rightarrow> bool" where
  "lfn_entry e q fin \<longleftrightarrow>
    e 0x0b = 0x0f \<and> e 0 \<noteq> 0xe5 \<and> unat (e 0 AND 0x1f) = q \<and> (e 0 AND 0x40 \<noteq> 0 \<longleftrightarrow> fin)"

text \<open>The \<open>q\<close> entries from \<open>k\<close> on are the parts of a long name, the last part first.\<close>

definition lfn_group ::
    "(u32 \<Rightarrow> nat \<Rightarrow> u8) \<Rightarrow> 'd sd \<Rightarrow> u32 \<Rightarrow> (nat \<Rightarrow> nat \<Rightarrow> u8) \<Rightarrow> nat \<Rightarrow> nat \<Rightarrow> bool \<Rightarrow> bool" where
  "lfn_group disk s dir E k q fin \<longleftrightarrow>
    (\<forall>j<q. dir_entry disk s dir (k + j) = Some (E (k + j)) \<and> lfn_entry (E (k + j)) (q - j) (fin \<and> j = 0))"

definition lfn_text :: "(nat \<Rightarrow> nat \<Rightarrow> u8) \<Rightarrow> nat \<Rightarrow> nat \<Rightarrow> nat \<Rightarrow> u8" where
  "lfn_text E k q i = lfn_char (E (k + (q - 1 - i div 13))) (i mod 13)"

lemma d_name_store:
  "d + n \<le> 256 \<Longrightarrow> d_name (nhsd_dirent (store_name (int d) n c s)) i =
    (if d \<le> i \<and> i < d + n then c (i - d) else d_name (nhsd_dirent s) i)"
  by (auto simp: store_name_def nat_diff_distrib')

lemma part_stored:
  assumes "lfn_entry e q fin" "0 < q" "q \<le> 19"
  shows "d_name (nhsd_dirent (store_part e u)) i =
      (if 13 * (q - 1) \<le> i \<and> i < 13 * q then lfn_char e (i - 13 * (q - 1))
       else if i = 13 * q \<and> (fin \<or> q = 19) then 0 else d_name (nhsd_dirent u) i)"
    "wild (store_part e u) = wild u"
proof -
  have "uint (e 0 AND 0x1f) = int (unat (e 0 AND 0x1f))" by simp
  with assms(1) have u: "uint (e 0 AND 0x1f) = int q" by (simp only: lfn_entry_def)
  have q: "e 0 AND 0x1f < 20 \<longleftrightarrow> q < 20" "e 0 AND 0x1f = 19 \<longleftrightarrow> q = 19"
    using assms(1) by (simp_all only: lfn_entry_def word_less_nat_alt word_unat_eq_iff) simp_all
  have marked: "e 0 AND 0x40 \<noteq> 0 \<longleftrightarrow> fin" using assms(1) by (simp add: lfn_entry_def)
  have d: "13 * (int q - 1) = int (13 * (q - 1))" using assms(2) by simp
  have part: "store_part e u = store_name (int (13 * (q - 1))) 13 (lfn_char e)
      (if fin \<or> q = 19 then store_name (int (13 * q)) 1 (\<lambda>_. 0) u else u)"
    using assms(3) unfolding store_part_def Let_def u q marked d by simp
  have bounds: "13 * (q - 1) + 13 = 13 * q" "13 * q < 256" using assms(2,3) by simp_all
  show "d_name (nhsd_dirent (store_part e u)) i =
      (if 13 * (q - 1) \<le> i \<and> i < 13 * q then lfn_char e (i - 13 * (q - 1))
       else if i = 13 * q \<and> (fin \<or> q = 19) then 0 else d_name (nhsd_dirent u) i)"
    unfolding part using bounds by (auto simp: d_name_store simp del: of_nat_mult)
  show "wild (store_part e u) = wild u"
    unfolding part using bounds by (auto simp del: of_nat_mult)
qed

lemma vfat_loop_reads:
  assumes dev: "serves dev ready reg disk" and op: "nhsd_init_state s AND NHSD_INIT_OPENMASK \<noteq> 0"
    and spc: "sectors_per_cluster s \<noteq> 0"
  shows "0 < q \<Longrightarrow> q \<le> 19 \<Longrightarrow> q \<le> fu \<Longrightarrow> lfn_group disk s dir E k q fin \<Longrightarrow>
    dir_entry disk s dir (k + q) = Some g \<Longrightarrow> at_entry (E k) u \<Longrightarrow> dir_before ready disk s dir (Suc k) u \<Longrightarrow>
    \<exists>v. run_state (vfat_loop dev fu 1 sq) u = (Some (0, 1, 1), v) \<and>
      dir_before ready disk s dir (Suc (k + q)) v \<and> at_entry g v \<and> wild v = wild u \<and>
      (\<forall>i. d_name (nhsd_dirent v) i =
        (if i < 13 * q then lfn_text E k q i
         else if i = 13 * q \<and> (fin \<or> q = 19) then 0 else d_name (nhsd_dirent u) i))"
proof (induction q arbitrary: k fu fin u sq)
  case 0
  then show ?case by simp
next
  case (Suc q)
  let ?u = "store_part (E k) u"
  have here: "lfn_entry (E k) (Suc q) fin"
    using Suc.prems(4) by (auto simp: lfn_group_def dest: spec [of _ 0])
  obtain fu' where fu: "fu = Suc fu'" "q \<le> fu'" using Suc.prems(3) by (cases fu) auto
  have first: "run_state (ent 0) u = (E k 0, u)" using Suc.prems(6) by (simp add: ent_at)
  have kept: "E k 0 \<noteq> 0xe5" using here by (simp add: lfn_entry_def)
  have part: "run_state (vfat_part (E k 0)) u = (E k 0 AND 0x1f, ?u)"
    by (rule vfat_part_stores [OF Suc.prems(6)])
  define e' where "e' = (if q = 0 then g else E (Suc k))"
  have e': "dir_entry disk s dir (Suc k) = Some e'"
    using Suc.prems(4,5) by (auto simp: e'_def lfn_group_def dest: spec [of _ 1])
  obtain v where v: "run_state (nhsd_dir_next_entry dev) ?u = (0, v)" "dir_before ready disk s dir (Suc (Suc k)) v"
    "at_entry e' v" "nhsd_dirent v = nhsd_dirent ?u" "wild v = wild ?u"
    by (rule next_entry_served [OF dev op spc dir_before_part [OF Suc.prems(7)] e'])
  have attr: "run_state (ent 0x0b) v = (e' 0x0b, v)" using v(3) by (simp add: ent_at)
  have seq: "E k 0 AND 0x1f > 1 \<longleftrightarrow> q > 0"
    using here by (simp add: lfn_entry_def word_less_nat_alt)
  note stored = part_stored [OF here zero_less_Suc Suc.prems(2), of u]
  show ?case
  proof (cases "q = 0")
    case True
    have "E k 0 AND 0x1f = 1" using here True by (simp add: lfn_entry_def word_unat_eq_iff)
    then have "run_state (vfat_loop dev fu 1 sq) u = (Some (0, 1, 1), v)"
      by (simp add: fu first kept part v(1) attr)
    moreover have "at_entry g v" "dir_before ready disk s dir (Suc (k + Suc q)) v"
      using v(2,3) True by (simp_all add: e'_def)
    moreover have "wild v = wild u" by (simp add: v(5) stored(2))
    moreover have "d_name (nhsd_dirent v) i = (if i < 13 * Suc q then lfn_text E k (Suc q) i
         else if i = 13 * Suc q \<and> (fin \<or> Suc q = 19) then 0 else d_name (nhsd_dirent u) i)" for i
      unfolding v(4) stored(1) using True by (auto simp: lfn_text_def)
    ultimately show ?thesis by blast
  next
    case False
    have group: "lfn_group disk s dir E (Suc k) q False"
      unfolding lfn_group_def
    proof (intro allI impI)
      fix j
      assume "j < q"
      then have "Suc j < Suc q" by simp
      with Suc.prems(4) have "dir_entry disk s dir (k + Suc j) = Some (E (k + Suc j)) \<and>
          lfn_entry (E (k + Suc j)) (Suc q - Suc j) (fin \<and> Suc j = 0)"
        unfolding lfn_group_def by blast
      then show "dir_entry disk s dir (Suc k + j) = Some (E (Suc k + j)) \<and>
          lfn_entry (E (Suc k + j)) (q - j) (False \<and> j = 0)" by simp
    qed
    then have "E (Suc k) 0x0b = 0x0f" using False by (auto simp: lfn_group_def lfn_entry_def)
    then have "run_state (vfat_loop dev fu 1 sq) u = run_state (vfat_loop dev fu' 1 (E k 0 AND 0x1f)) v"
      using False by (simp add: fu first kept part v(1) attr seq e'_def)
    moreover obtain w where w: "run_state (vfat_loop dev fu' 1 (E k 0 AND 0x1f)) v = (Some (0, 1, 1), w)"
      "dir_before ready disk s dir (Suc (Suc k + q)) w" "at_entry g w" "wild w = wild v"
      "\<And>i. d_name (nhsd_dirent w) i = (if i < 13 * q then lfn_text E (Suc k) q i
         else if i = 13 * q \<and> (False \<or> q = 19) then 0 else d_name (nhsd_dirent v) i)"
      using Suc.IH [OF _ _ fu(2) group _ _ v(2)] False Suc.prems(2,5) v(3) by (auto simp: e'_def)
    moreover have "d_name (nhsd_dirent w) i = (if i < 13 * Suc q then lfn_text E k (Suc q) i
         else if i = 13 * Suc q \<and> (fin \<or> Suc q = 19) then 0 else d_name (nhsd_dirent u) i)" for i
    proof -
      consider "i < 13 * q" | "13 * q \<le> i" "i < 13 * Suc q" | "13 * Suc q \<le> i" by linarith
      then show ?thesis
      proof cases
        case 1
        then have "i div 13 < q" by (simp add: div_less_iff_less_mult mult.commute)
        then have "Suc k + (q - 1 - i div 13) = k + (Suc q - 1 - i div 13)" by simp
        with 1 show ?thesis by (simp add: w(5) lfn_text_def)
      next
        case 2
        then have "i div 13 = q" "i mod 13 = i - 13 * q" by (auto simp: div_nat_eqI modulo_nat_def)
        with 2 Suc.prems(2) show ?thesis unfolding w(5) v(4) stored(1) by (auto simp: lfn_text_def)
      next
        case 3
        then show ?thesis unfolding w(5) v(4) stored(1) using Suc.prems(2) by auto
      qed
    qed
    ultimately show ?thesis using stored(2) v(5) by auto
  qed
qed

lemma at_entry_dirent [simp]: "at_entry e (s\<lparr>nhsd_dirent := n\<rparr>) = at_entry e s"
  by (simp add: at_entry_def split: option.split)

lemma take_entry_long:
  assumes "at_entry g s" "flag \<noteq> 0"
  shows "run_state (take_entry flag) s = ((), s\<lparr>nhsd_dirent := (nhsd_dirent s)\<lparr>
    d_ino := le32 (g 0x1a) (g 0x1b) (g 0x14) (g 0x15),
    d_reclen := le32 (g 0x1c) (g 0x1d) (g 0x1e) (g 0x1f), d_type := 0\<rparr>\<rparr>)"
  using assms by (simp add: take_entry_def ent_at)

lemma name_string_prefix:
  assumes "m < 256" "f m = 0"
  shows "name_string f = takeWhile (\<lambda>c. c \<noteq> 0) (map f [0..<m])"
proof -
  have "[0..<256] = [0..<m] @ m # [Suc m..<256]"
    using assms(1) upt_add_eq_append [of 0 m "256 - m"] by (simp add: upt_conv_Cons)
  moreover have "takeWhile P (xs @ y # ys) = takeWhile P xs" if "\<not> P y" for P xs and y :: u8 and ys
    using that by (induction xs) auto
  ultimately show ?thesis using assms(2) by (simp add: name_string_def del: upt_Suc)
qed

text \<open>
  A file with a long name in the directory: \<open>q\<close> entries with the parts of the name, the last part
  first, and then the entry \<open>g\<close> with the first cluster and the size. The name does not start with
  a dot, and the entry \<open>g\<close> is not deleted and does not start with a tilde or an underscore.
\<close>

definition long_name_file ::
    "(u32 \<Rightarrow> nat \<Rightarrow> u8) \<Rightarrow> 'd sd \<Rightarrow> u32 \<Rightarrow> (nat \<Rightarrow> nat \<Rightarrow> u8) \<Rightarrow> nat \<Rightarrow> nat \<Rightarrow> (nat \<Rightarrow> u8) \<Rightarrow> bool" where
  "long_name_file disk s dir E k q g \<longleftrightarrow>
    0 < q \<and> q \<le> 19 \<and> lfn_group disk s dir E k q True \<and> dir_entry disk s dir (k + q) = Some g \<and>
    g 0 \<notin> {0xe5, 0x7e, 0x5f} \<and> lfn_text E k q 0 \<notin> {0, 0x2e}"

text \<open>What a caller of \<open>nhsd_readdir\<close> learns of that file.\<close>

definition reports_file :: "(nat \<Rightarrow> nat \<Rightarrow> u8) \<Rightarrow> nat \<Rightarrow> nat \<Rightarrow> (nat \<Rightarrow> u8) \<Rightarrow> dirent \<Rightarrow> bool" where
  "reports_file E k q g n \<longleftrightarrow>
    name_string (d_name n) = takeWhile (\<lambda>c. c \<noteq> 0) (map (lfn_text E k q) [0..<13 * q]) \<and>
    d_ino n = le32 (g 0x1a) (g 0x1b) (g 0x14) (g 0x15) \<and>
    d_reclen n = le32 (g 0x1c) (g 0x1d) (g 0x1e) (g 0x1f) \<and> d_type n = 0"

text \<open>
  C28: reading a directory with long names, on a card that works (it may be busy after a command for a time
  within the program's patience, and is then without an error), with at least one sector to a cluster: when the
  next entries of an open directory are a file with a long name of one to nineteen parts,
  \<open>nhsd_readdir\<close> succeeds with the whole name, put together from its parts over sector and cluster
  boundaries, with the first cluster and the size of the file, and goes on behind that file the next time,
  without an access outside an object. The name begins neither with a dot nor with a zero, and the short name
  neither with the mark of a deleted file nor with a tilde or an underscore, which the program passes over. The
  fuel of the model is more than the number of parts.
\<close>

theorem readdir_long_name:
  assumes "serves dev ready reg disk"
    and "nhsd_init_state s AND NHSD_INIT_OPENMASK = NHSD_INIT_OPENDIR" and "sectors_per_cluster s \<noteq> 0"
    and "long_name_file disk s dir E k q g" and "dir_before ready disk s dir k u" and "q < fu"
  shows "\<exists>v. run_state (nhsd_readdir dev fu junk) u = (Some NHSD_ERR_NOERROR, v) \<and>
    dir_before ready disk s dir (Suc (k + q)) v \<and> reports_file E k q g (nhsd_dirent v) \<and> wild v = wild u"
proof -
  have op: "nhsd_init_state s AND NHSD_INIT_OPENMASK \<noteq> 0" using assms(2) by (simp add: sd_masks)
  have q: "0 < q" "q \<le> 19" and group: "lfn_group disk s dir E k q True"
    and g: "dir_entry disk s dir (k + q) = Some g" "g 0 \<notin> {0xe5, 0x7e, 0x5f}"
    and c0: "lfn_text E k q 0 \<notin> {0, 0x2e}"
    using assms(4) by (auto simp: long_name_file_def)
  have e0: "dir_entry disk s dir k = Some (E k)" "E k 0x0b = 0x0f"
    using group q(1) by (auto simp: lfn_group_def lfn_entry_def dest: spec [of _ 0])
  obtain fu' where fu: "fu = Suc fu'" "q \<le> fu'" using assms(6) by (cases fu) auto
  obtain u1 where u1: "run_state (nhsd_dir_next_entry dev) u = (0, u1)" "dir_before ready disk s dir (Suc k) u1"
    "at_entry (E k) u1" "wild u1 = wild u"
    by (rule next_entry_served [OF assms(1) op assms(3,5) e0(1)])
  from vfat_loop_reads [OF assms(1) op assms(3) q fu(2) group g(1) u1(3,2)] obtain w where
    w: "run_state (vfat_loop dev fu' 1 junk) u1 = (Some (0, 1, 1), w)" "dir_before ready disk s dir (Suc (k + q)) w"
    "at_entry g w" "wild w = wild u1"
    "\<And>i. d_name (nhsd_dirent w) i = (if i < 13 * q then lfn_text E k q i
         else if i = 13 * q \<and> (True \<or> q = 19) then 0 else d_name (nhsd_dirent u1) i)"
    by blast
  have name0: "d_name (nhsd_dirent w) 0 = lfn_text E k q 0" using q(1) by (simp add: w(5))
  let ?v = "w\<lparr>nhsd_dirent := (nhsd_dirent w)\<lparr>
    d_ino := le32 (g 0x1a) (g 0x1b) (g 0x14) (g 0x15),
    d_reclen := le32 (g 0x1c) (g 0x1d) (g 0x1e) (g 0x1f), d_type := 0\<rparr>\<rparr>"
  have "nhsd_init_state u = nhsd_init_state s"
    using assms(5) by (auto simp: dir_before_def)
  then have "run_state (nhsd_readdir dev fu junk) u = (Some NHSD_ERR_NOERROR, ?v)"
    using g(2) c0 assms(2) e0(2)
    by (simp add: nhsd_readdir_def fu u1(1) ent_at [OF u1(3)] ent_at [OF w(3)] w(1) get_name_def name0
        take_entry_long [OF w(3)])
  moreover have "dir_before ready disk s dir (Suc (k + q)) ?v"
    using dir_before_name [OF w(2), where n = "nhsd_dirent ?v" and w = "wild w"] by simp
  moreover have "reports_file E k q g (nhsd_dirent ?v)"
  proof -
    have "13 * q < 256" "d_name (nhsd_dirent w) (13 * q) = 0" using q by (simp_all add: w(5))
    then have "name_string (d_name (nhsd_dirent w)) =
        takeWhile (\<lambda>c. c \<noteq> 0) (map (d_name (nhsd_dirent w)) [0..<13 * q])"
      by (rule name_string_prefix)
    also have "map (d_name (nhsd_dirent w)) [0..<13 * q] = map (lfn_text E k q) [0..<13 * q]"
      by (simp add: w(5))
    finally show ?thesis by (simp add: reports_file_def)
  qed
  ultimately show ?thesis using w(4) u1(4) by auto
qed

lemma opendir_starts:
  assumes "nhsd_init_state s AND NHSD_INIT_INITMASK = NHSD_INIT_INITMASK"
    and "nhsd_init_state s AND NHSD_INIT_OPENMASK = 0" and "on_card ready s"
    and "t = state_after nhsd_opendir s"
  shows "result_of nhsd_opendir s = NHSD_ERR_NOERROR" "dir_before ready disk t (nhsd_current_dir s) 0 t"
proof -
  let ?d = "nhsd_current_dir s"
  show "result_of nhsd_opendir s = NHSD_ERR_NOERROR"
    using open_inode_opens [OF assms(1,2)] by (simp add: nhsd_opendir_def NHSD_ERR_NOERROR_def)
  have t: "t = s\<lparr>open_pos := \<lparr>pos_cluster = ?d, pos_sector = cluster_sector s ?d, sector_in_cluster = 0\<rparr>,
      nhsd_init_state := nhsd_init_state s OR (NHSD_INIT_OPENDIR AND NHSD_INIT_OPENMASK),
      open_offset_in_sector := 512\<rparr>"
    using open_inode_opens [OF assms(1,2)] by (simp add: assms(4) nhsd_opendir_def NHSD_ERR_NOERROR_def)
  obtain b where b: "nhsd_buffer s = Some b" "ready (hw s)" using assms(3) by (auto simp: on_card_def)
  have "t = (reading t (hw t) b (open_pos t))\<lparr>open_offset_in_sector := 512,
      nhsd_dirent := nhsd_dirent t, wild := wild t\<rparr>"
    by (rule sd.equality) (simp_all add: t b reading_def)
  moreover have "pos_at disk t ?d 0 (open_pos t)" by (simp add: t pos_at_def cluster_sector_def)
  moreover have "ready (hw t)" by (simp add: t b)
  ultimately show "dir_before ready disk t ?d 0 t"
    unfolding dir_before_def
    by (intro exI [of _ "hw t"] exI [of _ b] exI [of _ "open_pos t"] exI [of _ "512 :: u16"]
        exI [of _ "nhsd_dirent t"] exI [of _ "wild t"]) simp
qed

text \<open>A root directory with one file that has a name of fourteen characters.\<close>

definition dir_disk :: "u32 \<Rightarrow> nat \<Rightarrow> u8" where
  "dir_disk a i =
    (if a = 100 then
       if i < 32 then if i = 0 then 0x42 else if i = 0x0b then 0x0f else if i = 1 then 0x62 else 0
       else if i < 64 then if i = 32 then 0x01 else if i = 43 then 0x0f else 0x61
       else if i = 64 then 0x41 else if i = 90 then 5 else 0
     else 0)"

lemma readdir_long_name_witness:
  "\<exists>v. run_state (do { nhsd_opendir; nhsd_readdir (ideal_card dir_disk) 4 0 }) sample_sd = (Some 0, v) \<and>
    name_string (d_name (nhsd_dirent v)) = [0x61, 0x61, 0x61, 0x61, 0x61, 0x61, 0x61, 0x61, 0x61, 0x61, 0x61, 0x61, 0x61, 0x62] \<and> d_ino (nhsd_dirent v) = 5"
proof -
  define t where "t = state_after nhsd_opendir sample_sd"
  let ?E = "\<lambda>k i. dir_disk 100 (32 * k + i)" and ?g = "\<lambda>i. dir_disk 100 (64 + i)"
  have opened: "result_of nhsd_opendir sample_sd = NHSD_ERR_NOERROR" "dir_before card_idle dir_disk t 2 0 t"
    using opendir_starts(1) [where s = sample_sd and t = t and ready = card_idle]
      opendir_starts(2) [where s = sample_sd and t = t and ready = card_idle and disk = dir_disk]
    by (simp_all add: t_def sample_sd_def sd_masks on_card_def card_idle_def)
  have t: "nhsd_init_state t = 0x3e" "sectors_per_cluster t = 2" "cluster2_sector t = 100"
    by (simp_all add: t_def nhsd_opendir_def nhsd_open_inode_def add_state_def sample_sd_def sd_masks sd_errors)
  have entries: "dir_entry dir_disk t 2 k = Some (?E k)" if "k < 16" for k
    using that by (simp add: dir_entry_def file_sector_def t cluster_sector_def)
  have two: "j < 2 \<longleftrightarrow> j = 0 \<or> j = 1" for j :: nat by arith
  have "long_name_file dir_disk t 2 ?E 0 2 ?g"
    unfolding long_name_file_def lfn_group_def two
    by (auto simp: entries lfn_entry_def lfn_text_def lfn_char_def dir_disk_def)
  then obtain v where v: "run_state (nhsd_readdir (ideal_card dir_disk) 4 0) t = (Some NHSD_ERR_NOERROR, v)"
    "reports_file ?E 0 2 ?g (nhsd_dirent v)"
    using readdir_long_name [OF ideal_card_serves _ _ _ opened(2), of ?E 2 ?g 4 0] t(1,2)
    by (auto simp: sd_masks)
  have "[0..<13 * 2] = [0, 1, 2, 3, 4, 5, 6, 7, 8, 9, 10, 11, 12, 13, 14, 15, 16, 17, 18, 19, 20, 21, 22, 23, 24, 25 :: nat]"
    by (simp add: upt_rec)
  then have "takeWhile (\<lambda>c. c \<noteq> 0) (map (lfn_text ?E 0 2) [0..<13 * 2]) = [0x61, 0x61, 0x61, 0x61, 0x61, 0x61, 0x61, 0x61, 0x61, 0x61, 0x61, 0x61, 0x61, 0x62]"
    by (simp add: lfn_text_def lfn_char_def dir_disk_def)
  with v(2) have "name_string (d_name (nhsd_dirent v)) = [0x61, 0x61, 0x61, 0x61, 0x61, 0x61, 0x61, 0x61, 0x61, 0x61, 0x61, 0x61, 0x61, 0x62]" "d_ino (nhsd_dirent v) = 5"
    by (simp_all add: reports_file_def le32_def dir_disk_def)
  moreover have "run_state (do { nhsd_opendir; nhsd_readdir (ideal_card dir_disk) 4 0 }) sample_sd = (Some 0, v)"
    using v(1) by (simp add: run_state_pair [of nhsd_opendir] t_def [symmetric] NHSD_ERR_NOERROR_def)
  ultimately show ?thesis by blast
qed

section \<open>Searching\<close>

text \<open>Nothing but opening and closing changes \<open>nhsd_init_state\<close>.\<close>

lemma keeps_buf: "obeys (same nhsd_init_state) (buf i)"
  unfolding buf_def go_wild_def
  by (intro frame.obeys_basic frame.obeys_modify) (simp_all add: same_def)

lemma keeps_readsector: "obeys (same nhsd_init_state) (nhsd_readsector dev a)"
  unfolding obeys_def same_def
proof
  fix s
  have "\<exists>h b w. state_after (nhsd_readsector dev a) s = s\<lparr>hw := h, nhsd_buffer := b, wild := w\<rparr>"
    using readsector_effect [of dev s a] unfolding sector_outcome_def by blast
  then show "nhsd_init_state (state_after (nhsd_readsector dev a) s) = nhsd_init_state s" by auto
qed

lemma keeps_put_name: "obeys (same nhsd_init_state) (put_name i c)"
  unfolding put_name_def go_wild_def
  by (intro frame.obeys_basic frame.obeys_modify) (simp_all add: same_def)

lemmas keeps_steps = frame.obeys_basic keeps_buf keeps_readsector keeps_put_name

lemma keeps_read: "obeys (same nhsd_init_state) (nhsd_read dev)"
  unfolding nhsd_read_def nhsd_fat32_nextcluster_def buf32_def
  by (intro keeps_steps frame.obeys_modify) (simp_all add: same_def)

lemma keeps_next_entry: "obeys (same nhsd_init_state) (nhsd_dir_next_entry dev)"
  unfolding nhsd_dir_next_entry_def
  by (intro keeps_steps keeps_read frame.obeys_modify) (simp_all add: same_def)

lemma keeps_ent: "obeys (same nhsd_init_state) (ent i)"
  unfolding ent_def by (intro keeps_steps)

lemma keeps_get_name: "obeys (same nhsd_init_state) (get_name i)"
  unfolding get_name_def by (intro keeps_steps)

lemma keeps_chunk: "obeys (same nhsd_init_state) (nhsd_copy_to_dnamechunk d offset n)"
  by (induction n arbitrary: d offset) (auto intro!: keeps_steps keeps_ent)

lemma keeps_vfat_part: "obeys (same nhsd_init_state) (vfat_part d0)"
  unfolding vfat_part_def nhsd_copy_vfat_chars_into_dname_def by (intro keeps_steps keeps_chunk)

lemma keeps_vfat_loop: "obeys (same nhsd_init_state) (vfat_loop dev fu flag q)"
  by (induction fu arbitrary: flag q)
    (auto intro!: keeps_steps keeps_ent keeps_next_entry keeps_vfat_part)

lemma keeps_short_loop: "obeys (same nhsd_init_state) (short_loop k i n)"
  by (induction k arbitrary: i n) (auto intro!: keeps_steps keeps_ent)

lemma keeps_strip_dots: "obeys (same nhsd_init_state) (strip_dots n)"
  by (induction n) (auto intro!: keeps_steps keeps_get_name)

lemma keeps_take_entry: "obeys (same nhsd_init_state) (take_entry flag)"
  unfolding take_entry_def short_name_def
  by (intro keeps_steps keeps_ent keeps_short_loop keeps_strip_dots frame.obeys_modify) (simp_all add: same_def)

lemma keeps_readdir_loop: "obeys (same nhsd_init_state) (readdir_loop dev fu flag q)"
  by (induction fu arbitrary: flag q)
    (auto intro!: keeps_steps keeps_ent keeps_next_entry keeps_vfat_loop keeps_get_name keeps_take_entry
      simp: prod.case_distrib)

lemma keeps_find_loop: "obeys (same nhsd_init_state) (find_loop dev k fu junk name)"
  by (induction k) (auto intro!: keeps_steps keeps_readdir_loop simp: nhsd_readdir_def)

lemma open_bits:
  "(st OR NHSD_INIT_OPENDIR) AND NHSD_INIT_INITMASK = st AND NHSD_INIT_INITMASK"
  "(st OR NHSD_INIT_OPENDIR) AND NHSD_INIT_OPENMASK \<noteq> 0"
  "st AND NHSD_INIT_OPENMASK = 0 \<Longrightarrow> (st OR NHSD_INIT_OPENDIR) AND (0xff XOR NHSD_INIT_OPENMASK) = st"
proof -
  show "(st OR NHSD_INIT_OPENDIR) AND NHSD_INIT_INITMASK = st AND NHSD_INIT_INITMASK"
    unfolding bit.conj_disj_distrib2 by (simp add: sd_masks)
  show "(st OR NHSD_INIT_OPENDIR) AND NHSD_INIT_OPENMASK \<noteq> 0"
    unfolding bit.conj_disj_distrib2 by (simp add: sd_masks or_eq_0_iff)
  assume st: "st AND NHSD_INIT_OPENMASK = 0"
  have all: "(0xff XOR NHSD_INIT_OPENMASK) OR NHSD_INIT_OPENMASK = - 1" by (simp add: sd_masks)
  have "(st OR NHSD_INIT_OPENDIR) AND (0xff XOR NHSD_INIT_OPENMASK) = st AND (0xff XOR NHSD_INIT_OPENMASK)"
    unfolding bit.conj_disj_distrib2 by (simp add: sd_masks)
  also have "\<dots> = (st AND (0xff XOR NHSD_INIT_OPENMASK)) OR (st AND NHSD_INIT_OPENMASK)" by (simp add: st)
  also have "\<dots> = st" unfolding bit.conj_disj_distrib [symmetric] all by simp
  finally show "(st OR NHSD_INIT_OPENDIR) AND (0xff XOR NHSD_INIT_OPENMASK) = st" .
qed

text \<open>
  Whatever the hardware does: when \<open>nhsd_findfile\<close> returns, the state of the reader is the one before
  the call. The directory it opened is closed again, also after errors, and a file or directory that
  was open before is still open.
\<close>

lemma findfile_keeps_state:
  assumes "result_of (nhsd_findfile dev fu junk name) s = Some r"
  shows "nhsd_init_state (state_after (nhsd_findfile dev fu junk name) s) = nhsd_init_state s"
proof (cases "nhsd_init_state s AND NHSD_INIT_INITMASK = NHSD_INIT_INITMASK \<and>
    nhsd_init_state s AND NHSD_INIT_OPENMASK = 0")
  case False
  then show ?thesis
    by (auto simp: nhsd_findfile_def nhsd_opendir_def nhsd_open_inode_def sd_errors)
next
  case True
  let ?t = "state_after nhsd_opendir s"
  let ?f = "find_loop dev fu fu junk name"
  have opened: "result_of nhsd_opendir s = 0" "nhsd_init_state ?t = nhsd_init_state s OR NHSD_INIT_OPENDIR"
    using open_inode_opens [OF conjunct1 [OF True] conjunct2 [OF True]]
    by (simp_all add: nhsd_opendir_def sd_errors sd_masks)
  have kept: "nhsd_init_state (state_after ?f ?t) = nhsd_init_state s OR NHSD_INIT_OPENDIR"
    using obeysD [OF keeps_find_loop, of ?t dev fu fu junk name] opened(2) by (simp add: same_def)
  from True assms opened(1) obtain r' where r': "result_of ?f ?t = Some r'"
    by (cases "result_of ?f ?t") (auto simp: nhsd_findfile_def)
  show ?thesis
    using True opened(1) r' kept open_bits [of "nhsd_init_state s"]
    by (simp add: nhsd_findfile_def nhsd_close_def set_state_def)
qed

text \<open>
  The end of a search, on a card that works: a directory of \<open>N\<close> sectors is open. Every loop below takes an entry
  of it or ends, so that the number of entries that are left bounds its turns.
\<close>

definition walk :: "'d sd_device \<Rightarrow> ('d \<Rightarrow> bool) \<Rightarrow> ('d \<Rightarrow> nat \<Rightarrow> u8) \<Rightarrow> (u32 \<Rightarrow> nat \<Rightarrow> u8) \<Rightarrow> 'd sd \<Rightarrow> u32 \<Rightarrow> nat \<Rightarrow> bool" where
  "walk dev ready reg disk s dir N \<longleftrightarrow> serves dev ready reg disk \<and> sectors_per_cluster s \<noteq> 0 \<and>
    nhsd_init_state s AND NHSD_INIT_OPENMASK = NHSD_INIT_OPENDIR \<and> file_sector disk s dir N = None"

lemma walk_open: "walk dev ready reg disk s dir N \<Longrightarrow> nhsd_init_state s AND NHSD_INIT_OPENMASK \<noteq> 0"
  by (simp add: walk_def sd_masks)

lemma next_entry_end:
  assumes dev: "serves dev ready reg disk" and op: "nhsd_init_state s AND NHSD_INIT_OPENMASK \<noteq> 0"
    and spc: "sectors_per_cluster s \<noteq> 0"
    and u: "dir_before ready disk s dir k u" and e: "dir_entry disk s dir k = None"
  shows "result_of (nhsd_dir_next_entry dev) u = NHSD_ERR_EOF"
proof -
  from u obtain h b p o1 n w where
    st: "u = (reading s h b p)\<lparr>open_offset_in_sector := o1, nhsd_dirent := n, wild := w\<rparr>" and h: "ready h"
    and p: "pos_at disk s dir ((k + 15) div 16) p"
    and off: "if k mod 16 = 0 then 512 \<le> unat o1 + 32 \<and> unat o1 \<le> 512
     else unat o1 + 32 = 32 * (k mod 16) \<and>
       (\<exists>a. file_sector disk s dir (k div 16) = Some a \<and> b = map (disk a) [0..<512])"
    by (rule dir_beforeE)
  from e have none: "file_sector disk s dir (k div 16) = None" by (simp add: dir_entry_def)
  with off have k: "k mod 16 = 0" by (auto split: if_splits)
  have "unat (o1 + 0x20) = unat o1 + 32" using off k by (simp add: unat_word_ariths)
  with off k have "\<not> o1 + 0x20 < 512" by (simp add: word_less_nat_alt)
  moreover let ?s = "s\<lparr>open_offset_in_sector := o1 + 0x20, nhsd_dirent := n, wild := w\<rparr>"
  have start: "pos_at disk ?s dir (k div 16) p" using p k by (simp add: div_add1_eq)
  obtain h' b' p' r where r: "result_of (nhsd_read dev) (reading ?s h b p) = r"
    "(r, if r = 0 then Some b' else None) = expected_read disk ?s dir (k div 16)"
    by (rule nhsd_read_step [OF dev h _ _ start]) (simp_all add: op spc)
  have "r = NHSD_ERR_EOF" using r(2) none by (simp add: expected_read_def)
  moreover have bump: "u\<lparr>open_offset_in_sector := open_offset_in_sector u + 0x20\<rparr> = reading ?s h b p"
    by (rule sd.equality; simp add: st reading_def)
  moreover have "open_offset_in_sector (reading ?s h b p) = o1 + 0x20" by (simp add: reading_def)
  ultimately show ?thesis
    using r(1) by (simp add: nhsd_dir_next_entry_def sd_errors)
qed

lemma next_entry_walk:
  assumes w: "walk dev ready reg disk s dir N" and u: "dir_before ready disk s dir k u" "k \<le> 16 * N"
  obtains (fin) v where "run_state (nhsd_dir_next_entry dev) u = (NHSD_ERR_EOF, v)"
  | (more) v e where "run_state (nhsd_dir_next_entry dev) u = (0, v)" "k < 16 * N" "dir_before ready disk s dir (Suc k) v"
      "at_entry e v"
proof (cases "dir_entry disk s dir k")
  case None
  from w next_entry_end [OF _ walk_open [OF w] _ u(1) None] show thesis
    by (intro fin [of "state_after (nhsd_dir_next_entry dev) u"]) (auto simp: walk_def run_state_pair)
next
  case (Some e)
  have "k \<noteq> 16 * N" using Some w by (auto simp: dir_entry_def walk_def)
  with u(2) have "k < 16 * N" by simp
  have dev: "serves dev ready reg disk" and spc: "sectors_per_cluster s \<noteq> 0" using w by (simp_all add: walk_def)
  obtain v where "run_state (nhsd_dir_next_entry dev) u = (0, v)" "dir_before ready disk s dir (Suc k) v" "at_entry e v"
    by (rule next_entry_served [OF dev walk_open [OF w] spc u(1) Some])
  then show thesis using \<open>k < 16 * N\<close> by (intro more)
qed

lemma vfat_loop_walk:
  assumes w: "walk dev ready reg disk s dir N"
  shows "at_entry e u \<Longrightarrow> dir_before ready disk s dir k u \<Longrightarrow> k \<le> 16 * N \<Longrightarrow> 16 * N - k < fu \<Longrightarrow>
    \<exists>err f q v. run_state (vfat_loop dev fu flag sq) u = (Some (err, f, q), v) \<and>
      (err = NHSD_ERR_EOF \<or> err = 0 \<and> (\<exists>k' e'. k < k' \<and> k' \<le> 16 * N \<and> dir_before ready disk s dir k' v \<and> at_entry e' v))"
proof (induction fu arbitrary: e u k flag sq)
  case 0
  then show ?case by simp
next
  case (Suc fu)
  define f' where "f' = (if e 0 = 0xe5 then flag OR 0x80 else flag)"
  define u' where "u' = (if f' AND 0x80 = 0 then store_part e u else u)"
  define q' where "q' = (if f' AND 0x80 = 0 then e 0 AND 0x1f else sq)"
  have e0: "run_state (ent 0) u = (e 0, u)" using Suc.prems(1) by (simp add: ent_at)
  have part: "run_state (if f' AND 0x80 = 0 then vfat_part (e 0) else return sq) u = (q', u')"
    by (simp add: u'_def q'_def vfat_part_stores [OF Suc.prems(1)])
  have u': "dir_before ready disk s dir k u'" using Suc.prems(2) by (simp add: u'_def dir_before_part)
  show ?case
  proof (rule next_entry_walk [OF w u' Suc.prems(3)], goal_cases)
    case (1 v)
    have "run_state (vfat_loop dev (Suc fu) flag sq) u = (Some (NHSD_ERR_EOF, f', q'), v)"
      using e0 part 1 by (simp add: f'_def [symmetric] sd_errors del: run_if)
    then show ?case by blast
  next
    case (2 v e')
    have attr: "run_state (ent 0x0b) v = (e' 0x0b, v)" using 2(4) by (simp add: ent_at)
    show ?case
    proof (cases "e' 0x0b = 0x0f \<and> q' > 1")
      case True
      then have eq: "run_state (vfat_loop dev (Suc fu) flag sq) u = run_state (vfat_loop dev fu f' q') v"
        using e0 part 2(1) attr by (simp add: f'_def [symmetric] del: run_if)
      have "Suc k \<le> 16 * N" "16 * N - Suc k < fu" using 2(2) Suc.prems(4) by linarith+
      from Suc.IH [OF 2(4,3) this, of f' q'] obtain err f q v' where
        ih: "run_state (vfat_loop dev fu f' q') v = (Some (err, f, q), v')"
        "err = NHSD_ERR_EOF \<or> err = 0 \<and> (\<exists>k' e'. Suc k < k' \<and> k' \<le> 16 * N \<and> dir_before ready disk s dir k' v' \<and> at_entry e' v')"
        by blast
      then show ?thesis unfolding eq by (auto dest: Suc_lessD)
    next
      case False
      then have "run_state (vfat_loop dev (Suc fu) flag sq) u = (Some (0, f', q'), v)"
        using e0 part 2(1) attr by (auto simp: f'_def [symmetric] simp del: run_if)
      then show ?thesis using 2(2-4) by (auto intro: exI [of _ "Suc k"])
    qed
  qed
qed

text \<open>Taking an entry changes nothing but \<open>nhsd_dirent\<close>.\<close>

definition renamed :: "'d sd \<Rightarrow> 'd sd \<Rightarrow> bool" where
  "renamed s t \<longleftrightarrow> (\<exists>n w. t = s\<lparr>nhsd_dirent := n, wild := w\<rparr>)"

lemma renamed_refl: "renamed s s"
  unfolding renamed_def by (intro exI [of _ "nhsd_dirent s"] exI [of _ "wild s"]) simp

lemma renamed_trans: "renamed s t \<Longrightarrow> renamed t u \<Longrightarrow> renamed s u"
  unfolding renamed_def by force

lemma renamed_store: "renamed s (store_name d n c s)"
  unfolding renamed_def store_name_def by blast

lemma renamed_dirent: "renamed s (s\<lparr>nhsd_dirent := n\<rparr>)"
  unfolding renamed_def by (intro exI [of _ n] exI [of _ "wild s"]) simp

lemma renamed_walks: "renamed u v \<Longrightarrow> dir_before ready disk s dir k u \<Longrightarrow> dir_before ready disk s dir k v"
  by (auto simp: renamed_def dir_before_name)

lemma short_name_renames:
  assumes "at_entry e s"
  shows "renamed s (state_after short_name s)"
proof -
  define cs where "cs = concat (map (short_piece e) [0..<11])"
  let ?s = "store_list 0 cs s"
  have "run_state (short_loop 11 0 0) s = (int (length cs), ?s)"
    using short_loop_stores [OF assms, of 0 11 0] by (simp add: cs_def)
  then have "state_after short_name s = state_after (put_name (int (result_of (strip_dots (length cs)) ?s)) 0) ?s"
    by (simp add: short_name_def strip_dots_result run_state_pair [symmetric] result_of_def state_after_def)
  also have "\<dots> = store_name (int (result_of (strip_dots (length cs)) ?s)) 1 (\<lambda>_. 0) ?s"
    by (simp add: state_after_def put_name_store)
  finally show ?thesis using renamed_trans [OF renamed_store renamed_store] by (simp add: store_list_def)
qed

lemma take_entry_renames:
  assumes "at_entry e s"
  shows "renamed s (state_after (take_entry flag) s)"
proof (cases "flag = 0")
  case False
  then show ?thesis using take_entry_long [OF assms] renamed_dirent by (simp add: state_after_def)
next
  case True
  let ?t = "s\<lparr>nhsd_dirent := (nhsd_dirent s)\<lparr>
    d_ino := le32 (e 0x1a) (e 0x1b) (e 0x14) (e 0x15),
    d_reclen := le32 (e 0x1c) (e 0x1d) (e 0x1e) (e 0x1f), d_type := 0\<rparr>\<rparr>"
  have "run_state (take_entry flag) s = run_state short_name ?t"
    using assms True by (simp add: take_entry_def ent_at)
  then have "state_after (take_entry flag) s = state_after short_name ?t" by (simp add: state_after_def)
  moreover have "at_entry e ?t" using assms by simp
  ultimately show ?thesis using renamed_trans [OF renamed_dirent short_name_renames] by metis
qed

lemma readdir_loop_walk:
  assumes w: "walk dev ready reg disk s dir N"
  shows "dir_before ready disk s dir k u \<Longrightarrow> k \<le> 16 * N \<Longrightarrow> 16 * N - k < fu \<Longrightarrow>
    \<exists>err v. run_state (readdir_loop dev fu flag sq) u = (Some err, v) \<and>
      (err = NHSD_ERR_EOF \<or> err = 0 \<and> (\<exists>k'. k < k' \<and> k' \<le> 16 * N \<and> dir_before ready disk s dir k' v))"
proof (induction fu arbitrary: u k flag sq)
  case 0
  then show ?case by simp
next
  case (Suc fu)
  show ?case
  proof (rule next_entry_walk [OF w Suc.prems(1,2)], goal_cases)
    case (1 v)
    then have "run_state (readdir_loop dev (Suc fu) flag sq) u = (Some NHSD_ERR_EOF, v)" by (simp add: sd_errors)
    then show ?case by blast
  next
    case (2 v e)
    have attr: "run_state (ent 0x0b) v = (e 0x0b, v)" using 2(4) by (simp add: ent_at)
    let ?long = "if e 0x0b = 0x0f then vfat_loop dev fu 1 sq else return (Some (0, flag, sq))"
    have k: "Suc k \<le> 16 * N" "16 * N - Suc k < fu" using 2(2) Suc.prems(3) by linarith+
    obtain err f q v1 where long: "run_state ?long v = (Some (err, f, q), v1)"
      and more: "err = NHSD_ERR_EOF \<or> err = 0 \<and>
        (\<exists>k1 e1. k < k1 \<and> k1 \<le> 16 * N \<and> dir_before ready disk s dir k1 v1 \<and> at_entry e1 v1)"
    proof (cases "e 0x0b = 0x0f")
      case True
      from vfat_loop_walk [OF w 2(4,3) k, of 1 sq] obtain err f q v1 where
        "run_state (vfat_loop dev fu 1 sq) v = (Some (err, f, q), v1)"
        "err = NHSD_ERR_EOF \<or> err = 0 \<and>
          (\<exists>k1 e1. Suc k < k1 \<and> k1 \<le> 16 * N \<and> dir_before ready disk s dir k1 v1 \<and> at_entry e1 v1)" by blast
      then show thesis using True by (intro that [of err f q v1]) (auto dest: Suc_lessD)
    next
      case False
      then show thesis using 2(2-4) by (intro that [of 0 flag sq v]) (auto intro: exI [of _ "Suc k"])
    qed
    from more show ?case
    proof
      assume "err = NHSD_ERR_EOF"
      then have "run_state (readdir_loop dev (Suc fu) flag sq) u = (Some NHSD_ERR_EOF, v1)"
        using 2(1) attr long by (simp add: sd_errors del: run_if)
      then show ?case by blast
    next
      assume "err = 0 \<and> (\<exists>k1 e1. k < k1 \<and> k1 \<le> 16 * N \<and> dir_before ready disk s dir k1 v1 \<and> at_entry e1 v1)"
      then obtain k1 e1 where err: "err = 0" and k1: "k < k1" "k1 \<le> 16 * N" and d1: "dir_before ready disk s dir k1 v1"
        and at: "at_entry e1 v1" by blast
      have less: "16 * N - k1 < fu" using k1 Suc.prems(3) by linarith
      have e0: "run_state (ent 0) v1 = (e1 0, v1)" using at by (simp add: ent_at)
      define v2 where "v2 = store_name 0 1 (\<lambda>_. 0) v1"
      define v3 where "v3 = state_after (take_entry f) v1"
      have d2: "dir_before ready disk s dir k1 v2" unfolding v2_def using d1 by (rule dir_before_store)
      have d3: "dir_before ready disk s dir k1 v3"
        unfolding v3_def using take_entry_renames [OF at] d1 by (rule renamed_walks)
      have rest: "\<exists>err v. run_state (readdir_loop dev fu flag' sq') v' = (Some err, v) \<and>
          (err = NHSD_ERR_EOF \<or> err = 0 \<and> (\<exists>k'. k < k' \<and> k' \<le> 16 * N \<and> dir_before ready disk s dir k' v))"
        if "dir_before ready disk s dir k1 v'" for v' flag' sq'
        using Suc.IH [OF that k1(2) less, of flag' sq'] less_trans [OF k1(1)] by blast
      let ?skip = "f AND 0x80 \<noteq> 0 \<or> e1 0 = 0xe5 \<or> e1 0 = 0x7e \<or> e1 0 = 0x5f \<or> f \<noteq> 0 \<and> d_name (nhsd_dirent v1) 0 = 0x2e"
      have "run_state (readdir_loop dev (Suc fu) flag sq) u =
        (if ?skip then run_state (readdir_loop dev fu 0 q) v2
         else if d_name (nhsd_dirent v3) 0 \<noteq> 0 then (Some NHSD_ERR_NOERROR, v3)
         else run_state (readdir_loop dev fu f (if f = 0 then 11 else q)) v3)"
        using 2(1) attr long err e0
        by (simp add: get_name_def put_name_store [of 0 0, simplified] v2_def v3_def
            run_state_pair [of "take_entry f"] del: run_if)
      then show ?case using rest [OF d2, of 0 q] rest [OF d3, of f "if f = 0 then 11 else q"] k1 d3
        by (auto simp: sd_errors)
    qed
  qed
qed

lemma find_loop_walk:
  assumes w: "walk dev ready reg disk s dir N" and fu: "16 * N < fu"
  shows "dir_before ready disk s dir k u \<Longrightarrow> k \<le> 16 * N \<Longrightarrow> 16 * N - k < n \<Longrightarrow>
    \<exists>r v. run_state (find_loop dev n fu junk name) u = (Some r, v) \<and>
      (r = NHSD_ERR_EOF \<or> r = 0 \<and> name_string (d_name (nhsd_dirent v)) = name)"
proof (induction n arbitrary: u k)
  case 0
  then show ?case by simp
next
  case (Suc n)
  have "nhsd_init_state u = nhsd_init_state s" using Suc.prems(1) by (auto simp: dir_before_def)
  then have rd: "run_state (nhsd_readdir dev fu junk) u = run_state (readdir_loop dev fu 0 junk) u"
    using w by (simp add: nhsd_readdir_def walk_def)
  have "16 * N - k < fu" using fu by simp
  from readdir_loop_walk [OF w Suc.prems(1,2) this, of 0 junk] obtain err v where
    v: "run_state (nhsd_readdir dev fu junk) u = (Some err, v)"
    "err = NHSD_ERR_EOF \<or> err = 0 \<and> (\<exists>k'. k < k' \<and> k' \<le> 16 * N \<and> dir_before ready disk s dir k' v)"
    unfolding rd by blast
  from v(2) show ?case
  proof (elim disjE conjE exE)
    assume "err = NHSD_ERR_EOF"
    then show ?thesis using v(1) by (simp add: sd_errors)
  next
    fix k'
    assume *: "err = 0" "k < k'" "k' \<le> 16 * N" "dir_before ready disk s dir k' v"
    then have "16 * N - k' < n" using Suc.prems(3) by linarith
    from Suc.IH [OF *(4,3) this] show ?thesis using v(1) *(1) by simp
  qed
qed

lemma file_sector_cong:
  assumes "nhsd_part_start t = nhsd_part_start s" "reserved_sectors t = reserved_sectors s"
    "sectors_per_cluster t = sectors_per_cluster s" "cluster2_sector t = cluster2_sector s"
  shows "file_sector disk t = file_sector disk s"
  using assms by (simp add: fun_eq_iff file_sector_def fat_start_def cluster_sector_def Let_def)

text \<open>
  C30: a search ends and leaves nothing open. Whatever the hardware does, when \<open>nhsd_findfile\<close> returns, the state
  of the reader is the one before the call: the directory it opened is closed again, also after errors,
  and a file or directory that was open before is still open. And it does return, on a card that works (it may be busy
  for a time within the program's patience) with the file system recognised, nothing open and at least
  one sector to a cluster, when the cluster chain of the current directory has an end: with the name that was searched
  for in \<open>nhsd_dirent\<close>, or with the end of the directory as an error. For a chain of \<open>N\<close> sectors more
  than \<open>16 * N\<close> units of the model's fuel are enough; the size of the directory is the only bound.
\<close>

theorem findfile_ends_closed:
  "(\<forall>r. result_of (nhsd_findfile dev fu junk name) s = Some r \<longrightarrow>
      nhsd_init_state (state_after (nhsd_findfile dev fu junk name) s) = nhsd_init_state s) \<and>
   (serves dev ready reg disk \<and> on_card ready s \<and> sectors_per_cluster s \<noteq> 0 \<and>
      nhsd_init_state s AND NHSD_INIT_INITMASK = NHSD_INIT_INITMASK \<and> nhsd_init_state s AND NHSD_INIT_OPENMASK = 0 \<and>
      file_sector disk s (nhsd_current_dir s) N = None \<and> 16 * N < fu \<longrightarrow>
    (\<exists>r t. run_state (nhsd_findfile dev fu junk name) s = (Some r, t) \<and>
      (r = NHSD_ERR_EOF \<or> r = 0 \<and> name_string (d_name (nhsd_dirent t)) = name)))"
proof (intro conjI allI impI, goal_cases)
  case (1 r)
  then show ?case by (rule findfile_keeps_state)
next
  case 2
  then have card: "serves dev ready reg disk" "on_card ready s" "sectors_per_cluster s \<noteq> 0"
    and init: "nhsd_init_state s AND NHSD_INIT_INITMASK = NHSD_INIT_INITMASK" "nhsd_init_state s AND NHSD_INIT_OPENMASK = 0"
    and dir: "file_sector disk s (nhsd_current_dir s) N = None" and fu: "16 * N < fu" by simp_all
  define t where "t = state_after nhsd_opendir s"
  note op = opendir_starts [OF init card(2) t_def]
  have "walk dev ready reg disk t (nhsd_current_dir s) N"
    using card(1,3) dir init file_sector_cong [of t s disk] open_inode_opens [OF init]
    by (simp add: walk_def t_def nhsd_opendir_def sd_errors sd_masks word_ao_dist)
  from find_loop_walk [OF this fu op(2) _ _, of fu junk name] fu obtain r v where
    v: "run_state (find_loop dev fu fu junk name) t = (Some r, v)"
    "r = NHSD_ERR_EOF \<or> r = 0 \<and> name_string (d_name (nhsd_dirent v)) = name" by auto
  have "run_state (nhsd_findfile dev fu junk name) s = (Some r, state_after nhsd_close v)"
    using v(1) op(1) init(1) by (simp add: nhsd_findfile_def run_state_pair [of nhsd_opendir] t_def [symmetric] sd_errors
        run_state_pair [of nhsd_close])
  moreover have "nhsd_dirent (state_after nhsd_close v) = nhsd_dirent v" by (simp add: nhsd_close_def set_state_def)
  ultimately show ?case using v(2) by auto
qed

lemma findfile_ends_closed_witness:
  "\<exists>r t. run_state (nhsd_findfile (ideal_card dir_disk) 33 0 [0x41]) sample_sd = (Some r, t) \<and>
    nhsd_init_state t = 0x1e \<and> (r = NHSD_ERR_EOF \<or> r = 0 \<and> name_string (d_name (nhsd_dirent t)) = [0x41])"
proof -
  have card: "on_card card_idle sample_sd" "sectors_per_cluster sample_sd \<noteq> 0"
    "nhsd_init_state sample_sd AND NHSD_INIT_INITMASK = NHSD_INIT_INITMASK"
    "nhsd_init_state sample_sd AND NHSD_INIT_OPENMASK = 0" "nhsd_current_dir sample_sd = 2"
    by (simp_all add: sample_sd_def sd_masks on_card_def card_idle_def)
  have "file_sector dir_disk sample_sd 2 2 = None"
    by (simp add: file_sector_def sample_sd_def fat_next_def dir_disk_def fat_start_def le32_def Let_def)
  then obtain r t where "run_state (nhsd_findfile (ideal_card dir_disk) 33 0 [0x41]) sample_sd = (Some r, t)"
    "r = NHSD_ERR_EOF \<or> r = 0 \<and> name_string (d_name (nhsd_dirent t)) = [0x41]"
    using findfile_ends_closed [of "ideal_card dir_disk" 33 0 "[0x41]" sample_sd card_idle fst dir_disk 2]
      ideal_card_serves [of dir_disk] card by auto
  moreover from this(1) have "nhsd_init_state t = 0x1e"
    using findfile_ends_closed [of "ideal_card dir_disk" 33 0 "[0x41]" sample_sd]
    by (simp add: result_of_def state_after_def sample_sd_def)
  ultimately show ?thesis by blast
qed

end
