(* ===== verification/Screen.thy ===== *)
theory Screen
  imports Listing
begin

text \<open>
  The screenshot code at the end of \<open>hyppotest.c\<close>: the state of the video chip that
  \<open>get_video_state\<close> reads out of the memories, the conversion to UTF-8, and the text form of
  the screen that \<open>test_conclude\<close> writes for a failing test.

  The file's global variables about the screen are the record \<open>video\<close>. Its three arrays are
  functions from indices; they keep what an earlier screenshot read. A text is a \<open>string\<close>, its
  characters are bytes.
\<close>

section \<open>UTF-8\<close>

text \<open>The table \<open>utf\<close>: \<open>mask\<close>, \<open>lead\<close>, \<open>beg\<close>, \<open>end\<close> and \<open>bits_stored\<close>, the entry of zeros included.\<close>

record utf_t =
  utf_mask :: u8
  utf_lead :: u8
  utf_beg :: u32
  utf_end :: u32
  bits_stored :: nat

definition utf :: "utf_t list" where
  "utf =
    [\<lparr>utf_mask = 0x3f, utf_lead = 0x80, utf_beg = 0, utf_end = 0, bits_stored = 6\<rparr>,
     \<lparr>utf_mask = 0x7f, utf_lead = 0x00, utf_beg = 0, utf_end = 0x7f, bits_stored = 7\<rparr>,
     \<lparr>utf_mask = 0x1f, utf_lead = 0xc0, utf_beg = 0x80, utf_end = 0x7ff, bits_stored = 5\<rparr>,
     \<lparr>utf_mask = 0x0f, utf_lead = 0xe0, utf_beg = 0x800, utf_end = 0xffff, bits_stored = 4\<rparr>,
     \<lparr>utf_mask = 0x07, utf_lead = 0xf0, utf_beg = 0x10000, utf_end = 0x10ffff, bits_stored = 3\<rparr>,
     \<lparr>utf_mask = 0, utf_lead = 0, utf_beg = 0, utf_end = 0, bits_stored = 0\<rparr>]"

text \<open>
  The loops over the table. Its last entry is a pointer to zeros and not a null pointer, so a
  loop that finds nothing runs past the end of the array: \<open>Inl OutOfBounds\<close>.
\<close>

fun codepoint_loop :: "u32 \<Rightarrow> utf_t list \<Rightarrow> nat \<Rightarrow> fault + nat" where
  "codepoint_loop cp [] len = Inl OutOfBounds"
| "codepoint_loop cp (u # us) len =
    (if utf_beg u \<le> cp \<and> cp \<le> utf_end u then Inr len else codepoint_loop cp us (len + 1))"

definition codepoint_len :: "u32 \<Rightarrow> fault + nat" where
  "codepoint_len cp = codepoint_loop cp utf 0"

fun utf8_loop :: "u8 \<Rightarrow> utf_t list \<Rightarrow> nat \<Rightarrow> fault + nat" where
  "utf8_loop ch [] len = Inl OutOfBounds"
| "utf8_loop ch (u # us) len =
    (if ch AND NOT (utf_mask u) = utf_lead u then Inr len else utf8_loop ch us (len + 1))"

definition utf8_len :: "u8 \<Rightarrow> fault + nat" where
  "utf8_len ch = utf8_loop ch utf 0"

text \<open>One byte of the encoding: \<open>(cp >> shift & mask) | lead\<close>.\<close>

definition utf8_byte :: "u32 \<Rightarrow> int \<Rightarrow> utf_t \<Rightarrow> u8" where
  "utf8_byte cp shift u = (ucast (drop_bit (nat shift) cp AND ucast (utf_mask u)) :: u8) OR utf_lead u"

fun to_utf8_loop :: "u32 \<Rightarrow> nat \<Rightarrow> int \<Rightarrow> u8 list" where
  "to_utf8_loop cp 0 shift = []"
| "to_utf8_loop cp (Suc k) shift = utf8_byte cp shift (utf ! 0) # to_utf8_loop cp k (shift - int (bits_stored (utf ! 0)))"

text \<open>The string up to its zero byte. For 0 the length is 0, and the first shift is negative.\<close>

definition to_utf8 :: "u32 \<Rightarrow> fault + u8 list" where
  "to_utf8 cp = (case codepoint_len cp of
     Inl f \<Rightarrow> Inl f
   | Inr bytes \<Rightarrow>
       (let shift = int (bits_stored (utf ! 0)) * (int bytes - 1)
        in if shift < 0 then Inl SignedOverflow
           else Inr (utf8_byte cp shift (utf ! bytes) #
                to_utf8_loop cp (bytes - 1) (shift - int (bits_stored (utf ! 0))))))"

section \<open>The state of the video chip\<close>

definition MAX_SCREEN_SIZE :: nat where "MAX_SCREEN_SIZE = 128 * 1024"
definition SCREEN_POSITION :: u32 where "SCREEN_POSITION = (800 - 720) div 2"

record video =
  vic_regs :: "nat \<Rightarrow> u8"
  screen_address :: u32
  charset_address :: u32
  is_pal_mode :: int
  screen_line_step :: u32
  colour_address :: u32
  screen_width :: u32
  upper_case :: u32
  screen_rows :: u32
  sixteenbit_mode :: u32
  screen_size :: u32
  charset_size :: u32
  extended_background_mode :: u32
  multicolour_mode :: u32
  bitmap_mode :: int
  border_colour :: int
  background_colour :: int
  current_physical_raster :: u32
  y_scale :: u32
  h640 :: u32
  v400 :: u32
  viciii_attribs :: u32
  chargen_x :: u32
  chargen_y :: u32
  top_border_y :: u32
  bottom_border_y :: u32
  side_border_width :: u32
  left_border :: u32
  right_border :: u32
  x_scale_120 :: u32
  screen_data :: "nat \<Rightarrow> u8"
  colour_data :: "nat \<Rightarrow> u8"
  char_data :: "nat \<Rightarrow> u8"

text \<open>The variables as the program starts.\<close>

definition initial_video :: video where
  "initial_video = \<lparr>vic_regs = (\<lambda>_. 0), screen_address = 0, charset_address = 0, is_pal_mode = 0,
     screen_line_step = 0, colour_address = 0, screen_width = 0, upper_case = 0, screen_rows = 0,
     sixteenbit_mode = 0, screen_size = 0, charset_size = 0, extended_background_mode = 0,
     multicolour_mode = 0, bitmap_mode = 0, border_colour = 0, background_colour = 0,
     current_physical_raster = 0, y_scale = 0, h640 = 0, v400 = 0, viciii_attribs = 0,
     chargen_x = 0, chargen_y = 0, top_border_y = 0, bottom_border_y = 0, side_border_width = 0,
     left_border = 0, right_border = 0, x_scale_120 = 0, screen_data = (\<lambda>_. 0),
     colour_data = (\<lambda>_. 0), char_data = (\<lambda>_. 0)\<rparr>"

text \<open>\<open>fetch_ram\<close> into the front of an array.\<close>

fun fetch_ram :: "u32 \<Rightarrow> nat \<Rightarrow> (nat \<Rightarrow> u8) \<Rightarrow> (nat \<Rightarrow> u8) prog" where
  "fetch_ram address 0 buffer = return buffer"
| "fetch_ram address (Suc n) buffer = do {
     buffer \<leftarrow> fetch_ram address n buffer;
     v \<leftarrow> read_memory28 (address + of_nat n);
     return (buffer(n := v))
   }"

text \<open>Two registers as a number, and the address of the character set.\<close>

definition reg16 :: "(nat \<Rightarrow> u8) \<Rightarrow> nat \<Rightarrow> nat \<Rightarrow> u32" where
  "reg16 r lo hi = ucast (r lo) + push_bit 8 (ucast (r hi))"

definition charset_fix :: "u32 \<Rightarrow> u32" where
  "charset_fix a =
    (let a = (if a = 0x1000 then 0x2d000 else a);
         a = (if a = 0x9000 then 0x29000 else a);
         a = (if a = 0x1800 then 0x2d800 else a)
     in if a = 0x9800 then 0x29800 else a)"

text \<open>What \<open>get_video_state\<close> computes from the registers.\<close>

definition decode_video :: "(nat \<Rightarrow> u8) \<Rightarrow> video \<Rightarrow> video" where
  "decode_video r v =
    (let rows = 1 + ucast (r 0x7b); step = reg16 r 0x58 0x59; wide = ucast (r 0x54) AND 1;
         side = reg16 r 0x5c 0x5d AND 0xfff;
         raster = ucast (r 0x52) + push_bit 8 (ucast (r 0x53) AND 3)
     in v\<lparr>vic_regs := r,
       screen_address := ucast (r 0x60) + push_bit 8 (ucast (r 0x61)) + push_bit 16 (ucast (r 0x62)),
       charset_address := charset_fix (ucast (r 0x68) + push_bit 8 (ucast (r 0x69)) + push_bit 16 (ucast (r 0x6a))),
       is_pal_mode := uint ((r 0x6f AND 0x80) XOR 0x80),
       screen_line_step := step,
       colour_address := reg16 r 0x64 0x65,
       screen_width := ucast (r 0x5e),
       upper_case := 2 - (ucast (r 0x18) AND 2),
       screen_rows := rows,
       sixteenbit_mode := wide,
       screen_size := step * rows * (1 + wide),
       charset_size := (if wide \<noteq> 0 \<and> r 0x54 AND 4 = 0 then 8192 * 8 else 2048),
       extended_background_mode := ucast (r 0x11) AND 0x40,
       multicolour_mode := ucast (r 0x16) AND 0x10,
       bitmap_mode := uint (r 0x11 AND 0x20),
       border_colour := uint (r 0x20),
       background_colour := uint (r 0x21),
       current_physical_raster := (if r 0x53 AND 0x80 = 0 then raster * 2 else raster),
       y_scale := ucast (r 0x5b),
       h640 := ucast (r 0x31) AND 0x80,
       v400 := ucast (r 0x31) AND 0x08,
       viciii_attribs := ucast (r 0x31) AND 0x20,
       chargen_x := (reg16 r 0x4c 0x4d AND 0xfff) - SCREEN_POSITION,
       chargen_y := reg16 r 0x4e 0x4f AND 0xfff,
       top_border_y := reg16 r 0x48 0x49 AND 0xfff,
       bottom_border_y := reg16 r 0x4a 0x4b AND 0xfff,
       side_border_width := side,
       left_border := side - SCREEN_POSITION,
       right_border := 800 - side - SCREEN_POSITION,
       x_scale_120 := ucast (r 0x5a)\<rparr>)"

text \<open>\<open>None\<close> is the call of \<open>exit\<close> for a screen that does not fit the arrays.\<close>

definition get_video_state :: "video \<Rightarrow> video option prog" where
  "get_video_state v = do {
     r \<leftarrow> fetch_ram 0xffd3000 0x400 (vic_regs v);
     let v = decode_video r v;
     if unat (screen_size v) > MAX_SCREEN_SIZE then return None
     else do {
       s \<leftarrow> fetch_ram (screen_address v) (unat (screen_size v)) (screen_data v);
       c \<leftarrow> fetch_ram (0xff80000 + colour_address v) (unat (screen_size v)) (colour_data v);
       g \<leftarrow> fetch_ram (charset_address v) (unat (charset_size v)) (char_data v);
       return (Some (v\<lparr>screen_data := s, colour_data := c, char_data := g\<rparr>))
     }
   }"

section \<open>The text form\<close>

definition mega65_rgb :: "video \<Rightarrow> nat \<Rightarrow> nat \<Rightarrow> u8" where
  "mega65_rgb v colour rgb =
    (let r = vic_regs v (0x100 + 0x100 * rgb + colour)
     in push_bit 4 (r AND 0xf) + drop_bit 4 (r AND 0xf0))"

definition esc :: string where "esc = [char_of (27 :: nat)]"
definition newline_char :: char where "newline_char = char_of (10 :: nat)"

text \<open>An escape sequence that sets a colour, \<open>48\<close> for the background and \<open>38\<close> for the foreground.\<close>

definition sgr :: "video \<Rightarrow> string \<Rightarrow> nat \<Rightarrow> string" where
  "sgr v kind colour = esc @ ''['' @ kind @ '';2;'' @ fmt_d (uint (mega65_rgb v colour 0)) @ '';'' @
     fmt_d (uint (mega65_rgb v colour 1)) @ '';'' @ fmt_d (uint (mega65_rgb v colour 2)) @ ''m''"

definition sgr_reset :: string where "sgr_reset = esc @ ''[0m''"

definition utf8_text :: "u32 \<Rightarrow> printed" where
  "utf8_text cp = (case to_utf8 cp of Inl f \<Rightarrow> Crash f | Inr bs \<Rightarrow> Text (map (\<lambda>b. char_of (unat b)) bs))"

text \<open>The code points of the graphics characters \<open>$60\<close> to \<open>$6F\<close>.\<close>

definition graphics :: "u32 list" where
  "graphics = [0xa0, 0x258c, 0x2584, 0x2594, 0x2581, 0x258e, 0x2592, 0x258a, 0x7f, 0x25e4, 0x258a, 0x2523,
     0x2597, 0x2517, 0x2513, 0x2582]"

definition byte_char :: "u8 \<Rightarrow> char" where
  "byte_char b = char_of (unat b)"

definition screencode_char :: "u8 \<Rightarrow> bool \<Rightarrow> printed" where
  "screencode_char c upper =
    (if 0x30 \<le> c \<and> c \<le> 0x39 then Text [byte_char c]
     else if c \<le> 0x1f then Text [byte_char (if upper then c + 0x40 else c + 0x60)]
     else if 0x20 \<le> c \<and> c < 0x40 then Text [byte_char c]
     else if 0x40 \<le> c \<and> c \<le> 0x5f \<and> \<not> upper then Text [byte_char c]
     else if 0x60 \<le> c \<and> c \<le> 0x6f then utf8_text (graphics ! unat (c - 0x60))
     else Text ''?'')"

definition print_screencode :: "u8 \<Rightarrow> bool \<Rightarrow> printed" where
  "print_screencode c upper =
    (if c AND 0x80 \<noteq> 0
     then cat (Text (esc @ ''[7m'')) (cat (screencode_char (c AND 0x7f) upper) (Text sgr_reset))
     else screencode_char c upper)"

text \<open>
  One cell of the screen: its character and its colour, 16 bits each in 16-bit mode; what
  is shown of it.
\<close>

definition cell_index :: "video \<Rightarrow> nat \<Rightarrow> nat \<Rightarrow> nat" where
  "cell_index v x y = y * unat (screen_line_step v) + x * (1 + unat (sixteenbit_mode v))"

definition cell_value :: "video \<Rightarrow> (nat \<Rightarrow> u8) \<Rightarrow> nat \<Rightarrow> nat \<Rightarrow> u32" where
  "cell_value v a x y =
    (let lo = ucast (a (cell_index v x y))
     in if sixteenbit_mode v \<noteq> 0 then lo OR push_bit 8 (ucast (a (cell_index v x y + 1))) else lo)"

record cell =
  char_id :: u32
  fg :: nat
  bg :: nat
  full_colour :: bool
  four_bit :: bool

definition decode_cell :: "video \<Rightarrow> nat \<Rightarrow> nat \<Rightarrow> cell" where
  "decode_cell v x y =
    (let value = cell_value v (screen_data v) x y; colour = cell_value v (colour_data v) x y;
         extended = extended_background_mode v \<noteq> 0;
         char_value = (if extended then value AND 0x3f else value);
         cid = (if extended then char_value else char_value AND 0x1fff);
         back = (if extended then unat (vic_regs v (0x21 + unat (drop_bit 6 char_value AND 3)))
                 else nat (background_colour v));
         attribs = viciii_attribs v \<noteq> 0 \<and> multicolour_mode v = 0;
         rev = attribs \<and> colour AND 0x20 \<noteq> 0;
         bold = attribs \<and> colour AND 0x40 \<noteq> 0;
         fore = unat (if bold then (colour AND 0xff) OR 0x10 else colour AND 0xff);
         four = colour AND 0x800 \<noteq> 0
     in \<lparr>char_id = cid, fg = (if rev then back else fore), bg = (if rev then fore else back),
         full_colour = (vic_regs v 0x54 AND 2 \<noteq> 0 \<and> cid < 0x100 \<or> vic_regs v 0x54 AND 4 \<noteq> 0 \<and> cid > 0xff \<or> four),
         four_bit = four\<rparr>)"

definition show_cell :: "video \<Rightarrow> nat \<Rightarrow> nat \<Rightarrow> printed" where
  "show_cell v y x =
    (let c = decode_cell v x y
     in cat (Text (sgr v ''48'' (bg c) @ sgr v ''38'' (fg c)))
          (if full_colour c then Text (if four_bit c then ''??'' else ''?'')
           else print_screencode (ucast (char_id c AND 0xff)) (upper_case v \<noteq> 0)))"

definition cat_all :: "printed list \<Rightarrow> printed" where
  "cat_all ps = foldr cat ps (Text [])"

definition show_row :: "video \<Rightarrow> nat \<Rightarrow> printed" where
  "show_row v y =
    (let border = nat (border_colour v)
     in cat (Text (sgr v ''48'' border @ '' ''))
          (cat (cat_all (map (show_cell v y) [0..<unat (screen_width v)]))
             (Text (sgr v ''48'' border @ '' '' @ sgr_reset @ [newline_char]))))"

text \<open>The lines of a hexadecimal dump, and the text of the whole screenshot.\<close>

definition dump_byte :: "nat \<Rightarrow> u32 \<Rightarrow> (nat \<Rightarrow> u8) \<Rightarrow> nat \<Rightarrow> string" where
  "dump_byte w base a i =
    (if i mod 16 = 0 then ''      $'' @ fmt_X w (base + of_nat i) @ '' :'' else []) @
    '' '' @ fmt_X 2 (a i) @ (if i mod 16 = 15 then [newline_char] else [])"

definition screen_text :: "video \<Rightarrow> printed" where
  "screen_text v =
    (let border = nat (border_colour v); blank = replicate (1 + unat (screen_width v) + 1) CHR '' ''
     in cat (Text (
          ''INFO: Screen RAM address = $'' @ fmt_X 7 (screen_address v) @ '', Colours=$'' @
          fmt_X 2 (vic_regs v 0x20) @ '',$'' @ fmt_X 2 (vic_regs v 0x21) @ [newline_char] @
          ''INFO: Screen RAM contents:'' @ [newline_char] @
          concat (map (dump_byte 7 (screen_address v) (screen_data v)) [0..<unat (screen_size v)]) @
          (if unat (screen_size v) mod 16 \<noteq> 0 then [newline_char] else []) @
          ''INFO: VIC-IV Registers:'' @ [newline_char] @
          concat (map (dump_byte 4 0xd000 (vic_regs v)) [0..<0x400]) @
          sgr v ''48'' border @ blank @ sgr_reset @ [newline_char]))
        (cat (cat_all (map (show_row v) [0..<unat (screen_rows v)]))
           (Text (sgr v ''48'' border @ blank @ sgr_reset @ [newline_char]))))"

text \<open>\<open>None\<close> is the exit in \<open>get_video_state\<close>.\<close>

definition do_screen_shot_ascii :: "video \<Rightarrow> (video \<times> printed) option prog" where
  "do_screen_shot_ascii v = do {
     r \<leftarrow> get_video_state v;
     return (map_option (\<lambda>v. (v, screen_text v)) r)
   }"

end
