(* ===== verification/CText.thy ===== *)
theory CText
  imports Prelude
begin

text \<open>
  What the script interpreter uses of the C library for texts: \<open>isspace\<close>, the comparisons that
  ignore case, \<open>fgets\<close> and \<open>sscanf\<close>. A text is a \<open>string\<close> without its zero byte.

  \<open>sscanf\<close> follows the C standard for the conversions that the program uses: blanks in the
  format match any number of blanks, other characters match themselves, \<open>%s\<close> a word, \<open>%[^c]\<close> a
  non-empty text without \<open>c\<close>, \<open>%d\<close>, \<open>%u\<close> and \<open>%x\<close> numbers, and \<open>%n\<close> the number of characters
  read so far. The result is the list of the assignments before the first mismatch; a number
  that does not fit its type is stored modulo its size.
\<close>

section \<open>Characters\<close>

definition isspace :: "char \<Rightarrow> bool" where
  "isspace c = ((of_char c :: nat) = 32 \<or> 9 \<le> (of_char c :: nat) \<and> (of_char c :: nat) \<le> 13)"

definition tolower :: "char \<Rightarrow> char" where
  "tolower c = (let n = (of_char c :: nat) in if 65 \<le> n \<and> n \<le> 90 then char_of (n + 32) else c)"

definition strcasecmp_eq :: "string \<Rightarrow> string \<Rightarrow> bool" where
  "strcasecmp_eq s t = (map tolower s = map tolower t)"

text \<open>\<open>!strncasecmp(s, p, strlen(p))\<close>\<close>

definition starts_with :: "string \<Rightarrow> string \<Rightarrow> bool" where
  "starts_with s p = (length p \<le> length s \<and> map tolower (take (length p) s) = map tolower p)"

definition skip_blanks :: "string \<Rightarrow> string" where
  "skip_blanks s = dropWhile isspace s"

text \<open>The value of a hexadecimal digit.\<close>

definition digit_value :: "char \<Rightarrow> nat option" where
  "digit_value c =
    (let n = (of_char c :: nat)
     in if 48 \<le> n \<and> n \<le> 57 then Some (n - 48)
        else if 65 \<le> n \<and> n \<le> 70 then Some (n - 55)
        else if 97 \<le> n \<and> n \<le> 102 then Some (n - 87)
        else None)"

definition is_digit :: "nat \<Rightarrow> char \<Rightarrow> bool" where
  "is_digit base c = (case digit_value c of None \<Rightarrow> False | Some d \<Rightarrow> d < base)"

definition number_of :: "nat \<Rightarrow> string \<Rightarrow> int" where
  "number_of base s = fold (\<lambda>c v. v * int base + int (the (digit_value c))) s 0"

section \<open>Scanning\<close>

datatype conversion = Word | Until char | Decimal | Hex | Count
datatype element = Blank | Exactly char | Conv conversion
datatype scanned = Str string | Num int

text \<open>A format string as its elements. A \<open>%\<close> that starts none of the conversions ends it.\<close>

fun format_of :: "string \<Rightarrow> element list" where
  "format_of [] = []"
| "format_of (c # cs) =
    (if c = CHR ''%'' then
       (case cs of
          [] \<Rightarrow> []
        | d # ds \<Rightarrow>
            if d = CHR ''s'' then Conv Word # format_of ds
            else if d = CHR ''d'' \<or> d = CHR ''u'' then Conv Decimal # format_of ds
            else if d = CHR ''x'' then Conv Hex # format_of ds
            else if d = CHR ''n'' then Conv Count # format_of ds
            else if d = CHR ''['' then
              (case ds of _ # e # _ # es \<Rightarrow> Conv (Until e) # format_of es | _ \<Rightarrow> [])
            else [])
     else (if isspace c then Blank else Exactly c) # format_of cs)"

declare format_of.simps [simp del]

text \<open>An optional sign, and for \<open>%x\<close> an optional prefix \<open>0x\<close>; then one digit at least.\<close>

definition take_sign :: "string \<Rightarrow> int \<times> string" where
  "take_sign s = (case s of
     [] \<Rightarrow> (1, [])
   | c # cs \<Rightarrow> if c = CHR ''-'' then (- 1, cs) else if c = CHR ''+'' then (1, cs) else (1, s))"

definition take_prefix :: "string \<Rightarrow> string" where
  "take_prefix s = (case s of
     c # d # cs \<Rightarrow> if c = CHR ''0'' \<and> tolower d = CHR ''x'' then cs else s | _ \<Rightarrow> s)"

definition scan_number :: "nat \<Rightarrow> string \<Rightarrow> (int \<times> string) option" where
  "scan_number base s =
    (let (sign, s) = take_sign (skip_blanks s);
         s = (if base = 16 then take_prefix s else s);
         ds = takeWhile (is_digit base) s
     in if ds = [] then None
        else Some (sint (word_of_int (sign * number_of base ds) :: u32), drop (length ds) s))"

text \<open>One conversion at the rest \<open>s\<close> of a text of which \<open>n\<close> characters are read.\<close>

definition convert :: "conversion \<Rightarrow> nat \<Rightarrow> string \<Rightarrow> (scanned \<times> string) option" where
  "convert c n s = (case c of
     Word \<Rightarrow>
       (let s = skip_blanks s; w = takeWhile (\<lambda>c. \<not> isspace c) s
        in if w = [] then None else Some (Str w, drop (length w) s))
   | Until e \<Rightarrow>
       (let w = takeWhile (\<lambda>c. c \<noteq> e) s in if w = [] then None else Some (Str w, drop (length w) s))
   | Decimal \<Rightarrow> map_option (\<lambda>(v, s). (Num v, s)) (scan_number 10 s)
   | Hex \<Rightarrow> map_option (\<lambda>(v, s). (Num v, s)) (scan_number 16 s)
   | Count \<Rightarrow> Some (Num (int n), s))"

fun scan :: "element list \<Rightarrow> nat \<Rightarrow> string \<Rightarrow> scanned list" where
  "scan [] len s = []"
| "scan (Blank # es) len s = scan es len (skip_blanks s)"
| "scan (Exactly c # es) len s = (case s of [] \<Rightarrow> [] | d # ds \<Rightarrow> if d = c then scan es len ds else [])"
| "scan (Conv c # es) len s =
    (case convert c (len - length s) s of None \<Rightarrow> [] | Some (v, rest) \<Rightarrow> v # scan es len rest)"

definition sscanf :: "string \<Rightarrow> string \<Rightarrow> scanned list" where
  "sscanf s fmt = scan (format_of fmt) (length s) s"

text \<open>The results of \<open>sscanf\<close> with one, two and three conversions, when all of them succeed.\<close>

definition scan1 :: "string \<Rightarrow> string \<Rightarrow> string option" where
  "scan1 s fmt = (case sscanf s fmt of [Str a] \<Rightarrow> Some a | _ \<Rightarrow> None)"

definition scan1_num :: "string \<Rightarrow> string \<Rightarrow> int option" where
  "scan1_num s fmt = (case sscanf s fmt of [Num a] \<Rightarrow> Some a | _ \<Rightarrow> None)"

definition scan2 :: "string \<Rightarrow> string \<Rightarrow> (string \<times> string) option" where
  "scan2 s fmt = (case sscanf s fmt of [Str a, Str b] \<Rightarrow> Some (a, b) | _ \<Rightarrow> None)"

definition scan2_num :: "string \<Rightarrow> string \<Rightarrow> (string \<times> int) option" where
  "scan2_num s fmt = (case sscanf s fmt of [Str a, Num b] \<Rightarrow> Some (a, b) | _ \<Rightarrow> None)"

definition scan2_swap :: "string \<Rightarrow> string \<Rightarrow> (int \<times> string) option" where
  "scan2_swap s fmt = (case sscanf s fmt of [Num a, Str b] \<Rightarrow> Some (a, b) | _ \<Rightarrow> None)"

definition scan3_num :: "string \<Rightarrow> string \<Rightarrow> (string \<times> int \<times> int) option" where
  "scan3_num s fmt = (case sscanf s fmt of [Str a, Num b, Num c] \<Rightarrow> Some (a, b, c) | _ \<Rightarrow> None)"

section \<open>Lines\<close>

text \<open>
  \<open>fgets\<close> with a buffer of \<open>bound\<close>: the line with its newline, or as much of it as fits; the rest
  of the file; and whether the end of the file was met. The line is a string: it ends at its
  first zero byte.
\<close>

fun take_line :: "nat \<Rightarrow> string \<Rightarrow> string \<times> string \<times> bool" where
  "take_line 0 s = ([], s, False)"
| "take_line (Suc n) [] = ([], [], True)"
| "take_line (Suc n) (c # cs) =
    (if (of_char c :: nat) = 10 then ([c], cs, False)
     else (let (l, rest, eof) = take_line n cs in (c # l, rest, eof)))"

definition c_string :: "string \<Rightarrow> string" where
  "c_string s = takeWhile (\<lambda>c. (of_char c :: nat) \<noteq> 0) s"

definition fgets :: "nat \<Rightarrow> string \<Rightarrow> string \<times> string \<times> bool" where
  "fgets bound s = (let (l, rest, eof) = take_line (bound - 1) s in (c_string l, rest, eof))"

lemma take_line_shorter:
  "take_line n s = (l, rest, eof) \<Longrightarrow> 0 < n \<Longrightarrow> s \<noteq> [] \<Longrightarrow> length rest < length s"
proof (induction n s arbitrary: l rest eof rule: take_line.induct)
  case (3 n c cs)
  show ?case
  proof (cases "(of_char c :: nat) = 10")
    case True
    with "3.prems" show ?thesis by simp
  next
    case False
    obtain l' rest' eof' where r: "take_line n cs = (l', rest', eof')" by (cases "take_line n cs") auto
    with "3.prems" False have rest: "rest = rest'" by simp
    show ?thesis
    proof (cases "n = 0 \<or> cs = []")
      case True
      with r rest show ?thesis by (cases n) auto
    next
      case False
      with "3.IH" [OF \<open>of_char c \<noteq> 10\<close> r] rest show ?thesis by simp
    qed
  qed
qed simp_all

lemma fgets_shorter:
  "fgets bound s = (l, rest, eof) \<Longrightarrow> 1 < bound \<Longrightarrow> s \<noteq> [] \<Longrightarrow> length rest < length s"
  by (auto simp: fgets_def split: prod.splits dest: take_line_shorter)

lemma fgets_empty: "1 < bound \<Longrightarrow> fgets bound [] = ([], [], True)"
  by (cases "bound - 1") (simp_all add: fgets_def c_string_def)

lemma fgets_measure:
  "fgets bound s = (l, rest, eof) \<Longrightarrow> 1 < bound \<Longrightarrow> length rest + (if eof then 0 else 1) < length s + 1"
  by (cases "s = []") (auto simp: fgets_empty dest: fgets_shorter)

end
