(* ===== verification/Script.thy ===== *)
theory Script
  imports Screen CText
begin

text \<open>
  The test scripts of \<open>hyppotest.c\<close>: loading files and symbols, resolving values, the directives,
  the verdict of a test, and \<open>main\<close>.

  What the program meets outside is the record \<open>env\<close>, a parameter: the files it can read, the
  assembler ACME (from a source and an address to the binary and the symbol list that it writes,
  \<open>None\<close> when it fails), whether the temporary log can be written, what \<open>malloc\<close> returns, and
  the fuel of \<open>write_mem28\<close>.

  The state \<open>script\<close> is the machine with the other global variables. \<open>reported\<close> is what the
  program prints about each test, \<open>result_files\<close> are the files \<open>PASS.*\<close> and \<open>FAIL.*\<close>, and
  \<open>exited\<close> is the argument of \<open>exit\<close>. \<open>input\<close> is what is left of the script, \<open>input_eof\<close> its
  \<open>feof\<close>. Other messages are not part of the state. Temporary files can be written and renamed,
  the buffer for the assembler's source is big enough, scripts hold no zero bytes, and no result
  files are there at the start.
\<close>

section \<open>State\<close>

record env =
  env_file :: "string \<Rightarrow> u8 list option"
  env_acme :: "string \<Rightarrow> u32 \<Rightarrow> (u8 list option \<times> u8 list option) option"
  env_log :: bool
  env_malloc :: "nat \<Rightarrow> instruction_log"
  env_fuel :: nat

record script =
  input :: string
  input_eof :: bool
  mach :: machine
  screen :: video
  test_name :: string
  safe_file :: string
  test_passes :: int
  test_fails :: int
  log_on_failure :: bool
  log_open :: bool
  next_name :: nat
  skipping_test :: bool
  reported :: "(string \<times> bool) list"
  result_files :: "string list"
  exited :: "int option"

type_synonym 'a script_prog = "(script, 'a) state"

definition on_machine :: "'a prog \<Rightarrow> 'a script_prog" where
  "on_machine p = State (\<lambda>s. let (x, m) = run_state p (mach s) in (x, s\<lparr>mach := m\<rparr>))"

definition script_error :: "unit script_prog" where
  "script_error = on_machine set_error"

definition exit_with :: "int \<Rightarrow> unit script_prog" where
  "exit_with n = modify (\<lambda>s. s\<lparr>exited := Some n\<rparr>)"

section \<open>Symbols and values\<close>

definition MAX_HYPPO_SYMBOLS :: nat where "MAX_HYPPO_SYMBOLS = unat HYPPORAM_SIZE"

text \<open>The first symbol with this name; comparing with a freed name is a fault.\<close>

fun find_symbol :: "string \<Rightarrow> hyppo_symbol list \<Rightarrow> hyppo_symbol option prog" where
  "find_symbol label [] = return None"
| "find_symbol label (y # ys) = do {
     names \<leftarrow> gets sym_names;
     (case names (sym_name y) of
        None \<Rightarrow> do { raise UseAfterFree; return None }
      | Some n \<Rightarrow> if label = n then return (Some y) else find_symbol label ys)
   }"

text \<open>A label with an optional offset, decimal or hexadecimal, as the chain of \<open>sscanf\<close> takes it apart.\<close>

definition split_label :: "string \<Rightarrow> (string \<times> int) option" where
  "split_label s =
    (case scan2_num s ''%[^+]+%d'' of Some (l, d) \<Rightarrow> Some (l, d)
     | None \<Rightarrow> (case scan2_num s ''%[^-]-%d'' of Some (l, d) \<Rightarrow> Some (l, - d)
     | None \<Rightarrow> (case scan2_num s ''%[^+]+$%x'' of Some (l, d) \<Rightarrow> Some (l, d)
     | None \<Rightarrow> (case scan2_num s ''%[^-]-$%x'' of Some (l, d) \<Rightarrow> Some (l, - d)
     | None \<Rightarrow> map_option (\<lambda>l. (l, 0)) (scan1 s ''%s'')))))"

definition strip_comma :: "string \<Rightarrow> string" where
  "strip_comma l = (if l \<noteq> [] \<and> last l = CHR '','' then butlast l else l)"

definition resolve_value32 :: "string \<Rightarrow> u32 prog" where
  "resolve_value32 s =
    (case scan1_num s ''$%x'' of
       Some v \<Rightarrow> return (word_of_int v)
     | None \<Rightarrow> (case split_label s of
         None \<Rightarrow> do { set_error; return 0 }
       | Some (l, delta) \<Rightarrow> do {
           let label = strip_comma l;
           hs \<leftarrow> gets hyppo_symbols;
           h \<leftarrow> find_symbol label hs;
           (case h of
              Some y \<Rightarrow> return (0xfff0000 + sym_addr y + word_of_int delta)
            | None \<Rightarrow> do {
                ys \<leftarrow> gets symbols;
                y \<leftarrow> find_symbol label ys;
                (case y of
                   Some y \<Rightarrow> return (sym_addr y + word_of_int delta)
                 | None \<Rightarrow> do { set_error; return 0 })
              })
         }))"

definition resolve_value8 :: "string \<Rightarrow> u8 prog" where
  "resolve_value8 s = do { v \<leftarrow> resolve_value32 s; return (ucast (v AND 0xff)) }"

definition resolve_value16 :: "string \<Rightarrow> u16 prog" where
  "resolve_value16 s = do { v \<leftarrow> resolve_value32 s; return (ucast (v AND 0xffff)) }"

section \<open>Loading files\<close>

definition string_of :: "u8 list \<Rightarrow> string" where
  "string_of bs = map byte_char bs"

text \<open>\<open>strdup\<close>: a new name.\<close>

definition strdup :: "string \<Rightarrow> nat script_prog" where
  "strdup t = do {
     n \<leftarrow> gets next_name;
     modify (\<lambda>s. s\<lparr>next_name := Suc n\<rparr>);
     on_machine (modify (\<lambda>m. m\<lparr>sym_names := (sym_names m)(n \<mapsto> t)\<rparr>));
     return n
   }"

text \<open>Stores to \<open>hypporam\<close> of the first bytes of the file; \<open>-1\<close> when it is too short.\<close>

definition store_hyppo :: "u8 list \<Rightarrow> machine \<Rightarrow> machine" where
  "store_hyppo bs m = m\<lparr>ram := hypporam_update
     (\<lambda>h a. if unat a < length bs \<and> a < HYPPORAM_SIZE then bs ! unat a else h a) (ram m)\<rparr>"

definition load_hyppo :: "u8 list option \<Rightarrow> int script_prog" where
  "load_hyppo file = (case file of
     None \<Rightarrow> return (- 1)
   | Some bs \<Rightarrow> do {
       on_machine (modify (store_hyppo bs));
       return (if length bs < unat HYPPORAM_SIZE then - 1 else 0)
     })"

fun load_bytes :: "nat \<Rightarrow> u32 \<Rightarrow> u8 list \<Rightarrow> unit prog" where
  "load_bytes fu a [] = return ()"
| "load_bytes fu a (b # bs) = do { write_mem28 fu a b; load_bytes fu (a + 1) bs }"

definition load_file :: "nat \<Rightarrow> u8 list option \<Rightarrow> u32 \<Rightarrow> int script_prog" where
  "load_file fu file location = (case file of
     None \<Rightarrow> return (- 1)
   | Some bs \<Rightarrow> do {
       on_machine (load_bytes fu location (take (8192 * 1024) bs));
       return 0
     })"

text \<open>An entry of \<open>sym_by_addr\<close>, which has one for each byte of the chip RAM.\<close>

definition put_sym_by_addr :: "u32 \<Rightarrow> sym_ref \<Rightarrow> unit prog" where
  "put_sym_by_addr a r =
    (if a < CHIPRAM_SIZE then modify (\<lambda>m. m\<lparr>sym_by_addr := (sym_by_addr m)(a \<mapsto> r)\<rparr>)
     else raise OutOfBounds)"

text \<open>One line of a symbol list; the result is \<open>False\<close> when the table is full.\<close>

definition hyppo_symbol_line :: "string \<Rightarrow> bool script_prog" where
  "hyppo_symbol_line line = (case scan2_num line '' %s = $%x'' of
     None \<Rightarrow> return True
   | Some (nm, addr) \<Rightarrow> do {
       n \<leftarrow> gets (\<lambda>s. length (hyppo_symbols (mach s)));
       if n \<ge> MAX_HYPPO_SYMBOLS then return False
       else do {
         name \<leftarrow> strdup nm;
         on_machine (modify (\<lambda>m. m\<lparr>hyppo_symbols := hyppo_symbols m @ [\<lparr>sym_name = name, sym_addr = word_of_int addr\<rparr>]\<rparr>));
         on_machine (put_sym_by_addr (word_of_int addr) (HyppoSym n));
         return True
       }
     })"

definition append_symbol :: "string \<Rightarrow> u32 \<Rightarrow> bool script_prog" where
  "append_symbol nm addr = do {
     n \<leftarrow> gets (\<lambda>s. length (symbols (mach s)));
     if n \<ge> MAX_SYMBOLS then return False
     else do {
       name \<leftarrow> strdup nm;
       on_machine (add_symbol name addr);
       (if addr < CHIPRAM_SIZE then on_machine (put_sym_by_addr addr (Sym n)) else return ());
       return True
     }
   }"

definition symbol_line :: "u32 \<Rightarrow> string \<Rightarrow> bool script_prog" where
  "symbol_line offset line = (case scan2_num line '' %s = $%x'' of
     Some (nm, addr) \<Rightarrow> append_symbol nm (word_of_int addr + offset)
   | None \<Rightarrow> (case scan2_swap line ''al %x %s'' of
       Some (addr, nm) \<Rightarrow> append_symbol nm (word_of_int addr + offset)
     | None \<Rightarrow> return True))"

text \<open>The loop over the lines of a file ends at the first empty string that \<open>fgets\<close> leaves.\<close>

function each_line :: "(string \<Rightarrow> bool script_prog) \<Rightarrow> string \<Rightarrow> int script_prog" where
  "each_line f t =
    (let (line, rest, eof) = fgets 1024 t
     in if t = [] \<or> line = [] then return 0
        else do { ok \<leftarrow> f line; if ok then each_line f rest else return (- 1) })"
  by pat_completeness auto
termination
  by (relation "measure (\<lambda>(f, t). length t)") (auto dest!: sym [of _ "fgets _ _"] intro: fgets_shorter)

declare each_line.simps [simp del]

definition load_hyppo_symbols :: "u8 list option \<Rightarrow> int script_prog" where
  "load_hyppo_symbols file = (case file of
     None \<Rightarrow> return (- 1) | Some bs \<Rightarrow> each_line hyppo_symbol_line (string_of bs))"

definition load_symbols :: "u8 list option \<Rightarrow> u32 \<Rightarrow> int script_prog" where
  "load_symbols file offset = (case file of
     None \<Rightarrow> return (- 1) | Some bs \<Rightarrow> each_line (symbol_line offset) (string_of bs))"

section \<open>Directives\<close>

datatype directive =
    Jsr string | DumpInstructions u32 u32 | LogDma bool | LogOnFailure | Jmp string | CheckRegisters
  | IgnoreRange string string | IgnoreAllRegs | IgnoreReg string | Ignore string | CheckRam
  | TestEnd | TestStart string
  | LoadHyppoSymbols string | LoadHyppo string | LoadSymbols string u32 | Load string u32
  | ClearAllBreakpoints | ClearBreakpoint string | Breakpoint string
  | PutFlag bool string | ExpectFlag string bool | ExpectReg string string | ExpectAt string string
  | Define string string | Poke string "string list" | Steps u32 | RunUntil string | LetReg string string
  | StackOverflows bool | StackUnderflows bool | Assemble | AssembleAt string | Unrecognised

text \<open>The words that \<open>sscanf(line_ptr, "%s%n", ...)\<close> finds one after the other.\<close>

function words :: "string \<Rightarrow> string list" where
  "words s =
    (let s = skip_blanks s; w = takeWhile (\<lambda>c. \<not> isspace c) s
     in if w = [] then [] else w # words (drop (length w) s))"
  by pat_completeness auto
termination
proof (relation "measure length")
  fix s x xa :: string
  assume "x = skip_blanks s" "xa = takeWhile (\<lambda>c. \<not> isspace c) x" "xa \<noteq> []"
  then have "x \<noteq> []" "0 < length xa" by auto
  then have "length (drop (length xa) x) < length x" by simp
  also have "length x \<le> length s" unfolding \<open>x = skip_blanks s\<close> skip_blanks_def by (rule length_dropWhile_le)
  finally show "(drop (length xa) x, s) \<in> measure length" by simp
qed simp

declare words.simps [simp del]

text \<open>The conditions of the chain, in its order; the first that applies is taken.\<close>

definition on_prefix :: "string \<Rightarrow> directive \<Rightarrow> string \<Rightarrow> directive option" where
  "on_prefix p d s = (if starts_with s p then Some d else None)"

definition on_word :: "string \<Rightarrow> (string \<Rightarrow> directive) \<Rightarrow> string \<Rightarrow> directive option" where
  "on_word fmt d s = map_option d (scan1 s fmt)"

definition on_words :: "string \<Rightarrow> (string \<Rightarrow> string \<Rightarrow> directive) \<Rightarrow> string \<Rightarrow> directive option" where
  "on_words fmt d s = map_option (\<lambda>(a, b). d a b) (scan2 s fmt)"

definition on_dump :: "string \<Rightarrow> directive option" where
  "on_dump s = (case sscanf s ''dump instructions %d to %d'' of
     [Num a, Num b] \<Rightarrow> Some (DumpInstructions (word_of_int a) (word_of_int b)) | _ \<Rightarrow> None)"

definition on_load_symbols :: "string \<Rightarrow> directive option" where
  "on_load_symbols s =
    (case scan3_num s ''loadsymbols %s at $%x-$%x'' of
       Some (f, a, b) \<Rightarrow> Some (LoadSymbols f (word_of_int a - word_of_int b))
     | None \<Rightarrow> (case scan3_num s ''loadsymbols %s at $%x+$%x'' of
         Some (f, a, b) \<Rightarrow> Some (LoadSymbols f (word_of_int a + word_of_int b))
       | None \<Rightarrow> map_option (\<lambda>(f, a). LoadSymbols f (word_of_int a)) (scan2_num s ''loadsymbols %s at $%x'')))"

definition on_load :: "string \<Rightarrow> directive option" where
  "on_load s = map_option (\<lambda>(f, a). Load f (word_of_int a)) (scan2_num s ''load %s at $%x'')"

definition on_expect_flag :: "string \<Rightarrow> directive option" where
  "on_expect_flag s = map_option (\<lambda>(l, v).
     if strcasecmp_eq v ''set'' then ExpectFlag l True
     else if strcasecmp_eq v ''clear'' then ExpectFlag l False else Unrecognised)
     (scan2 s ''expect flag %s is %s'')"

definition on_poke :: "string \<Rightarrow> directive option" where
  "on_poke s = map_option (\<lambda>(l, n). Poke l (words (drop (nat n) s))) (scan2_num s ''poke%s%n'')"

definition on_steps :: "string \<Rightarrow> directive option" where
  "on_steps s = map_option (\<lambda>n. Steps (word_of_int n)) (scan1_num s ''step %u'')"

definition directives :: "(string \<Rightarrow> directive option) list" where
  "directives =
    [on_word ''jsr %s'' Jsr, on_dump, on_prefix ''log dma off'' (LogDma False),
     on_prefix ''log dma'' (LogDma True), on_prefix ''log on failure'' LogOnFailure,
     on_word ''jmp %s'' Jmp, on_prefix ''check registers'' CheckRegisters,
     on_prefix ''check regs'' CheckRegisters, on_words ''ignore from %s to %s'' IgnoreRange,
     on_prefix ''ignore all regs'' IgnoreAllRegs, on_word ''ignore reg %s'' IgnoreReg,
     on_word ''ignore %s'' Ignore, on_prefix ''check ram'' CheckRam, on_prefix ''check mem'' CheckRam,
     on_prefix ''check memory'' CheckRam, on_prefix ''test end'' TestEnd, on_prefix ''end test'' TestEnd,
     on_word ''test \"%[^\"]\"'' TestStart, on_word ''loadhypposymbols %s'' LoadHyppoSymbols,
     on_word ''loadhyppo %s'' LoadHyppo, on_load_symbols, on_load,
     on_prefix ''clear all breakpoints'' ClearAllBreakpoints,
     on_word ''clear breakpoint %s'' ClearBreakpoint, on_word ''breakpoint %s'' Breakpoint,
     on_word ''clear flag %s'' (PutFlag False), on_word ''set flag %s'' (PutFlag True),
     on_expect_flag, on_words ''expect %s = %s'' ExpectReg, on_words ''expect %s at %s'' ExpectAt,
     on_words ''define %s as %s'' Define, on_poke, on_steps, on_prefix ''step'' (Steps 1),
     on_word ''run until %s'' RunUntil, on_words ''let %s = %s'' LetReg,
     on_prefix ''allow stack overflow'' (StackOverflows False),
     on_prefix ''allow stack underflow'' (StackUnderflows False),
     on_prefix ''forbid stack overflow'' (StackOverflows True),
     on_prefix ''forbid stack underflow'' (StackUnderflows True),
     on_prefix ''assemble with acme'' Assemble, on_word ''assemble at %s with acme'' AssembleAt]"

fun first_match :: "(string \<Rightarrow> directive option) list \<Rightarrow> string \<Rightarrow> directive" where
  "first_match [] s = Unrecognised"
| "first_match (c # cs) s = (case c s of Some d \<Rightarrow> d | None \<Rightarrow> first_match cs s)"

definition directive_of :: "string \<Rightarrow> directive" where
  "directive_of s = first_match directives s"

section \<open>Registers and flags by name\<close>

datatype reg_name = RA | RX | RY | RZ | RB | RF | RSPL | RSPH | RSP | RPC

definition reg_names :: "(string \<times> reg_name) list" where
  "reg_names = [(''a'', RA), (''x'', RX), (''y'', RY), (''z'', RZ), (''b'', RB), (''f'', RF),
     (''spl'', RSPL), (''sph'', RSPH), (''sp'', RSP), (''pc'', RPC)]"

definition flag_names :: "(string \<times> nat) list" where
  "flag_names = [(''c'', 0), (''z'', 1), (''i'', 2), (''d'', 3), (''b'', 4), (''e'', 5), (''v'', 6), (''n'', 7)]"

definition by_name :: "(string \<times> 'a) list \<Rightarrow> string \<Rightarrow> 'a option" where
  "by_name xs s = map_option snd (find (\<lambda>(n, x). strcasecmp_eq s n) xs)"

fun copy_reg :: "reg_name \<Rightarrow> regs \<Rightarrow> regs \<Rightarrow> regs" where
  "copy_reg RA f r = r\<lparr>reg_a := reg_a f\<rparr>"
| "copy_reg RX f r = r\<lparr>reg_x := reg_x f\<rparr>"
| "copy_reg RY f r = r\<lparr>reg_y := reg_y f\<rparr>"
| "copy_reg RZ f r = r\<lparr>reg_z := reg_z f\<rparr>"
| "copy_reg RB f r = r\<lparr>reg_b := reg_b f\<rparr>"
| "copy_reg RF f r = r\<lparr>reg_flags := reg_flags f\<rparr>"
| "copy_reg RSPL f r = r\<lparr>reg_sp := put_lo8 (lo8 (reg_sp f)) (reg_sp r)\<rparr>"
| "copy_reg RSPH f r = r\<lparr>reg_sp := put_hi8 (hi8 (reg_sp f)) (reg_sp r)\<rparr>"
| "copy_reg RSP f r = r\<lparr>reg_sp := reg_sp f\<rparr>"
| "copy_reg RPC f r = r\<lparr>reg_pc := reg_pc f\<rparr>"

fun assign_reg :: "reg_name \<Rightarrow> string \<Rightarrow> (regs \<Rightarrow> regs) prog" where
  "assign_reg RA s = do { v \<leftarrow> resolve_value8 s; return (\<lambda>r. r\<lparr>reg_a := v\<rparr>) }"
| "assign_reg RX s = do { v \<leftarrow> resolve_value8 s; return (\<lambda>r. r\<lparr>reg_x := v\<rparr>) }"
| "assign_reg RY s = do { v \<leftarrow> resolve_value8 s; return (\<lambda>r. r\<lparr>reg_y := v\<rparr>) }"
| "assign_reg RZ s = do { v \<leftarrow> resolve_value8 s; return (\<lambda>r. r\<lparr>reg_z := v\<rparr>) }"
| "assign_reg RB s = do { v \<leftarrow> resolve_value8 s; return (\<lambda>r. r\<lparr>reg_b := v\<rparr>) }"
| "assign_reg RF s = do { v \<leftarrow> resolve_value8 s; return (\<lambda>r. r\<lparr>reg_flags := v\<rparr>) }"
| "assign_reg RSPL s = do { v \<leftarrow> resolve_value8 s; return (\<lambda>r. r\<lparr>reg_sp := put_lo8 v (reg_sp r)\<rparr>) }"
| "assign_reg RSPH s = do { v \<leftarrow> resolve_value8 s; return (\<lambda>r. r\<lparr>reg_sp := put_hi8 v (reg_sp r)\<rparr>) }"
| "assign_reg RSP s = do { v \<leftarrow> resolve_value16 s; return (\<lambda>r. r\<lparr>reg_sp := v\<rparr>) }"
| "assign_reg RPC s = do { v \<leftarrow> resolve_value16 s; return (\<lambda>r. r\<lparr>reg_pc := ucast v\<rparr>) }"

definition upd_expected :: "(regs \<Rightarrow> regs) \<Rightarrow> unit prog" where
  "upd_expected f = modify (\<lambda>m. m\<lparr>cpu_expected := (cpu_expected m)\<lparr>cregs := f (cregs (cpu_expected m))\<rparr>\<rparr>)"

definition ignore_reg :: "string \<Rightarrow> unit prog" where
  "ignore_reg s = (case by_name reg_names s of
     None \<Rightarrow> set_error
   | Some r \<Rightarrow> do { f \<leftarrow> reg id; upd_expected (copy_reg r f) })"

definition expect_reg :: "string \<Rightarrow> string \<Rightarrow> unit prog" where
  "expect_reg s v = (case by_name reg_names s of
     None \<Rightarrow> set_error
   | Some r \<Rightarrow> do { f \<leftarrow> assign_reg r v; upd_expected f })"

definition let_reg :: "string \<Rightarrow> string \<Rightarrow> unit prog" where
  "let_reg s v = (case by_name reg_names s of
     None \<Rightarrow> set_error
   | Some r \<Rightarrow> do { f \<leftarrow> assign_reg r v; modify (upd_regs f) })"

definition put_named_flag :: "bool \<Rightarrow> string \<Rightarrow> unit prog" where
  "put_named_flag b s = (case by_name flag_names s of None \<Rightarrow> set_error | Some n \<Rightarrow> put_flag n b)"

definition expect_flag :: "string \<Rightarrow> bool \<Rightarrow> unit prog" where
  "expect_flag s b = (case by_name flag_names s of
     None \<Rightarrow> set_error
   | Some n \<Rightarrow> upd_expected (\<lambda>r. r\<lparr>reg_flags := put_bit n b (reg_flags r)\<rparr>))"

section \<open>Running code\<close>

text \<open>A message; what \<open>fprintf\<close> cannot print is a fault.\<close>

definition print_out :: "printed prog \<Rightarrow> unit prog" where
  "print_out p = do {
     t \<leftarrow> p;
     (case t of Text _ \<Rightarrow> return () | Crash f \<Rightarrow> raise f | Deep \<Rightarrow> raise OutOfFuel)
   }"

definition print_label :: "unit prog" where
  "print_label = do { pc \<leftarrow> reg reg_pc; print_out (describe_address_label pc) }"

text \<open>The termination conditions are cleared for a run, and an error of before comes back behind it.\<close>

definition begin_run :: "bool prog" where
  "begin_run = do {
     e \<leftarrow> tcond t_error;
     modify (upd_term (\<lambda>t. \<lparr>t_done = False, t_error = False, t_rts = 0, t_brk = False, t_log_dma = t_log_dma t\<rparr>));
     return e
   }"

definition end_run :: "bool \<Rightarrow> unit prog" where
  "end_run e = (if e then set_error else return ())"

definition addr16 :: "u32 \<Rightarrow> u32" where
  "addr16 v = (if v AND 0xffff0000 \<noteq> 0 then v AND 0xffff else v)"

definition call_directive :: "env \<Rightarrow> bool \<Rightarrow> string \<Rightarrow> unit prog" where
  "call_directive env rts routine = do {
     v \<leftarrow> resolve_value32 routine;
     if sint v > 0 then do {
       e \<leftarrow> begin_run;
       (if rts then set_rts 1 else return ());
       cpu_call_routine (env_malloc env) (env_fuel env) (addr16 v);
       end_run e
     } else return ()
   }"

fun step_loop :: "env \<Rightarrow> nat \<Rightarrow> unit prog" where
  "step_loop env 0 = return ()"
| "step_loop env (Suc k) = do {
     ok \<leftarrow> cpu_step (env_malloc env) (env_fuel env);
     if ok then step_loop env k else return ()
   }"

definition steps_directive :: "env \<Rightarrow> u32 \<Rightarrow> unit prog" where
  "steps_directive env n = do {
     print_label;
     e \<leftarrow> begin_run;
     step_loop env (unat n);
     end_run e
   }"

definition run_directive :: "env \<Rightarrow> string \<Rightarrow> unit prog" where
  "run_directive env location = do {
     let run_until_brk = strcasecmp_eq ''brk'' location;
     print_label;
     e \<leftarrow> begin_run;
     (if \<not> run_until_brk then set_rts 1 else return ());
     cpu_run (env_malloc env) (env_fuel env);
     brk \<leftarrow> tcond t_brk;
     (if run_until_brk \<and> brk then do {
        modify (upd_term (\<lambda>t. t\<lparr>t_error := False\<rparr>));
        print_label
      } else return ());
     end_run e
   }"

fun poke_loop :: "nat \<Rightarrow> u32 \<Rightarrow> string list \<Rightarrow> unit prog" where
  "poke_loop fu addr [] = return ()"
| "poke_loop fu addr (w # ws) = do {
     b \<leftarrow> resolve_value8 w;
     write_mem28 fu addr b;
     poke_loop fu (addr + 1) ws
   }"

definition set_breakpoint :: "u8 \<Rightarrow> string \<Rightarrow> unit prog" where
  "set_breakpoint b routine = do {
     v \<leftarrow> resolve_value32 routine;
     modify (\<lambda>m. m\<lparr>breakpoints := (breakpoints m)(addr16 v := b)\<rparr>)
   }"

definition dump_directive :: "env \<Rightarrow> u32 \<Rightarrow> u32 \<Rightarrow> unit prog" where
  "dump_directive env first final =
    print_out (show_recent_instructions (env_fuel env) [] (sint first) (sint (final - first + 1)))"

definition ignore_directive :: "string \<Rightarrow> string \<Rightarrow> unit prog" where
  "ignore_directive start finish = do {
     low \<leftarrow> resolve_value32 start;
     high \<leftarrow> resolve_value32 finish;
     ignore_ram_changes low high;
     return ()
   }"

definition expect_at :: "string \<Rightarrow> string \<Rightarrow> unit prog" where
  "expect_at value location = do {
     v \<leftarrow> resolve_value8 value;
     l \<leftarrow> resolve_value32 location;
     write_mem_expected28 l v;
     return ()
   }"

text \<open>A full table is reported, and then the symbol is stored behind it.\<close>

definition define_symbol :: "string \<Rightarrow> string \<Rightarrow> unit script_prog" where
  "define_symbol nm location = do {
     addr \<leftarrow> on_machine (resolve_value32 location);
     n \<leftarrow> gets (\<lambda>s. length (symbols (mach s)));
     if n \<ge> MAX_SYMBOLS then on_machine (do { set_error; raise OutOfBounds })
     else do { append_symbol nm addr; return () }
   }"

section \<open>The assembler\<close>

text \<open>
  The lines up to \<open>end assemble\<close>, the least indentation of them (\<open>9999\<close> for no line), the rest
  of the script and its \<open>feof\<close>.
\<close>

definition indentation :: "string \<Rightarrow> nat" where
  "indentation line = length (takeWhile isspace line)"

function source_lines :: "string \<Rightarrow> bool \<Rightarrow> nat \<Rightarrow> string list \<times> nat \<times> string \<times> bool" where
  "source_lines t eof min_c =
    (if eof then ([], min_c, t, eof)
     else (let (line, rest, eof) = fgets 1024 t; line_ptr = skip_blanks line
       in if line_ptr = [] then source_lines rest eof min_c
          else if starts_with line_ptr ''end assemble'' then ([], min_c, rest, eof)
          else (let (lines, n, r) = source_lines rest eof (min min_c (indentation line))
            in (line # lines, n, r))))"
  by pat_completeness auto
termination
  by (relation "measure (\<lambda>(t, eof, n). length t + (if eof then 0 else 1))")
     (auto dest!: sym [of _ "fgets _ _"] dest: fgets_measure split: if_splits)

declare source_lines.simps [simp del]

text \<open>The copy of the lines to the file that ACME reads; a line is read again with \<open>fgets\<close>.\<close>

function trim_lines :: "nat \<Rightarrow> string \<Rightarrow> string" where
  "trim_lines n t =
    (if t = [] then [] else (let (line, rest, eof) = fgets 1024 t in drop n line @ trim_lines n rest))"
  by pat_completeness auto
termination
  by (relation "measure (\<lambda>(n, t). length t)") (auto dest!: sym [of _ "fgets _ _"] intro: fgets_shorter)

declare trim_lines.simps [simp del]

definition read_source :: "string script_prog" where
  "read_source = State (\<lambda>s.
     let (lines, n, rest, eof) = source_lines (input s) (input_eof s) 9999
     in (trim_lines n (concat lines), s\<lparr>input := rest, input_eof := eof\<rparr>))"

definition assemble_with_acme :: "env \<Rightarrow> u32 \<Rightarrow> unit script_prog" where
  "assemble_with_acme env pc = do {
     source \<leftarrow> read_source;
     (case env_acme env source pc of
        None \<Rightarrow> script_error
      | Some (bin, syms) \<Rightarrow> do {
          load_file (env_fuel env) bin pc;
          load_symbols syms 0;
          return ()
        })
   }"

definition assemble_at :: "env \<Rightarrow> string \<Rightarrow> unit script_prog" where
  "assemble_at env location = do {
     a \<leftarrow> on_machine (resolve_value16 location);
     e \<leftarrow> on_machine (tcond t_error);
     if \<not> e then assemble_with_acme env (ucast a) else return ()
   }"

section \<open>Tests\<close>

definition unlink :: "string \<Rightarrow> unit script_prog" where
  "unlink f = modify (\<lambda>s. s\<lparr>result_files := filter (\<lambda>g. g \<noteq> f) (result_files s)\<rparr>)"

definition start_test :: "env \<Rightarrow> unit script_prog" where
  "start_test env = do {
     on_machine test_init;
     modify (\<lambda>s. s\<lparr>log_on_failure := False\<rparr>);
     if env_log env then
       modify (\<lambda>s. s\<lparr>log_open := True, safe_file := safe_name (test_name s)\<rparr>)
     else exit_with (- 2)
   }"

definition test_start :: "env \<Rightarrow> string option \<Rightarrow> string \<Rightarrow> unit script_prog" where
  "test_start env target name = do {
     modify (\<lambda>s. s\<lparr>test_name := name\<rparr>);
     if target = None \<or> target = Some name then start_test env
     else modify (\<lambda>s. s\<lparr>skipping_test := True\<rparr>)
   }"

text \<open>
  The end of \<open>test_conclude\<close>: the verdict on the standard output, and the log, when there is
  one, renamed.
\<close>

definition report :: "bool \<Rightarrow> unit script_prog" where
  "report ok = do {
     modify (\<lambda>s. s\<lparr>reported := reported s @ [(test_name s, ok)]\<rparr>);
     modify (\<lambda>s. if log_open s
       then s\<lparr>result_files := result_files s @ [(if ok then ''PASS.'' else ''FAIL.'') @ safe_file s]\<rparr> else s);
     modify (\<lambda>s. s\<lparr>log_open := False\<rparr>)
   }"

definition show_log :: "env \<Rightarrow> unit prog" where
  "show_log env = do {
     n \<leftarrow> gets cpulog_len;
     print_out (show_recent_instructions (env_fuel env) []
       (if n < 500000 then 1 else int n - 500000) (int n))
   }"

definition show_screen :: "bool script_prog" where
  "show_screen = do {
     v \<leftarrow> gets screen;
     shot \<leftarrow> on_machine (do_screen_shot_ascii v);
     (case shot of
        None \<Rightarrow> do { exit_with (- 1); return False }
      | Some (v', t) \<Rightarrow> do {
          modify (\<lambda>s. s\<lparr>screen := v'\<rparr>);
          on_machine (print_out (return t));
          return True
        })
   }"

definition test_conclude :: "env \<Rightarrow> unit script_prog" where
  "test_conclude env = do {
     safe \<leftarrow> gets safe_file;
     unlink (''FAIL.'' @ safe);
     unlink (''PASS.'' @ safe);
     e \<leftarrow> on_machine (tcond t_error);
     if e then do {
       modify (\<lambda>s. s\<lparr>test_fails := test_fails s + 1\<rparr>);
       b \<leftarrow> gets log_on_failure;
       (if b then on_machine (show_log env) else return ());
       ok \<leftarrow> show_screen;
       if ok then report False else return ()
     } else do {
       modify (\<lambda>s. s\<lparr>test_passes := test_passes s + 1\<rparr>);
       report True
     }
   }"

section \<open>The interpreter\<close>

definition checked :: "int script_prog \<Rightarrow> unit script_prog" where
  "checked p = do { r \<leftarrow> p; if r \<noteq> 0 then script_error else return () }"

fun do_directive :: "env \<Rightarrow> string option \<Rightarrow> directive \<Rightarrow> unit script_prog" where
  "do_directive env target (Jsr r) = on_machine (call_directive env True r)"
| "do_directive env target (DumpInstructions a b) = on_machine (dump_directive env a b)"
| "do_directive env target (LogDma b) = on_machine (modify (upd_term (\<lambda>t. t\<lparr>t_log_dma := b\<rparr>)))"
| "do_directive env target LogOnFailure = modify (\<lambda>s. s\<lparr>log_on_failure := True\<rparr>)"
| "do_directive env target (Jmp r) = on_machine (call_directive env False r)"
| "do_directive env target CheckRegisters = on_machine (do { compare_register_contents; return () })"
| "do_directive env target (IgnoreRange a b) = on_machine (ignore_directive a b)"
| "do_directive env target IgnoreAllRegs = on_machine (do { r \<leftarrow> reg id; upd_expected (\<lambda>_. r) })"
| "do_directive env target (IgnoreReg r) = on_machine (ignore_reg r)"
| "do_directive env target (Ignore a) = on_machine (do { low \<leftarrow> resolve_value32 a; ignore_ram_changes low low; return () })"
| "do_directive env target CheckRam = on_machine (do { compare_ram_contents; return () })"
| "do_directive env target TestEnd = test_conclude env"
| "do_directive env target (TestStart n) = test_start env target n"
| "do_directive env target (LoadHyppoSymbols f) = checked (load_hyppo_symbols (env_file env f))"
| "do_directive env target (LoadHyppo f) = checked (load_hyppo (env_file env f))"
| "do_directive env target (LoadSymbols f a) = checked (load_symbols (env_file env f) a)"
| "do_directive env target (Load f a) = checked (load_file (env_fuel env) (env_file env f) a)"
| "do_directive env target ClearAllBreakpoints = on_machine (modify (\<lambda>m. m\<lparr>breakpoints := (\<lambda>_. 0)\<rparr>))"
| "do_directive env target (ClearBreakpoint r) = on_machine (set_breakpoint 0 r)"
| "do_directive env target (Breakpoint r) = on_machine (set_breakpoint 1 r)"
| "do_directive env target (PutFlag b f) = on_machine (put_named_flag b f)"
| "do_directive env target (ExpectFlag f b) = on_machine (expect_flag f b)"
| "do_directive env target (ExpectReg r v) = on_machine (expect_reg r v)"
| "do_directive env target (ExpectAt v l) = on_machine (expect_at v l)"
| "do_directive env target (Define n l) = define_symbol n l"
| "do_directive env target (Poke l ws) = on_machine (do { a \<leftarrow> resolve_value32 l; poke_loop (env_fuel env) a ws })"
| "do_directive env target (Steps n) = on_machine (steps_directive env n)"
| "do_directive env target (RunUntil w) = on_machine (run_directive env w)"
| "do_directive env target (LetReg r v) = on_machine (let_reg r v)"
| "do_directive env target (StackOverflows b) = on_machine (modify (\<lambda>m. m\<lparr>fail_on_stack_overflow := b\<rparr>))"
| "do_directive env target (StackUnderflows b) = on_machine (modify (\<lambda>m. m\<lparr>fail_on_stack_underflow := b\<rparr>))"
| "do_directive env target Assemble = assemble_with_acme env 0x2000"
| "do_directive env target (AssembleAt l) = assemble_at env l"
| "do_directive env target Unrecognised = script_error"

definition ends_test :: "string \<Rightarrow> bool" where
  "ends_test s = (starts_with s ''test end'' \<or> starts_with s ''end test'')"

text \<open>The body of the loop in \<open>main\<close>.\<close>

definition read_line :: "string script_prog" where
  "read_line = State (\<lambda>s. let (line, rest, eof) = fgets 1024 (input s)
     in (line, s\<lparr>input := rest, input_eof := eof\<rparr>))"

definition do_line :: "env \<Rightarrow> string option \<Rightarrow> string \<Rightarrow> unit script_prog" where
  "do_line env target line = do {
     let line_ptr = skip_blanks line;
     skipping \<leftarrow> gets skipping_test;
     if line_ptr = [] then return ()
     else if hd line_ptr = CHR ''#'' then return ()
     else if skipping then
       (if ends_test line_ptr then modify (\<lambda>s. s\<lparr>skipping_test := False\<rparr>) else return ())
     else do_directive env target (directive_of line_ptr)
   }"

definition main_step :: "env \<Rightarrow> string option \<Rightarrow> unit script_prog" where
  "main_step env target = do { line \<leftarrow> read_line; do_line env target line }"

section \<open>The script does not get longer\<close>

definition remaining :: "script \<Rightarrow> nat" where
  "remaining s = length (input s) + (if input_eof s then 0 else 1)"

definition not_longer :: "script \<Rightarrow> script \<Rightarrow> bool" where
  "not_longer s t \<longleftrightarrow> remaining t \<le> remaining s"

lemma run_on_machine [simp]:
  "result_of (on_machine p) s = result_of p (mach s)"
  "state_after (on_machine p) s = s\<lparr>mach := state_after p (mach s)\<rparr>"
  by (simp_all add: on_machine_def result_of_def state_after_def split: prod.split)

text \<open>A relation between states of the script that composes, for the loops of this theory.\<close>

locale script_rel = stable_rel R for R :: "script \<Rightarrow> script \<Rightarrow> bool"
begin

lemma obeys_each_line:
  assumes f: "\<And>l. obeys R (f l)"
  shows "obeys R (each_line f t)"
  using f
proof (induction f t rule: each_line.induct)
  case (1 f t)
  obtain line rest eof where l: "fgets 1024 t = (line, rest, eof)" by (cases "fgets 1024 t")
  show ?case
  proof (cases "t = [] \<or> line = []")
    case True
    then show ?thesis by (simp add: each_line.simps [of f t] l obeys_return)
  next
    case False
    have "obeys R (do { ok \<leftarrow> f line; if ok then each_line f rest else return (- 1) })"
      using "1.IH" [OF refl l [symmetric] refl False] "1.prems" by (intro obeys_basic) auto
    with False show ?thesis by (simp add: each_line.simps [of f t] l)
  qed
qed

end

interpretation rest: script_rel not_longer
  by unfold_locales (simp_all add: not_longer_def)

lemma machine_not_longer: "obeys not_longer (on_machine p)"
  by (simp add: obeys_def not_longer_def remaining_def)

lemma modify_not_longer:
  "(\<And>s. input (f s) = input s) \<Longrightarrow> (\<And>s. input_eof (f s) = input_eof s) \<Longrightarrow> obeys not_longer (modify f)"
  by (simp add: obeys_def not_longer_def remaining_def)

lemma source_lines_shorter:
  "source_lines t eof n = (ls, k, t', eof') \<Longrightarrow>
    length t' + (if eof' then 0 else 1) \<le> length t + (if eof then 0 else 1)"
proof (induction t eof n arbitrary: ls k t' eof' rule: source_lines.induct)
  case (1 t eof n)
  obtain line rest e where l: "fgets 1024 t = (line, rest, e)" by (cases "fgets 1024 t")
  from fgets_measure [OF l] have m: "length rest + (if e then 0 else 1) \<le> length t" by simp
  show ?case
  proof (cases eof)
    case True
    with "1.prems" show ?thesis by (simp add: source_lines.simps [of t])
  next
    case F: False
    consider (blank) "skip_blanks line = []"
      | (finish) "skip_blanks line \<noteq> []" "starts_with (skip_blanks line) ''end assemble''"
      | (more) "skip_blanks line \<noteq> []" "\<not> starts_with (skip_blanks line) ''end assemble''" by blast
    then show ?thesis
    proof cases
      case blank
      with "1.prems" F l have "source_lines rest e n = (ls, k, t', eof')" by (simp add: source_lines.simps [of t])
      from "1.IH"(1) [OF F refl l [symmetric] refl refl blank this] m F show ?thesis by simp
    next
      case finish
      with "1.prems" F l m show ?thesis by (auto simp: source_lines.simps [of t])
    next
      case more
      with "1.prems" F l obtain ls' where "source_lines rest e (min n (indentation line)) = (ls', k, t', eof')"
        by (auto simp: source_lines.simps [of t] split: prod.splits)
      from "1.IH"(2) [OF F refl l [symmetric] refl refl more this] m F show ?thesis by simp
    qed
  qed
qed

lemma read_source_not_longer: "obeys not_longer read_source"
  by (auto simp: obeys_def not_longer_def remaining_def read_source_def state_after_def
      split: prod.splits dest: source_lines_shorter)

lemmas not_longer_defs =
  script_error_def exit_with_def
  load_hyppo_symbols_def load_symbols_def load_hyppo_def load_file_def assemble_with_acme_def assemble_at_def
  unlink_def start_test_def test_start_def report_def show_screen_def test_conclude_def checked_def
  define_symbol_def

lemma symbol_lines_not_longer:
  "obeys not_longer (append_symbol nm a)"
  "obeys not_longer (symbol_line offset line)"
  "obeys not_longer (hyppo_symbol_line line)"
  unfolding symbol_line_def hyppo_symbol_line_def append_symbol_def strdup_def
  by (intro rest.obeys_basic machine_not_longer | rule modify_not_longer; simp)+

lemma do_directive_not_longer: "obeys not_longer (do_directive env target d)"
  by (cases d;
    simp only: do_directive.simps not_longer_defs;
    (intro rest.obeys_basic rest.obeys_each_line machine_not_longer read_source_not_longer
        symbol_lines_not_longer
        | rule modify_not_longer; simp)+)

lemma do_line_not_longer: "obeys not_longer (do_line env target line)"
  unfolding do_line_def
  by (intro rest.obeys_basic do_directive_not_longer | rule modify_not_longer; simp)+

lemma main_step_shorter:
  assumes "\<not> input_eof s"
  shows "remaining (state_after (main_step env target) s) < remaining s"
proof -
  obtain l rest eof where f: "fgets 1024 (input s) = (l, rest, eof)" by (cases "fgets 1024 (input s)")
  then have "remaining (state_after read_line s) < remaining s"
    using fgets_measure [OF f] assms by (simp add: read_line_def state_after_def remaining_def)
  moreover have "remaining (state_after (do_line env target line) s') \<le> remaining s'" for line s'
    using obeysD [OF do_line_not_longer] by (simp add: not_longer_def)
  ultimately show ?thesis by (auto simp: main_step_def intro: le_less_trans)
qed

section \<open>The program\<close>

text \<open>The loop ends with the script, or when \<open>exit\<close> is called.\<close>

function main_loop :: "env \<Rightarrow> string option \<Rightarrow> script \<Rightarrow> script" where
  "main_loop env target s =
    (if input_eof s \<or> exited s \<noteq> None then s
     else main_loop env target (state_after (main_step env target) s))"
  by pat_completeness auto
termination
  by (relation "measure (\<lambda>(env, target, s). remaining s)") (auto intro: main_step_shorter)

declare main_loop.simps [simp del]

definition initial_script :: script where
  "initial_script = \<lparr>input = [], input_eof = False, mach = initial_machine, screen = initial_video,
     test_name = ''unnamed test'', safe_file = ''unnamed_test'', test_passes = 0, test_fails = 0,
     log_on_failure = False, log_open = False, next_name = 0, skipping_test = False, reported = [],
     result_files = [], exited = None\<rparr>"

definition main_end :: "env \<Rightarrow> unit script_prog" where
  "main_end env = do {
     stopped \<leftarrow> gets (\<lambda>s. exited s \<noteq> None);
     if stopped then return ()
     else do {
       b \<leftarrow> gets log_open;
       (if b then test_conclude env else return ());
       stopped \<leftarrow> gets (\<lambda>s. exited s \<noteq> None);
       if stopped then return () else exit_with 0
     }
   }"

definition hyppotest_main :: "env \<Rightarrow> string list \<Rightarrow> unit script_prog" where
  "hyppotest_main env args =
    (if args = [] \<or> length args > 2 then exit_with (- 2)
     else do {
       on_machine machine_init;
       (case env_file env (hd args) of
          None \<Rightarrow> exit_with (- 2)
        | Some bs \<Rightarrow> do {
            modify (\<lambda>s. s\<lparr>input := string_of bs\<rparr>);
            modify (main_loop env (if length args = 2 then Some (args ! 1) else None));
            main_end env
          })
     })"

end
