(* ===== verification/CTextLaws.thy ===== *)
theory CTextLaws
  imports CText Listing
begin

text \<open>
  The conversions of \<open>sscanf\<close> read back what those of \<open>printf\<close> print, a word ends where it
  should, and \<open>fgets\<close> finds the lines of a text.
\<close>

section \<open>Numbers\<close>

lemma digit_less: "1 < b \<Longrightarrow> d \<in> set (digits b n) \<Longrightarrow> d < b"
  by (induction b n rule: digits.induct) (subst (asm) digits.simps, auto split: if_splits)

lemma digits_not_Nil [simp]: "digits b n \<noteq> []"
  by (subst digits.simps) simp

lemma fold_digits: "1 < b \<Longrightarrow> fold (\<lambda>d v. v * int b + int d) (digits b n) 0 = int n"
proof (induction b n rule: digits.induct)
  case (1 b n)
  show ?case
  proof (cases "n < b")
    case True
    then show ?thesis using 1 by (subst digits.simps) simp
  next
    case False
    then have "fold (\<lambda>d v. v * int b + int d) (digits b n) 0
        = fold (\<lambda>d v. v * int b + int d) (digits b (n div b)) 0 * int b + int (n mod b)"
      using 1 by (subst digits.simps) simp
    also have "\<dots> = int n" using 1 False by (simp flip: of_nat_mult of_nat_add)
    finally show ?thesis .
  qed
qed

lemma digit_value_char: "d < 16 \<Longrightarrow> digit_value (digit_char 97 d) = Some d"
  by (simp add: digit_value_def digit_char_def Let_def)

lemma number_of_digits:
  assumes "1 < b" and "b \<le> 16"
  shows "number_of b (map (digit_char 97) (digits b n)) = int n"
proof -
  have "fold (\<lambda>c v. v * int b + int (the (digit_value c))) (map (digit_char 97) ds) k
      = fold (\<lambda>d v. v * int b + int d) ds k" if "\<forall>d \<in> set ds. d < 16" for ds k
    using that by (induction ds arbitrary: k) (simp_all add: digit_value_char)
  moreover have "\<forall>d \<in> set (digits b n). d < 16"
    using digit_less [OF assms(1), of _ n] assms(2) by (auto intro: order_less_le_trans)
  ultimately show ?thesis using fold_digits [OF assms(1), of n] by (simp add: number_of_def)
qed

text \<open>Characters of numbers are digits, and are neither blanks nor signs.\<close>

definition plain_digit :: "char \<Rightarrow> bool" where
  "plain_digit c \<longleftrightarrow> digit_value c \<noteq> None"

lemma plain_digit_chars:
  assumes "plain_digit c"
  shows "\<not> isspace c" "c \<noteq> CHR ''-''" "c \<noteq> CHR ''+''" "tolower c \<noteq> CHR ''x''" "c \<noteq> CHR ''$''"
    "(of_char c :: nat) \<noteq> 10" "(of_char c :: nat) \<noteq> 0"
proof -
  show "tolower c \<noteq> CHR ''x''"
  proof
    assume "tolower c = CHR ''x''"
    then have "(of_char (tolower c) :: nat) = 120" by simp
    with assms show False
      by (auto simp: plain_digit_def digit_value_def tolower_def Let_def split: if_splits)
  qed
qed (use assms in \<open>auto simp: plain_digit_def digit_value_def isspace_def Let_def split: if_splits\<close>)

lemma digits_plain: "1 < b \<Longrightarrow> b \<le> 16 \<Longrightarrow> c \<in> set (map (digit_char 97) (digits b n)) \<Longrightarrow> is_digit b c \<and> plain_digit c"
  using digit_less by (fastforce simp: is_digit_def plain_digit_def digit_value_char)

lemma scan_number_digits:
  assumes b: "1 < b" "b \<le> 16" and rest: "rest = [] \<or> \<not> plain_digit (hd rest) \<and> tolower (hd rest) \<noteq> CHR ''x''"
  shows "scan_number b (map (digit_char 97) (digits b n) @ rest)
    = Some (sint (word_of_int (int n) :: u32), rest)"
proof -
  let ?t = "map (digit_char 97) (digits b n)"
  obtain c cs where t: "?t = c # cs" by (cases "digits b n") auto
  then have c: "plain_digit c" "is_digit b c" using digits_plain [OF b, of c n] by auto
  from c have skip: "skip_blanks (?t @ rest) = ?t @ rest"
    by (simp add: t skip_blanks_def plain_digit_chars)
  from c have sign: "take_sign (?t @ rest) = (1, ?t @ rest)"
    by (simp add: t take_sign_def plain_digit_chars)
  have prefix: "take_prefix (?t @ rest) = ?t @ rest"
  proof (cases cs)
    case Nil
    with rest t show ?thesis by (cases rest) (auto simp: take_prefix_def)
  next
    case (Cons d ds)
    then have "plain_digit d" using digits_plain [OF b, of d n] t by auto
    then show ?thesis by (simp add: t Cons take_prefix_def plain_digit_chars)
  qed
  then have body: "(if b = 16 then take_prefix (?t @ rest) else ?t @ rest) = ?t @ rest" by (simp only: if_cancel)
  have "takeWhile (is_digit b) rest = []"
    using rest by (cases rest) (auto simp: plain_digit_def is_digit_def split: option.splits)
  then have "takeWhile (is_digit b) (?t @ rest) = ?t"
    using digits_plain [OF b, of _ n] by (subst takeWhile_append2) auto
  then show ?thesis
    using number_of_digits [OF b, of n] by (simp add: scan_number_def skip sign body Let_def)
qed

lemma fmt_x_1: "fmt_x 1 v = map (digit_char 97) (digits 16 (unat v))"
  by (cases "digits 16 (unat v)") (simp_all add: fmt_x_def pad_left_def)

lemmas fmt_x_one = fmt_x_1 fmt_x_1 [unfolded One_nat_def]

lemma fmt_d_nonneg: "0 \<le> i \<Longrightarrow> fmt_d i = map (digit_char 97) (digits 10 (nat i))"
  by (simp add: fmt_d_def)

section \<open>Words and lines\<close>

definition no_blanks :: "string \<Rightarrow> bool" where
  "no_blanks s \<longleftrightarrow> s \<noteq> [] \<and> list_all (\<lambda>c. \<not> isspace c) s"

lemma convert_word:
  assumes "no_blanks w" and "rest = [] \<or> isspace (hd rest)"
  shows "convert Word n (w @ rest) = Some (Str w, rest)"
proof -
  have "takeWhile (\<lambda>c. \<not> isspace c) (w @ rest) = w"
    using assms by (subst takeWhile_append2) (auto simp: no_blanks_def list_all_iff takeWhile_eq_Nil_iff)
  moreover have "skip_blanks (w @ rest) = w @ rest"
    using assms(1) by (cases w) (auto simp: no_blanks_def skip_blanks_def)
  ultimately show ?thesis using assms(1) by (simp add: convert_def no_blanks_def Let_def)
qed

lemma skip_blanks_word [simp]: "no_blanks w \<Longrightarrow> skip_blanks (w @ rest) = w @ rest"
  by (cases w) (auto simp: no_blanks_def skip_blanks_def)

lemma take_line_newline:
  assumes "list_all (\<lambda>c. (of_char c :: nat) \<noteq> 10) l" and "length l < n"
  shows "take_line n (l @ newline @ rest) = (l @ newline, rest, False)"
  using assms
proof (induction l arbitrary: n)
  case Nil
  then show ?case by (cases n) (simp_all add: newline_def)
next
  case (Cons c l)
  then show ?case by (cases n) simp_all
qed

lemma fgets_newline:
  assumes "list_all (\<lambda>c. (of_char c :: nat) \<noteq> 10 \<and> (of_char c :: nat) \<noteq> 0) l" and "length l + 1 < n"
  shows "fgets n (l @ newline @ rest) = (l @ newline, rest, False)"
proof -
  have "c_string (l @ newline) = l @ newline"
    using assms(1) by (auto simp: c_string_def takeWhile_eq_all_conv list_all_iff newline_def)
  moreover have "take_line (n - 1) (l @ newline @ rest) = (l @ newline, rest, False)"
    using assms by (intro take_line_newline) (auto simp: list_all_iff)
  ultimately show ?thesis by (simp add: fgets_def)
qed

section \<open>The formats of the scripts\<close>

lemma format_symbol:
  "format_of '' %s = $%x'' = [Blank, Conv Word, Blank, Exactly CHR ''='', Blank, Exactly CHR ''$'', Conv Hex]"
  by (simp add: format_of.simps isspace_def)

lemma format_hex: "format_of ''$%x'' = [Exactly CHR ''$'', Conv Hex]"
  by (simp add: format_of.simps isspace_def)

lemma format_word: "format_of ''%s'' = [Conv Word]"
  by (simp add: format_of.simps)

lemma format_offset:
  "format_of ''%[^+]+%d'' = [Conv (Until CHR ''+''), Exactly CHR ''+'', Conv Decimal]"
  "format_of ''%[^-]-%d'' = [Conv (Until CHR ''-''), Exactly CHR ''-'', Conv Decimal]"
  "format_of ''%[^+]+$%x'' = [Conv (Until CHR ''+''), Exactly CHR ''+'', Exactly CHR ''$'', Conv Hex]"
  "format_of ''%[^-]-$%x'' = [Conv (Until CHR ''-''), Exactly CHR ''-'', Exactly CHR ''$'', Conv Hex]"
  by (simp_all add: format_of.simps isspace_def)

lemma scan_hex:
  "convert Hex n (fmt_x 1 (w :: u32) @ rest) = Some (Num (sint w), rest)"
  if "rest = [] \<or> \<not> plain_digit (hd rest) \<and> tolower (hd rest) \<noteq> CHR ''x''"
  using scan_number_digits [of 16 rest "unat w"] that unfolding fmt_x_1
  by (simp add: convert_def)

lemma scan_decimal:
  "convert Decimal n (fmt_d i @ rest) = Some (Num i, rest)" if "0 \<le> i" "i < 2 ^ 31"
    and "rest = [] \<or> \<not> plain_digit (hd rest) \<and> tolower (hd rest) \<noteq> CHR ''x''"
  using scan_number_digits [of 10 rest "nat i"] that
  by (simp add: convert_def fmt_d_nonneg) (simp add: signed_of_int signed_take_bit_int_eq_self)

lemma newline_ends: "newline = [] \<or> \<not> plain_digit (hd newline) \<and> tolower (hd newline) \<noteq> CHR ''x''"
  by (simp add: newline_def plain_digit_def digit_value_def tolower_def char_of_eq_iff)

text \<open>A line of a symbol list, as the assembler writes it.\<close>

definition symbol_text :: "string \<times> u32 \<Rightarrow> string" where
  "symbol_text e = fst e @ '' = $'' @ fmt_x 1 (snd e) @ newline"

lemma scan_symbol:
  assumes "no_blanks nm"
  shows "scan2_num (symbol_text (nm, a)) '' %s = $%x'' = Some (nm, sint a)"
proof -
  have w: "convert Word n (nm @ '' = $'' @ r) = Some (Str nm, '' = $'' @ r)" for n r
    using assms by (intro convert_word) (simp_all add: isspace_def)
  show ?thesis
    using assms w scan_hex [OF newline_ends, of _ a]
    by (simp add: scan2_num_def sscanf_def format_symbol symbol_text_def)
      (simp add: skip_blanks_def isspace_def)
qed

end
