(* ===== verification/ScriptLaws.thy ===== *)
theory ScriptLaws
  imports Script CTextLaws DmaLaws
begin

text \<open>
  The laws of test scripts: an error fails the test that it is found in, every verdict is
  counted, a test starts from a defined state, values and symbol lists mean what they say, and
  tests that are not asked for are skipped.
\<close>

section \<open>Errors stay\<close>

abbreviation failed :: "machine \<Rightarrow> bool" where
  "failed m \<equiv> t_error (term_of m)"

lemma obeys_sum:
  "(\<And>e. obeys R (f e)) \<Longrightarrow> (\<And>x. obeys R (g x)) \<Longrightarrow> obeys R (case v of Inl e \<Rightarrow> f e | Inr x \<Rightarrow> g x)"
  by (cases v) auto

lemma obeys_printed:
  "(\<And>s. obeys R (f s)) \<Longrightarrow> (\<And>e. obeys R (g e)) \<Longrightarrow> obeys R p \<Longrightarrow>
    obeys R (case v of Text s \<Rightarrow> f s | Crash e \<Rightarrow> g e | Deep \<Rightarrow> p)"
  by (cases v) auto

lemma failed_modify: "(\<And>m. failed m \<Longrightarrow> failed (f m)) \<Longrightarrow> obeys (latched failed) (modify f)"
  by (simp add: obeys_def latched_def)

lemmas failed_basic =
  latch.obeys_basic errors.obeys_reads errors.obeys_write_mem28 errors.obeys_add_symbol

lemma failed_find_symbol: "obeys (latched failed) (find_symbol l ys)"
proof (induction ys)
  case Nil
  show ?case by (simp only: find_symbol.simps) (intro failed_basic)
next
  case (Cons y ys)
  then show ?case by (simp only: find_symbol.simps) (intro failed_basic)
qed

lemma failed_resolve:
  "obeys (latched failed) (resolve_value32 s)"
  "obeys (latched failed) (resolve_value16 s)"
  "obeys (latched failed) (resolve_value8 s)"
  unfolding resolve_value8_def resolve_value16_def resolve_value32_def Let_def
  by (intro failed_basic failed_find_symbol)+

lemma failed_load_bytes: "obeys (latched failed) (load_bytes fu a bs)"
proof (induction bs arbitrary: a)
  case Nil
  show ?case by (simp only: load_bytes.simps) (intro failed_basic)
next
  case (Cons b bs)
  then show ?case by (simp only: load_bytes.simps) (intro failed_basic)
qed

lemma failed_poke_loop: "obeys (latched failed) (poke_loop fu a ws)"
proof (induction ws arbitrary: a)
  case Nil
  show ?case by (simp only: poke_loop.simps) (intro failed_basic)
next
  case (Cons w ws)
  then show ?case by (simp only: poke_loop.simps) (intro failed_basic failed_resolve)
qed

text \<open>Whatever a run does to the flag, an error of before is there again behind it.\<close>

lemma failed_set_error [simp]: "failed (state_after set_error m)"
  by (simp add: set_error_def upd_term_def)

lemma failed_end_run [simp]: "failed (state_after (end_run True) m)"
  by (simp add: end_run_def)

lemma failed_run:
  assumes "obeys (latched failed) p" and "\<And>m. failed (state_after (q True) m)"
  shows "obeys (latched failed) (do { p; e \<leftarrow> begin_run; q e })"
  using obeysD [OF assms(1)] assms(2)
  by (auto simp: obeys_def latched_def begin_run_def getter_defs)

lemma failed_show_entries: "obeys (latched failed) (show_entries fu a d is)"
proof (induction "is" arbitrary: d)
  case Nil
  show ?case by (simp only: show_entries.simps) (intro failed_basic)
next
  case (Cons i "is")
  then show ?case
    by (simp only: show_entries.simps show_entry_def)
       (intro failed_basic obeys_sum)
qed

lemma failed_print_out: "obeys (latched failed) p \<Longrightarrow> obeys (latched failed) (print_out p)"
  unfolding print_out_def by (intro failed_basic obeys_printed)

lemma failed_show_recent: "obeys (latched failed) (show_recent_instructions fu t a n)"
  unfolding show_recent_instructions_def by (intro failed_basic failed_show_entries)

lemma failed_print_label: "obeys (latched failed) print_label"
  unfolding print_label_def describe_address_label_def reg_def
  by (intro failed_basic failed_print_out)

lemma failed_upd_expected: "obeys (latched failed) (upd_expected f)"
  unfolding upd_expected_def by (rule failed_modify) simp

lemma failed_put_flag: "obeys (latched failed) (put_flag n b)"
  by (rule errors.obeys_put_flag)

lemma failed_assign: "obeys (latched failed) (assign_reg r s)"
  by (cases r; simp only: assign_reg.simps; intro failed_basic failed_resolve)

lemmas failed_ops =
  failed_basic failed_resolve failed_find_symbol failed_load_bytes failed_poke_loop
  failed_upd_expected failed_put_flag failed_assign failed_print_label failed_print_out
  failed_show_recent

lemma failed_registers:
  "obeys (latched failed) (ignore_reg r)"
  "obeys (latched failed) (expect_reg r v)"
  "obeys (latched failed) (let_reg r v)"
  "obeys (latched failed) (put_named_flag b f)"
  "obeys (latched failed) (expect_flag f b)"
  unfolding ignore_reg_def expect_reg_def let_reg_def put_named_flag_def expect_flag_def reg_def
  by (intro failed_ops | rule failed_modify; simp add: upd_regs_def)+

lemma failed_compare:
  "obeys (latched failed) compare_register_contents"
  "obeys (latched failed) compare_ram_contents"
  unfolding compare_register_contents_def compare_reg_def compare_ram_contents_def getter_defs Let_def
  by (intro failed_ops)+

lemma failed_ignore_loop: "obeys (latched failed) (ignore_loop k i)"
proof (induction k arbitrary: i)
  case 0
  show ?case by (simp only: ignore_loop.simps) (intro failed_ops)
next
  case (Suc k)
  then show ?case
    by (simp only: ignore_loop.simps put_expected_def)
       (intro failed_ops | rule failed_modify; simp)+
qed

lemma failed_expectations:
  "obeys (latched failed) (ignore_ram_changes low high)"
  "obeys (latched failed) (ignore_directive a b)"
  "obeys (latched failed) (expect_at v l)"
  "obeys (latched failed) (set_breakpoint d r)"
  "obeys (latched failed) (dump_directive env x y)"
  unfolding ignore_directive_def ignore_ram_changes_def expect_at_def write_mem_expected28_def
    put_expected_def set_breakpoint_def dump_directive_def
  by (intro failed_ops failed_ignore_loop | rule failed_modify; simp)+

lemma failed_runs:
  "obeys (latched failed) (steps_directive env n)"
  "obeys (latched failed) (run_directive env w)"
  unfolding steps_directive_def run_directive_def Let_def
  by (rule failed_run [OF failed_print_label]; simp)+

lemma failed_call: "obeys (latched failed) (call_directive env rts r)"
  unfolding call_directive_def
proof (rule latch.obeys_bind [OF failed_resolve(1)], rule latch.obeys_if [OF _ latch.obeys_return])
  fix v
  show "obeys (latched failed) (do {
      e \<leftarrow> begin_run;
      (if rts then set_rts 1 else return ());
      cpu_call_routine (env_malloc env) (env_fuel env) (addr16 v);
      end_run e })"
    using failed_run [OF latch.obeys_return, of "\<lambda>e. do {
      (if rts then set_rts 1 else return ());
      cpu_call_routine (env_malloc env) (env_fuel env) (addr16 v);
      end_run e }"] by simp
qed

section \<open>Errors in scripts\<close>

abbreviation script_failed :: "script \<Rightarrow> bool" where
  "script_failed s \<equiv> failed (mach s)"

interpretation sticky: script_rel "latched script_failed"
  by unfold_locales (simp_all add: latched_def)

lemma sticky_machine: "obeys (latched failed) p \<Longrightarrow> obeys (latched script_failed) (on_machine p)"
  by (simp add: obeys_def latched_def)

lemma sticky_modify: "(\<And>s. mach (f s) = mach s) \<Longrightarrow> obeys (latched script_failed) (modify f)"
  by (simp add: obeys_def latched_def)

lemma failed_put_sym: "obeys (latched failed) (put_sym_by_addr a x)"
  unfolding put_sym_by_addr_def by (intro failed_ops failed_modify) simp

lemma sticky_symbol_lines:
  "obeys (latched script_failed) (append_symbol nm a)"
  "obeys (latched script_failed) (symbol_line offset line)"
  "obeys (latched script_failed) (hyppo_symbol_line line)"
  unfolding symbol_line_def hyppo_symbol_line_def append_symbol_def strdup_def
  by (intro latch.obeys_basic sticky_machine failed_put_sym failed_basic
      | rule sticky_modify; simp | rule failed_modify; simp)+

lemmas failed_directives =
  failed_registers failed_compare failed_expectations failed_runs failed_call

fun starts_test :: "directive \<Rightarrow> bool" where
  "starts_test (TestStart n) = True"
| "starts_test _ = False"

lemma sticky_read_source: "obeys (latched script_failed) read_source"
  by (auto simp: obeys_def latched_def read_source_def state_after_def split: prod.splits)

lemmas sticky_ops =
  latch.obeys_basic sticky.obeys_each_line sticky_symbol_lines sticky_read_source sticky_machine

lemma sticky_error: "obeys (latched script_failed) script_error"
  unfolding script_error_def by (intro sticky_machine errors.obeys_set_error)

lemma failed_store_hyppo: "obeys (latched failed) (modify (store_hyppo bs))"
  by (rule failed_modify) (simp add: store_hyppo_def)

lemma sticky_loads:
  "obeys (latched script_failed) (load_symbols f a)"
  "obeys (latched script_failed) (load_hyppo_symbols f)"
  "obeys (latched script_failed) (load_hyppo f)"
  "obeys (latched script_failed) (load_file fu f a)"
  unfolding load_symbols_def load_hyppo_symbols_def load_hyppo_def load_file_def
  by (intro sticky_ops failed_load_bytes failed_store_hyppo)+

lemma sticky_checked: "obeys (latched script_failed) p \<Longrightarrow> obeys (latched script_failed) (checked p)"
  unfolding checked_def by (intro latch.obeys_basic sticky_error)

lemma sticky_assemble:
  "obeys (latched script_failed) (assemble_with_acme env pc)"
  "obeys (latched script_failed) (assemble_at env l)"
  unfolding assemble_with_acme_def assemble_at_def getter_defs
  by (intro sticky_ops sticky_loads sticky_error failed_resolve latch.obeys_gets)+

lemma failed_screen_shot: "obeys (latched failed) (do_screen_shot_ascii v)"
proof -
  have "obeys (latched failed) (fetch_ram a n b)" for a n b
    by (induction n arbitrary: b) (simp_all only: fetch_ram.simps, (intro failed_ops)+)
  then show ?thesis
    unfolding do_screen_shot_ascii_def get_video_state_def by (intro failed_ops)
qed

lemma sticky_conclude: "obeys (latched script_failed) (test_conclude env)"
  unfolding test_conclude_def unlink_def report_def show_screen_def show_log_def exit_with_def getter_defs
  by (intro sticky_ops failed_ops failed_screen_shot | rule sticky_modify; simp)+

lemma sticky_define: "obeys (latched script_failed) (define_symbol n l)"
  unfolding define_symbol_def by (intro sticky_ops failed_ops)

lemma sticky_directive:
  "\<not> starts_test d \<Longrightarrow> obeys (latched script_failed) (do_directive env target d)"
  by (cases d; simp only: do_directive.simps reg_def starts_test.simps simp_thms)
     (intro sticky_checked sticky_loads sticky_assemble sticky_conclude sticky_define sticky_error
        sticky_machine failed_ops failed_directives
      | rule sticky_modify; simp | rule failed_modify; simp add: upd_term_def)+

text \<open>Directives one after the other.\<close>

definition after_all :: "env \<Rightarrow> string option \<Rightarrow> directive list \<Rightarrow> script \<Rightarrow> script" where
  "after_all env target ds s = fold (\<lambda>d. state_after (do_directive env target d)) ds s"

lemma sticky_after_all:
  "script_failed s \<Longrightarrow> list_all (\<lambda>d. \<not> starts_test d) ds \<Longrightarrow> script_failed (after_all env target ds s)"
  unfolding after_all_def
proof (induction ds arbitrary: s)
  case (Cons d ds)
  from Cons.prems have "script_failed (state_after (do_directive env target d) s)"
    using obeysD [OF sticky_directive [of d env target]] by (simp add: latched_def)
  with Cons show ?case by simp
qed simp

section \<open>Verdicts\<close>

text \<open>What a screenshot for a failing test does: it is taken, or the program ends.\<close>

lemma show_screen_cases:
  obtains m v where "result_of show_screen s" "state_after show_screen s = s\<lparr>screen := v, mach := m\<rparr>"
  | m where "\<not> result_of show_screen s" "state_after show_screen s = s\<lparr>mach := m, exited := Some (- 1)\<rparr>"
proof (cases "result_of (do_screen_shot_ascii (screen s)) (mach s)")
  case None
  then show ?thesis by (intro that(2)) (simp_all add: show_screen_def exit_with_def)
next
  case (Some p)
  then show ?thesis by (cases p, intro that(1)) (simp_all add: show_screen_def)
qed

definition filed :: "script \<Rightarrow> string list" where
  "filed s = filter (\<lambda>g. g \<noteq> ''FAIL.'' @ safe_file s \<and> g \<noteq> ''PASS.'' @ safe_file s) (result_files s)"

lemma conclude_pass:
  "\<not> script_failed s \<Longrightarrow> state_after (test_conclude env) s = s\<lparr>
     test_passes := test_passes s + 1, reported := reported s @ [(test_name s, True)],
     result_files := (if log_open s then filed s @ [''PASS.'' @ safe_file s] else filed s),
     log_open := False\<rparr>"
  by (auto simp: test_conclude_def report_def unlink_def filed_def getter_defs conj_commute)

text \<open>The variables of the bench that are neither the machine nor about the verdict.\<close>

definition script_part :: "script \<Rightarrow> _" where
  "script_part s = (input s, input_eof s, test_name s, safe_file s, log_on_failure s, next_name s, skipping_test s)"

lemma conclude_fail:
  fixes env :: env
  assumes "script_failed s"
  defines "t \<equiv> state_after (test_conclude env) s"
  shows "test_passes t = test_passes s" "test_fails t = test_fails s + 1" "script_part t = script_part s"
    "exited t = Some (- 1) \<and> reported t = reported s \<and> result_files t = filed s \<and> log_open t = log_open s \<or>
     exited t = exited s \<and> reported t = reported s @ [(test_name s, False)] \<and> log_open t = False \<and>
     result_files t = (if log_open s then filed s @ [''FAIL.'' @ safe_file s] else filed s)"
proof -
  let ?s = "s\<lparr>result_files := filed s, test_fails := test_fails s + 1\<rparr>"
  let ?X = "state_after (do { b \<leftarrow> gets log_on_failure; if b then on_machine (show_log env) else return () }) ?s"
  have t: "t = (if result_of show_screen ?X then state_after (report False) (state_after show_screen ?X)
      else state_after show_screen ?X)"
    using assms(1) by (simp add: t_def test_conclude_def unlink_def filed_def getter_defs)
  have X: "exited ?X = exited s" "reported ?X = reported s" "test_passes ?X = test_passes s"
    "test_fails ?X = test_fails s + 1" "result_files ?X = filed s" "script_part ?X = script_part s"
    "log_open ?X = log_open s" "test_name ?X = test_name s" "safe_file ?X = safe_file s"
    by (simp_all add: script_part_def)
  have "test_passes t = test_passes s \<and> test_fails t = test_fails s + 1 \<and> script_part t = script_part s \<and>
    (exited t = Some (- 1) \<and> reported t = reported s \<and> result_files t = filed s \<and> log_open t = log_open s \<or>
     exited t = exited s \<and> reported t = reported s @ [(test_name s, False)] \<and> log_open t = False \<and>
     result_files t = (if log_open s then filed s @ [''FAIL.'' @ safe_file s] else filed s))"
  proof (cases rule: show_screen_cases [of ?X])
    case (1 m v)
    then show ?thesis unfolding t using X by (simp add: report_def script_part_def)
  next
    case (2 m)
    then show ?thesis unfolding t using X by (simp add: script_part_def)
  qed
  then show "test_passes t = test_passes s" "test_fails t = test_fails s + 1" "script_part t = script_part s"
    "exited t = Some (- 1) \<and> reported t = reported s \<and> result_files t = filed s \<and> log_open t = log_open s \<or>
     exited t = exited s \<and> reported t = reported s @ [(test_name s, False)] \<and> log_open t = False \<and>
     result_files t = (if log_open s then filed s @ [''FAIL.'' @ safe_file s] else filed s)"
    by blast+
qed

text \<open>Nothing but a test's start and end touches the verdicts, their counters and files.\<close>

definition verdict_part :: "script \<Rightarrow> _" where
  "verdict_part s = (test_passes s, test_fails s, reported s, result_files s, log_open s, exited s)"

interpretation verdicts: script_rel "same verdict_part"
  by unfold_locales (simp_all add: same_def)

lemma verdict_machine: "obeys (same verdict_part) (on_machine p)"
  by (simp add: obeys_def same_def verdict_part_def)

lemma verdict_modify: "(\<And>s. verdict_part (f s) = verdict_part s) \<Longrightarrow> obeys (same verdict_part) (modify f)"
  by (simp add: obeys_def same_def)

lemma verdict_symbol_lines:
  "obeys (same verdict_part) (append_symbol nm a)"
  "obeys (same verdict_part) (symbol_line offset line)"
  "obeys (same verdict_part) (hyppo_symbol_line line)"
  unfolding symbol_line_def hyppo_symbol_line_def append_symbol_def strdup_def
  by (intro frame.obeys_basic verdict_machine | rule verdict_modify; simp add: verdict_part_def)+

lemma verdict_read_source: "obeys (same verdict_part) read_source"
  by (auto simp: obeys_def same_def verdict_part_def read_source_def state_after_def split: prod.splits)

fun ends_or_starts :: "directive \<Rightarrow> bool" where
  "ends_or_starts (TestStart n) = True"
| "ends_or_starts TestEnd = True"
| "ends_or_starts _ = False"

lemmas verdict_ops =
  frame.obeys_basic verdicts.obeys_each_line verdict_symbol_lines verdict_read_source verdict_machine

lemma verdict_loads:
  "obeys (same verdict_part) script_error"
  "obeys (same verdict_part) (load_symbols f a)"
  "obeys (same verdict_part) (load_hyppo_symbols f)"
  "obeys (same verdict_part) (load_hyppo f)"
  "obeys (same verdict_part) (load_file fu f a)"
  "obeys (same verdict_part) (define_symbol n l)"
  unfolding load_symbols_def load_hyppo_symbols_def load_hyppo_def load_file_def define_symbol_def
    script_error_def
  by (intro verdict_ops)+

lemma verdict_checked: "obeys (same verdict_part) p \<Longrightarrow> obeys (same verdict_part) (checked p)"
  unfolding checked_def by (intro verdict_ops verdict_loads)

lemma verdict_assemble:
  "obeys (same verdict_part) (assemble_with_acme env pc)"
  "obeys (same verdict_part) (assemble_at env l)"
  unfolding assemble_with_acme_def assemble_at_def
  by (intro verdict_ops verdict_loads)+

lemma verdict_directive:
  "\<not> ends_or_starts d \<Longrightarrow> obeys (same verdict_part) (do_directive env target d)"
  by (cases d; simp only: do_directive.simps ends_or_starts.simps simp_thms)
     (intro verdict_checked verdict_loads verdict_assemble verdict_machine
      | rule verdict_modify; simp add: verdict_part_def)+

text \<open>The counters agree with what was reported; a test that ends the program is counted too.\<close>

definition tallied :: "script \<Rightarrow> bool" where
  "tallied s \<longleftrightarrow>
     test_passes s = int (count_list (map snd (reported s)) True) \<and>
     test_fails s = int (count_list (map snd (reported s)) False) + (if exited s = Some (- 1) then 1 else 0) \<and>
     exited s \<in> {None, Some (- 1), Some (- 2)}"

lemma tallied_cong: "verdict_part t = verdict_part s \<Longrightarrow> tallied t = tallied s"
  by (simp add: tallied_def verdict_part_def)

lemma tallied_conclude:
  assumes "tallied s" and "exited s = None"
  shows "tallied (state_after (test_conclude env) s)"
proof (cases "script_failed s")
  case True
  from conclude_fail [OF True, of env] assms show ?thesis by (auto simp: tallied_def)
next
  case False
  with assms show ?thesis by (simp add: conclude_pass tallied_def)
qed

lemma tallied_start:
  assumes "tallied s" and "exited s = None"
  shows "tallied (state_after (test_start env target n) s)"
  using assms by (simp add: test_start_def start_test_def exit_with_def tallied_def)

lemma tallied_directive:
  assumes "tallied s" and "exited s = None"
  shows "tallied (state_after (do_directive env target d) s)"
proof (cases "ends_or_starts d")
  case True
  with assms show ?thesis by (cases d) (simp_all add: tallied_conclude tallied_start)
next
  case False
  then have "verdict_part (state_after (do_directive env target d) s) = verdict_part s"
    using obeysD [OF verdict_directive] by (simp add: same_def)
  from tallied_cong [OF this] assms(1) show ?thesis by simp
qed

lemma tallied_step:
  assumes "tallied s" and "exited s = None"
  shows "tallied (state_after (main_step env target) s)"
proof -
  let ?s = "state_after read_line s"
  have "verdict_part ?s = verdict_part s"
    by (simp add: read_line_def state_after_def verdict_part_def split: prod.split)
  then have "tallied ?s" "exited ?s = None"
    using assms tallied_cong [of ?s s] by (simp_all add: verdict_part_def)
  then show ?thesis
    by (simp add: main_step_def do_line_def tallied_directive Let_def) (simp add: tallied_def)
qed

lemma tallied_loop: "tallied s \<Longrightarrow> tallied (main_loop env target s)"
proof (induction env target s rule: main_loop.induct)
  case (1 env target s)
  then show ?case by (subst main_loop.simps) (simp add: tallied_step)
qed

section \<open>The start of a test\<close>

text \<open>What a test's start decides; the expected memories count as far as they are compared.\<close>

definition within :: "u32 \<Rightarrow> (u32 \<Rightarrow> u8) \<Rightarrow> u32 \<Rightarrow> u8" where
  "within n f = (\<lambda>i. if i < n then f i else 0)"

definition expected_part :: "machine \<Rightarrow> u8 banks" where
  "expected_part m = \<lparr>chipram = within CHIPRAM_SIZE (chipram (ram_expected m)),
     hypporam = within HYPPORAM_SIZE (hypporam (ram_expected m)),
     colourram = within COLOURRAM_SIZE (colourram (ram_expected m)),
     ffdram = within 65536 (ffdram (ram_expected m))\<rparr>"

definition fresh_part :: "machine \<Rightarrow> _" where
  "fresh_part m = (cpu m, cpu_expected m, fail_on_stack_overflow m, fail_on_stack_underflow m,
     breakpoints m, expected_part m, hyppo_symbols m, symbols m, sym_by_addr m, cpulog_len m, lastataddr m)"

lemma within_zero_bytes [simp]: "within n (zero_bytes n f) = (\<lambda>_. 0)"
  by (simp add: within_def zero_bytes_def fun_eq_iff)

lemma within_upd [simp]: "within n (f(i := v)) = (if i < n then (within n f)(i := v) else within n f)"
  by (auto simp: within_def fun_eq_iff)

lemma within_viciv [simp]: "within 65536 (put_viciv f) = put_viciv (within 65536 f)"
proof
  fix i :: u32
  have "i < 65536" if "i \<ge> 0x3000" "i < 0x3000 + 0x80"
    using that(2) by (rule less_trans) simp
  then show "within 65536 (put_viciv f) i = put_viciv (within 65536 f) i"
    by (auto simp: within_def put_viciv_def)
qed

lemmas freed_keep =
  free_names_keep [where f = cpu] free_logs_keep [where f = cpu]
  free_names_keep [where f = cpu_expected] free_logs_keep [where f = cpu_expected]
  free_names_keep [where f = breakpoints] free_logs_keep [where f = breakpoints]
  free_names_keep [where f = cpulog_len] free_logs_keep [where f = cpulog_len]
  free_names_keep [where f = hyppo_symbols] free_logs_keep [where f = hyppo_symbols]
  free_names_keep [where f = ram_expected] free_logs_keep [where f = ram_expected]
  free_names_keep [where f = lastataddr] free_names_keep [where f = sym_by_addr]
  free_names_keep [where f = fail_on_stack_overflow] free_names_keep [where f = fail_on_stack_underflow]

lemma test_init_ram: "ram (state_after test_init m) = reset_ram (ram m)"
  by (simp add: test_init_def free_names_keep [where f = ram] machine_init_ram)

lemma test_init_fresh: "fresh_part (state_after test_init m) = fresh_part (state_after test_init n)"
  by (simp add: test_init_def machine_init_def fresh_part_def expected_part_def freed_keep
      setter_defs getter_defs upd_defs set_in_hyper_def put_expected_def)

section \<open>Loading\<close>

lemma load_bytes_effect:
  assumes "\<And>i. i < length bs \<Longrightarrow> plain_write (a + of_nat i) (bs ! i)" and "unat a + length bs < 2 ^ 32"
  shows "loaded (state_after (load_bytes fu a bs) m) c
      = (if unat a \<le> unat c \<and> unat c < unat a + length bs then bs ! (unat c - unat a) else loaded m c) \<and>
    cpu (state_after (load_bytes fu a bs) m) = cpu m \<and> fault (state_after (load_bytes fu a bs) m) = fault m"
  using assms
proof (induction bs arbitrary: a m)
  case Nil
  show ?case by auto
next
  case (Cons b bs)
  have step: "state_after (write_mem28 fu a b) m = stored a b m"
    using Cons.prems(1) [of 0] by (simp add: state_after_def run_write_mem28)
  have "plain_write (a + 1 + of_nat i) (bs ! i)" if "i < length bs" for i
    using Cons.prems(1) [of "Suc i"] that by (simp add: add.assoc)
  moreover have a1: "bs \<noteq> [] \<Longrightarrow> unat (a + 1) = unat a + 1"
    using Cons.prems(2) by (cases bs) (simp_all add: unat_word_ariths)
  moreover have "backed (region_of a)" using Cons.prems(1) [of 0] by (simp add: plain_write_def)
  then have first: "loaded (stored a b m) c = (if c = a then b else loaded m c)"
    by (rule machine_store.load_store)
  have ca: "c = a \<longleftrightarrow> unat c = unat a" by (simp add: word_unat_eq_iff)
  show ?case
  proof (cases "bs = []")
    case True
    with first show ?thesis by (auto simp: step ca)
  next
    case False
    have "unat (a + 1) + length bs < 2 ^ 32" using a1 [OF False] Cons.prems(2) by simp
    from Cons.IH [OF calculation(1) this, of "stored a b m"] show ?thesis
      using first a1 [OF False] by (auto simp: step ca nth_Cons')
  qed
qed

lemma chip_plain:
  assumes "0 < unat a" and "unat a < unat CHIPRAM_SIZE" shows "plain_write a v"
  using assms by (auto simp: plain_write_def region_of_def sizes word_less_nat_alt word_le_nat_alt word_unat_eq_iff)

text \<open>The symbols with the names that they have, and names that were given out before.\<close>

definition symbol_table :: "machine \<Rightarrow> (string option \<times> u32) list" where
  "symbol_table m = map (\<lambda>y. (sym_names m (sym_name y), sym_addr y)) (symbols m)"

definition names_given :: "script \<Rightarrow> bool" where
  "names_given s \<longleftrightarrow> list_all (\<lambda>y. sym_name y < next_name s) (symbols (mach s))"

lemma append_symbol_effect:
  assumes "names_given s" and "length (symbols (mach s)) < MAX_SYMBOLS"
  shows "result_of (append_symbol nm a) s" (is ?A)
    and "names_given (state_after (append_symbol nm a) s)" (is ?B)
    and "symbol_table (mach (state_after (append_symbol nm a) s)) = symbol_table (mach s) @ [(Some nm, a)]" (is ?C)
    and "cpu (mach (state_after (append_symbol nm a) s)) = cpu (mach s)" (is ?D)
proof -
  let ?m = "mach s" and ?n = "next_name s"
  let ?t = "(sym_names ?m)(?n \<mapsto> nm)" and ?y = "\<lparr>sym_name = ?n, sym_addr = a\<rparr>"
  let ?m1 = "?m\<lparr>sym_names := ?t, symbols := symbols ?m @ [?y]\<rparr>"
  let ?m2 = "if a < CHIPRAM_SIZE then ?m1\<lparr>sym_by_addr := (sym_by_addr ?m)(a \<mapsto> Sym (length (symbols ?m)))\<rparr> else ?m1"
  have run: "result_of (append_symbol nm a) s" "state_after (append_symbol nm a) s = s\<lparr>next_name := Suc ?n, mach := ?m2\<rparr>"
    using assms(2) by (simp_all add: append_symbol_def strdup_def add_symbol_def put_sym_by_addr_def)
  have old: "?t (sym_name y) = sym_names ?m (sym_name y)" if "y \<in> set (symbols ?m)" for y
    using that assms(1) by (auto simp: names_given_def list_all_iff)
  have table: "symbol_table ?m2 = map (\<lambda>y. (?t (sym_name y), sym_addr y)) (symbols ?m @ [?y])"
    by (simp add: symbol_table_def)
  show ?A by (rule run)
  show ?B using assms(1) unfolding run names_given_def by (auto simp: list_all_iff less_SucI)
  show ?C unfolding run using old table by (simp add: symbol_table_def)
  show ?D unfolding run by simp
qed

text \<open>Entries that fit the line buffer of the program.\<close>

definition listable :: "string \<times> u32 \<Rightarrow> bool" where
  "listable e \<longleftrightarrow> no_blanks (fst e) \<and> list_all (\<lambda>c. (of_char c :: nat) \<noteq> 0) (fst e) \<and> length (fst e) \<le> 1000"

lemma length_digits: "n < b ^ k \<Longrightarrow> 0 < k \<Longrightarrow> 1 < b \<Longrightarrow> length (digits b n) \<le> k"
proof (induction b n arbitrary: k rule: digits.induct)
  case (1 b n)
  show ?case
  proof (cases "n < b")
    case True
    with 1 show ?thesis by (subst digits.simps) simp
  next
    case False
    with 1 obtain j where k: "k = Suc j" "0 < j" by (cases k; cases "k - 1") auto
    from 1 k have "n div b < b ^ j" by (simp add: less_mult_imp_div_less mult.commute)
    with 1 False k have "length (digits b (n div b)) \<le> j" by auto
    with False 1 show ?thesis by (subst digits.simps) (simp add: k)
  qed
qed

lemma fgets_symbol:
  assumes "listable e"
  shows "fgets 1024 (symbol_text e @ rest) = (symbol_text e, rest, False)"
proof -
  let ?l = "fst e @ '' = $'' @ fmt_x 1 (snd e)"
  have "length (digits 16 (unat (snd e))) \<le> 8"
    using unsigned_less [of "snd e"] by (intro length_digits) simp_all
  with assms have "length ?l + 1 < 1024" by (simp add: listable_def fmt_x_one)
  moreover have "(of_char c :: nat) \<noteq> 10 \<and> (of_char c :: nat) \<noteq> 0" if "c \<in> set ?l" for c
    using that assms digits_plain [of 16 c "unat (snd e)"] plain_digit_chars(6,7)
    by (auto simp: listable_def no_blanks_def list_all_iff isspace_def fmt_x_one)
  ultimately show ?thesis
    using fgets_newline [of ?l 1024 rest] by (simp add: symbol_text_def list_all_iff)
qed

lemma load_symbol_lines:
  fixes offset :: u32
  assumes "list_all listable es" and "names_given s" and "length (symbols (mach s)) + length es \<le> MAX_SYMBOLS"
  defines "p \<equiv> each_line (symbol_line offset) (concat (map symbol_text es))"
  shows "result_of p s = 0 \<and>
    symbol_table (mach (state_after p s)) = symbol_table (mach s) @ map (\<lambda>(n, a). (Some n, a + offset)) es \<and>
    cpu (mach (state_after p s)) = cpu (mach s)"
  using assms(1-3) unfolding p_def
proof (induction es arbitrary: s)
  case Nil
  show ?case by (simp add: each_line.simps [of _ "[]"])
next
  case (Cons e es)
  obtain n a where e: "e = (n, a)" by (cases e)
  let ?t = "concat (map symbol_text es)" and ?app = "append_symbol n (a + offset)"
  from Cons.prems e have l: "fgets 1024 (symbol_text e @ ?t) = (symbol_text e, ?t, False)" "no_blanks n"
    by (simp_all add: fgets_symbol listable_def)
  have ne: "symbol_text e \<noteq> []" by (simp add: symbol_text_def)
  have line: "symbol_line offset (symbol_text e) = ?app"
    using l(2) by (simp add: e symbol_line_def scan_symbol)
  have room: "length (symbols (mach s)) < MAX_SYMBOLS" using Cons.prems(3) by simp
  note eff = append_symbol_effect [OF Cons.prems(2) room, of n "a + offset"]
  let ?s = "state_after ?app s"
  have "length (symbols (mach ?s)) = Suc (length (symbols (mach s)))"
    using arg_cong [where f = length, OF eff(3)] by (simp add: symbol_table_def)
  with Cons.prems(3) have "length (symbols (mach ?s)) + length es \<le> MAX_SYMBOLS" by simp
  from Cons.IH [OF _ eff(2) this] Cons.prems(1) eff
  show ?case by (simp add: each_line.simps [of _ "symbol_text e @ ?t"] l ne line) (simp add: e)
qed

section \<open>Values\<close>

definition live_names :: "machine \<Rightarrow> hyppo_symbol list \<Rightarrow> bool" where
  "live_names m ys \<longleftrightarrow> list_all (\<lambda>y. sym_names m (sym_name y) \<noteq> None) ys"

lemma run_find_symbol:
  "live_names m ys \<Longrightarrow>
    run_state (find_symbol l ys) m = (find (\<lambda>y. sym_names m (sym_name y) = Some l) ys, m)"
  by (induction ys) (auto simp: live_names_def split: option.split)

text \<open>What a label stands for, and the text of an offset.\<close>

definition label_value :: "machine \<Rightarrow> string \<Rightarrow> u32 option" where
  "label_value m l =
    (case find (\<lambda>y. sym_names m (sym_name y) = Some l) (hyppo_symbols m) of
       Some y \<Rightarrow> Some (0xfff0000 + sym_addr y)
     | None \<Rightarrow> map_option sym_addr (find (\<lambda>y. sym_names m (sym_name y) = Some l) (symbols m)))"

text \<open>An offset in a script: none, or a sign with a decimal or a hexadecimal number.\<close>

datatype offset = NoOffset | Offset bool bool nat

fun offset_text :: "offset \<Rightarrow> string" where
  "offset_text NoOffset = []"
| "offset_text (Offset neg hexa n) = (if neg then ''-'' else ''+'') @
     (if hexa then ''$'' @ fmt_x 1 (of_nat n :: u32) else fmt_d (int n))"

fun offset_value :: "offset \<Rightarrow> int" where
  "offset_value NoOffset = 0"
| "offset_value (Offset neg hexa n) = (if neg then - int n else int n)"

fun offset_fits :: "offset \<Rightarrow> bool" where
  "offset_fits NoOffset = True"
| "offset_fits (Offset neg hexa n) = (n < 2 ^ 31)"

definition label_word :: "string \<Rightarrow> bool" where
  "label_word l \<longleftrightarrow> no_blanks l \<and> CHR ''+'' \<notin> set l \<and> CHR ''-'' \<notin> set l"

definition label_name :: "string \<Rightarrow> bool" where
  "label_name l \<longleftrightarrow> label_word l \<and> hd l \<noteq> CHR ''$'' \<and> last l \<noteq> CHR '',''"

definition opt_comma :: "bool \<Rightarrow> string" where
  "opt_comma b = (if b then '','' else [])"

lemma convert_until:
  assumes "l \<noteq> []" and "e \<notin> set l" and "rest = [] \<or> hd rest = e"
  shows "convert (Until e) n (l @ rest) = Some (Str l, rest)"
proof -
  have "takeWhile (\<lambda>c. c \<noteq> e) (l @ rest) = l"
    using assms by (subst takeWhile_append2) (auto simp: takeWhile_eq_Nil_iff)
  with assms(1) show ?thesis by (simp add: convert_def Let_def)
qed

lemma convert_until_all: "l \<noteq> [] \<Longrightarrow> e \<notin> set l \<Longrightarrow> convert (Until e) n l = Some (Str l, [])"
  using convert_until [of l e "[]"] by simp

lemma not_hex: "l \<noteq> [] \<Longrightarrow> hd l \<noteq> CHR ''$'' \<Longrightarrow> scan1_num (l @ r) ''$%x'' = None"
  by (cases l) (simp_all add: scan1_num_def sscanf_def format_hex)

lemma number_signs: "set (map (digit_char 97) (digits b n)) \<inter> {CHR ''+'', CHR ''-''} = {}" if "1 < b" "b \<le> 16"
  using digits_plain [of b _ n] plain_digit_chars that by fastforce

lemma sint_of_nat: "n < 2 ^ 31 \<Longrightarrow> sint (of_nat n :: u32) = int n"
  by (simp add: signed_of_nat signed_take_bit_int_eq_self)

lemma comma_ends: "opt_comma c = [] \<or> \<not> plain_digit (hd (opt_comma c)) \<and> tolower (hd (opt_comma c)) \<noteq> CHR ''x''"
  by (simp add: opt_comma_def plain_digit_def digit_value_def tolower_def)

lemma no_decimal: "convert Decimal n (CHR ''$'' # s) = None"
  by (simp add: convert_def scan_number_def skip_blanks_def isspace_def take_sign_def is_digit_def digit_value_def)

lemma split_label_offset:
  assumes l: "label_word l" and f: "offset_fits off" and c: "off = NoOffset \<Longrightarrow> \<not> c"
  shows "split_label (l @ offset_text off @ opt_comma c) = Some (l, offset_value off)"
proof (cases off)
  case NoOffset
  from l have n: "l \<noteq> []" "CHR ''+'' \<notin> set l" "CHR ''-'' \<notin> set l" and w: "no_blanks l"
    by (auto simp: label_word_def no_blanks_def)
  have "convert Word k l = Some (Str l, [])" for k using convert_word [OF w, of "[]" k] by simp
  with n c NoOffset show ?thesis
    by (simp add: split_label_def scan2_num_def scan1_def sscanf_def format_offset format_word opt_comma_def convert_until_all)
next
  case (Offset neg hexa n)
  let ?num = "if hexa then ''$'' @ fmt_x 1 (of_nat n :: u32) else fmt_d (int n)"
  from l have ne: "l \<noteq> []" "CHR ''+'' \<notin> set l" "CHR ''-'' \<notin> set l" by (auto simp: label_word_def no_blanks_def)
  have num: "CHR ''+'' \<notin> set (?num @ opt_comma c)"
    using number_signs [of 10 n] number_signs [of 16 "unat (of_nat n :: u32)"]
    by (auto simp: fmt_d_nonneg fmt_x_one opt_comma_def)
  have dec: "convert Decimal k (fmt_d (int n) @ opt_comma c) = Some (Num (int n), opt_comma c)"
    and hex: "convert Hex k (fmt_x 1 (of_nat n :: u32) @ opt_comma c) = Some (Num (int n), opt_comma c)" for k
    using scan_decimal [of "int n" "opt_comma c" k] scan_hex [OF comma_ends, of k "of_nat n"] comma_ends [of c] f Offset
    by (simp_all add: sint_of_nat)
  note s = split_label_def scan2_num_def sscanf_def format_offset
  show ?thesis
  proof (cases neg)
    case False
    then have u: "convert (Until CHR ''+'') k (l @ offset_text off @ opt_comma c) = Some (Str l, ''+'' @ ?num @ opt_comma c)" for k
      using ne convert_until [of l "CHR ''+''" "''+'' @ ?num @ opt_comma c"] Offset by simp
    have "CHR ''-'' \<notin> set (l @ offset_text off @ opt_comma c)"
      using ne False Offset number_signs [of 10 n] number_signs [of 16 "unat (of_nat n :: u32)"]
      by (auto simp: fmt_d_nonneg fmt_x_one opt_comma_def)
    with ne have v: "convert (Until CHR ''-'') k (l @ offset_text off @ opt_comma c)
        = Some (Str (l @ offset_text off @ opt_comma c), [])" for k
      by (intro convert_until_all) simp_all
    show ?thesis using u v dec hex no_decimal False Offset
      by (cases hexa) (simp_all add: s)
  next
    case True
    with num ne Offset have "CHR ''+'' \<notin> set (l @ offset_text off @ opt_comma c)" by simp
    with ne have v: "convert (Until CHR ''+'') k (l @ offset_text off @ opt_comma c)
        = Some (Str (l @ offset_text off @ opt_comma c), [])" for k
      by (intro convert_until_all) simp_all
    from True have u: "convert (Until CHR ''-'') k (l @ offset_text off @ opt_comma c) = Some (Str l, ''-'' @ ?num @ opt_comma c)" for k
      using ne convert_until [of l "CHR ''-''" "''-'' @ ?num @ opt_comma c"] Offset by simp
    show ?thesis using u v dec hex no_decimal True Offset
      by (cases hexa) (simp_all add: s)
  qed
qed

lemma strip_comma_label: "label_name l \<Longrightarrow> strip_comma (l @ opt_comma c) = l"
  by (auto simp: label_name_def label_word_def no_blanks_def strip_comma_def opt_comma_def)

lemma label_word_comma: "label_name l \<Longrightarrow> label_word (l @ opt_comma c)"
  by (simp add: label_name_def label_word_def no_blanks_def opt_comma_def isspace_def)

lemma run_resolve_value32:
  assumes l: "label_name l" and f: "offset_fits off" and c: "off = NoOffset \<Longrightarrow> \<not> after"
    and live: "live_names m (hyppo_symbols m)" "live_names m (symbols m)"
  shows "run_state (resolve_value32 (l @ opt_comma before @ offset_text off @ opt_comma after)) m =
    (case label_value m l of Some a \<Rightarrow> (a + word_of_int (offset_value off), m) | None \<Rightarrow> (0, state_after set_error m))"
proof -
  from l have n: "l \<noteq> []" "hd l \<noteq> CHR ''$''" by (auto simp: label_name_def label_word_def no_blanks_def)
  have e: "run_state set_error m = ((), state_after set_error m)" by (simp add: run_state_pair)
  show ?thesis
    using live split_label_offset [OF label_word_comma [OF l] f c, of before]
    by (simp add: resolve_value32_def not_hex n strip_comma_label [OF l] run_find_symbol label_value_def e
        split: option.split)
qed

section \<open>Skipping\<close>

definition lines_done :: "env \<Rightarrow> string option \<Rightarrow> string list \<Rightarrow> script \<Rightarrow> script" where
  "lines_done env target ls s = fold (\<lambda>l. state_after (do_line env target l)) ls s"

lemma skipped_lines:
  assumes "skipping_test s" and "list_all (\<lambda>l. \<not> ends_test (skip_blanks l)) ls"
  shows "lines_done env target ls s = s"
  using assms(2) unfolding lines_done_def
proof (induction ls)
  case (Cons l ls)
  with assms(1) have "state_after (do_line env target l) s = s" by (simp add: do_line_def Let_def)
  with Cons show ?case by simp
qed simp

section \<open>Properties\<close>

definition demo_env :: env where
  "demo_env = \<lparr>env_file = (\<lambda>f. if f = ''f'' then Some [0x6e, 0x20, 0x3d, 0x20, 0x24, 0x63, 0x0a] else None),
     env_acme = (\<lambda>_ _. None), env_log = True, env_malloc = (\<lambda>_. zero_log), env_fuel = 3\<rparr>"

text \<open>What \<open>main\<close> counts, for every script.\<close>

lemma main_tallies:
  "let t = state_after (hyppotest_main env args) initial_script; verdicts = map snd (reported t) in
     exited t \<in> {Some 0, Some (- 1), Some (- 2)} \<and>
     test_passes t = int (count_list verdicts True) \<and>
     test_fails t = int (count_list verdicts False) + (if exited t = Some (- 1) then 1 else 0) \<and>
     (if exited t = Some 0 then \<not> log_open t else True)" (is "let t = ?t in ?books t")
proof -
  have finish: "?books (state_after (main_end env) s)" if s: "tallied s" for s
  proof (cases "exited s = None \<and> log_open s")
    case True
    let ?u = "state_after (test_conclude env) s"
    from True s have "tallied ?u" by (simp add: tallied_conclude)
    moreover have "exited ?u = None \<and> \<not> log_open ?u \<or> exited ?u = Some (- 1)"
      using conclude_fail(4) [of s env] conclude_pass [of s env] True by (cases "script_failed s") auto
    ultimately show ?thesis using True by (auto simp: main_end_def exit_with_def tallied_def Let_def)
  next
    case False
    with s show ?thesis by (auto simp: main_end_def exit_with_def tallied_def Let_def)
  qed
  have start: "tallied (initial_script\<lparr>mach := m, input := i\<rparr>)" for m i
    by (simp add: tallied_def initial_script_def)
  show ?thesis
  proof (cases "args = [] \<or> length args > 2")
    case True
    then show ?thesis by (auto simp: hyppotest_main_def exit_with_def initial_script_def Let_def)
  next
    case False
    show ?thesis
    proof (cases "env_file env (hd args)")
      case None
      with False show ?thesis by (simp add: hyppotest_main_def exit_with_def initial_script_def Let_def)
    next
      case (Some bs)
      with False finish [OF tallied_loop [OF start]] show ?thesis by (simp add: hyppotest_main_def)
    qed
  qed
qed

lemma main_loop_line:
  assumes "fgets 1024 (input s) = (line, rest, eof)" and "\<not> input_eof s" and "exited s = None"
  shows "main_loop env target s
    = main_loop env target (state_after (do_line env target line) (s\<lparr>input := rest, input_eof := eof\<rparr>))"
  using assms by (subst main_loop.simps) (simp add: main_step_def read_line_def result_of_def state_after_def split: prod.split)

lemma do_line_directive:
  assumes "directive_of (skip_blanks line) = d" and "skip_blanks line \<noteq> []"
    and "hd (skip_blanks line) \<noteq> CHR ''#''" and "\<not> skipping_test s"
  shows "state_after (do_line env target line) s = state_after (do_directive env target d) s"
  using assms by (simp add: do_line_def Let_def)

lemma main_loop_stop: "input_eof s \<Longrightarrow> main_loop env target s = s"
  by (simp add: main_loop.simps [of _ _ s])

lemma blank_machine_init:
  assumes "hyppo_symbols m = []" and "symbols m = []" and "cpulog_len m = 0"
  shows "fault (state_after machine_init m) = fault m" "hyppo_symbols (state_after machine_init m) = []"
    "symbols (state_after machine_init m) = []" "cpulog_len (state_after machine_init m) = 0"
    "\<not> t_error (term_of (state_after machine_init m))"
  using assms by (simp_all add: machine_init_def put_expected_def put_ram_def put_blame_def upd_regs_def
      set_flags_def set_b_def set_in_hyper_def set_maphimb_def zero_cpu_def)

text \<open>A script with one test, for the example below.\<close>

definition demo_script :: env where
  "demo_script = demo_env\<lparr>env_file := (\<lambda>_. Some (map of_char (''test \"a\"'' @ [CHR 0x0A] @ ''test end'' @ [CHR 0x0A])))\<rparr>"



text \<open>
  C19: An error fails its test. Once the error flag is set, no directives short of a new test's start
  bring a pass any more, not even those that clear the flag to run code: the end of the test
  counts a failure and reports it, unless the screenshot ends the program first.
\<close>

theorem errors_fail_test:
  assumes "script_failed s" and "list_all (\<lambda>d. \<not> starts_test d) ds"
  shows "let u = after_all env target ds s; t = state_after (test_conclude env) u in
    test_passes t = test_passes u \<and> test_fails t = test_fails u + 1 \<and>
    (exited t = Some (- 1) \<and> reported t = reported u \<or> reported t = reported u @ [(test_name u, False)] \<and> \<not> log_open t)"
proof -
  note end_ = conclude_fail [OF sticky_after_all [OF assms, of env target], of env]
  from end_(4) show ?thesis unfolding Let_def end_(1,2) by blast
qed

theorem errors_fail_test_witness:
  "let s = initial_script\<lparr>mach := state_after set_error initial_machine, test_name := ''n''\<rparr>;
       u = after_all demo_env None [RunUntil ''rts'', Jsr ''$2000'', CheckRam] s; t = state_after (test_conclude demo_env) u in
    test_passes t = test_passes u \<and> test_fails t = test_fails u + 1 \<and>
    (exited t = Some (- 1) \<and> reported t = reported u \<or> reported t = reported u @ [(test_name u, False)] \<and> \<not> log_open t)"
  using errors_fail_test [of "initial_script\<lparr>mach := state_after set_error initial_machine, test_name := ''n''\<rparr>"
      "[RunUntil ''rts'', Jsr ''$2000'', CheckRam]" demo_env None]
  by (simp add: Let_def)

text \<open>
  A second \<open>test end\<close> reports the same test again and removes its result file: the log has been
  renamed by the first one, and the files of the test are deleted before a new one could be made.
\<close>

theorem second_end_removes_result:
  assumes "\<not> script_failed s" and "log_open s"
  shows "let t = state_after (test_conclude env) s; u = state_after (test_conclude env) t in
    ''PASS.'' @ safe_file s \<in> set (result_files t) \<and> ''PASS.'' @ safe_file s \<notin> set (result_files u) \<and>
    ''FAIL.'' @ safe_file s \<notin> set (result_files u) \<and> test_passes u = test_passes s + 2"
  using assms by (simp add: conclude_pass Let_def) (simp add: filed_def)

theorem second_end_removes_result_witness:
  "let s = initial_script\<lparr>log_open := True\<rparr>; t = state_after (test_conclude demo_env) s;
       u = state_after (test_conclude demo_env) t in
    ''PASS.unnamed_test'' \<in> set (result_files t) \<and> ''PASS.unnamed_test'' \<notin> set (result_files u)"
  using second_end_removes_result [of "initial_script\<lparr>log_open := True\<rparr>" demo_env]
  by (simp add: Let_def initial_script_def initial_defs)

text \<open>
  C22: Nothing that decides about a test carries over from what ran before it: its start leaves the
  processor, the expectations, breakpoints, symbols and the instruction log the same from every
  state. The memories do carry over, except for the VIC-IV registers and the processor port; and
  a test that was still open is forgotten without a verdict.
\<close>

theorem test_start_independent:
  "let t = state_after (start_test env) s in
     fresh_part (mach t) = fresh_part (mach (state_after (start_test env') initial_script)) \<and>
     ram (mach t) = reset_ram (ram (mach s)) \<and>
     reported t = reported s \<and> test_passes t = test_passes s \<and> test_fails t = test_fails s \<and>
     result_files t = result_files s"
  using test_init_fresh [of "mach s" "mach initial_script"] test_init_ram [of "mach s"]
  by (simp add: start_test_def exit_with_def Let_def)

text \<open>
  \<open>load\<close> puts the bytes of a file at the addresses from the given one on and changes no other
  byte, if they lie in the chip RAM (behind the processor port at 0); the processor and the
  error flag stay as they are.
\<close>

theorem load_places_file:
  assumes "env_file env f = Some bs" and "0 < unat a" and "unat a + length bs \<le> unat CHIPRAM_SIZE"
  shows "let m = mach s; m' = mach (state_after (do_directive env target (Load f a)) s) in
    (\<forall>c. loaded m' c = (if unat a \<le> unat c \<and> unat c < unat a + length bs then bs ! (unat c - unat a) else loaded m c)) \<and>
    cpu m' = cpu m \<and> fault m' = fault m"
proof -
  have "plain_write (a + of_nat i) v" if "i < length bs" for i v
  proof (rule chip_plain)
    have "unat (a + of_nat i) = unat a + i"
      using that assms(3) by (simp add: unat_word_ariths unat_of_nat CHIPRAM_SIZE_def)
    then show "0 < unat (a + of_nat i)" "unat (a + of_nat i) < unat CHIPRAM_SIZE" using assms that by simp_all
  qed
  moreover have "unat a + length bs < 2 ^ 32" using assms(3) by (simp add: CHIPRAM_SIZE_def)
  ultimately have "loaded (state_after (load_bytes (env_fuel env) a bs) (mach s)) c
      = (if unat a \<le> unat c \<and> unat c < unat a + length bs then bs ! (unat c - unat a) else loaded (mach s) c) \<and>
    cpu (state_after (load_bytes (env_fuel env) a bs) (mach s)) = cpu (mach s) \<and>
    fault (state_after (load_bytes (env_fuel env) a bs) (mach s)) = fault (mach s)" for c
    by (rule load_bytes_effect)
  moreover have "take (8192 * 1024) bs = bs" using assms(3) by (simp add: CHIPRAM_SIZE_def)
  ultimately show ?thesis using assms(1) by (simp add: checked_def load_file_def Let_def)
qed

theorem load_places_file_witness:
  "let m = mach (state_after (do_directive demo_env None (Load ''f'' 0x400)) initial_script) in
     loaded m 0x401 = 0x20 \<and> loaded m 0x406 = 0x0a \<and> fault m = None"
  using load_places_file [of demo_env "''f''" "[0x6e, 0x20, 0x3d, 0x20, 0x24, 0x63, 0x0a]" "0x400" initial_script None]
  by (simp add: demo_env_def CHIPRAM_SIZE_def Let_def initial_script_def initial_machine_def)

text \<open>
  C20: A symbol list is read back as it was written: after \<open>loadsymbols\<close> of a file with the lines
  \<open>name = $address\<close> the table has exactly these symbols behind the old ones, in their order, each
  with its address plus the offset; the processor and the error flag stay as they are. The
  names may not contain blanks and must fit the line buffer, the table must have room.
\<close>

theorem load_symbols_roundtrip:
  assumes "env_file env f = Some bs" and "string_of bs = concat (map symbol_text es)"
    and "list_all listable es" and "names_given s" and "length (symbols (mach s)) + length es \<le> MAX_SYMBOLS"
  shows "let m = mach s; m' = mach (state_after (do_directive env target (LoadSymbols f offset)) s) in
    symbol_table m' = symbol_table m @ map (\<lambda>(n, a). (Some n, a + offset)) es \<and> cpu m' = cpu m"
  using load_symbol_lines [OF assms(3-5), of offset] assms(1,2)
  by (simp add: checked_def load_symbols_def Let_def)

theorem load_symbols_roundtrip_witness:
  "symbol_table (mach (state_after (do_directive demo_env None (LoadSymbols ''f'' 0x1000)) initial_script))
    = [(Some ''n'', 0x100c)]"
proof -
  have "string_of [0x6e, 0x20, 0x3d, 0x20, 0x24, 0x63, 0x0a] = concat (map symbol_text [(''n'', 0xc)])"
    by (simp add: symbol_text_def fmt_x_one string_of_def byte_char_def newline_def digits.simps [of 16 12]
        digit_char_def) (simp add: char_of_def bit_0)
  then show ?thesis
    using load_symbols_roundtrip [of demo_env "''f''" "[0x6e, 0x20, 0x3d, 0x20, 0x24, 0x63, 0x0a]" "[(''n'', 0xc)]"
        initial_script None "0x1000"]
    by (simp add: demo_env_def listable_def no_blanks_def isspace_def names_given_def MAX_SYMBOLS_def Let_def
        initial_script_def initial_machine_def symbol_table_def)
qed

text \<open>
  C21: A value written as a label and an offset is the label's address plus the offset, modulo
  \<open>2 ^ 32\<close>: hypervisor symbols come first and are based at \<open>$FFF0000\<close>, of several symbols with one
  name the first counts; an unknown label is an error and counts as 0. The offset is absent, or a
  sign and a number below \<open>2 ^ 31\<close>, decimal or hexadecimal behind a dollar sign; a comma behind the label
  or behind the number is passed over. The label is a word without blanks and signs that
  neither starts with a dollar sign nor ends with a comma, and the names in the symbol tables have
  not been freed.
\<close>

theorem resolve_label_offset:
  assumes "label_name l" and "offset_fits off" and "off = NoOffset \<longrightarrow> \<not> after"
    and "live_names m (hyppo_symbols m)" and "live_names m (symbols m)"
  shows "run_state (resolve_value32 (l @ opt_comma before @ offset_text off @ opt_comma after)) m =
    (case label_value m l of Some a \<Rightarrow> (a + word_of_int (offset_value off), m) | None \<Rightarrow> (0, state_after set_error m))"
  using assms by (intro run_resolve_value32) simp_all

theorem resolve_label_offset_witness:
  "result_of (resolve_value32 ''foo-$a,'') (initial_machine\<lparr>symbols := [\<lparr>sym_name = 0, sym_addr = 0x2000\<rparr>],
     sym_names := (\<lambda>_. None)(0 \<mapsto> ''foo'')\<rparr>) = 0x1ff6"
proof -
  have t: "''foo'' @ opt_comma False @ offset_text (Offset True True 10) @ opt_comma True = ''foo-$a,''"
    by code_simp
  show ?thesis
  using resolve_label_offset [of "''foo''" "Offset True True 10" True "initial_machine\<lparr>symbols := [\<lparr>sym_name = 0, sym_addr = 0x2000\<rparr>],
     sym_names := (\<lambda>_. None)(0 \<mapsto> ''foo'')\<rparr>" False]
  unfolding t
  by (simp add: label_name_def label_word_def no_blanks_def isspace_def live_names_def initial_machine_def label_value_def result_of_def)
qed

text \<open>
  With a target, a test of another name has no effect but on \<open>test_name\<close>: all its lines, up to
  the first that ends a test, are passed over, whatever they say.
\<close>

theorem skipped_test_has_no_effect:
  assumes "directive_of (skip_blanks first) = TestStart n" and "target = Some k" and "n \<noteq> k"
    and "skip_blanks first \<noteq> []" and "hd (skip_blanks first) \<noteq> CHR ''#''"
    and "list_all (\<lambda>l. \<not> ends_test (skip_blanks l)) ls" and "ends_test (skip_blanks final)"
    and "hd (skip_blanks final) \<noteq> CHR ''#''" and "\<not> skipping_test s"
  shows "lines_done env target (first # ls @ [final]) s = s\<lparr>test_name := n\<rparr>"
proof -
  have "state_after (do_line env target first) s = s\<lparr>test_name := n, skipping_test := True\<rparr>"
    using assms by (simp add: do_line_def test_start_def Let_def)
  moreover have "lines_done env target ls (s\<lparr>test_name := n, skipping_test := True\<rparr>)
      = s\<lparr>test_name := n, skipping_test := True\<rparr>"
    using assms(6) by (intro skipped_lines) simp_all
  moreover have "skip_blanks final \<noteq> []" using assms(7) by (auto simp: ends_test_def starts_with_def)
  then have "state_after (do_line env target final) (s\<lparr>test_name := n, skipping_test := True\<rparr>) = s\<lparr>test_name := n\<rparr>"
    using assms by (simp add: do_line_def Let_def)
  ultimately show ?thesis by (simp add: lines_done_def)
qed

theorem skipped_test_has_no_effect_witness:
  "lines_done demo_env (Some ''b'') [''test \"a\"'', ''jsr $2000'', '' end test''] initial_script
    = initial_script\<lparr>test_name := ''a''\<rparr>"
proof -
  have d: "directive_of (skip_blanks ''test \"a\"'') = TestStart ''a''" by code_simp
  have e: "\<not> ends_test (skip_blanks ''jsr $2000'')" "ends_test (skip_blanks '' end test'')"
    "hd (skip_blanks '' end test'') = CHR ''e''" "skip_blanks ''test \"a\"'' = ''test \"a\"''"
    by code_simp+
  show ?thesis
    using skipped_test_has_no_effect [of "''test \"a\"''" "''a''" "Some ''b''" "''b''" "[''jsr $2000'']"
        "'' end test''" initial_script demo_env] d e
    by (simp add: initial_script_def)
qed

end
