(* ===== verification/ScreenLaws.thy ===== *)
theory ScreenLaws
  imports Screen
begin

text \<open>
  What the screenshot code promises: its UTF-8 encoder against a reference decoder, the cells
  that the text form reads, and when there is a text at all.
\<close>

section \<open>UTF-8\<close>

text \<open>
  The table of the standard (RFC 3629, surrogates not excluded): a continuation byte holds
  six bits, the shortest form is demanded.
\<close>

definition continuation :: "u8 \<Rightarrow> nat option" where
  "continuation b = (if 0x80 \<le> unat b \<and> unat b < 0xc0 then Some (unat b - 0x80) else None)"

fun continuations :: "u8 list \<Rightarrow> nat \<Rightarrow> nat option" where
  "continuations [] v = Some v"
| "continuations (b # bs) v =
    (case continuation b of None \<Rightarrow> None | Some k \<Rightarrow> continuations bs (v * 64 + k))"

definition utf8_decode :: "u8 list \<Rightarrow> nat option" where
  "utf8_decode s = (case s of [] \<Rightarrow> None | b # bs \<Rightarrow>
     (let n = length bs;
          v = (if n = 0 \<and> unat b < 0x80 then Some (unat b)
            else if n = 1 \<and> 0xc0 \<le> unat b \<and> unat b < 0xe0 then continuations bs (unat b - 0xc0)
            else if n = 2 \<and> 0xe0 \<le> unat b \<and> unat b < 0xf0 then continuations bs (unat b - 0xe0)
            else if n = 3 \<and> 0xf0 \<le> unat b \<and> unat b < 0xf8 then continuations bs (unat b - 0xf0)
            else None)
      in (case v of None \<Rightarrow> None
          | Some v \<Rightarrow> if v \<le> 0x10ffff \<and> [0, 0x80, 0x800, 0x10000] ! n \<le> v then Some v else None)))"

lemma byte_with_lead:
  fixes cp :: u32 and lead :: u8
  assumes lead: "take_bit k lead = 0" and k: "k \<le> 8"
  shows "unat (ucast (drop_bit s cp AND mask k) OR lead :: u8) = unat lead + unat cp div 2 ^ s mod 2 ^ k"
proof -
  let ?x = "ucast (drop_bit s cp AND mask k) :: u8"
  have x: "unat ?x = take_bit k (unat cp div 2 ^ s)"
    using k by (simp add: unsigned_and_eq unsigned_ucast_eq unat_drop_bit unsigned_take_bit_eq min_def
        flip: take_bit_eq_mask)
  have l: "take_bit k (unat lead) = 0" using lead by (simp flip: unsigned_take_bit_eq)
  have "take_bit k y AND unat lead = 0" for y
    using l by (auto simp: bit_eq_iff bit_and_iff bit_take_bit_iff)
  then have "unat ?x OR unat lead = unat ?x + unat lead" unfolding x by (simp add: disjunctive_add_eq_or)
  then show ?thesis unfolding unsigned_or_eq by (simp add: x take_bit_eq_mod)
qed

lemma utf8_bytes:
  "unat (utf8_byte cp s (utf ! 0)) = 0x80 + unat cp div 2 ^ nat s mod 64"
  "unat (utf8_byte cp s (utf ! Suc 0)) = unat cp div 2 ^ nat s mod 128"
  "unat (utf8_byte cp s (utf ! 2)) = 0xc0 + unat cp div 2 ^ nat s mod 32"
  "unat (utf8_byte cp s (utf ! 3)) = 0xe0 + unat cp div 2 ^ nat s mod 16"
  "unat (utf8_byte cp s (utf ! 4)) = 0xf0 + unat cp div 2 ^ nat s mod 8"
  using byte_with_lead [of 6 "0x80" "nat s" cp] byte_with_lead [of 7 "0" "nat s" cp]
    byte_with_lead [of 5 "0xc0" "nat s" cp] byte_with_lead [of 4 "0xe0" "nat s" cp]
    byte_with_lead [of 3 "0xf0" "nat s" cp]
  by (simp_all add: utf8_byte_def utf_def mask_eq_exp_minus_1 take_bit_eq_mod)

lemma codepoint_len_cases:
  assumes "0 < cp" and "cp \<le> 0x10ffff"
  obtains "codepoint_len cp = Inr 1" "unat cp < 0x80"
    | "codepoint_len cp = Inr 2" "0x80 \<le> unat cp" "unat cp < 0x800"
    | "codepoint_len cp = Inr 3" "0x800 \<le> unat cp" "unat cp < 0x10000"
    | "codepoint_len cp = Inr 4" "0x10000 \<le> unat cp" "unat cp \<le> 0x10ffff"
proof -
  have le: "cp \<le> w \<longleftrightarrow> unat cp \<le> unat w" "w \<le> cp \<longleftrightarrow> unat w \<le> unat cp" for w
    by (simp_all add: word_le_nat_alt)
  from assms have n: "unat cp \<noteq> 0" "unat cp \<le> 0x10ffff" by (simp_all add: unat_eq_0 le)
  consider "unat cp < 0x80" | "0x80 \<le> unat cp" "unat cp < 0x800"
    | "0x800 \<le> unat cp" "unat cp < 0x10000" | "0x10000 \<le> unat cp" by linarith
  then show thesis
  proof cases
    case 1
    with assms n show ?thesis by (intro that(1)) (auto simp: codepoint_len_def utf_def le)
  next
    case 2
    with assms n show ?thesis by (intro that(2)) (auto simp: codepoint_len_def utf_def le)
  next
    case 3
    with assms n show ?thesis by (intro that(3)) (auto simp: codepoint_len_def utf_def le)
  next
    case 4
    with assms n show ?thesis by (intro that(4)) (auto simp: codepoint_len_def utf_def le)
  qed
qed

lemma div_powers:
  "n div 4096 = n div 64 div 64" "n div 262144 = n div 64 div 64 div 64" for n :: nat
  by (simp_all add: div_mult2_eq [symmetric])

text \<open>What the first byte says about the length.\<close>

lemma masked_iff:
  fixes lead ch :: u8
  assumes "take_bit k lead = 0"
  shows "ch AND NOT (mask k) = lead \<longleftrightarrow> unat ch div 2 ^ k = unat lead div 2 ^ k"
proof -
  have "ch AND NOT (mask k) = lead \<longleftrightarrow> drop_bit k ch = drop_bit k lead"
  proof
    assume "ch AND NOT (mask k) = lead"
    then have "drop_bit k lead = drop_bit k ch AND drop_bit k (NOT (mask k))" by auto
    also have "\<dots> = drop_bit k ch"
      by (rule bit_word_eqI) (auto simp: bit_and_iff bit_drop_bit_eq bit_not_iff bit_mask_iff possible_bit_def dest: bit_imp_le_length)
    finally show "drop_bit k ch = drop_bit k lead" by simp
  next
    assume eq: "drop_bit k ch = drop_bit k lead"
    have "bit ch n = bit lead n" if "k \<le> n" for n
      using arg_cong [where f = "\<lambda>w. bit w (n - k)", OF eq] that by (simp add: bit_drop_bit_eq)
    moreover have "\<not> bit lead n" if "n < k" for n
      using arg_cong [where f = "\<lambda>w. bit w n", OF assms] that by (simp add: bit_take_bit_iff)
    ultimately have "bit (ch AND NOT (mask k)) n = bit lead n" if "n < 8" for n
      using that by (cases "n < k") (auto simp: bit_and_iff bit_not_iff bit_mask_iff possible_bit_def)
    then show "ch AND NOT (mask k) = lead" by (intro bit_word_eqI) simp
  qed
  also have "\<dots> \<longleftrightarrow> unat ch div 2 ^ k = unat lead div 2 ^ k"
    by (simp add: word_unat_eq_iff unat_drop_bit)
  finally show ?thesis .
qed

lemma utf8_len_by_range:
  "unat ch < 0x80 \<Longrightarrow> utf8_len ch = Inr 1"
  "0xc0 \<le> unat ch \<Longrightarrow> unat ch < 0xe0 \<Longrightarrow> utf8_len ch = Inr 2"
  "0xe0 \<le> unat ch \<Longrightarrow> unat ch < 0xf0 \<Longrightarrow> utf8_len ch = Inr 3"
  "0xf0 \<le> unat ch \<Longrightarrow> unat ch < 0xf8 \<Longrightarrow> utf8_len ch = Inr 4"
  using masked_iff [of 6 "0x80" ch] masked_iff [of 7 0 ch] masked_iff [of 5 "0xc0" ch]
    masked_iff [of 4 "0xe0" ch] masked_iff [of 3 "0xf0" ch]
  by (auto simp: utf8_len_def utf_def mask_eq_exp_minus_1 take_bit_eq_mod div_nat_eqI)

lemma to_utf8_tail:
  "to_utf8_loop cp 2 s = [utf8_byte cp s (utf ! 0), utf8_byte cp (s - int (bits_stored (utf ! 0))) (utf ! 0)]"
  "to_utf8_loop cp 3 s = utf8_byte cp s (utf ! 0) # to_utf8_loop cp 2 (s - int (bits_stored (utf ! 0)))"
  by (simp_all add: numeral_eq_Suc)

lemma utf8_decode_to_utf8:
  assumes "0 < cp" and "cp \<le> 0x10ffff"
  obtains bs where "to_utf8 cp = Inr bs" "utf8_decode bs = Some (unat cp)"
    "codepoint_len cp = Inr (length bs)" "utf8_len (hd bs) = Inr (length bs)"
  using assms
proof (cases rule: codepoint_len_cases)
  case 1
  let ?bs = "[utf8_byte cp 0 (utf ! Suc 0)]"
  from 1 have "to_utf8 cp = Inr ?bs"
    by (simp add: to_utf8_def utf_def)
  moreover from 1 have "utf8_decode ?bs = Some (unat cp)"
    by (simp add: utf8_decode_def utf8_bytes)
  ultimately show ?thesis using 1 by - (rule that [of ?bs]; simp add: utf8_bytes utf8_len_by_range(1))
next
  case 2
  let ?bs = "[utf8_byte cp 6 (utf ! 2), utf8_byte cp 0 (utf ! 0)]"
  from 2 have "to_utf8 cp = Inr ?bs" by (simp add: to_utf8_def to_utf8_tail) (simp add: utf_def)
  moreover from 2 have "unat cp div 64 < 32" by simp
  with 2 have "utf8_decode ?bs = Some (unat cp)"
    by (simp add: utf8_decode_def utf8_bytes continuation_def)
  ultimately show ?thesis using 2 by - (rule that [of ?bs]; simp add: utf8_bytes utf8_len_by_range(2) div_powers)
next
  case 3
  let ?bs = "[utf8_byte cp 12 (utf ! 3), utf8_byte cp 6 (utf ! 0), utf8_byte cp 0 (utf ! 0)]"
  from 3 have "to_utf8 cp = Inr ?bs" by (simp add: to_utf8_def to_utf8_tail) (simp add: utf_def)
  moreover from 3 have "unat cp div 64 div 64 < 16" by simp
  with 3 have "utf8_decode ?bs = Some (unat cp)"
    by (simp add: utf8_decode_def utf8_bytes continuation_def div_powers)
  ultimately show ?thesis using 3 by - (rule that [of ?bs]; simp add: utf8_bytes utf8_len_by_range(3) div_powers)
next
  case 4
  let ?bs = "[utf8_byte cp 18 (utf ! 4), utf8_byte cp 12 (utf ! 0), utf8_byte cp 6 (utf ! 0), utf8_byte cp 0 (utf ! 0)]"
  from 4 have "to_utf8 cp = Inr ?bs" by (simp add: to_utf8_def to_utf8_tail) (simp add: utf_def)
  moreover from 4 have "unat cp div 64 div 64 div 64 < 8" by simp
  with 4 have "utf8_decode ?bs = Some (unat cp)"
    by (simp add: utf8_decode_def utf8_bytes continuation_def div_powers)
  ultimately show ?thesis using 4 by - (rule that [of ?bs]; simp add: utf8_bytes utf8_len_by_range(4) div_powers)
qed

section \<open>What the video state is read from\<close>

definition fetched :: "machine \<Rightarrow> u32 \<Rightarrow> nat \<Rightarrow> (nat \<Rightarrow> u8) \<Rightarrow> nat \<Rightarrow> u8" where
  "fetched m a n buffer = (\<lambda>i. if i < n then peek (ram m) 0xbd (region_of (a + of_nat i)) else buffer i)"

lemma run_fetch_ram:
  "(\<And>i. i < n \<Longrightarrow> region_of (a + of_nat i) \<noteq> Wild) \<Longrightarrow>
    run_state (fetch_ram a n buffer) m = (fetched m a n buffer, m)"
  by (induction n arbitrary: buffer) (auto simp: fetched_def run_read_memory28 fun_eq_iff less_Suc_eq)

lemma fetch_in_map:
  assumes "unat a + n \<le> 0x1ffd0000" and "i < n"
  shows "region_of (a + of_nat i) \<noteq> Wild"
proof -
  have "unat (a + of_nat i) \<le> unat a + unat (of_nat i :: u32)" by (rule unat_add_le)
  also have "\<dots> < 0x1ffd0000" using assms unsigned_less [of a] by (simp add: unat_of_nat)
  finally show ?thesis by (intro region_not_wild) (simp add: word_less_nat_alt)
qed

text \<open>The size of the screen that the registers ask for, as a number.\<close>

definition vic_register :: "machine \<Rightarrow> nat \<Rightarrow> nat" where
  "vic_register m i = unat (ffdram (ram m) (0x3000 + of_nat i))"

definition wanted_size :: "machine \<Rightarrow> nat" where
  "wanted_size m = (vic_register m 0x58 + 256 * vic_register m 0x59) * (1 + vic_register m 0x7b) *
     (1 + vic_register m 0x54 mod 2)"

definition cell_bytes :: "video \<Rightarrow> nat list" where
  "cell_bytes v = concat (map (\<lambda>y. map (\<lambda>x. cell_index v x y + unat (sixteenbit_mode v))
     [0..<unat (screen_width v)]) [0..<unat (screen_rows v)])"

lemma unat_reg16:
  "unat (reg16 r i j) = unat (r i) + 256 * unat (r j)"
proof -
  have "unat (push_bit 8 (ucast (r j)) :: u32) = 256 * unat (r j)"
    using unat_u8_less [of "r j"]
    by (simp add: push_bit_eq_mult unat_word_ariths unat_ucast8)
  then show ?thesis
    using unat_u8_less [of "r j"] unat_u8_less [of "r i"]
    by (simp add: reg16_def unat_word_ariths unat_ucast8)
qed

lemma register_region:
  assumes "i < 0x400"
  shows "region_of (0xffd3000 + of_nat i) = IO (0x3000 + of_nat i)"
proof -
  have u: "unat (0xffd3000 + of_nat i :: u32) = 0xffd3000 + i"
    using assms by (simp add: unat_word_ariths unat_of_nat)
  have d: "(0xffd3000 + i) div 65536 = 0xffd" using assms by simp
  have "(0xffd3000 + of_nat i :: u32) AND 0xfff0000 = 0xffd0000"
    by (simp add: word_unat_eq_iff io_mask_unat u d)
  moreover have "(0xffd3000 + of_nat i :: u32) - 0xffd0000 = 0x3000 + of_nat i" by (simp add: algebra_simps)
  moreover have "unat (0x3000 + of_nat i :: u32) = 0x3000 + i"
    using assms by (simp add: unat_word_ariths unat_of_nat)
  ultimately show ?thesis
    using u assms by (simp add: region_of_def sizes word_less_nat_alt word_le_nat_alt)
qed

lemma run_fetch_registers:
  "run_state (fetch_ram 0xffd3000 0x400 buffer) m = (fetched m 0xffd3000 0x400 buffer, m)"
  by (rule run_fetch_ram) (simp add: register_region)

lemma fetched_register:
  "i < 0x400 \<Longrightarrow> unat (fetched m 0xffd3000 0x400 buffer i) = vic_register m i"
  by (simp add: fetched_def register_region vic_register_def)

lemma and_1_mod: "unat ((ucast (b :: u8) :: u32) AND 1) = unat b mod 2"
  by (simp add: and_one_eq unat_mod unat_ucast8)

lemma vic_register_less: "vic_register m i < 256"
  by (simp add: vic_register_def unat_u8_less)

lemma unat_3_bytes:
  "unat (ucast (a :: u8) + push_bit 8 (ucast (b :: u8)) + push_bit 16 (ucast (c :: u8)) :: u32) < 0x1000000"
  using unat_add_le [of "ucast a + push_bit 8 (ucast b) :: u32" "push_bit 16 (ucast c)"]
    unat_add_le [of "ucast a :: u32" "push_bit 8 (ucast b)"]
    unat_push_bit_le [of 8 "ucast b :: u32"] unat_push_bit_le [of 16 "ucast c :: u32"]
    unat_u8_less [of a] unat_u8_less [of b] unat_u8_less [of c]
  by (simp add: unat_ucast8)

lemma charset_fix_less: "unat a < 0x1000000 \<Longrightarrow> unat (charset_fix a) < 0x1000000"
  by (simp add: charset_fix_def)

lemma decoded_sizes:
  fixes m :: machine and v :: video and b :: "nat \<Rightarrow> u8"
  defines "d \<equiv> decode_video (fetched m 0xffd3000 0x400 b) v"
  shows "unat (screen_line_step d) = vic_register m 0x58 + 256 * vic_register m 0x59"
    "unat (screen_rows d) = 1 + vic_register m 0x7b"
    "unat (sixteenbit_mode d) = vic_register m 0x54 mod 2"
    "unat (screen_width d) = vic_register m 0x5e"
    "unat (screen_size d) = wanted_size m"
    "unat (screen_address d) < 0x1000000" "unat (colour_address d) < 0x10000"
    "unat (charset_address d) < 0x1000000"
proof -
  let ?r = "fetched m 0xffd3000 0x400 b"
  have rows: "unat (1 + ucast (?r 0x7b) :: u32) = 1 + vic_register m 0x7b"
    using vic_register_less [of m "0x7b"] by (simp add: unat_word_ariths unat_ucast8 fetched_register)
  have step: "unat (reg16 ?r 0x58 0x59) = vic_register m 0x58 + 256 * vic_register m 0x59"
    by (simp add: unat_reg16 fetched_register)
  have wide: "unat ((ucast (?r 0x54) :: u32) AND 1) = vic_register m 0x54 mod 2"
    by (simp add: and_1_mod fetched_register)
  then have wide1: "unat (1 + (ucast (?r 0x54) AND 1) :: u32) = 1 + vic_register m 0x54 mod 2"
    by (simp add: unat_word_ariths)
  have "(vic_register m 0x58 + 256 * vic_register m 0x59) * (1 + vic_register m 0x7b) \<le> 65535 * 256"
    using vic_register_less [of m "0x58"] vic_register_less [of m "0x59"] vic_register_less [of m "0x7b"]
    by (intro mult_le_mono) simp_all
  from mult_le_mono [OF this, of "1 + vic_register m 0x54 mod 2" 2]
  have "wanted_size m \<le> 65535 * 256 * 2" by (simp add: wanted_size_def)
  moreover have "unat (reg16 ?r 0x58 0x59 * (1 + ucast (?r 0x7b)) * (1 + (ucast (?r 0x54) AND 1)))
      = wanted_size m mod 2 ^ LENGTH(32)"
    by (simp only: unat_word_ariths(2) step rows wide1 wanted_size_def mod_mult_left_eq)
  ultimately have size: "unat (reg16 ?r 0x58 0x59 * (1 + ucast (?r 0x7b)) * (1 + (ucast (?r 0x54) AND 1))) = wanted_size m"
    by simp
  show "unat (screen_line_step d) = vic_register m 0x58 + 256 * vic_register m 0x59"
    "unat (screen_rows d) = 1 + vic_register m 0x7b"
    "unat (sixteenbit_mode d) = vic_register m 0x54 mod 2"
    "unat (screen_width d) = vic_register m 0x5e"
    "unat (screen_size d) = wanted_size m"
    "unat (screen_address d) < 0x1000000" "unat (colour_address d) < 0x10000"
    "unat (charset_address d) < 0x1000000"
    using rows step wide size unat_3_bytes
      vic_register_less [of m "0x64"] vic_register_less [of m "0x65"]
    by (simp_all add: d_def decode_video_def Let_def unat_ucast8 fetched_register unat_reg16 charset_fix_less)
qed

lemma run_get_video_state:
  obtains r where "run_state (get_video_state v) m = (r, m)"
    "r = None \<longleftrightarrow> wanted_size m > MAX_SCREEN_SIZE"
    "\<forall>v'. r = Some v' \<longrightarrow> (\<exists>s c g. v' = decode_video (fetched m 0xffd3000 0x400 (vic_regs v)) v
       \<lparr>screen_data := s, colour_data := c, char_data := g\<rparr>)"
proof -
  let ?d = "decode_video (fetched m 0xffd3000 0x400 (vic_regs v)) v"
  note sizes = decoded_sizes [of m "vic_regs v" v]
  show thesis
  proof (cases "wanted_size m > MAX_SCREEN_SIZE")
    case True
    with sizes(5) have "run_state (get_video_state v) m = (None, m)"
      by (simp add: get_video_state_def run_fetch_registers)
    with True show ?thesis by (intro that) auto
  next
    case False
    then have small: "unat (screen_size ?d) \<le> 0x20000" using sizes(5) by (simp add: MAX_SCREEN_SIZE_def)
    have "unat (0xff80000 + colour_address ?d) \<le> 0xff80000 + 0x10000"
      using unat_add_le [of "0xff80000" "colour_address ?d"] sizes(7) by simp
    then have "run_state (fetch_ram (0xff80000 + colour_address ?d) (unat (screen_size ?d)) b) m
        = (fetched m (0xff80000 + colour_address ?d) (unat (screen_size ?d)) b, m)" for b
      using small by (intro run_fetch_ram fetch_in_map) auto
    moreover have "run_state (fetch_ram (screen_address ?d) (unat (screen_size ?d)) b) m
        = (fetched m (screen_address ?d) (unat (screen_size ?d)) b, m)" for b
      using small sizes(6) by (intro run_fetch_ram fetch_in_map) auto
    moreover have "unat (charset_size ?d) \<le> 8192 * 8" by (simp add: decode_video_def Let_def)
    then have "run_state (fetch_ram (charset_address ?d) (unat (charset_size ?d)) b) m
        = (fetched m (charset_address ?d) (unat (charset_size ?d)) b, m)" for b
      using sizes(8) by (intro run_fetch_ram fetch_in_map) auto
    moreover have "\<not> MAX_SCREEN_SIZE < unat (screen_size ?d)" using False sizes(5) by simp
    ultimately have "run_state (get_video_state v) m = (Some (?d
        \<lparr>screen_data := fetched m (screen_address ?d) (unat (screen_size ?d)) (screen_data ?d),
         colour_data := fetched m (0xff80000 + colour_address ?d) (unat (screen_size ?d)) (colour_data ?d),
         char_data := fetched m (charset_address ?d) (unat (charset_size ?d)) (char_data ?d)\<rparr>), m)"
      by (simp add: get_video_state_def run_fetch_registers Let_def)
    with False show ?thesis by (intro that) auto
  qed
qed

text \<open>No index of a cell is outside the arrays, even when rows overlap.\<close>

lemma cell_byte_less:
  assumes "unat (screen_line_step v) * unat (screen_rows v) \<le> MAX_SCREEN_SIZE"
    and "unat (screen_rows v) \<le> 256" and "unat (screen_width v) \<le> 255" and "unat (sixteenbit_mode v) \<le> 1"
    and x: "x < unat (screen_width v)" and y: "y < unat (screen_rows v)"
  shows "cell_index v x y + unat (sixteenbit_mode v) < MAX_SCREEN_SIZE"
proof -
  let ?s = "unat (screen_line_step v)" and ?w = "unat (sixteenbit_mode v)"
  from x assms have "x * (1 + ?w) \<le> 254 * 2" by (intro mult_le_mono) auto
  then have cols: "x * (1 + ?w) + ?w \<le> 509" using assms(4) by simp
  show ?thesis
  proof (cases "?s < 510")
    case True
    with y assms have "y * ?s \<le> 255 * 509" by (intro mult_le_mono) auto
    with cols show ?thesis by (simp add: cell_index_def MAX_SCREEN_SIZE_def)
  next
    case False
    from y have "Suc y * ?s \<le> unat (screen_rows v) * ?s" by (intro mult_le_mono) auto
    with cols False assms(1) show ?thesis by (simp add: cell_index_def MAX_SCREEN_SIZE_def mult.commute)
  qed
qed

section \<open>The text\<close>

lemma cat_Text: "(\<exists>s. p = Text s) \<Longrightarrow> (\<exists>s. q = Text s) \<Longrightarrow> \<exists>s. cat p q = Text s"
  by auto

lemma cat_all_Text: "(\<And>p. p \<in> set ps \<Longrightarrow> \<exists>s. p = Text s) \<Longrightarrow> \<exists>s. cat_all ps = Text s"
  by (induction ps) (simp_all add: cat_all_def cat_Text)

lemma utf8_text_Text: "0 < cp \<Longrightarrow> cp \<le> 0x10ffff \<Longrightarrow> \<exists>s. utf8_text cp = Text s"
  by (erule (1) utf8_decode_to_utf8) (simp add: utf8_text_def)

lemma graphics_Text: "i < 16 \<Longrightarrow> \<exists>s. utf8_text (graphics ! i) = Text s"
proof (rule utf8_text_Text)
  assume "i < 16"
  then have "graphics ! i \<in> set graphics" by (intro nth_mem) (simp add: graphics_def)
  moreover have "\<forall>cp \<in> set graphics. 0 < cp \<and> cp \<le> 0x10ffff" by (simp add: graphics_def)
  ultimately show "0 < graphics ! i" "graphics ! i \<le> 0x10ffff" by blast+
qed

lemma screencode_Text: "\<exists>s. screencode_char c upper = Text s"
proof -
  have "unat (c - 0x60) < 16" if "0x60 \<le> c" "c \<le> 0x6f"
    using that by (simp add: unat_sub word_le_nat_alt)
  then show ?thesis by (simp add: screencode_char_def graphics_Text)
qed

lemma print_screencode_Text: "\<exists>s. print_screencode c upper = Text s"
  by (auto simp: print_screencode_def screencode_Text intro!: cat_Text)

lemma screen_text_Text: "\<exists>s. screen_text v = Text s"
  unfolding screen_text_def show_row_def show_cell_def Let_def
  by (intro cat_Text cat_all_Text) (auto intro!: cat_Text cat_all_Text simp: print_screencode_Text)

section \<open>Properties\<close>

text \<open>
  C24: The encoder is the standard's: the bytes of a code point from 1 to \<open>$10FFFF\<close> decode to it
  in shortest form, their number is what \<open>codepoint_len\<close> says and what \<open>utf8_len\<close> reads off the
  first byte. For 0 the code shifts by a negative amount, and above \<open>$10FFFF\<close> it runs past
  the end of its table.
\<close>

theorem utf8_roundtrip:
  "case to_utf8 cp of
     Inr bs \<Rightarrow> utf8_decode bs = Some (unat cp) \<and> utf8_len (hd bs) = Inr (length bs) \<and> codepoint_len cp = Inr (length bs)
   | Inl f \<Rightarrow> cp = 0 \<and> f = SignedOverflow \<or> cp > 0x10ffff \<and> f = OutOfBounds"
proof (cases "cp = 0 \<or> cp > 0x10ffff")
  case True
  then have "to_utf8 cp = Inl (if cp = 0 then SignedOverflow else OutOfBounds)"
    by (auto simp: to_utf8_def codepoint_len_def utf_def word_less_nat_alt word_le_nat_alt)
  with True show ?thesis by auto
next
  case False
  then obtain bs where "to_utf8 cp = Inr bs" "utf8_decode bs = Some (unat cp)"
      "codepoint_len cp = Inr (length bs)" "utf8_len (hd bs) = Inr (length bs)"
    using utf8_decode_to_utf8 [of cp] by (auto simp: word_gt_0 not_less)
  then show ?thesis by simp
qed

text \<open>
  C23: A screenshot as text leaves the machine alone. It ends the program exactly when the VIC-IV
  registers ask for more than 128 KiB of screen memory (a number that does not wrap around);
  otherwise every byte of every cell that it shows lies inside the arrays, although nothing in
  the code checks the width or that rows do not overlap, and there is a text.
\<close>

theorem screenshot_outcome:
  "case run_state (do_screen_shot_ascii v) m of (r, m') \<Rightarrow> m' = m \<and>
     (case r of
        None \<Rightarrow> wanted_size m > MAX_SCREEN_SIZE
      | Some (v', p) \<Rightarrow> wanted_size m \<le> MAX_SCREEN_SIZE \<and> unat (screen_size v') = wanted_size m \<and>
          list_all (\<lambda>i. i < MAX_SCREEN_SIZE) (cell_bytes v') \<and>
          (case p of Text s \<Rightarrow> True | _ \<Rightarrow> False))"
proof -
  obtain r where run: "run_state (get_video_state v) m = (r, m)"
    and none: "r = None \<longleftrightarrow> wanted_size m > MAX_SCREEN_SIZE"
    and some: "\<forall>v'. r = Some v' \<longrightarrow> (\<exists>s c g. v' = decode_video (fetched m 0xffd3000 0x400 (vic_regs v)) v
       \<lparr>screen_data := s, colour_data := c, char_data := g\<rparr>)"
    by (rule run_get_video_state)
  show ?thesis
  proof (cases r)
    case None
    with none run show ?thesis by (simp add: do_screen_shot_ascii_def)
  next
    case (Some v')
    let ?d = "decode_video (fetched m 0xffd3000 0x400 (vic_regs v)) v"
    note sizes = decoded_sizes [of m "vic_regs v" v]
    from some Some obtain s c g where v': "v' = ?d\<lparr>screen_data := s, colour_data := c, char_data := g\<rparr>" by auto
    from Some none have le: "wanted_size m \<le> MAX_SCREEN_SIZE" by simp
    then have "unat (screen_line_step ?d) * unat (screen_rows ?d) \<le> MAX_SCREEN_SIZE"
      unfolding sizes wanted_size_def by (rule order_trans [rotated]) simp
    moreover have "unat (screen_rows ?d) \<le> 256" "unat (screen_width ?d) \<le> 255" "unat (sixteenbit_mode ?d) \<le> 1"
      using vic_register_less [of m "0x7b"] vic_register_less [of m "0x5e"] by (simp_all add: sizes)
    ultimately have "list_all (\<lambda>i. i < MAX_SCREEN_SIZE) (cell_bytes ?d)"
      by (auto simp: list_all_iff cell_bytes_def intro: cell_byte_less)
    then have "list_all (\<lambda>i. i < MAX_SCREEN_SIZE) (cell_bytes v')"
      by (simp add: v' cell_bytes_def cell_index_def)
    moreover obtain s where "screen_text v' = Text s" using screen_text_Text by blast
    ultimately show ?thesis
      using run Some le sizes(5) by (simp add: do_screen_shot_ascii_def v')
  qed
qed

text \<open>
  In extended background mode all characters get the first background colour: the two bits
  that select the colour are masked away before they are looked at.
\<close>

theorem extended_background_ignored:
  "extended_background_mode v \<noteq> 0 \<Longrightarrow> viciii_attribs v = 0 \<Longrightarrow>
    bg (decode_cell v x y) = unat (vic_regs v 0x21)"
proof -
  have "drop_bit 6 (w AND 0x3f) AND 3 = 0" for w :: u32
  proof -
    have "drop_bit 6 (w AND 0x3f) = 0"
      using drop_bit_take_bit [of 6 6 w] by (simp add: take_bit_eq_mask mask_eq_exp_minus_1)
    then show ?thesis by simp
  qed
  then show "extended_background_mode v \<noteq> 0 \<Longrightarrow> viciii_attribs v = 0 \<Longrightarrow> ?thesis"
    by (simp add: decode_cell_def Let_def)
qed

theorem extended_background_ignored_witness:
  "let v = initial_video\<lparr>extended_background_mode := 0x40, vic_regs := (\<lambda>i. of_nat i), screen_data := (\<lambda>_. 0xc1)\<rparr>
   in bg (decode_cell v 0 0) = 0x21"
  using extended_background_ignored [of "initial_video\<lparr>extended_background_mode := 0x40,
      vic_regs := (\<lambda>i. of_nat i), screen_data := (\<lambda>_. 0xc1)\<rparr>" 0 0]
  by (simp add: initial_video_def)

end
