(* ===== verification/Crc.thy ===== *)
theory Crc
  imports Prelude
begin

text \<open>
  The CRC-32 routines of the flash tool, \<open>src/utilities/megaflash/crc32accl.s\<close> (assembler, called
  from C through \<open>crc32accl.h\<close>): the four tables that \<open>make_crc32_tables\<close> writes into two
  buffers of 512 bytes, and the update of the running checksum at \<open>CRC32_ZP\<close> by table lookup.
  The registers and the four bytes of the zero page are modelled byte by byte, as the code
  shifts and rotates them. The theorem at the end says that the routines compute the
  CRC-32 defined bit by bit.
\<close>

unbundle bit_operations_syntax

section \<open>The routines\<close>

text \<open>\<open>lsr\<close> and \<open>ror\<close>: the shifted byte and the carry.\<close>

definition lsr_byte :: "u8 \<Rightarrow> u8 \<times> bool" where
  "lsr_byte a = (drop_bit 1 a, bit a 0)"

definition ror_byte :: "bool \<Rightarrow> u8 \<Rightarrow> u8 \<times> bool" where
  "ror_byte c z = (drop_bit 1 z OR (if c then 0x80 else 0), bit z 0)"

text \<open>One turn of \<open>@bitloop\<close> on the accumulator and \<open>CRC32_ZP+2\<close>, \<open>+1\<close>, \<open>+0\<close>.\<close>

definition crc_bitloop_turn :: "u8 \<times> u8 \<times> u8 \<times> u8 \<Rightarrow> u8 \<times> u8 \<times> u8 \<times> u8" where
  "crc_bitloop_turn r = (case r of (a, z2, z1, z0) \<Rightarrow>
     let (a, c) = lsr_byte a;
         (z2, c) = ror_byte c z2;
         (z1, c) = ror_byte c z1;
         (z0, c) = ror_byte c z0
     in if c then (a XOR 0xED, z2 XOR 0xB8, z1 XOR 0x83, z0 XOR 0x20) else (a, z2, z1, z0))"

fun crc_bitloop :: "nat \<Rightarrow> u8 \<times> u8 \<times> u8 \<times> u8 \<Rightarrow> u8 \<times> u8 \<times> u8 \<times> u8" where
  "crc_bitloop 0 r = r"
| "crc_bitloop (Suc y) r = crc_bitloop y (crc_bitloop_turn r)"

definition crc_entry :: "nat \<Rightarrow> u8 \<times> u8 \<times> u8 \<times> u8" where
  "crc_entry x = crc_bitloop 8 (0, 0, 0, of_nat x)"

text \<open>
  The two buffers: \<open>CRCT0\<close> and \<open>CRCT1\<close> in the first, \<open>CRCT2\<close> and \<open>CRCT3\<close> in the second.
\<close>

definition make_crc32_tables :: "u8 list \<times> u8 list" where
  "make_crc32_tables =
    (map (\<lambda>x. case crc_entry x of (a, z2, z1, z0) \<Rightarrow> z0) [0..<256] @
     map (\<lambda>x. case crc_entry x of (a, z2, z1, z0) \<Rightarrow> z1) [0..<256],
     map (\<lambda>x. case crc_entry x of (a, z2, z1, z0) \<Rightarrow> z2) [0..<256] @
     map (\<lambda>x. case crc_entry x of (a, z2, z1, z0) \<Rightarrow> a) [0..<256])"

text \<open>The four bytes at \<open>CRC32_ZP\<close>, the low one first.\<close>

type_synonym crc_zp = "u8 \<times> u8 \<times> u8 \<times> u8"

definition init_crc32 :: crc_zp where
  "init_crc32 = (0xff, 0xff, 0xff, 0xff)"

definition crc_one_byte :: "u8 list \<Rightarrow> u8 list \<Rightarrow> u8 \<Rightarrow> crc_zp \<Rightarrow> crc_zp" where
  "crc_one_byte t1 t2 v z = (case z of (z0, z1, z2, z3) \<Rightarrow>
     let x = unat (v XOR z0) in
       (z1 XOR t1 ! x, z2 XOR t1 ! (256 + x), z3 XOR t2 ! x, t2 ! (256 + x)))"

text \<open>\<open>len = 0\<close> stands for all 256 bytes of the buffer.\<close>

definition update_crc32 :: "u8 list \<Rightarrow> u8 list \<Rightarrow> u8 \<Rightarrow> u8 list \<Rightarrow> crc_zp \<Rightarrow> crc_zp" where
  "update_crc32 t1 t2 len buf z =
    fold (crc_one_byte t1 t2) (take (if len = 0 then 256 else unat len) buf) z"

definition zp_long :: "crc_zp \<Rightarrow> u32" where
  "zp_long z = (case z of (z0, z1, z2, z3) \<Rightarrow>
     ucast z0 OR push_bit 8 (ucast z1) OR push_bit 16 (ucast z2) OR push_bit 24 (ucast z3))"

definition get_crc32 :: "crc_zp \<Rightarrow> u32" where
  "get_crc32 z = NOT (zp_long z)"

section \<open>The checksum bit by bit\<close>

definition crc_bit :: "u32 \<Rightarrow> u32" where
  "crc_bit c = drop_bit 1 c XOR (if bit c 0 then 0xEDB88320 else 0)"

definition crc_byte :: "u8 \<Rightarrow> u32 \<Rightarrow> u32" where
  "crc_byte v c = (crc_bit ^^ 8) (c XOR ucast v)"

definition crc32 :: "u8 list \<Rightarrow> u32" where
  "crc32 bs = NOT (fold crc_byte bs 0xffffffff)"

text \<open>One bit is linear, so eight bits act on the low byte and the rest separately.\<close>

lemma crc_bit_xor: "crc_bit (a XOR b) = crc_bit a XOR crc_bit b"
  by (simp add: crc_bit_def drop_bit_xor bit_xor_iff ac_simps)

lemma crc_bits_xor: "(crc_bit ^^ n) (a XOR b) = (crc_bit ^^ n) a XOR (crc_bit ^^ n) b"
  by (induction n) (simp_all add: crc_bit_xor)

lemma crc_bits_shift:
  "(\<forall>i < n. \<not> bit a i) \<Longrightarrow> (crc_bit ^^ n) a = drop_bit n a"
proof (induction n arbitrary: a)
  case (Suc n)
  have "crc_bit a = drop_bit 1 a" using Suc.prems by (simp add: crc_bit_def)
  moreover have "\<forall>i < n. \<not> bit (drop_bit 1 a) i" using Suc.prems by (simp add: bit_drop_bit_eq)
  ultimately show ?case using Suc.IH [of "drop_bit 1 a"]
    by (simp add: funpow_Suc_right del: funpow.simps)
qed simp


text \<open>The registers as one number, the accumulator as its high byte.\<close>

definition regs_long :: "u8 \<times> u8 \<times> u8 \<times> u8 \<Rightarrow> u32" where
  "regs_long r = (case r of (a, z2, z1, z0) \<Rightarrow> zp_long (z0, z1, z2, a))"

lemma bit_u8_high: "8 \<le> n \<Longrightarrow> \<not> bit (v :: u8) n"
  using bit_imp_le_length [of v n] by auto

lemma bit_zp_long:
  "bit (zp_long (z0, z1, z2, z3)) n \<longleftrightarrow>
    (if n < 8 then bit z0 n else if n < 16 then bit z1 (n - 8) else if n < 24 then bit z2 (n - 16)
     else bit z3 (n - 24))"
proof -
  have "n < 32" if "bit z3 (n - 24)" "24 \<le> n" using bit_imp_le_length [OF that(1)] that(2) by simp
  then show ?thesis
    by (auto simp: zp_long_def bit_or_iff bit_push_bit_iff bit_ucast_iff possible_bit_def not_less
        dest: bit_imp_le_length)
qed

lemma zp_long_xor:
  "zp_long (z0 XOR y0, z1 XOR y1, z2 XOR y2, z3 XOR y3) = zp_long (z0, z1, z2, z3) XOR zp_long (y0, y1, y2, y3)"
  by (rule bit_word_eqI) (simp add: bit_zp_long bit_xor_iff)

lemma bit_ror_byte: "bit (fst (ror_byte c z)) n \<longleftrightarrow> (if n = 7 then c else bit z (Suc n))"
proof (cases "n < 8")
  case True
  then have "n \<in> {0, 1, 2, 3, 4, 5, 6, 7}" by auto
  then show ?thesis by (cases c) (auto simp: ror_byte_def bit_or_iff bit_drop_bit_eq bit_u8_high)
qed (simp add: bit_u8_high)

lemma bit_lsr_byte: "bit (fst (lsr_byte a)) n \<longleftrightarrow> bit a (Suc n)"
  by (simp add: lsr_byte_def bit_drop_bit_eq)

lemma zp_long_shift:
  "zp_long (fst (ror_byte (bit z1 0) z0), fst (ror_byte (bit z2 0) z1), fst (ror_byte (bit a 0) z2), fst (lsr_byte a))
    = drop_bit 1 (zp_long (z0, z1, z2, a))"
proof (rule bit_word_eqI)
  fix n
  assume n: "n < LENGTH(32)"
  have c: "n < 7 \<or> n = 7 \<or> 8 \<le> n \<and> n < 15 \<or> n = 15 \<or> 16 \<le> n \<and> n < 23 \<or> n = 23 \<or> 24 \<le> n" by arith
  have diff_eq: "n - 8 = 7 \<longleftrightarrow> n = 15" "n - 16 = 7 \<longleftrightarrow> n = 23" by auto
  show "bit (zp_long (fst (ror_byte (bit z1 0) z0), fst (ror_byte (bit z2 0) z1), fst (ror_byte (bit a 0) z2), fst (lsr_byte a))) n
      \<longleftrightarrow> bit (drop_bit 1 (zp_long (z0, z1, z2, a))) n"
    using c by (elim disjE conjE)
      (simp_all add: bit_zp_long bit_drop_bit_eq bit_ror_byte bit_lsr_byte Suc_diff_le [symmetric] diff_eq)
qed

lemma regs_long_turn: "regs_long (crc_bitloop_turn r) = crc_bit (regs_long r)"
proof -
  obtain a z2 z1 z0 where r: "r = (a, z2, z1, z0)" by (cases r) auto
  have odd: "bit (zp_long (z0, z1, z2, a)) 0 = bit z0 0" by (simp add: bit_zp_long)
  have carry: "ror_byte c z = (fst (ror_byte c z), bit z 0)" "lsr_byte a = (fst (lsr_byte a), bit a 0)" for c z
    by (simp_all add: ror_byte_def lsr_byte_def)
  have turn: "crc_bitloop_turn r =
      (let z0' = fst (ror_byte (bit z1 0) z0); z1' = fst (ror_byte (bit z2 0) z1);
           z2' = fst (ror_byte (bit a 0) z2); a' = fst (lsr_byte a)
       in if bit z0 0 then (a' XOR 0xED, z2' XOR 0xB8, z1' XOR 0x83, z0' XOR 0x20) else (a', z2', z1', z0'))"
    unfolding crc_bitloop_turn_def r Let_def prod.case
    by (subst carry(2), simp only: prod.case, subst carry(1), simp only: prod.case, subst carry(1),
        simp only: prod.case, subst carry(1), simp only: prod.case)
  have poly: "zp_long (0x20, 0x83, 0xB8, 0xED) = 0xEDB88320" by (simp add: zp_long_def push_bit_eq_mult)
  show ?thesis
    by (simp add: turn [unfolded r] Let_def r regs_long_def crc_bit_def odd zp_long_xor poly zp_long_shift [simplified])
qed

lemma regs_long_loop: "regs_long (crc_bitloop n r) = (crc_bit ^^ n) (regs_long r)"
  by (induction n arbitrary: r) (simp_all add: regs_long_turn funpow_swap1)

lemma table_entry:
  assumes "x < 256"
  shows "zp_long (fst make_crc32_tables ! x, fst make_crc32_tables ! (256 + x),
      snd make_crc32_tables ! x, snd make_crc32_tables ! (256 + x)) = (crc_bit ^^ 8) (ucast (of_nat x :: u8))"
proof -
  obtain a z2 z1 z0 where e: "crc_entry x = (a, z2, z1, z0)" by (cases "crc_entry x") auto
  have "regs_long (crc_entry x) = (crc_bit ^^ 8) (regs_long (0, 0, 0, of_nat x))"
    by (simp only: crc_entry_def regs_long_loop)
  moreover have "regs_long (0, 0, 0, of_nat x) = ucast (of_nat x :: u8)"
    by (simp add: regs_long_def zp_long_def)
  ultimately show ?thesis
    using assms e by (simp add: make_crc32_tables_def nth_append regs_long_def)
qed

lemma crc_one_byte_step:
  "zp_long (crc_one_byte (fst make_crc32_tables) (snd make_crc32_tables) v z) = crc_byte v (zp_long z)"
proof -
  obtain z0 z1 z2 z3 where z: "z = (z0, z1, z2, z3)" by (cases z) auto
  let ?x = "unat (v XOR z0)"
  let ?t1 = "fst make_crc32_tables" and ?t2 = "snd make_crc32_tables"
  have x: "?x < 256" by (rule unat_u8_less)
  have "zp_long (crc_one_byte ?t1 ?t2 v z) =
      zp_long (z1 XOR ?t1 ! ?x, z2 XOR ?t1 ! (256 + ?x), z3 XOR ?t2 ! ?x, 0 XOR ?t2 ! (256 + ?x))"
    by (simp add: crc_one_byte_def z Let_def)
  also have "\<dots> = zp_long (z1, z2, z3, 0) XOR (crc_bit ^^ 8) (ucast (v XOR z0))"
    unfolding zp_long_xor table_entry [OF x] by simp
  also have "zp_long (z1, z2, z3, 0) = drop_bit 8 (zp_long (0, z1, z2, z3))"
    by (rule bit_word_eqI) (auto simp: bit_zp_long bit_drop_bit_eq bit_u8_high)
  also have "\<dots> = (crc_bit ^^ 8) (zp_long (0, z1, z2, z3))"
    by (rule crc_bits_shift [symmetric]) (simp add: bit_zp_long)
  also have "\<dots> XOR (crc_bit ^^ 8) (ucast (v XOR z0)) =
      (crc_bit ^^ 8) (zp_long (0, z1, z2, z3) XOR ucast (v XOR z0))"
    by (simp only: crc_bits_xor)
  also have "zp_long (0, z1, z2, z3) XOR ucast (v XOR z0) = zp_long z XOR ucast v"
  proof (rule bit_word_eqI)
    fix n
    assume "n < LENGTH(32)"
    then show "bit (zp_long (0, z1, z2, z3) XOR ucast (v XOR z0)) n \<longleftrightarrow> bit (zp_long z XOR ucast v) n"
      by (cases "n < 8") (auto simp: z bit_zp_long bit_xor_iff bit_ucast_iff bit_u8_high possible_bit_def not_less)
  qed
  finally show ?thesis by (simp add: crc_byte_def)
qed

lemma update_crc32_folds:
  "zp_long (update_crc32 (fst make_crc32_tables) (snd make_crc32_tables) len b z) =
    fold crc_byte (take (if len = 0 then 256 else unat len) b) (zp_long z)"
proof -
  have "zp_long (fold (crc_one_byte (fst make_crc32_tables) (snd make_crc32_tables)) bs z) =
      fold crc_byte bs (zp_long z)" for bs
    by (induction bs arbitrary: z) (simp_all add: crc_one_byte_step)
  then show ?thesis by (simp only: update_crc32_def)
qed

lemma zp_long_init: "zp_long init_crc32 = 0xffffffff"
  by (simp add: init_crc32_def zp_long_def push_bit_eq_mult)

text \<open>
  C5: The accelerated routines compute the CRC-32: starting from \<open>init_crc32\<close>, updates over
  any sequence of blocks with the tables of \<open>make_crc32_tables\<close> leave the checksum of the
  concatenation of what the blocks' lengths select, as defined bit by bit over the
  reversed polynomial \<open>0xEDB88320\<close>.
\<close>

theorem accelerated_crc32:
  "get_crc32 (fold (\<lambda>(len, b). update_crc32 (fst make_crc32_tables) (snd make_crc32_tables) len b) blocks init_crc32) =
    crc32 (concat (map (\<lambda>(len, b). take (if len = 0 then 256 else unat len) b) blocks))"
proof -
  have "zp_long (fold (\<lambda>(len, b). update_crc32 (fst make_crc32_tables) (snd make_crc32_tables) len b) blocks z) =
      fold crc_byte (concat (map (\<lambda>(len, b). take (if len = 0 then 256 else unat len) b) blocks)) (zp_long z)" for z
    by (induction blocks arbitrary: z) (auto simp: update_crc32_folds)
  then show ?thesis by (simp only: get_crc32_def crc32_def zp_long_init)
qed

text \<open>The checksum of the nine digits, the usual check value.\<close>

lemma crc_byte_eval:
  "crc_byte v c = crc_bit (crc_bit (crc_bit (crc_bit (crc_bit (crc_bit (crc_bit (crc_bit (c XOR ucast v))))))))"
  by (simp add: crc_byte_def numeral_eq_Suc)

lemma crc32_check_value: "crc32 [0x31, 0x32, 0x33, 0x34, 0x35, 0x36, 0x37, 0x38, 0x39] = 0xCBF43926"
  by (simp add: crc32_def crc_byte_eval crc_bit_def)

end
