(* ===== verification/Flash.thy ===== *)
theory Flash
  imports Sdcard Crc
begin

text \<open>
  The flash tool below its menu: the driver of the QSPI controller
  (\<open>src/utilities/megaflash/qspiflash.c\<close>), the detection of the hardware (\<open>mf_utility.c\<close>) and
  loading, verifying, erasing and programming of cores (\<open>mf_hlflash.c\<close>, as it is
  built into \<open>megaflash-attic.prg\<close>: without \<open>STANDALONE\<close>, \<open>NO_ATTIC\<close>, \<open>FLASH_INSPECT\<close> and
  \<open>QSPI_VERBOSE\<close>).

  The controller and the SD card are hardware: a parameter \<open>dev\<close> with \<open>PEEK\<close>, \<open>POKE\<close> and the two
  directions of \<open>lcopy\<close> with the controller's buffer at \<open>QSPI_FLASH_BUFFER\<close>. A program is a
  function from the state to \<open>Some (result, state)\<close>, or \<open>None\<close> where it waits for the hardware
  or for a key for ever. The record \<open>mf\<close> has the global variables of the tool. \<open>keys\<close> are the
  key codes that the polls of the keyboard will see, 0 for none; \<open>shown\<close> are the windows with
  a message that have been displayed. Other output to the screen (\<open>mf_progress.c\<close>, \<open>mhexes.c\<close>) has
  no effect on what is modelled.
\<close>

unbundle bit_operations_syntax

section \<open>State\<close>

record 'd mf_device =
  card :: "'d sd_device"
  qspi_out :: "'d \<Rightarrow> nat \<Rightarrow> u8"
  qspi_in :: "u8 list \<Rightarrow> 'd \<Rightarrow> 'd"

datatype erase_block_size = Block_4k | Block_32k | Block_64k | Block_256k | Block_last

record slot_core =
  core_name :: "u8 list"
  core_version :: "u8 list"
  capabilities :: u8
  flags :: u8
  real_flags :: u8
  valid :: u8
  core_length :: u32

record 'd mf =
  sdc :: "'d sd"
  far_mem :: "u32 \<Rightarrow> u8"
  data_buffer :: "u8 list"
  cfi_data :: "u8 list"
  crc32_zp :: crc_zp
  keys :: "u8 list"
  mhx_lastkey :: u8
  shown :: "(string \<times> string \<times> u8) list"
  mfu_slot_mb :: u8
  mfu_slot_pagemask :: u8
  mfu_slot_size :: u32
  hw_model_id :: u8
  hw_model_minor :: u8
  mfhf_slot0_erase_list :: "u8 list"
  mfhf_core_file_state :: u8
  mfhf_erase_block_size :: erase_block_size
  slot_count :: u8
  mfsc_corehdr_model_id :: u8
  mfsc_corehdr_bootcaps :: u8
  mfsc_corehdr_bootflags :: u8
  mfsc_corehdr_instflags :: u8
  mfsc_corehdr_erase_list :: "u8 list"
  mfsc_corehdr_length :: u32
  mfsc_corehdr_name :: "u8 list"
  mfsc_corehdr_version :: "u8 list"
  mfsc_corefile_inode :: u32
  mfsc_corefile_size :: u32
  slot_core :: "slot_core list"
  corecap_slots :: "u8 list"
  selected_file :: u8
  booted_via_jtag :: u8
  exrom_game :: u8
  cart_id :: "u8 list"
  selected_reflash_slot :: u8
  mfsc_filecount :: u16
  mfsc_coredir_inode :: u32
  mfsc_selection :: u16
  mfsc_offset :: u16

type_synonym ('d, 'a) mf_prog = "'d mf \<Rightarrow> ('a \<times> 'd mf) option"

text \<open>Programs and functions on the part of \<open>nohysdc.c\<close>, and the registers.\<close>

definition on_sd :: "('d, 'a) sd_prog \<Rightarrow> 'd mf \<Rightarrow> 'a \<times> 'd mf" where
  "on_sd p s = (let (r, c) = run_state p (sdc s) in (r, s\<lparr>sdc := c\<rparr>))"

definition hwstate :: "'d mf \<Rightarrow> 'd" where
  "hwstate s = hw (sdc s)"

definition with_hw :: "'d \<Rightarrow> 'd mf \<Rightarrow> 'd mf" where
  "with_hw h s = s\<lparr>sdc := (sdc s)\<lparr>hw := h\<rparr>\<rparr>"

definition mf_peek :: "'d mf_device \<Rightarrow> u32 \<Rightarrow> 'd mf \<Rightarrow> u8 \<times> 'd mf" where
  "mf_peek dev a s = (let (v, h) = dev_peek (card dev) a (hwstate s) in (v, with_hw h s))"

definition mf_poke :: "'d mf_device \<Rightarrow> u32 \<Rightarrow> u8 \<Rightarrow> 'd mf \<Rightarrow> 'd mf" where
  "mf_poke dev a v s = with_hw (dev_poke (card dev) a v (hwstate s)) s"

text \<open>
  \<open>lcopy\<close> from and to the memory outside the C program, and the array \<open>buffer\<close>, which
  \<open>nhsd_init\<close> installs as the buffer of the SD card.
\<close>

definition far_read :: "(u32 \<Rightarrow> u8) \<Rightarrow> u32 \<Rightarrow> nat \<Rightarrow> u8 list" where
  "far_read f a n = map (\<lambda>i. f (a + of_nat i)) [0..<n]"

definition far_write :: "u32 \<Rightarrow> u8 list \<Rightarrow> (u32 \<Rightarrow> u8) \<Rightarrow> u32 \<Rightarrow> u8" where
  "far_write a bs f x = (if unat (x - a) < length bs then bs ! unat (x - a) else f x)"

definition the_buffer :: "'d mf \<Rightarrow> u8 list" where
  "the_buffer s = (case nhsd_buffer (sdc s) of Some b \<Rightarrow> b | None \<Rightarrow> [])"

definition set_buffer :: "u8 list \<Rightarrow> 'd mf \<Rightarrow> 'd mf" where
  "set_buffer b s = s\<lparr>sdc := (sdc s)\<lparr>nhsd_buffer := Some b\<rparr>\<rparr>"

definition le32_in :: "u8 list \<Rightarrow> nat \<Rightarrow> u32" where
  "le32_in b i = le32 (b ! i) (b ! (i + 1)) (b ! (i + 2)) (b ! (i + 3))"

definition ATTIC :: u32 where "ATTIC = 0x8000000"

definition MFHF_LC_NOTLOADED :: u8 where "MFHF_LC_NOTLOADED = 0"
definition MFHF_LC_ATTICOK :: u8 where "MFHF_LC_ATTICOK = 1"
definition MFSC_FILE_INVALID :: u8 where "MFSC_FILE_INVALID = 0"
definition MFSC_FILE_VALID :: u8 where "MFSC_FILE_VALID = 1"
definition MFSC_FILE_ERASE :: u8 where "MFSC_FILE_ERASE = 2"
definition MFSC_COREHDR_BOOTFLAGS :: nat where "MFSC_COREHDR_BOOTFLAGS = 0x7c"
definition MFSC_COREHDR_LENGTH :: nat where "MFSC_COREHDR_LENGTH = 0x80"
definition MFSC_COREHDR_CRC32 :: nat where "MFSC_COREHDR_CRC32 = 0x84"

section \<open>Keys and messages\<close>

text \<open>A poll of the keyboard, and the wait for a key; \<open>None\<close> when no key will come.\<close>

fun next_key :: "bool \<Rightarrow> u8 list \<Rightarrow> (u8 \<times> u8 list) option" where
  "next_key peekonly [] = (if peekonly then Some (0, []) else None)"
| "next_key peekonly (k # ks) = (if k = 0 \<and> \<not> peekonly then next_key peekonly ks else Some (k, ks))"

definition mhx_getkeycode :: "bool \<Rightarrow> 'd mf \<Rightarrow> 'd mf option" where
  "mhx_getkeycode peekonly s = do {
     (k, ks) \<leftarrow> next_key peekonly (keys s);
     Some (s\<lparr>keys := ks, mhx_lastkey := k\<rparr>)
   }"

text \<open>
  \<open>mhx_clear_keybuffer\<close> polls until there is no key; then a key is waited for, with \<open>ignoretab\<close>
  one that is not TAB.
\<close>

definition mhx_clear_keybuffer :: "'d mf \<Rightarrow> 'd mf" where
  "mhx_clear_keybuffer s = s\<lparr>keys := tl (dropWhile (\<lambda>k. k \<noteq> 0) (keys s))\<rparr>"

definition mhx_press_any_key :: "bool \<Rightarrow> 'd mf \<Rightarrow> 'd mf option" where
  "mhx_press_any_key ignoretab s =
    (let s = mhx_clear_keybuffer s in
     mhx_getkeycode False (if ignoretab then s\<lparr>keys := dropWhile (\<lambda>k. k = 0 \<or> k = 0x09) (keys s)\<rparr> else s))"

definition mfhf_display_error :: "string \<Rightarrow> string \<Rightarrow> u8 \<Rightarrow> 'd mf \<Rightarrow> 'd mf option" where
  "mfhf_display_error title error code s =
     mhx_press_any_key False (s\<lparr>shown := shown s @ [(title, error, code)]\<rparr>)"

section \<open>The QSPI controller\<close>

text \<open>\<open>while (PEEK(0xD680) & 0x01);\<close>\<close>

partial_function (option) wait_idle :: "'d mf_device \<Rightarrow> 'd \<Rightarrow> 'd option" where
  "wait_idle dev h = (let (v, h) = dev_peek (card dev) 0xd680 h in
     if v AND 1 \<noteq> 0 then wait_idle dev h else Some h)"

definition await :: "'d mf_device \<Rightarrow> 'd mf \<Rightarrow> 'd mf option" where
  "await dev s = map_option (\<lambda>h. with_hw h s) (wait_idle dev (hwstate s))"

text \<open>The end of every operation: the wait, and bit 0 of the status.\<close>

definition qspi_status :: "'d mf_device \<Rightarrow> ('d, u8) mf_prog" where
  "qspi_status dev s = do {
     s \<leftarrow> await dev s;
     let (e, s) = mf_peek dev 0xd6c1 s;
     Some (if e AND 1 \<noteq> 0 then 1 else 0, s)
   }"

definition qspi_command :: "'d mf_device \<Rightarrow> u8 \<Rightarrow> u32 \<Rightarrow> ('d, u8) mf_prog" where
  "qspi_command dev c address s = do {
     let s = mf_poke dev 0xd681 (ucast (drop_bit 0 address)) s;
     let s = mf_poke dev 0xd682 (ucast (drop_bit 8 address)) s;
     let s = mf_poke dev 0xd683 (ucast (drop_bit 16 address)) s;
     let s = mf_poke dev 0xd684 (ucast (drop_bit 24 address)) s;
     let s = mf_poke dev 0xd680 c s;
     qspi_status dev s
   }"

definition qspi_flash_reset :: "'d mf_device \<Rightarrow> ('d, u8) mf_prog" where
  "qspi_flash_reset dev s = qspi_status dev (mf_poke dev 0xd680 0x60 s)"

text \<open>The caller's buffer is \<open>data_buffer\<close> in every call of these functions, never \<open>NULL\<close>.\<close>

definition qspi_flash_read :: "'d mf_device \<Rightarrow> u32 \<Rightarrow> ('d, u8) mf_prog" where
  "qspi_flash_read dev address s = do {
     (e, s) \<leftarrow> qspi_command dev 0x61 address s;
     if e \<noteq> 0 then Some (1, s)
     else Some (0, s\<lparr>data_buffer := map (qspi_out dev (hwstate s)) [0..<512]\<rparr>)
   }"

definition to_qspi :: "'d mf_device \<Rightarrow> 'd mf \<Rightarrow> 'd mf" where
  "to_qspi dev s = with_hw (qspi_in dev (data_buffer s) (hwstate s)) s"

definition qspi_flash_verify :: "'d mf_device \<Rightarrow> u32 \<Rightarrow> ('d, u8) mf_prog" where
  "qspi_flash_verify dev address s = qspi_command dev 0x62 address (to_qspi dev s)"

definition qspi_flash_program :: "'d mf_device \<Rightarrow> u32 \<Rightarrow> ('d, u8) mf_prog" where
  "qspi_flash_program dev address s = qspi_command dev 0x63 address (to_qspi dev s)"

definition erase_command :: "erase_block_size \<Rightarrow> u8 option" where
  "erase_command b = (case b of Block_4k \<Rightarrow> Some 0x64 | Block_32k \<Rightarrow> Some 0x67 | Block_64k \<Rightarrow> Some 0x68
     | Block_256k \<Rightarrow> Some 0x6a | Block_last \<Rightarrow> None)"

definition qspi_flash_erase :: "'d mf_device \<Rightarrow> erase_block_size \<Rightarrow> u32 \<Rightarrow> ('d, u8) mf_prog" where
  "qspi_flash_erase dev b address s =
    (case erase_command b of None \<Rightarrow> Some (1, s) | Some c \<Rightarrow> qspi_command dev c address s)"

definition qspi_flash_get_size :: "'d mf_device \<Rightarrow> 'd mf \<Rightarrow> u16 \<times> 'd mf" where
  "qspi_flash_get_size dev s = (let (v, s) = mf_peek dev 0xd6c2 s in (ucast v, s))"

definition qspi_flash_get_erase_block_size_support ::
  "'d mf_device \<Rightarrow> erase_block_size \<Rightarrow> 'd mf \<Rightarrow> bool \<times> 'd mf" where
  "qspi_flash_get_erase_block_size_support dev b s = (let (mask, s) = mf_peek dev 0xd6c3 s in
     (case b of Block_4k \<Rightarrow> mask AND 0x01 \<noteq> 0 | Block_32k \<Rightarrow> mask AND 0x08 \<noteq> 0 | Block_64k \<Rightarrow> mask AND 0x10 \<noteq> 0
        | Block_256k \<Rightarrow> mask AND 0x40 \<noteq> 0 | Block_last \<Rightarrow> False, s))"

fun max_block_loop ::
  "'d mf_device \<Rightarrow> erase_block_size list \<Rightarrow> erase_block_size \<Rightarrow> 'd mf \<Rightarrow> erase_block_size \<times> 'd mf" where
  "max_block_loop dev [] result s = (result, s)"
| "max_block_loop dev (b # bs) result s =
    (let (ok, s) = qspi_flash_get_erase_block_size_support dev b s
     in max_block_loop dev bs (if ok then b else result) s)"

text \<open>The size is stored in \<open>mfhf_erase_block_size\<close>, the only variable this is called with.\<close>

definition qspi_flash_get_max_erase_block_size :: "'d mf_device \<Rightarrow> 'd mf \<Rightarrow> u8 \<times> 'd mf" where
  "qspi_flash_get_max_erase_block_size dev s =
    (let (result, s) = max_block_loop dev [Block_4k, Block_32k, Block_64k, Block_256k] Block_last s
     in if result = Block_last then (0xff, s) else (0, s\<lparr>mfhf_erase_block_size := result\<rparr>))"

definition get_erase_block_size_in_bytes :: "erase_block_size \<Rightarrow> u32 option" where
  "get_erase_block_size_in_bytes b = (case b of Block_4k \<Rightarrow> Some (2 ^ 12) | Block_32k \<Rightarrow> Some (2 ^ 15)
     | Block_64k \<Rightarrow> Some (2 ^ 16) | Block_256k \<Rightarrow> Some (2 ^ 18) | Block_last \<Rightarrow> None)"

section \<open>The hardware\<close>

text \<open>
  The lines of \<open>mega65_target\<close> in \<open>megaflash.scr\<close>: the model and the megabytes of a slot. The
  names are for the screen and left out.
\<close>

definition mega65_target :: "(u8 \<times> u8) list" where
  "mega65_target =
    [(0x01, 8), (0x02, 4), (0x03, 8), (0x04, 8), (0x05, 8), (0x06, 8), (0x21, 4), (0x22, 4),
     (0x40, 4), (0x41, 4), (0x42, 4), (0x60, 4), (0x61, 8), (0x62, 8), (0xFD, 4), (0xFE, 8), (0x00, 0)]"

fun find_target :: "(u8 \<times> u8) list \<Rightarrow> u8 \<Rightarrow> u8 option" where
  "find_target [] m = None"
| "find_target ((model_id, slot_mb) # ts) m =
    (if model_id = 0 then None else if model_id = m then Some slot_mb else find_target ts m)"

definition mfut_probe_hardware_version :: "'d mf_device \<Rightarrow> 'd mf \<Rightarrow> u8 \<times> 'd mf" where
  "mfut_probe_hardware_version dev s =
    (let (v, s) = mf_peek dev 0xd629 s;
         s = s\<lparr>hw_model_id := v AND 0xf, hw_model_minor := drop_bit 4 v AND 0xf\<rparr>
     in case find_target mega65_target (hw_model_id s) of
          None \<Rightarrow> (0xff, s)
        | Some mb \<Rightarrow>
            let pages = push_bit 4 mb
            in (0, s\<lparr>mfu_slot_mb := mb, mfu_slot_size := push_bit 16 (ucast pages), mfu_slot_pagemask := pages - 1\<rparr>))"

definition mfhf_init :: "'d mf_device \<Rightarrow> ('d, u8) mf_prog" where
  "mfhf_init dev s =
    (if hw_model_id s = 0x00 \<or> hw_model_id s = 0xfe then Some (1, s)
     else do {
       (e, s) \<leftarrow> qspi_flash_reset dev s;
       if e \<noteq> 0 then Some (1, s)
       else do {
         let (size, s) = qspi_flash_get_size dev s;
         let (e, s) = qspi_flash_get_max_erase_block_size dev s;
         if e \<noteq> 0 then Some (1, s)
         else Some (0, s\<lparr>slot_count := ucast (size div ucast (mfu_slot_mb s))\<rparr>)
       }
     })"

section \<open>Loading a core\<close>

definition mfhf_read_core_header_from_flash :: "'d mf_device \<Rightarrow> u8 \<Rightarrow> ('d, u8) mf_prog" where
  "mfhf_read_core_header_from_flash dev slot s =
    (if slot \<ge> slot_count s then Some (1, s) else qspi_flash_read dev (ucast slot * mfu_slot_size s) s)"

definition aborted :: "'d mf \<Rightarrow> bool" where
  "aborted s \<longleftrightarrow> mhx_lastkey s = 0x03 \<or> mhx_lastkey s = 0x1b"

text \<open>
  The loop over the sectors of the file, from \<open>addr\<close> on: \<open>None\<close> when the user aborted, and the
  error of \<open>nhsd_read\<close> or 0.
\<close>

partial_function (option) load_file_loop :: "'d mf_device \<Rightarrow> u32 \<Rightarrow> 'd mf \<Rightarrow> (u8 option \<times> 'd mf) option" where
  "load_file_loop dev addr s =
    (if addr < mfsc_corehdr_length s then do {
       let (err, s) = on_sd (nhsd_read (card dev)) s;
       if err \<noteq> 0 then Some (Some err, s)
       else do {
         let s = s\<lparr>far_mem := far_write (ATTIC + addr) (the_buffer s) (far_mem s)\<rparr>;
         s \<leftarrow> mhx_getkeycode True s;
         if aborted s then Some (None, s) else load_file_loop dev (addr + 512) s
       }
     } else Some (Some 0, s))"

text \<open>
  The loop that computes the checksum. \<open>core_crc\<close> is \<open>None\<close> as long as \<open>first\<close> is 1, when the
  variable is not set. The result is \<open>None\<close> when the user aborted, and \<open>core_crc\<close> else.
\<close>

definition crc_first_block :: "u8 list \<Rightarrow> u8 list" where
  "crc_first_block b = b[MFSC_COREHDR_CRC32 := 0xf0, MFSC_COREHDR_CRC32 + 1 := 0xf0,
     MFSC_COREHDR_CRC32 + 2 := 0xf0, MFSC_COREHDR_CRC32 + 3 := 0xf0]"

partial_function (option) crc_loop ::
  "u32 option \<Rightarrow> u32 \<Rightarrow> 'd mf \<Rightarrow> (u32 option option \<times> 'd mf) option" where
  "crc_loop core_crc addr s =
    (if addr < mfsc_corehdr_length s then do {
       let b = far_read (far_mem s) (ATTIC + addr) 256 @ drop 256 (the_buffer s);
       let s = set_buffer b s;
       if core_crc = None \<and> le32_in b MFSC_COREHDR_LENGTH \<noteq> mfsc_corehdr_length s
       then Some (Some None, set_buffer (crc_first_block b) s)
       else do {
         let crc = (case core_crc of None \<Rightarrow> le32_in b MFSC_COREHDR_CRC32 | Some c \<Rightarrow> c);
         let b = (if core_crc = None then crc_first_block b else b);
         let n = mfsc_corehdr_length s - addr;
         let s = (set_buffer b s)\<lparr>crc32_zp :=
           update_crc32 (data_buffer s) (cfi_data s) (if n > 255 then 0 else ucast n) b (crc32_zp s)\<rparr>;
         s \<leftarrow> mhx_getkeycode True s;
         if aborted s then Some (None, s) else crc_loop (Some crc) (addr + 256) s
       }
     } else Some (Some core_crc, s))"

text \<open>The end of \<open>mfhf_load_core\<close>, when all of the file is in Attic RAM.\<close>

definition mfhf_check_core :: "('d, u8) mf_prog" where
  "mfhf_check_core s = do {
     let s = s\<lparr>data_buffer := fst make_crc32_tables, cfi_data := snd make_crc32_tables, crc32_zp := init_crc32\<rparr>;
     (r, s) \<leftarrow> crc_loop None 0 s;
     (case r of
        None \<Rightarrow> Some (MFHF_LC_NOTLOADED, s)
      | Some core_crc \<Rightarrow> do {
          let good = (core_crc = Some (get_crc32 (crc32_zp s)));
          let s = s\<lparr>mfhf_core_file_state := (if good then MFHF_LC_ATTICOK else mfhf_core_file_state s),
            far_mem := (far_mem s)(ATTIC + of_nat MFSC_COREHDR_BOOTFLAGS := mfsc_corehdr_bootflags s)\<rparr>;
          s \<leftarrow> (if mfhf_core_file_state s = MFHF_LC_NOTLOADED
               then mfhf_display_error ''Load Error'' ''CRC32 Checksum Error!'' NHSD_ERR_NOERROR s else Some s);
          Some (mfhf_core_file_state s, s)
        })
   }"

definition mfhf_load_core :: "'d mf_device \<Rightarrow> ('d, u8) mf_prog" where
  "mfhf_load_core dev s = do {
     let s = s\<lparr>mfhf_core_file_state := MFHF_LC_NOTLOADED\<rparr>;
     let (err, s) = on_sd (nhsd_open_inode (mfsc_corefile_inode s) NHSD_INIT_OPENFILE) s;
     if err \<noteq> 0 then do {
       s \<leftarrow> mfhf_display_error ''Load Error'' ''Could not open core file!'' err s;
       Some (MFHF_LC_NOTLOADED, s)
     } else do {
       (r, s) \<leftarrow> load_file_loop dev 0 s;
       (case r of
          None \<Rightarrow> Some (MFHF_LC_NOTLOADED, s)
        | Some err \<Rightarrow>
            if err \<noteq> 0 then do {
              s \<leftarrow> mfhf_display_error ''Load Error'' ''Error while loading core file!'' err s;
              Some (MFHF_LC_NOTLOADED, s)
            } else mfhf_check_core (snd (on_sd nhsd_close s)))
     }
   }"

text \<open>
  The loop of \<open>mfhf_load_core_from_flash\<close>; no key is read, the test sees the last one. \<open>False\<close> is the
  return inside the loop.
\<close>

partial_function (option) load_flash_loop ::
  "'d mf_device \<Rightarrow> u32 \<Rightarrow> u32 \<Rightarrow> u32 \<Rightarrow> 'd mf \<Rightarrow> (bool \<times> 'd mf) option" where
  "load_flash_loop dev addr_len flash_addr addr s =
    (if addr < addr_len then do {
       (e, s) \<leftarrow> qspi_flash_read dev flash_addr s;
       if e \<noteq> 0 then Some (False, s)
       else do {
         let s = s\<lparr>far_mem := far_write (ATTIC + addr) (data_buffer s) (far_mem s)\<rparr>;
         if aborted s then Some (False, s)
         else load_flash_loop dev addr_len (flash_addr + 512) (addr + 512) s
       }
     } else Some (True, s))"

definition mfhf_load_core_from_flash :: "'d mf_device \<Rightarrow> u8 \<Rightarrow> u32 \<Rightarrow> ('d, u8) mf_prog" where
  "mfhf_load_core_from_flash dev slot addr_len s = do {
     let s = s\<lparr>mfhf_core_file_state := MFHF_LC_NOTLOADED\<rparr>;
     (ok, s) \<leftarrow> load_flash_loop dev addr_len (mfu_slot_size s * ucast slot) 0 s;
     if \<not> ok then Some (MFHF_LC_NOTLOADED, s)
     else do {
       let s = s\<lparr>far_mem := (far_mem s)(ATTIC + of_nat MFSC_COREHDR_BOOTFLAGS := mfsc_corehdr_bootflags s),
         mfsc_corehdr_length := addr_len, mfhf_core_file_state := MFHF_LC_ATTICOK\<rparr>;
       Some (mfhf_core_file_state s, s)
     }
   }"

section \<open>Flashing\<close>

text \<open>0 when the flash holds what Attic RAM holds.\<close>

partial_function (option) mfhf_sectors_differ ::
  "'d mf_device \<Rightarrow> u32 \<Rightarrow> u32 \<Rightarrow> u32 \<Rightarrow> 'd mf \<Rightarrow> (u8 \<times> 'd mf) option" where
  "mfhf_sectors_differ dev attic_addr flash_addr bytes s =
    (if bytes > 0 then do {
       let s = s\<lparr>data_buffer := far_read (far_mem s) (ATTIC + attic_addr) 512\<rparr>;
       let s = mf_poke dev 0xd020 7 s;
       (e, s) \<leftarrow> qspi_flash_verify dev flash_addr s;
       if e \<noteq> 0 then Some (1, s)
       else do {
         let s = mf_poke dev 0xd020 0 s;
         mfhf_sectors_differ dev (attic_addr + 512) (flash_addr + 512) (bytes - 512) s
       }
     } else Some (0, s))"

partial_function (option) erase_loop ::
  "'d mf_device \<Rightarrow> u32 \<Rightarrow> u32 \<Rightarrow> u32 \<Rightarrow> 'd mf \<Rightarrow> (u8 \<times> 'd mf) option" where
  "erase_loop dev bytes addr end_addr s =
    (if addr < end_addr then do {
       let s = mf_poke dev 0xd020 10 s;
       (e, s) \<leftarrow> qspi_flash_erase dev (mfhf_erase_block_size s) addr s;
       if e \<noteq> 0 then Some (1, s)
       else do {
         let s = mf_poke dev 0xd020 0 s;
         erase_loop dev bytes (addr + bytes) end_addr s
       }
     } else Some (0, s))"

definition mfhf_erase_some_sectors :: "'d mf_device \<Rightarrow> u32 \<Rightarrow> u32 \<Rightarrow> ('d, u8) mf_prog" where
  "mfhf_erase_some_sectors dev start_addr end_addr s =
    (case get_erase_block_size_in_bytes (mfhf_erase_block_size s) of
       None \<Rightarrow> Some (1, s)
     | Some bytes \<Rightarrow> erase_loop dev bytes start_addr end_addr s)"

text \<open>The inner loop of \<open>mfhf_flash_sector\<close>, which goes down from \<open>wraddr\<close> to \<open>addr\<close>.\<close>

partial_function (option) program_loop ::
  "'d mf_device \<Rightarrow> u32 \<Rightarrow> u32 \<Rightarrow> u32 \<Rightarrow> 'd mf \<Rightarrow> 'd mf option" where
  "program_loop dev addr end_addr wraddr s =
    (if wraddr > addr then do {
       let s = s\<lparr>data_buffer := far_read (far_mem s) (ATTIC + wraddr - 512 - end_addr) 512\<rparr>;
       let s = mf_poke dev 0xd020 3 s;
       (e, s) \<leftarrow> qspi_flash_program dev (wraddr - 512) s;
       if e \<noteq> 0 then Some s
       else do {
         let s = mf_poke dev 0xd020 0 s;
         program_loop dev addr end_addr (wraddr - 512) s
       }
     } else Some s)"

text \<open>Up to \<open>tries\<close> attempts; \<open>True\<close> when the sector has been verified.\<close>

fun sector_tries :: "'d mf_device \<Rightarrow> nat \<Rightarrow> u32 \<Rightarrow> u32 \<Rightarrow> u32 \<Rightarrow> 'd mf \<Rightarrow> (bool \<times> 'd mf) option" where
  "sector_tries dev 0 addr end_addr bytes s = Some (False, s)"
| "sector_tries dev (Suc tries) addr end_addr bytes s = do {
     (d, s) \<leftarrow> mfhf_sectors_differ dev (addr - end_addr) addr bytes s;
     if d = 0 then Some (True, s)
     else do {
       (_, s) \<leftarrow> mfhf_erase_some_sectors dev addr (addr + bytes) s;
       s \<leftarrow> program_loop dev addr end_addr (addr + bytes) s;
       sector_tries dev tries addr end_addr bytes s
     }
   }"

text \<open>
  How the function ends: it returns a number, or it asks to turn the system off and stays in
  \<open>while (1)\<close>.
\<close>

datatype outcome = Returns u8 | Turn_off

definition mfhf_flash_sector :: "'d mf_device \<Rightarrow> u32 \<Rightarrow> u32 \<Rightarrow> u32 \<Rightarrow> ('d, outcome) mf_prog" where
  "mfhf_flash_sector dev addr end_addr bytes s = do {
     (ok, s) \<leftarrow> sector_tries dev 10 addr end_addr bytes s;
     Some (if ok then Returns 0 else Turn_off, s)
   }"

text \<open>
  The number that \<open>get_erase_block_size_in_bytes\<close> leaves in \<open>size\<close>. It stores nothing for
  \<open>Block_last\<close>, which \<open>mfhf_erase_block_size\<close> never is.
\<close>

definition block_bytes :: "'d mf \<Rightarrow> u32" where
  "block_bytes s = (case get_erase_block_size_in_bytes (mfhf_erase_block_size s) of Some n \<Rightarrow> n | None \<Rightarrow> 0)"

definition mfhf_calc_el_addr :: "'d mf \<Rightarrow> u8 \<Rightarrow> u32" where
  "mfhf_calc_el_addr s el_sector =
    push_bit 16 (ucast (el_sector AND mfu_slot_pagemask s)) AND (0 - block_bytes s)"

text \<open>The loop over the erase list of slot 0; \<open>False\<close> when the function has to give up.\<close>

fun pre_erase :: "'d mf_device \<Rightarrow> bool \<Rightarrow> u8 list \<Rightarrow> 'd mf \<Rightarrow> (bool \<times> 'd mf) option" where
  "pre_erase dev first [] s = Some (True, s)"
| "pre_erase dev first (el # els) s =
    (if el = 0xff then Some (True, s)
     else if first then do {
       let addr = mfhf_calc_el_addr s el;
       (e, s) \<leftarrow> mfhf_erase_some_sectors dev addr (addr + block_bytes s) s;
       if e \<noteq> 0 then Some (False, s) else pre_erase dev False els s
     } else pre_erase dev False els s)"

text \<open>\<open>el_pos + 1\<close>: the number of entries up to the last one that is used.\<close>

definition list_end :: "u8 list \<Rightarrow> nat" where
  "list_end els = length (dropWhile (\<lambda>e. e = 0xff) (rev els))"

text \<open>The loop over the slot from its end down; \<open>el\<close> is \<open>el_pos + 1\<close>.\<close>

partial_function (option) slot_loop ::
  "'d mf_device \<Rightarrow> u8 \<Rightarrow> u32 \<Rightarrow> u32 \<Rightarrow> nat \<Rightarrow> u32 \<Rightarrow> 'd mf \<Rightarrow> (outcome \<times> 'd mf) option" where
  "slot_loop dev slot end_addr bytes el addr s =
    (if addr > end_addr then do {
       let addr = addr - bytes;
       if addr - end_addr \<ge> mfsc_corehdr_length s then slot_loop dev slot end_addr bytes el addr s
       else if slot = 0 \<and> el > 0 \<and> mfhf_calc_el_addr s (mfsc_corehdr_erase_list s ! (el - 1)) = addr
       then slot_loop dev slot end_addr bytes (el - 1) addr s
       else do {
         (r, s) \<leftarrow> mfhf_flash_sector dev addr end_addr bytes s;
         (case r of
            Turn_off \<Rightarrow> Some (Turn_off, s)
          | Returns v \<Rightarrow> if v \<noteq> 0 then Some (Returns 1, s) else slot_loop dev slot end_addr bytes el addr s)
       }
     } else Some (Returns 0, s))"

text \<open>The sectors of the erase list, the last one first.\<close>

fun list_loop :: "'d mf_device \<Rightarrow> u8 list \<Rightarrow> 'd mf \<Rightarrow> (outcome \<times> 'd mf) option" where
  "list_loop dev [] s = Some (Returns 0, s)"
| "list_loop dev (el # els) s =
    (if el = 0xff \<or> el = 0x00 then list_loop dev els s
     else do {
       (r, s) \<leftarrow> mfhf_flash_sector dev (mfhf_calc_el_addr s el) 0 (block_bytes s) s;
       (case r of
          Turn_off \<Rightarrow> Some (Turn_off, s)
        | Returns v \<Rightarrow> if v \<noteq> 0 then Some (Returns 1, s) else list_loop dev els s)
     })"

text \<open>The label \<open>mfhf_flash_finish\<close>.\<close>

definition mfhf_flash_finish :: "u8 \<Rightarrow> ('d, outcome) mf_prog" where
  "mfhf_flash_finish file s = do {
     s \<leftarrow> mfhf_display_error ''Finished Flashing''
       (if file = MFSC_FILE_VALID then ''Core was successfully flashed.'' else ''Slot was successfully erased.'') 0 s;
     Some (Returns 0, s)
   }"

definition flash_slot :: "'d mf_device \<Rightarrow> u8 \<Rightarrow> u8 \<Rightarrow> ('d, outcome) mf_prog" where
  "flash_slot dev file slot s = do {
     let end_addr = mfu_slot_size s * ucast slot;
     let bytes = (if file = MFSC_FILE_ERASE then mfu_slot_size s else block_bytes s);
     (e, s) \<leftarrow> mfhf_erase_some_sectors dev end_addr (end_addr + bytes) s;
     if e \<noteq> 0 \<and> slot \<noteq> 0 then do {
       s \<leftarrow> mfhf_display_error ''Flash Error'' ''Header erase failed!'' NHSD_ERR_NOERROR s;
       Some (Returns 0, s)
     } else if file = MFSC_FILE_ERASE then mfhf_flash_finish file s
     else do {
       let el = (if slot = 0 then list_end (mfsc_corehdr_erase_list s) else 0);
       (r, s) \<leftarrow> slot_loop dev slot end_addr (block_bytes s) el (end_addr + mfu_slot_size s) s;
       if r \<noteq> Returns 0 then Some (r, s)
       else do {
         (r, s) \<leftarrow> (if slot = 0 then list_loop dev (rev (mfsc_corehdr_erase_list s)) s else Some (Returns 0, s));
         if r \<noteq> Returns 0 then Some (r, s) else mfhf_flash_finish file s
       }
     }
   }"

definition mfhf_flash_core :: "'d mf_device \<Rightarrow> u8 \<Rightarrow> u8 \<Rightarrow> ('d, outcome) mf_prog" where
  "mfhf_flash_core dev file slot s = do {
     (ok, s) \<leftarrow> (if slot = 0 then pre_erase dev True (mfhf_slot0_erase_list s) s else Some (True, s));
     if \<not> ok then do {
       s \<leftarrow> mfhf_display_error ''Flash Error'' ''Pre-flash erase failed!'' NHSD_ERR_NOERROR s;
       Some (Returns 0, s)
     } else flash_slot dev file slot s
   }"

end
