(* ===== verification/FlashLaws.thy ===== *)
theory FlashLaws
  imports Flash SdcardLaws
begin

text \<open>
  Properties of the flash tool below its menu.
\<close>

unbundle bit_operations_syntax

section \<open>The controller\<close>

text \<open>
  What \<open>qspiflash.h\<close> and the register map of the controller document. \<open>answers dev c a h ok h'\<close>: the
  command \<open>c\<close> for address \<open>a\<close> ends, with the error bit clear iff \<open>ok\<close>.
\<close>

definition issue :: "'d mf_device \<Rightarrow> u8 \<Rightarrow> u32 \<Rightarrow> 'd \<Rightarrow> 'd" where
  "issue dev c a h =
    dev_poke (card dev) 0xd680 c (dev_poke (card dev) 0xd684 (ucast (drop_bit 24 a))
      (dev_poke (card dev) 0xd683 (ucast (drop_bit 16 a)) (dev_poke (card dev) 0xd682 (ucast (drop_bit 8 a))
        (dev_poke (card dev) 0xd681 (ucast (drop_bit 0 a)) h))))"

definition answers :: "'d mf_device \<Rightarrow> u8 \<Rightarrow> u32 \<Rightarrow> 'd \<Rightarrow> bool \<Rightarrow> 'd \<Rightarrow> bool" where
  "answers dev c a h ok h' \<longleftrightarrow>
    (\<exists>h1 e. wait_idle dev (issue dev c a h) = Some h1 \<and> dev_peek (card dev) 0xd6c1 h1 = (e, h') \<and>
      ok = (e AND 1 = 0))"

definition flash_serves :: "'d mf_device \<Rightarrow> ('d \<Rightarrow> bool) \<Rightarrow> ('d \<Rightarrow> nat \<Rightarrow> u8) \<Rightarrow> bool" where
  "flash_serves dev ready mem \<longleftrightarrow>
    (\<forall>h v. ready h \<longrightarrow> ready (dev_poke (card dev) 0xd020 v h) \<and> mem (dev_poke (card dev) 0xd020 v h) = mem h) \<and>
    (\<forall>h a. ready h \<longrightarrow> (\<exists>ok h'. answers dev 0x61 a h ok h' \<and> ready h' \<and> mem h' = mem h \<and>
      (ok \<longrightarrow> (\<forall>i<512. qspi_out dev h' i = mem h (unat a + i))))) \<and>
    (\<forall>h a bs. ready h \<longrightarrow> length bs = 512 \<longrightarrow>
      (\<exists>ok h'. answers dev 0x62 a (qspi_in dev bs h) ok h' \<and> ready h' \<and> mem h' = mem h \<and>
        (ok \<longrightarrow> (\<forall>i<512. mem h (unat a + i) = bs ! i)))) \<and>
    (\<forall>h a bs. ready h \<longrightarrow> length bs = 512 \<longrightarrow>
      (\<exists>ok h'. answers dev 0x63 a (qspi_in dev bs h) ok h' \<and> ready h' \<and>
        (\<forall>x. x < unat a \<or> unat a + 512 \<le> x \<longrightarrow> mem h' x = mem h x) \<and>
        (ok \<longrightarrow> (\<forall>i<512. mem h' (unat a + i) = mem h (unat a + i) AND bs ! i)))) \<and>
    (\<forall>h a b c n. ready h \<longrightarrow> erase_command b = Some c \<longrightarrow> get_erase_block_size_in_bytes b = Some n \<longrightarrow>
      (\<exists>ok h'. answers dev c a h ok h' \<and> ready h' \<and>
        (\<forall>x. x div unat n \<noteq> unat a div unat n \<longrightarrow> mem h' x = mem h x) \<and>
        (ok \<longrightarrow> (\<forall>x. x div unat n = unat a div unat n \<longrightarrow> mem h' x = 0xff))))"

text \<open>
  A flash that works: besides, erasing and programming report no error, and verifying reports one
  only when the contents differ.
\<close>

definition flash_works :: "'d mf_device \<Rightarrow> ('d \<Rightarrow> bool) \<Rightarrow> ('d \<Rightarrow> nat \<Rightarrow> u8) \<Rightarrow> bool" where
  "flash_works dev ready mem \<longleftrightarrow>
    (\<forall>h a bs ok h'. ready h \<longrightarrow> length bs = 512 \<longrightarrow> answers dev 0x62 a (qspi_in dev bs h) ok h' \<longrightarrow>
      (\<forall>i<512. mem h (unat a + i) = bs ! i) \<longrightarrow> ok) \<and>
    (\<forall>h a bs ok h'. ready h \<longrightarrow> length bs = 512 \<longrightarrow> answers dev 0x63 a (qspi_in dev bs h) ok h' \<longrightarrow> ok) \<and>
    (\<forall>h a b c ok h'. ready h \<longrightarrow> erase_command b = Some c \<longrightarrow> answers dev c a h ok h' \<longrightarrow> ok)"

text \<open>The state after operations that touch the hardware and \<open>data_buffer\<close> only.\<close>

definition moved :: "'d \<Rightarrow> u8 list \<Rightarrow> 'd mf \<Rightarrow> 'd mf" where
  "moved h d s = (with_hw h s)\<lparr>data_buffer := d\<rparr>"

lemma moved_simps [simp]:
  "hwstate (moved h d s) = h"
  "data_buffer (moved h d s) = d"
  "with_hw h' (moved h d s) = moved h' d s"
  "moved h d s\<lparr>data_buffer := d'\<rparr> = moved h d' s"
  "moved h' d' (moved h d s) = moved h' d' s"
  "far_mem (moved h d s) = far_mem s"
  "mfhf_erase_block_size (moved h d s) = mfhf_erase_block_size s"
  "mfu_slot_size (moved h d s) = mfu_slot_size s"
  "mfu_slot_pagemask (moved h d s) = mfu_slot_pagemask s"
  "mfsc_corehdr_length (moved h d s) = mfsc_corehdr_length s"
  "mfsc_corehdr_erase_list (moved h d s) = mfsc_corehdr_erase_list s"
  "mfhf_slot0_erase_list (moved h d s) = mfhf_slot0_erase_list s"
  "shown (moved h d s) = shown s"
  "keys (moved h d s) = keys s"
  "mhx_lastkey (moved h d s) = mhx_lastkey s"
  "block_bytes (moved h d s) = block_bytes s"
  "mfhf_calc_el_addr (moved h d s) el = mfhf_calc_el_addr s el"
  by (simp_all add: moved_def with_hw_def hwstate_def block_bytes_def mfhf_calc_el_addr_def)

lemma moved_intro:
  "with_hw h s = moved h (data_buffer s) s"
  "s\<lparr>data_buffer := d\<rparr> = moved (hwstate s) d s"
  "mf_poke dev a v s = moved (dev_poke (card dev) a v (hwstate s)) (data_buffer s) s"
  "s = moved (hwstate s) (data_buffer s) s"
  by (simp_all add: moved_def with_hw_def hwstate_def mf_poke_def)

lemma hwstate_simps [simp]:
  "hwstate (with_hw h s) = h" "with_hw h (with_hw h' s) = with_hw h s" "data_buffer (with_hw h s) = data_buffer s"
  by (simp_all add: hwstate_def with_hw_def)

lemma qspi_command_answers:
  assumes "answers dev c a (hwstate s) ok h'"
  obtains e where "qspi_command dev c a s = Some (e, moved h' (data_buffer s) s)" and "e = 0 \<longleftrightarrow> ok"
proof -
  have "\<exists>e. qspi_command dev c a s = Some (e, with_hw h' s) \<and> (e = 0 \<longleftrightarrow> ok)"
    using assms
    by (auto simp: answers_def qspi_command_def qspi_status_def await_def mf_poke_def mf_peek_def issue_def
        split: prod.split)
  then show thesis using that by (auto simp: moved_intro(1))
qed

lemma flash_border:
  "flash_serves dev ready mem \<Longrightarrow> ready h \<Longrightarrow>
    ready (dev_poke (card dev) 0xd020 v h) \<and> mem (dev_poke (card dev) 0xd020 v h) = mem h"
  by (simp add: flash_serves_def)

lemma flash_read_ends:
  assumes "flash_serves dev ready mem" and "ready (hwstate s)"
  obtains e h d where "qspi_flash_read dev a s = Some (e, moved h d s)" and "ready h" and "mem h = mem (hwstate s)"
    and "e = 0 \<longrightarrow> d = map (\<lambda>i. mem h (unat a + i)) [0..<512]"
proof -
  obtain ok h' where ans: "answers dev 0x61 a (hwstate s) ok h'" and h': "ready h'" "mem h' = mem (hwstate s)"
    and out: "ok \<longrightarrow> (\<forall>i<512. qspi_out dev h' i = mem (hwstate s) (unat a + i))"
    using assms unfolding flash_serves_def by meson
  obtain e where e: "qspi_command dev 0x61 a s = Some (e, moved h' (data_buffer s) s)" "e = 0 \<longleftrightarrow> ok"
    using ans by (rule qspi_command_answers)
  show thesis
  proof (cases ok)
    case True
    with e have "qspi_flash_read dev a s = Some (0, moved h' (map (qspi_out dev h') [0..<512]) s)"
      by (simp add: qspi_flash_read_def)
    then show ?thesis using h' by (rule that) (simp add: h' out True)
  next
    case False
    with e have "qspi_flash_read dev a s = Some (1, moved h' (data_buffer s) s)"
      by (simp add: qspi_flash_read_def)
    then show ?thesis using h' by (rule that) simp
  qed
qed

lemma flash_verify_ends:
  assumes "flash_serves dev ready mem" and "ready (hwstate s)" and "length (data_buffer s) = 512"
  obtains e h where "qspi_flash_verify dev a s = Some (e, moved h (data_buffer s) s)" and "ready h"
    and "mem h = mem (hwstate s)" and "e = 0 \<longrightarrow> (\<forall>i<512. mem h (unat a + i) = data_buffer s ! i)"
    and "flash_works dev ready mem \<longrightarrow> (\<forall>i<512. mem h (unat a + i) = data_buffer s ! i) \<longrightarrow> e = 0"
proof -
  obtain ok h' where ans: "answers dev 0x62 a (qspi_in dev (data_buffer s) (hwstate s)) ok h'" and h': "ready h'"
    "mem h' = mem (hwstate s)" "ok \<longrightarrow> (\<forall>i<512. mem (hwstate s) (unat a + i) = data_buffer s ! i)"
    using assms unfolding flash_serves_def by meson
  obtain e where cmd: "qspi_command dev 0x62 a (to_qspi dev s) = Some (e, moved h' (data_buffer s) s)" and e: "e = 0 \<longleftrightarrow> ok"
    using qspi_command_answers [of dev "0x62" a "to_qspi dev s" ok h'] ans
    by (auto simp: to_qspi_def moved_intro(1))
  have run: "qspi_flash_verify dev a s = Some (e, moved h' (data_buffer s) s)"
    using cmd by (simp only: qspi_flash_verify_def)
  have "flash_works dev ready mem \<longrightarrow> (\<forall>i<512. mem h' (unat a + i) = data_buffer s ! i) \<longrightarrow> e = 0"
    unfolding flash_works_def h'(2) e using ans assms(2,3) by blast
  then show thesis by (rule that [OF run h'(1,2) h'(3) [folded e h'(2)]])
qed

lemma flash_program_ends:
  assumes "flash_serves dev ready mem" and "ready (hwstate s)" and "length (data_buffer s) = 512"
  obtains e h where "qspi_flash_program dev a s = Some (e, moved h (data_buffer s) s)" and "ready h"
    and "\<forall>x. x < unat a \<or> unat a + 512 \<le> x \<longrightarrow> mem h x = mem (hwstate s) x"
    and "flash_works dev ready mem \<longrightarrow> e = 0 \<and> (\<forall>i<512. mem h (unat a + i) = mem (hwstate s) (unat a + i) AND data_buffer s ! i)"
proof -
  obtain ok h' where ans: "answers dev 0x63 a (qspi_in dev (data_buffer s) (hwstate s)) ok h'" and h': "ready h'"
    "\<forall>x. x < unat a \<or> unat a + 512 \<le> x \<longrightarrow> mem h' x = mem (hwstate s) x"
    "ok \<longrightarrow> (\<forall>i<512. mem h' (unat a + i) = mem (hwstate s) (unat a + i) AND data_buffer s ! i)"
    using assms(1) [unfolded flash_serves_def, THEN conjunct2, THEN conjunct2, THEN conjunct2, THEN conjunct1,
        THEN spec, THEN spec [of _ a], THEN spec, THEN mp, THEN mp, OF assms(2,3)]
    by (elim exE conjE) (rule that)
  obtain e where "qspi_command dev 0x63 a (to_qspi dev s) = Some (e, moved h' (data_buffer s) s)" "e = 0 \<longleftrightarrow> ok"
    using qspi_command_answers [of dev "0x63" a "to_qspi dev s" ok h'] ans
    by (auto simp: to_qspi_def moved_intro(1))
  moreover have "flash_works dev ready mem \<longrightarrow> ok"
    unfolding flash_works_def using ans assms(2,3) by blast
  ultimately show thesis using that h' by (simp add: qspi_flash_program_def)
qed

lemma flash_erase_ends:
  assumes "flash_serves dev ready mem" and "ready (hwstate s)"
    and "get_erase_block_size_in_bytes b = Some n"
  obtains e h where "qspi_flash_erase dev b a s = Some (e, moved h (data_buffer s) s)" and "ready h"
    and "\<forall>x. x div unat n \<noteq> unat a div unat n \<longrightarrow> mem h x = mem (hwstate s) x"
    and "e = 0 \<longrightarrow> (\<forall>x. x div unat n = unat a div unat n \<longrightarrow> mem h x = 0xff)" and "flash_works dev ready mem \<longrightarrow> e = 0"
proof -
  obtain c where c: "erase_command b = Some c"
    using assms(3) by (cases b) (auto simp: erase_command_def get_erase_block_size_in_bytes_def)
  obtain ok h' where ans: "answers dev c a (hwstate s) ok h'" and h': "ready h'"
    "\<forall>x. x div unat n \<noteq> unat a div unat n \<longrightarrow> mem h' x = mem (hwstate s) x"
    "ok \<longrightarrow> (\<forall>x. x div unat n = unat a div unat n \<longrightarrow> mem h' x = 0xff)"
    using assms(1) [unfolded flash_serves_def, THEN conjunct2, THEN conjunct2, THEN conjunct2, THEN conjunct2,
        THEN spec, THEN spec [of _ a], THEN spec, THEN spec, THEN spec, THEN mp, THEN mp, THEN mp, OF assms(2) c assms(3)]
    by (elim exE conjE) (rule that)
  obtain e where e: "qspi_command dev c a s = Some (e, moved h' (data_buffer s) s)" "e = 0 \<longleftrightarrow> ok"
    using ans by (rule qspi_command_answers)
  have "qspi_flash_erase dev b a s = Some (e, moved h' (data_buffer s) s)"
    using e(1) by (simp add: qspi_flash_erase_def c)
  moreover have "flash_works dev ready mem \<longrightarrow> e = 0"
    unfolding flash_works_def e(2) using ans assms(2) c by blast
  ultimately show thesis using h'(1,2) h'(3) [folded e(2)] by (intro that)
qed


section \<open>Verifying, erasing and programming a range\<close>

lemma far_read_length [simp]: "length (far_read f a n) = n"
  by (simp add: far_read_def)

lemma unat_less_sum: "unat (a :: u32) + n \<le> 2 ^ 32 \<Longrightarrow> i < n \<Longrightarrow> unat (a + of_nat i) = unat a + i"
  by (simp add: unat_word_ariths unat_of_nat)

lemma of_nat_pos: "0 < k \<Longrightarrow> k < 2 ^ 32 \<Longrightarrow> (0 :: u32) < of_nat k"
  by (simp add: word_less_nat_alt unat_of_nat)

text \<open>Flash and Attic RAM agree on \<open>n\<close> bytes.\<close>

definition agree :: "(nat \<Rightarrow> u8) \<Rightarrow> nat \<Rightarrow> (u32 \<Rightarrow> u8) \<Rightarrow> u32 \<Rightarrow> nat \<Rightarrow> bool" where
  "agree M a f b n \<longleftrightarrow> (\<forall>i<n. M (a + i) = f (ATTIC + b + of_nat i))"

lemma agree_join:
  assumes "agree M a f b 512" and "agree M (a + 512) f (b + 512) (512 * n)"
  shows "agree M a f b (512 * Suc n)"
proof -
  have "M (a + i) = f (ATTIC + b + of_nat i)" if "i < 512 * Suc n" for i
  proof (cases "i < 512")
    case False
    then obtain j where j: "i = 512 + j" by (metis le_Suc_ex not_less)
    then have "M (a + 512 + j) = f (ATTIC + (b + 512) + of_nat j)"
      using assms(2) that by (simp add: agree_def)
    then show ?thesis by (simp add: j ac_simps)
  qed (use assms(1) in \<open>simp add: agree_def\<close>)
  then show ?thesis by (simp add: agree_def)
qed

lemma agree_tail:
  assumes "agree M a f b (512 * Suc n)"
  shows "agree M (a + 512) f (b + 512) (512 * n)"
proof -
  have "M (a + 512 + i) = f (ATTIC + (b + 512) + of_nat i)" if "i < 512 * n" for i
    using assms [unfolded agree_def, rule_format, of "512 + i"] that by (simp add: ac_simps)
  then show ?thesis by (simp add: agree_def)
qed

lemma sectors_differ_ends:
  assumes "flash_serves dev ready mem"
  shows "ready (hwstate s) \<Longrightarrow> 512 * n < 2 ^ 32 \<Longrightarrow> unat a + 512 * n \<le> 2 ^ 32 \<Longrightarrow>
    \<exists>r h d. mfhf_sectors_differ dev b a (of_nat (512 * n)) s = Some (r, moved h d s) \<and> ready h \<and>
      mem h = mem (hwstate s) \<and> (r = 0 \<longrightarrow> agree (mem h) (unat a) (far_mem s) b (512 * n)) \<and>
      (flash_works dev ready mem \<longrightarrow> agree (mem h) (unat a) (far_mem s) b (512 * n) \<longrightarrow> r = 0)"
proof (induction n arbitrary: a b s)
  case 0
  then show ?case
    by (subst mfhf_sectors_differ.simps) (auto simp: agree_def intro!: exI [of _ "hwstate s"] moved_intro(4))
next
  case (Suc n)
  let ?d = "far_read (far_mem s) (ATTIC + b) 512"
  let ?s1 = "moved (dev_poke (card dev) 0xd020 7 (hwstate s)) ?d s"
  have b1: "ready (hwstate ?s1)" "mem (hwstate ?s1) = mem (hwstate s)"
    using flash_border [OF assms Suc.prems(1)] by simp_all
  obtain e h1 where v: "qspi_flash_verify dev a ?s1 = Some (e, moved h1 ?d s)" and h1: "ready h1" "mem h1 = mem (hwstate s)"
    and eq: "e = 0 \<longrightarrow> (\<forall>i<512. mem h1 (unat a + i) = ?d ! i)"
    and works: "flash_works dev ready mem \<longrightarrow> (\<forall>i<512. mem h1 (unat a + i) = ?d ! i) \<longrightarrow> e = 0"
    by (rule flash_verify_ends [OF assms b1(1), of a]) (use b1(2) in auto)
  have pos: "(0 :: u32) < of_nat (512 * Suc n)"
    using Suc.prems(2) by (intro of_nat_pos) simp_all
  have less: "of_nat (512 * Suc n) - 512 = (of_nat (512 * n) :: u32)" by simp
  show ?case
  proof (cases "e = 0")
    case False
    have "mfhf_sectors_differ dev b a (of_nat (512 * Suc n)) s = Some (1, moved h1 ?d s)"
      using False v pos
      by (subst mfhf_sectors_differ.simps) (simp add: moved_intro(2,3) del: of_nat_mult of_nat_Suc)
    moreover have "\<not> (flash_works dev ready mem \<and> agree (mem h1) (unat a) (far_mem s) b (512 * Suc n))"
    proof
      assume "flash_works dev ready mem \<and> agree (mem h1) (unat a) (far_mem s) b (512 * Suc n)"
      moreover from this have "\<forall>i<512. mem h1 (unat a + i) = ?d ! i" by (simp add: agree_def far_read_def)
      ultimately show False using works False by blast
    qed
    ultimately show ?thesis using h1 by (intro exI [of _ 1] exI [of _ h1] exI [of _ ?d]) simp
  next
    case True
    let ?s2 = "moved (dev_poke (card dev) 0xd020 0 h1) ?d s"
    have b2: "ready (hwstate ?s2)" "mem (hwstate ?s2) = mem (hwstate s)"
      using flash_border [OF assms h1(1)] h1(2) by simp_all
    have here: "agree (mem (hwstate s)) (unat a) (far_mem s) b 512"
      using eq True h1(2) by (simp add: agree_def far_read_def)
    have step: "mfhf_sectors_differ dev b a (of_nat (512 * Suc n)) s =
        mfhf_sectors_differ dev (b + 512) (a + 512) (of_nat (512 * n)) ?s2"
      using v pos True
      by (subst mfhf_sectors_differ.simps) (simp add: moved_intro(2,3) less del: of_nat_mult of_nat_Suc)
    show ?thesis
    proof (cases n)
      case 0
      then show ?thesis unfolding step using b2 here
        by (subst mfhf_sectors_differ.simps) (auto intro!: exI [of _ "dev_poke (card dev) 0xd020 0 h1"])
    next
      case (Suc m)
      have next_a: "unat (a + 512) = unat a + 512"
        using unat_less_sum [of a "512 * Suc n" 512] Suc.prems(3) Suc by simp
      have "unat (a + 512) + 512 * n \<le> 2 ^ 32" using Suc.prems(3) next_a by simp
      then obtain r h d where rec: "mfhf_sectors_differ dev (b + 512) (a + 512) (of_nat (512 * n)) ?s2 = Some (r, moved h d ?s2)"
        and h: "ready h" "mem h = mem (hwstate s)" and r: "r = 0 \<longrightarrow> agree (mem h) (unat a + 512) (far_mem s) (b + 512) (512 * n)"
        "flash_works dev ready mem \<longrightarrow> agree (mem h) (unat a + 512) (far_mem s) (b + 512) (512 * n) \<longrightarrow> r = 0"
        using Suc.IH [OF b2(1), of "a + 512" "b + 512"] Suc.prems(2) b2(2) next_a by auto
      have "r = 0 \<longrightarrow> agree (mem h) (unat a) (far_mem s) b (512 * Suc n)"
        using r(1) here agree_join unfolding h(2) by blast
      moreover have "flash_works dev ready mem \<longrightarrow> agree (mem h) (unat a) (far_mem s) b (512 * Suc n) \<longrightarrow> r = 0"
        using r(2) agree_tail by blast
      ultimately show ?thesis unfolding step rec using h
        by (intro exI [of _ r] exI [of _ h] exI [of _ d] conjI) simp_all
    qed
  qed
qed

text \<open>Nothing outside \<open>n\<close> bytes from \<open>a\<close> on has changed.\<close>

definition same_outside :: "nat \<Rightarrow> nat \<Rightarrow> (nat \<Rightarrow> u8) \<Rightarrow> (nat \<Rightarrow> u8) \<Rightarrow> bool" where
  "same_outside a n M M' \<longleftrightarrow> (\<forall>x. x < a \<or> a + n \<le> x \<longrightarrow> M' x = M x)"

definition erased :: "(nat \<Rightarrow> u8) \<Rightarrow> nat \<Rightarrow> nat \<Rightarrow> bool" where
  "erased M a n \<longleftrightarrow> (\<forall>x. a \<le> x \<and> x < a + n \<longrightarrow> M x = 0xff)"

lemma same_outside_refl [simp]: "same_outside a n M M"
  by (simp add: same_outside_def)

lemma same_outside_trans: "same_outside a n M M' \<Longrightarrow> same_outside a n M' M'' \<Longrightarrow> same_outside a n M M''"
  by (simp add: same_outside_def)

lemma same_outside_widen:
  "same_outside a n M M' \<Longrightarrow> b \<le> a \<Longrightarrow> a + n \<le> b + m \<Longrightarrow> same_outside b m M M'"
  by (simp add: same_outside_def)

lemma same_block_iff:
  assumes "(a :: nat) mod B = 0" and "0 < B"
  shows "x div B = a div B \<longleftrightarrow> a \<le> x \<and> x < a + B"
proof -
  obtain q where a: "a = q * B" using assms(1) by (metis mod_0_imp_dvd dvdE mult.commute)
  then have "x div B = a div B \<longleftrightarrow> x div B = q" using assms(2) by simp
  also have "\<dots> \<longleftrightarrow> q * B \<le> x \<and> x < Suc q * B"
    using assms(2) div_times_less_eq_dividend [of x B] dividend_less_div_times [of B x]
    by (auto intro!: div_nat_eqI simp: mult.commute)
  finally show ?thesis by (simp add: a add.commute)
qed

lemma erase_loop_ends:
  assumes "flash_serves dev ready mem" and "get_erase_block_size_in_bytes b = Some n"
  shows "ready (hwstate s) \<Longrightarrow> mfhf_erase_block_size s = b \<Longrightarrow> unat a mod unat n = 0 \<Longrightarrow>
    unat a + k * unat n < 2 ^ 32 \<Longrightarrow>
    \<exists>r h d. erase_loop dev n a (a + of_nat (k * unat n)) s = Some (r, moved h d s) \<and> ready h \<and>
      same_outside (unat a) (k * unat n) (mem (hwstate s)) (mem h) \<and>
      (r = 0 \<longrightarrow> erased (mem h) (unat a) (k * unat n)) \<and> (flash_works dev ready mem \<longrightarrow> r = 0)"
proof (induction k arbitrary: a s)
  case 0
  then show ?case
    by (subst erase_loop.simps) (auto simp: erased_def intro!: exI [of _ "hwstate s"] moved_intro(4))
next
  case (Suc k)
  let ?B = "unat n"
  have B: "0 < ?B" using assms(2) by (cases b) (auto simp: get_erase_block_size_in_bytes_def)
  let ?s1 = "moved (dev_poke (card dev) 0xd020 10 (hwstate s)) (data_buffer s) s"
  have b1: "ready (hwstate ?s1)" "mem (hwstate ?s1) = mem (hwstate s)"
    using flash_border [OF assms(1) Suc.prems(1)] by simp_all
  obtain e h1 where v: "qspi_flash_erase dev b a ?s1 = Some (e, moved h1 (data_buffer s) s)" and h1: "ready h1"
    and out: "\<forall>x. x div ?B \<noteq> unat a div ?B \<longrightarrow> mem h1 x = mem (hwstate s) x"
    and er: "e = 0 \<longrightarrow> (\<forall>x. x div ?B = unat a div ?B \<longrightarrow> mem h1 x = 0xff)" and works: "flash_works dev ready mem \<longrightarrow> e = 0"
    by (rule flash_erase_ends [OF assms(1) b1(1) assms(2), of a]) (use b1(2) in auto)
  have out1: "same_outside (unat a) ?B (mem (hwstate s)) (mem h1)"
    using out unfolding same_block_iff [OF Suc.prems(3) B] by (auto simp: same_outside_def)
  have end_a: "unat (a + of_nat (Suc k * ?B)) = unat a + Suc k * ?B"
    using unat_less_sum [of a "Suc (Suc k * ?B)" "Suc k * ?B"] Suc.prems(4) by simp
  have less: "a < a + of_nat (Suc k * ?B)"
    unfolding word_less_nat_alt end_a using B by simp
  show ?case
  proof (cases "e = 0")
    case False
    have "same_outside (unat a) (Suc k * ?B) (mem (hwstate s)) (mem h1)"
      using out1 by (rule same_outside_widen) simp_all
    moreover have "erase_loop dev n a (a + of_nat (Suc k * ?B)) s = Some (1, moved h1 (data_buffer s) s)"
      using v False less Suc.prems(2)
      by (subst erase_loop.simps) (simp add: moved_intro(3) del: of_nat_mult of_nat_Suc)
    ultimately show ?thesis using h1 False works by auto
  next
    case True
    let ?s2 = "moved (dev_poke (card dev) 0xd020 0 h1) (data_buffer s) s"
    have b2: "ready (hwstate ?s2)" "mem (hwstate ?s2) = mem h1"
      using flash_border [OF assms(1) h1] by simp_all
    have here: "erased (mem h1) (unat a) ?B"
      using er True unfolding same_block_iff [OF Suc.prems(3) B] by (simp add: erased_def)
    have next_a: "unat (a + n) = unat a + ?B"
      using unat_less_sum [of a "Suc ?B" ?B] Suc.prems(4) by simp
    have sum: "a + of_nat (Suc k * ?B) = (a + n) + of_nat (k * ?B)" by (simp add: algebra_simps)
    have step: "erase_loop dev n a (a + of_nat (Suc k * ?B)) s = erase_loop dev n (a + n) ((a + n) + of_nat (k * ?B)) ?s2"
      unfolding sum [symmetric] using v less True Suc.prems(2)
      by (subst erase_loop.simps) (simp add: moved_intro(3) del: of_nat_mult of_nat_Suc)
    have "unat (a + n) + k * ?B < 2 ^ 32" "unat (a + n) mod ?B = 0"
      using Suc.prems(3,4) next_a by simp_all
    then obtain r h d where
      rec: "erase_loop dev n (a + n) ((a + n) + of_nat (k * ?B)) ?s2 = Some (r, moved h d ?s2)" and h: "ready h"
      and o2: "same_outside (unat a + ?B) (k * ?B) (mem h1) (mem h)"
      and r: "r = 0 \<longrightarrow> erased (mem h) (unat a + ?B) (k * ?B)" "flash_works dev ready mem \<longrightarrow> r = 0"
      using Suc.IH [OF b2(1), of "a + n"] Suc.prems(2) b2(2) next_a by auto
    have "same_outside (unat a) (Suc k * ?B) (mem (hwstate s)) (mem h)"
      by (rule same_outside_trans [OF same_outside_widen [OF out1] same_outside_widen [OF o2]]) simp_all
    moreover have "r = 0 \<longrightarrow> erased (mem h) (unat a) (Suc k * ?B)"
    proof (intro impI)
      assume "r = 0"
      have "mem h x = 0xff" if "unat a \<le> x" "x < unat a + Suc k * ?B" for x
      proof (cases "x < unat a + ?B")
        case True
        then show ?thesis using o2 here that by (simp add: same_outside_def erased_def)
      next
        case False
        then show ?thesis using r(1) \<open>r = 0\<close> that by (simp add: erased_def)
      qed
      then show "erased (mem h) (unat a) (Suc k * ?B)" by (simp add: erased_def)
    qed
    ultimately show ?thesis unfolding step rec using h r(2) by (intro exI [of _ r] exI [of _ h] exI [of _ d]) simp
  qed
qed

lemma agree_outside:
  "same_outside a n M M' \<Longrightarrow> agree M b f c m \<Longrightarrow> b + m \<le> a \<or> a + n \<le> b \<Longrightarrow> agree M' b f c m"
  by (auto simp: same_outside_def agree_def)

lemma ff_and: "0xff AND v = (v :: u8)"
proof -
  have "(0xff :: u8) = - 1" by simp
  then show ?thesis by (metis and.left_neutral)
qed

lemma agree_append:
  assumes "agree M a f b n" and "agree M (a + n) f (b + of_nat n) 512"
  shows "agree M a f b (512 + n)"
proof -
  have "M (a + i) = f (ATTIC + b + of_nat i)" if "i < 512 + n" for i
  proof (cases "i < n")
    case False
    then obtain j where j: "i = n + j" by (metis le_Suc_ex not_less)
    then have "M (a + n + j) = f (ATTIC + (b + of_nat n) + of_nat j)"
      using assms(2) that by (simp add: agree_def)
    then show ?thesis by (simp add: j ac_simps)
  qed (use assms(1) in \<open>simp add: agree_def\<close>)
  then show ?thesis by (simp add: agree_def)
qed

lemma program_loop_ends:
  assumes "flash_serves dev ready mem"
  shows "ready (hwstate s) \<Longrightarrow> unat a + 512 * k < 2 ^ 32 \<Longrightarrow>
    \<exists>h d. program_loop dev a e (a + of_nat (512 * k)) s = Some (moved h d s) \<and> ready h \<and>
      same_outside (unat a) (512 * k) (mem (hwstate s)) (mem h) \<and>
      (flash_works dev ready mem \<longrightarrow> erased (mem (hwstate s)) (unat a) (512 * k) \<longrightarrow>
        agree (mem h) (unat a) (far_mem s) (a - e) (512 * k))"
proof (induction k arbitrary: s)
  case 0
  then show ?case
    by (subst program_loop.simps) (auto simp: agree_def intro!: exI [of _ "hwstate s"] moved_intro(4))
next
  case (Suc k)
  let ?w = "a + of_nat (512 * Suc k)"
  let ?d = "far_read (far_mem s) (ATTIC + ?w - 512 - e) 512"
  let ?s1 = "moved (dev_poke (card dev) 0xd020 3 (hwstate s)) ?d s"
  have b1: "ready (hwstate ?s1)" "mem (hwstate ?s1) = mem (hwstate s)"
    using flash_border [OF assms(1) Suc.prems(1)] by simp_all
  have w: "unat ?w = unat a + 512 * Suc k"
    using unat_less_sum [of a "Suc (512 * Suc k)" "512 * Suc k"] Suc.prems(2) by simp
  have less: "a < ?w" unfolding word_less_nat_alt w by simp
  have prev: "?w - 512 = a + of_nat (512 * k)" by simp
  have prev_w: "unat (?w - 512) = unat a + 512 * k"
    unfolding prev using unat_less_sum [of a "Suc (512 * k)" "512 * k"] Suc.prems(2) by simp
  obtain r h1 where v: "qspi_flash_program dev (?w - 512) ?s1 = Some (r, moved h1 ?d s)" and h1: "ready h1"
    and out: "\<forall>x. x < unat (?w - 512) \<or> unat (?w - 512) + 512 \<le> x \<longrightarrow> mem h1 x = mem (hwstate s) x"
    and works: "flash_works dev ready mem \<longrightarrow>
      r = 0 \<and> (\<forall>i<512. mem h1 (unat (?w - 512) + i) = mem (hwstate s) (unat (?w - 512) + i) AND ?d ! i)"
    by (rule flash_program_ends [OF assms b1(1), of "?w - 512"]) (use b1(2) in auto)
  have out1: "same_outside (unat a) (512 * Suc k) (mem (hwstate s)) (mem h1)"
    using out unfolding prev_w by (simp add: same_outside_def)
  show ?case
  proof (cases "r = 0")
    case False
    then have "program_loop dev a e ?w s = Some (moved h1 ?d s)"
      using v less by (subst program_loop.simps) (simp add: moved_intro(2,3) del: of_nat_mult of_nat_Suc)
    then show ?thesis using h1 out1 works False by auto
  next
    case True
    let ?s2 = "moved (dev_poke (card dev) 0xd020 0 h1) ?d s"
    have b2: "ready (hwstate ?s2)" "mem (hwstate ?s2) = mem h1"
      using flash_border [OF assms(1) h1] by simp_all
    have step: "program_loop dev a e ?w s = program_loop dev a e (a + of_nat (512 * k)) ?s2"
      using v less True unfolding prev [symmetric]
      by (subst program_loop.simps) (simp add: moved_intro(2,3) del: of_nat_mult of_nat_Suc)
    obtain h d where rec: "program_loop dev a e (a + of_nat (512 * k)) ?s2 = Some (moved h d ?s2)" and h: "ready h"
      and o2: "same_outside (unat a) (512 * k) (mem h1) (mem h)" and works2: "flash_works dev ready mem \<longrightarrow>
        erased (mem h1) (unat a) (512 * k) \<longrightarrow> agree (mem h) (unat a) (far_mem s) (a - e) (512 * k)"
      using Suc.IH [OF b2(1)] Suc.prems(2) b2(2) by auto
    have "same_outside (unat a) (512 * Suc k) (mem (hwstate s)) (mem h)"
      by (rule same_outside_trans [OF out1 same_outside_widen [OF o2]]) simp_all
    moreover have "agree (mem h) (unat a) (far_mem s) (a - e) (512 * Suc k)"
      if w: "flash_works dev ready mem" and er: "erased (mem (hwstate s)) (unat a) (512 * Suc k)"
    proof -
      have low: "erased (mem h1) (unat a) (512 * k)"
        using er out unfolding prev_w by (simp add: erased_def)
      have "mem h1 (unat a + 512 * k + i) = far_mem s (ATTIC + (a - e + of_nat (512 * k)) + of_nat i)" if "i < 512" for i
      proof -
        have "mem h1 (unat a + 512 * k + i) = 0xff AND ?d ! i"
          using works w er that unfolding prev_w by (simp add: erased_def)
        then show ?thesis using that by (simp add: far_read_def ff_and algebra_simps)
      qed
      then have top: "agree (mem h1) (unat a + 512 * k) (far_mem s) (a - e + of_nat (512 * k)) 512"
        by (simp add: agree_def)
      have "agree (mem h) (unat a + 512 * k) (far_mem s) (a - e + of_nat (512 * k)) 512"
        using o2 top by (rule agree_outside) simp
      then have "agree (mem h) (unat a) (far_mem s) (a - e) (512 + 512 * k)"
        using works2 w low by (intro agree_append) auto
      then show ?thesis by simp
    qed
    ultimately show ?thesis unfolding step rec using h by auto
  qed
qed

lemma block_size_facts:
  assumes "get_erase_block_size_in_bytes b = Some n"
  obtains k where "unat n = 512 * k" and "0 < k" and "k \<le> 512" and "2 ^ 20 mod unat n = 0"
proof -
  have "unat n = 512 * 8 \<or> unat n = 512 * 64 \<or> unat n = 512 * 128 \<or> unat n = 512 * 512"
    using assms by (cases b) (auto simp: get_erase_block_size_in_bytes_def)
  then show thesis using that [of 8] that [of 64] that [of 128] that [of 512] by auto
qed

text \<open>Any number of attempts at a sector, whatever the controller answers.\<close>

lemma sector_tries_ends:
  assumes "flash_serves dev ready mem" and "get_erase_block_size_in_bytes b = Some n"
    and "unat a mod unat n = 0" and "unat a + unat n < 2 ^ 32"
  shows "ready (hwstate s) \<Longrightarrow> mfhf_erase_block_size s = b \<Longrightarrow>
    \<exists>ok h d. sector_tries dev t a e n s = Some (ok, moved h d s) \<and> ready h \<and>
      same_outside (unat a) (unat n) (mem (hwstate s)) (mem h) \<and>
      (ok \<longrightarrow> agree (mem h) (unat a) (far_mem s) (a - e) (unat n)) \<and>
      (flash_works dev ready mem \<longrightarrow>
        2 \<le> t \<or> 1 \<le> t \<and> agree (mem (hwstate s)) (unat a) (far_mem s) (a - e) (unat n) \<longrightarrow> ok)"
proof (induction t arbitrary: s)
  case 0
  have "sector_tries dev 0 a e n s = Some (False, moved (hwstate s) (data_buffer s) s)"
    unfolding moved_intro(4) [symmetric] by (rule sector_tries.simps)
  with 0 show ?case by (intro exI [of _ False] exI [of _ "hwstate s"] exI [of _ "data_buffer s"] conjI) simp_all
next
  case (Suc t)
  obtain k where k: "unat n = 512 * k" "0 < k" "k \<le> 512"
    using assms(2) by (rule block_size_facts)
  have n: "n = of_nat (512 * k)" unfolding k(1) [symmetric] by simp
  obtain r h1 d1 where v: "mfhf_sectors_differ dev (a - e) a n s = Some (r, moved h1 d1 s)" and h1: "ready h1"
    "mem h1 = mem (hwstate s)" and eq: "r = 0 \<longrightarrow> agree (mem h1) (unat a) (far_mem s) (a - e) (unat n)"
    and w1: "flash_works dev ready mem \<longrightarrow> agree (mem h1) (unat a) (far_mem s) (a - e) (unat n) \<longrightarrow> r = 0"
    using sectors_differ_ends [OF assms(1) Suc.prems(1), of k a "a - e", folded n, folded k(1)]
      assms(4) by (elim meta_impE exE conjE) simp_all
  show ?case
  proof (cases "r = 0")
    case True
    then have "sector_tries dev (Suc t) a e n s = Some (True, moved h1 d1 s)" by (simp add: v)
    then show ?thesis using True h1 eq
      by (intro exI [of _ True] exI [of _ h1] exI [of _ d1] conjI) simp_all
  next
    case False
    have "unat a + 1 * unat n < 2 ^ 32" using assms(4) by simp
    then obtain r2 h2 d2 where er: "erase_loop dev n a (a + n) (moved h1 d1 s) = Some (r2, moved h2 d2 s)" and h2: "ready h2"
      and o2: "same_outside (unat a) (unat n) (mem h1) (mem h2)"
      and w2: "flash_works dev ready mem \<longrightarrow> erased (mem h2) (unat a) (unat n)"
      using erase_loop_ends [OF assms(1,2), of "moved h1 d1 s" a 1] h1(1) Suc.prems(2) assms(3) by auto
    have er': "mfhf_erase_some_sectors dev a (a + n) (moved h1 d1 s) = Some (r2, moved h2 d2 s)"
      using er assms(2) Suc.prems(2) by (simp add: mfhf_erase_some_sectors_def)
    obtain h3 d3 where pr: "program_loop dev a e (a + n) (moved h2 d2 s) = Some (moved h3 d3 s)" and h3: "ready h3"
      and o3: "same_outside (unat a) (unat n) (mem h2) (mem h3)"
      and w3: "flash_works dev ready mem \<longrightarrow> erased (mem h2) (unat a) (unat n) \<longrightarrow>
        agree (mem h3) (unat a) (far_mem s) (a - e) (unat n)"
      using program_loop_ends [OF assms(1), of "moved h2 d2 s" a k e, folded n, folded k(1)] h2 assms(4)
      by (elim meta_impE exE conjE) simp_all
    obtain ok h d where rec: "sector_tries dev t a e n (moved h3 d3 s) = Some (ok, moved h d s)" and h: "ready h"
      and o4: "same_outside (unat a) (unat n) (mem h3) (mem h)"
      and ok: "ok \<longrightarrow> agree (mem h) (unat a) (far_mem s) (a - e) (unat n)"
      and w4: "flash_works dev ready mem \<longrightarrow>
        2 \<le> t \<or> 1 \<le> t \<and> agree (mem h3) (unat a) (far_mem s) (a - e) (unat n) \<longrightarrow> ok"
      using Suc.IH [of "moved h3 d3 s"] h3 Suc.prems(2) by (elim meta_impE exE conjE) simp_all
    have "same_outside (unat a) (unat n) (mem (hwstate s)) (mem h)"
      using o2 o3 o4 unfolding h1(2) by (blast intro: same_outside_trans)
    moreover have "sector_tries dev (Suc t) a e n s = Some (ok, moved h d s)"
      using False by (simp add: v er' pr rec)
    moreover have "ok" if "flash_works dev ready mem"
      "2 \<le> Suc t \<or> 1 \<le> Suc t \<and> agree (mem (hwstate s)) (unat a) (far_mem s) (a - e) (unat n)"
      using that False w1 w2 w3 w4 h1(2) by auto
    ultimately show ?thesis using h ok by (intro exI [of _ ok] exI [of _ h] exI [of _ d] conjI) blast+
  qed
qed

lemma flash_sector_ends:
  assumes "flash_serves dev ready mem" and "get_erase_block_size_in_bytes (mfhf_erase_block_size s) = Some n"
    and "unat a mod unat n = 0" and "unat a + unat n < 2 ^ 32" and "ready (hwstate s)"
  obtains r h d where "mfhf_flash_sector dev a e n s = Some (r, moved h d s)" and "ready h"
    and "same_outside (unat a) (unat n) (mem (hwstate s)) (mem h)"
    and "r = Returns 0 \<and> agree (mem h) (unat a) (far_mem s) (a - e) (unat n) \<or>
      r = Turn_off \<and> \<not> flash_works dev ready mem"
proof -
  obtain ok h d where "sector_tries dev 10 a e n s = Some (ok, moved h d s)" and "ready h"
    "same_outside (unat a) (unat n) (mem (hwstate s)) (mem h)"
    "ok \<longrightarrow> agree (mem h) (unat a) (far_mem s) (a - e) (unat n)" "flash_works dev ready mem \<longrightarrow> ok"
    using sector_tries_ends [OF assms(1-4) assms(5) refl, of 10 e] by auto
  then show thesis using that by (cases ok) (auto simp: mfhf_flash_sector_def)
qed


section \<open>Flashing a slot\<close>

text \<open>
  The blocks of a slot from its start \<open>E\<close> on hold what Attic RAM holds, as far as the core is
  longer than their offset and \<open>P\<close> does not except them.
\<close>

definition blocks_done ::
  "(nat \<Rightarrow> u8) \<Rightarrow> nat \<Rightarrow> (u32 \<Rightarrow> u8) \<Rightarrow> nat \<Rightarrow> nat \<Rightarrow> (nat \<Rightarrow> bool) \<Rightarrow> bool" where
  "blocks_done M E f B L P \<longleftrightarrow> (\<forall>i. P i \<and> i * B < L \<longrightarrow> agree M (E + i * B) f (of_nat (i * B)) B)"

text \<open>
  What the loop over the \<open>k\<close> lowest blocks of a slot leaves behind: at its end all blocks are done
  but those that \<open>X\<close> excepts; when a block \<open>j\<close> could not be written, the blocks below it are as
  they were, and with \<open>strict\<close> those above it are done.
\<close>

definition slot_result ::
  "bool \<Rightarrow> nat \<Rightarrow> (u32 \<Rightarrow> u8) \<Rightarrow> nat \<Rightarrow> nat \<Rightarrow> nat \<Rightarrow> (nat \<Rightarrow> bool) \<Rightarrow> (nat \<Rightarrow> u8) \<Rightarrow> (nat \<Rightarrow> u8) \<Rightarrow> outcome \<Rightarrow> bool" where
  "slot_result strict E f B L k X M M' r \<longleftrightarrow>
    same_outside E (k * B) M M' \<and>
    (r = Returns 0 \<and> blocks_done M' E f B L (\<lambda>i. i < k \<and> \<not> X i) \<or>
     r = Turn_off \<and> (\<exists>j<k. same_outside (E + j * B) ((k - j) * B) M M' \<and>
       (strict \<longrightarrow> blocks_done M' E f B L (\<lambda>i. j < i \<and> i < k))))"

lemma slot_result_skip:
  assumes "slot_result strict E f B L k X M M' r" and "L \<le> k * B \<or> \<not> strict \<and> Y k" and "\<And>i. X i \<Longrightarrow> Y i"
  shows "slot_result strict E f B L (Suc k) Y M M' r"
proof -
  have out: "same_outside E (Suc k * B) M M'"
    using assms(1) by (auto simp: slot_result_def intro: same_outside_widen)
  have less: "i < k" if "i < Suc k" "i * B < L" "strict \<or> \<not> Y i" for i
    using that assms(2) by (cases "i = k") auto
  consider "r = Returns 0" "blocks_done M' E f B L (\<lambda>i. i < k \<and> \<not> X i)"
    | j where "r = Turn_off" "j < k" "same_outside (E + j * B) ((k - j) * B) M M'"
      "strict \<longrightarrow> blocks_done M' E f B L (\<lambda>i. j < i \<and> i < k)"
    using assms(1) by (auto simp: slot_result_def)
  then show ?thesis
  proof cases
    case 1
    then show ?thesis using out less assms(3) by (auto simp: slot_result_def blocks_done_def)
  next
    case 2
    have "same_outside (E + j * B) ((Suc k - j) * B) M M'"
      using 2(3) by (rule same_outside_widen) (use 2(2) in \<open>simp_all add: diff_mult_distrib\<close>)
    moreover have "strict \<longrightarrow> blocks_done M' E f B L (\<lambda>i. j < i \<and> i < Suc k)"
      using 2(4) less by (auto simp: blocks_done_def)
    ultimately show ?thesis using 2(1,2) out unfolding slot_result_def by (meson less_SucI)
  qed
qed

lemma slot_result_flash:
  assumes "slot_result strict E f B L k X M1 M' r" and "same_outside (E + k * B) B M M1"
    and "agree M1 (E + k * B) f (of_nat (k * B)) B"
  shows "slot_result strict E f B L (Suc k) X M M' r"
proof -
  have first: "same_outside E (k * B) M1 M'" using assms(1) by (simp add: slot_result_def)
  have here: "agree M' (E + k * B) f (of_nat (k * B)) B"
    using first assms(3) by (rule agree_outside) simp
  have out: "same_outside E (Suc k * B) M M'"
    by (rule same_outside_trans [OF same_outside_widen [OF assms(2)] same_outside_widen [OF first]]) simp_all
  consider "r = Returns 0" "blocks_done M' E f B L (\<lambda>i. i < k \<and> \<not> X i)"
    | j where "r = Turn_off" "j < k" "same_outside (E + j * B) ((k - j) * B) M1 M'"
      "strict \<longrightarrow> blocks_done M' E f B L (\<lambda>i. j < i \<and> i < k)"
    using assms(1) by (auto simp: slot_result_def)
  then show ?thesis
  proof cases
    case 1
    then show ?thesis using out here by (auto simp: slot_result_def blocks_done_def less_Suc_eq)
  next
    case 2
    have split: "(Suc k - j) * B = (k - j) * B + B" "E + j * B + (k - j) * B = E + k * B"
      using 2(2) by (simp_all add: Suc_diff_le flip: add_mult_distrib)
    have "same_outside (E + j * B) ((Suc k - j) * B) M M'"
      by (rule same_outside_trans [OF same_outside_widen [OF assms(2)] same_outside_widen [OF 2(3)]])
        (use 2(2) split in auto)
    moreover have "strict \<longrightarrow> blocks_done M' E f B L (\<lambda>i. j < i \<and> i < Suc k)"
      using 2(4) here by (auto simp: blocks_done_def less_Suc_eq)
    ultimately show ?thesis using 2(1,2) out unfolding slot_result_def by (meson less_SucI)
  qed
qed

text \<open>The blocks that the loop leaves to the erase list, when \<open>el\<close> entries of it are left.\<close>

definition left_to_list :: "'d mf \<Rightarrow> u8 \<Rightarrow> nat \<Rightarrow> nat \<Rightarrow> nat \<Rightarrow> bool" where
  "left_to_list s slot B el i \<longleftrightarrow>
    slot = 0 \<and> (\<exists>m<el. unat (mfhf_calc_el_addr s (mfsc_corehdr_erase_list s ! m)) = i * B)"

lemma left_to_list_moved [simp]: "left_to_list (moved h d s) = left_to_list s"
  by (simp add: left_to_list_def fun_eq_iff)

lemma slot_loop_ends:
  assumes "flash_serves dev ready mem" and "get_erase_block_size_in_bytes b = Some n"
    and "unat e mod unat n = 0" and "slot = 0 \<longrightarrow> e = 0"
  shows "ready (hwstate s) \<Longrightarrow> mfhf_erase_block_size s = b \<Longrightarrow> unat e + k * unat n < 2 ^ 32 \<Longrightarrow>
    \<exists>r h d. slot_loop dev slot e n el (e + of_nat (k * unat n)) s = Some (r, moved h d s) \<and> ready h \<and>
      slot_result (slot \<noteq> 0) (unat e) (far_mem s) (unat n) (unat (mfsc_corehdr_length s)) k
        (left_to_list s slot (unat n) el) (mem (hwstate s)) (mem h) r \<and>
      (flash_works dev ready mem \<longrightarrow> r = Returns 0)"
proof (induction k arbitrary: s el)
  case 0
  have "slot_loop dev slot e n el (e + of_nat (0 * unat n)) s = Some (Returns 0, moved (hwstate s) (data_buffer s) s)"
    unfolding moved_intro(4) [symmetric] by (subst slot_loop.simps) simp
  with 0 show ?case
    by (intro exI [of _ "Returns 0"] exI [of _ "hwstate s"] exI [of _ "data_buffer s"])
      (simp add: slot_result_def blocks_done_def)
next
  case (Suc k)
  let ?B = "unat n" and ?E = "unat e" and ?L = "unat (mfsc_corehdr_length s)" and ?a = "e + of_nat (k * unat n)"
  let ?el_addr = "\<lambda>m. mfhf_calc_el_addr s (mfsc_corehdr_erase_list s ! m)"
  let ?result = "\<lambda>k el M M' r. slot_result (slot \<noteq> 0) ?E (far_mem s) ?B ?L k (left_to_list s slot ?B el) M M' r"
  have B: "0 < ?B" using assms(2) by (cases b) (auto simp: get_erase_block_size_in_bytes_def)
  have top: "unat (e + of_nat (Suc k * ?B)) = ?E + Suc k * ?B"
    using unat_less_sum [of e "Suc (Suc k * ?B)" "Suc k * ?B"] Suc.prems(3) by simp
  have less: "e < e + of_nat (Suc k * ?B)" unfolding word_less_nat_alt top using B by simp
  have prev: "e + of_nat (Suc k * ?B) - n = ?a" by (simp add: algebra_simps)
  have a: "unat ?a = ?E + k * ?B"
    using unat_less_sum [of e "Suc (k * ?B)" "k * ?B"] Suc.prems(3) by simp
  have k_lt: "k * ?B < 2 ^ 32" "?E + k * ?B < 2 ^ 32" using Suc.prems(3) by simp_all
  have off1: "?a - e = of_nat (k * ?B)" by simp
  have off: "unat (?a - e) = k * ?B" unfolding off1 unat_of_nat using k_lt(1) by simp
  have unfolded: "slot_loop dev slot e n el (e + of_nat (Suc k * ?B)) s =
    (if ?L \<le> k * ?B then slot_loop dev slot e n el ?a s
     else if slot = 0 \<and> el > 0 \<and> ?el_addr (el - 1) = ?a then slot_loop dev slot e n (el - 1) ?a s
     else do {
       (r, s) \<leftarrow> mfhf_flash_sector dev ?a e n s;
       (case r of
          Turn_off \<Rightarrow> Some (Turn_off, s)
        | Returns v \<Rightarrow> if v \<noteq> 0 then Some (Returns 1, s) else slot_loop dev slot e n el ?a s)
     })"
    by (subst slot_loop.simps) (simp only: Let_def prev less if_True word_le_nat_alt off)
  consider (long) "?L \<le> k * ?B" | (listed) "\<not> ?L \<le> k * ?B" "slot = 0 \<and> el > 0 \<and> ?el_addr (el - 1) = ?a"
    | (flash) "\<not> ?L \<le> k * ?B" "\<not> (slot = 0 \<and> el > 0 \<and> ?el_addr (el - 1) = ?a)" by blast
  then show ?case
  proof cases
    case long
    obtain r h d where rec: "slot_loop dev slot e n el ?a s = Some (r, moved h d s)" and h: "ready h"
      and res: "?result k el (mem (hwstate s)) (mem h) r" and w: "flash_works dev ready mem \<longrightarrow> r = Returns 0"
      using Suc.IH [OF Suc.prems(1,2) k_lt(2), of el] by (elim exE conjE)
    have "?result (Suc k) el (mem (hwstate s)) (mem h) r"
      using res by (rule slot_result_skip) (use long in simp_all)
    then show ?thesis using rec h long unfolded w by (intro exI [of _ r] exI [of _ h] exI [of _ d]) simp
  next
    case listed
    obtain r h d where rec: "slot_loop dev slot e n (el - 1) ?a s = Some (r, moved h d s)" and h: "ready h"
      and res: "?result k (el - 1) (mem (hwstate s)) (mem h) r" and w: "flash_works dev ready mem \<longrightarrow> r = Returns 0"
      using Suc.IH [OF Suc.prems(1,2) k_lt(2), of "el - 1"] by (elim exE conjE)
    have "left_to_list s slot ?B el k"
      using listed(2) assms(4) a unfolding left_to_list_def by (auto intro!: exI [of _ "el - 1"])
    moreover have "left_to_list s slot ?B el i" if "left_to_list s slot ?B (el - 1) i" for i
      using that less_imp_diff_less unfolding left_to_list_def by (meson less_le_trans diff_le_self)
    ultimately have "?result (Suc k) el (mem (hwstate s)) (mem h) r"
      by (intro slot_result_skip [OF res]) (use listed(2) in auto)
    then show ?thesis using rec h listed unfolded w by (intro exI [of _ r] exI [of _ h] exI [of _ d]) simp
  next
    case flash
    have am: "unat ?a mod ?B = 0" and ab: "unat ?a + ?B < 2 ^ 32"
      unfolding a using assms(3) Suc.prems(3) by simp_all
    obtain r1 h1 d1 where fs: "mfhf_flash_sector dev ?a e n s = Some (r1, moved h1 d1 s)" and h1: "ready h1"
      and o1: "same_outside (?E + k * ?B) ?B (mem (hwstate s)) (mem h1)"
      and r1: "r1 = Returns 0 \<and> agree (mem h1) (?E + k * ?B) (far_mem s) (?a - e) ?B \<or>
        r1 = Turn_off \<and> \<not> flash_works dev ready mem"
      using flash_sector_ends [OF assms(1) _ am ab Suc.prems(1), of e] assms(2) Suc.prems(2) unfolding a by metis
    show ?thesis
    proof (cases "r1 = Turn_off")
      case True
      have "?result (Suc k) el (mem (hwstate s)) (mem h1) Turn_off"
        using same_outside_widen [OF o1, of ?E "Suc k * ?B"] o1
        by (auto simp: slot_result_def blocks_done_def intro!: exI [of _ k])
      moreover have "slot_loop dev slot e n el (e + of_nat (Suc k * ?B)) s = Some (Turn_off, moved h1 d1 s)"
        unfolding unfolded if_not_P [OF flash(1)] if_not_P [OF flash(2)] fs using True by simp
      ultimately show ?thesis using h1 r1 True by (intro exI [of _ Turn_off] exI [of _ h1] exI [of _ d1]) simp
    next
      case False
      then have "agree (mem h1) (?E + k * ?B) (far_mem s) (of_nat (k * ?B)) ?B" "r1 = Returns 0"
        using r1 off1 by auto
      obtain r h d where rec: "slot_loop dev slot e n el ?a (moved h1 d1 s) = Some (r, moved h d s)" and h: "ready h"
        and res: "?result k el (mem h1) (mem h) r" and w: "flash_works dev ready mem \<longrightarrow> r = Returns 0"
        using Suc.IH [of "moved h1 d1 s" el] h1 Suc.prems(2) k_lt(2) by (simp del: of_nat_mult) (elim exE conjE)
      have "?result (Suc k) el (mem (hwstate s)) (mem h) r"
        by (rule slot_result_flash) fact+
      moreover have "slot_loop dev slot e n el (e + of_nat (Suc k * ?B)) s = Some (r, moved h d s)"
        unfolding unfolded if_not_P [OF flash(1)] if_not_P [OF flash(2)] fs
        using rec \<open>r1 = Returns 0\<close> by (simp del: of_nat_mult)
      ultimately show ?thesis using h w by (intro exI [of _ r] exI [of _ h] exI [of _ d]) simp
    qed
  qed
qed

text \<open>
  The geometry that \<open>mfut_probe_hardware_version\<close> and \<open>mfhf_init\<close> establish for a slot of the
  flash: a block size, slots of whole megabytes, a page mask that fits, and a slot below 4 GB.
\<close>

definition geometry :: "'d mf \<Rightarrow> u8 \<Rightarrow> bool" where
  "geometry s slot \<longleftrightarrow>
    mfhf_erase_block_size s \<noteq> Block_last \<and> 2 ^ 20 dvd unat (mfu_slot_size s) \<and>
    unat (mfu_slot_size s) = 65536 * Suc (unat (mfu_slot_pagemask s)) \<and>
    Suc (unat slot) * unat (mfu_slot_size s) < 2 ^ 32"

lemma geometry_moved [simp]: "geometry (moved h d s) slot = geometry s slot"
  by (simp add: geometry_def)

lemma and_minus_exp: "(x :: u32) AND (0 - 2 ^ j) = push_bit j (drop_bit j x)"
  by (rule bit_word_eqI)
    (auto simp: bit_and_iff bit_push_bit_iff bit_drop_bit_eq bit_minus_exp_iff possible_bit_def)

lemma unat_u32_less: "unat (v :: u32) < 2 ^ 32"
  by (rule order_less_le_trans [OF unsigned_less]) simp

lemma block_power:
  assumes "get_erase_block_size_in_bytes b = Some n"
  obtains j where "n = 2 ^ j" and "j < 20" and "unat n = 2 ^ j"
  using assms
  by (cases b) (auto simp: get_erase_block_size_in_bytes_def intro: that [of 12] that [of 15] that [of 16] that [of 18])

text \<open>What is needed of the geometry: \<open>n\<close> is the block size, the slot starts at \<open>e\<close>.\<close>

lemma geometry_facts:
  assumes "geometry s slot"
  obtains n where "get_erase_block_size_in_bytes (mfhf_erase_block_size s) = Some n" and "block_bytes s = n"
    and "0 < unat n" and "unat (mfu_slot_size s) mod unat n = 0"
    and "unat (mfu_slot_size s * ucast slot) = unat slot * unat (mfu_slot_size s)"
    and "unat (mfu_slot_size s * ucast slot) mod unat n = 0"
    and "unat (mfu_slot_size s * ucast slot) + unat (mfu_slot_size s) < 2 ^ 32"
proof -
  let ?S = "unat (mfu_slot_size s)"
  obtain n where n: "get_erase_block_size_in_bytes (mfhf_erase_block_size s) = Some n"
    using assms by (cases "mfhf_erase_block_size s") (auto simp: geometry_def get_erase_block_size_in_bytes_def)
  obtain j where j: "n = 2 ^ j" "j < 20" "unat n = 2 ^ j" using n by (rule block_power)
  have "(2 :: nat) ^ j dvd 2 ^ 20" by (rule le_imp_power_dvd) (use j(2) in simp)
  then have S: "unat n dvd ?S" using assms j(3) unfolding geometry_def by (metis dvd_trans)
  have lt: "?S * unat slot + ?S < 2 ^ 32" using assms unfolding geometry_def by (elim conjE) (simp only: mult_Suc mult.commute add.commute)
  have e: "unat (mfu_slot_size s * ucast slot) = ?S * unat slot"
    using lt by (simp add: unat_word_ariths unat_ucast8)
  show thesis
    by (rule that [OF n]) (use n j S lt e in \<open>auto simp: block_bytes_def mult.commute\<close>)
qed

lemma el_addr_facts:
  assumes "geometry s slot" and "get_erase_block_size_in_bytes (mfhf_erase_block_size s) = Some n"
  shows "unat (mfhf_calc_el_addr s el) mod unat n = 0"
    and "unat (mfhf_calc_el_addr s el) + unat n \<le> unat (mfu_slot_size s)"
proof -
  let ?S = "unat (mfu_slot_size s)" and ?x = "push_bit 16 (ucast (el AND mfu_slot_pagemask s)) :: u32"
  obtain j where j: "n = 2 ^ j" "j < 20" "unat n = 2 ^ j" using assms(2) by (rule block_power)
  have S: "unat n dvd ?S" using assms(1) j unfolding geometry_def
    by (metis dvd_trans le_imp_power_dvd less_imp_le_nat)
  have m: "unat (el AND mfu_slot_pagemask s) \<le> unat (mfu_slot_pagemask s)"
    by (rule unat_and_le)
  have x: "unat ?x = 65536 * unat (el AND mfu_slot_pagemask s)"
    using unat_u8_less [of "el AND mfu_slot_pagemask s"]
    by (simp add: push_bit_eq_mult unat_word_ariths unat_ucast8)
  then have x_lt: "unat ?x < ?S" using m assms(1) by (simp add: geometry_def)
  have eq: "mfhf_calc_el_addr s el = push_bit j (drop_bit j ?x)"
    using assms(2) by (simp only: mfhf_calc_el_addr_def block_bytes_def option.case j(1) and_minus_exp)
  have u: "unat (mfhf_calc_el_addr s el) = (unat ?x div unat n) * unat n"
  proof -
    have "(unat ?x div 2 ^ j) * 2 ^ j < 2 ^ 32"
      by (rule le_less_trans [OF div_times_less_eq_dividend]) (rule unat_u32_less)
    then show ?thesis
      by (simp add: eq j(3) push_bit_eq_mult unat_word_ariths unat_drop_bit j(3) [unfolded j(1)] mult.commute)
  qed
  show "unat (mfhf_calc_el_addr s el) mod unat n = 0" by (simp add: u)
  obtain q where q: "?S = q * unat n" using S by (metis dvdE mult.commute)
  have "unat ?x div unat n < q" using x_lt unfolding q by (rule less_mult_imp_div_less)
  then have "Suc (unat ?x div unat n) * unat n \<le> q * unat n" by (intro mult_le_mono1) simp
  then show "unat (mfhf_calc_el_addr s el) + unat n \<le> ?S" by (simp add: u q add.commute)
qed

text \<open>A key will be pressed after the keyboard buffer has been found empty.\<close>

definition key_comes :: "u8 list \<Rightarrow> bool" where
  "key_comes ks \<longleftrightarrow> list_ex (\<lambda>k. k \<noteq> 0) (dropWhile (\<lambda>k. k \<noteq> 0) ks)"

lemma next_key_comes: "list_ex (\<lambda>k. k \<noteq> 0) ks \<Longrightarrow> \<exists>k ks'. next_key False ks = Some (k, ks')"
  by (induction ks) auto

lemma display_error_ends:
  assumes "key_comes (keys s)"
  obtains s' where "mfhf_display_error t m c s = Some s'" and "shown s' = shown s @ [(t, m, c)]"
    and "hwstate s' = hwstate s" and "sdc s' = sdc s"
proof -
  let ?rest = "tl (dropWhile (\<lambda>k. k \<noteq> 0) (keys s))"
  have "list_ex (\<lambda>k. k \<noteq> 0) ?rest"
  proof (cases "dropWhile (\<lambda>k. k \<noteq> 0) (keys s)")
    case (Cons k ks)
    then have "k = 0" using hd_dropWhile [of "\<lambda>k. k \<noteq> 0" "keys s"] by simp
    with Cons show ?thesis using assms by (simp add: key_comes_def)
  next
    case Nil
    show ?thesis using assms unfolding key_comes_def Nil by simp
  qed
  then obtain k ks where "next_key False ?rest = Some (k, ks)" using next_key_comes by blast
  then show thesis
    by (rule_tac that [of "s\<lparr>shown := shown s @ [(t, m, c)], keys := ks, mhx_lastkey := k\<rparr>"])
      (simp_all add: mfhf_display_error_def mhx_press_any_key_def mhx_clear_keybuffer_def mhx_getkeycode_def hwstate_def)
qed

lemma agree_blocks:
  assumes "0 < B" and "\<And>i. i * B < L \<Longrightarrow> agree M (E + i * B) f (of_nat (i * B)) B"
  shows "agree M E f 0 L"
proof -
  have "M (E + x) = f (ATTIC + of_nat x)" if "x < L" for x
  proof -
    let ?i = "x div B" and ?r = "x mod B"
    have x: "x = ?i * B + ?r" by simp
    have "?i * B < L" using that x by linarith
    then have "M (E + ?i * B + ?r) = f (ATTIC + of_nat (?i * B) + of_nat ?r)"
      using assms(2) mod_less_divisor [OF assms(1)] unfolding agree_def by blast
    then show ?thesis by (metis x add.assoc of_nat_add)
  qed
  then show ?thesis by (simp add: agree_def)
qed

lemma slot_result_header:
  assumes "slot_result True E f B L k X M M' Turn_off" and "erased M E B" and "L \<le> k * B"
  shows "\<exists>j. blocks_done M' E f B L (\<lambda>i. j < i) \<and> (0 < j \<longrightarrow> erased M' E B)"
proof -
  obtain j where j: "j < k" "same_outside (E + j * B) ((k - j) * B) M M'"
    "blocks_done M' E f B L (\<lambda>i. j < i \<and> i < k)"
    using assms(1) by (auto simp: slot_result_def)
  have "i < k" if "i * B < L" for i using that assms(3) by (meson less_le_trans mult_less_cancel2)
  then have "blocks_done M' E f B L (\<lambda>i. j < i)" using j(3) by (auto simp: blocks_done_def)
  moreover have "erased M' E B" if "0 < j"
  proof -
    from that obtain j' where "j = Suc j'" by (cases j) simp_all
    then show ?thesis using j(2) assms(2) by (simp add: same_outside_def erased_def)
  qed
  ultimately show ?thesis by blast
qed

text \<open>Erasing the first \<open>m\<close> blocks of a slot, and the loop over all of its blocks.\<close>

lemma slot_erase_ends:
  assumes "flash_serves dev ready mem" and "ready (hwstate s)" and "geometry s slot"
    and "e = mfu_slot_size s * ucast slot" and "n = block_bytes s" and "m * unat n \<le> unat (mfu_slot_size s)"
  obtains r h d where "mfhf_erase_some_sectors dev e (e + of_nat (m * unat n)) s = Some (r, moved h d s)" and "ready h"
    and "same_outside (unat e) (unat (mfu_slot_size s)) (mem (hwstate s)) (mem h)"
    and "r = 0 \<longrightarrow> erased (mem h) (unat e) (m * unat n)" and "flash_works dev ready mem \<longrightarrow> r = 0"
    and "same_outside (unat e) (m * unat n) (mem (hwstate s)) (mem h)"
proof -
  let ?S = "unat (mfu_slot_size s)"
  have n: "get_erase_block_size_in_bytes (mfhf_erase_block_size s) = Some n" "unat e mod unat n = 0" "unat e + ?S < 2 ^ 32"
    using assms(3,5) unfolding assms(4) by (auto elim: geometry_facts)
  obtain r h d where er: "erase_loop dev n e (e + of_nat (m * unat n)) s = Some (r, moved h d s)" and h: "ready h"
    and o: "same_outside (unat e) (m * unat n) (mem (hwstate s)) (mem h)"
    and z: "r = 0 \<longrightarrow> erased (mem h) (unat e) (m * unat n)" "flash_works dev ready mem \<longrightarrow> r = 0"
    using erase_loop_ends [OF assms(1) n(1) assms(2) refl n(2), of m] n(3) assms(6) by auto
  have "mfhf_erase_some_sectors dev e (e + of_nat (m * unat n)) s = Some (r, moved h d s)"
    using er n(1) by (simp add: mfhf_erase_some_sectors_def)
  then show thesis using h same_outside_widen [OF o, of "unat e" ?S] assms(6) z o by (intro that) auto
qed

lemma whole_slot_ends:
  assumes "flash_serves dev ready mem" and "ready (hwstate s)" and "geometry s slot"
    and "e = mfu_slot_size s * ucast slot" and "n = block_bytes s"
  obtains r h d where "slot_loop dev slot e n el (e + mfu_slot_size s) s = Some (r, moved h d s)" and "ready h"
    and "slot_result (slot \<noteq> 0) (unat e) (far_mem s) (unat n) (unat (mfsc_corehdr_length s))
      (unat (mfu_slot_size s) div unat n) (left_to_list s slot (unat n) el) (mem (hwstate s)) (mem h) r"
    and "same_outside (unat e) (unat (mfu_slot_size s)) (mem (hwstate s)) (mem h)"
    and "flash_works dev ready mem \<longrightarrow> r = Returns 0"
proof -
  let ?S = "unat (mfu_slot_size s)"
  have n: "get_erase_block_size_in_bytes (mfhf_erase_block_size s) = Some n" "unat e mod unat n = 0" "unat e + ?S < 2 ^ 32"
    and kB: "?S div unat n * unat n = ?S"
    using assms(3,5) unfolding assms(4) by (auto elim: geometry_facts)
  have "slot = 0 \<longrightarrow> e = 0" by (simp add: assms(4))
  from slot_loop_ends [OF assms(1) n(1,2) this assms(2) refl, of "?S div unat n" el, unfolded kB, OF n(3)]
  obtain r h d where "slot_loop dev slot e n el (e + of_nat ?S) s = Some (r, moved h d s)" "ready h"
    and res: "slot_result (slot \<noteq> 0) (unat e) (far_mem s) (unat n) (unat (mfsc_corehdr_length s))
      (?S div unat n) (left_to_list s slot (unat n) el) (mem (hwstate s)) (mem h) r"
    and "flash_works dev ready mem \<longrightarrow> r = Returns 0" by (elim exE conjE)
  moreover have "same_outside (unat e) ?S (mem (hwstate s)) (mem h)"
    using res unfolding slot_result_def kB by (rule conjunct1)
  ultimately show thesis by (intro that) simp_all
qed

lemma slot_result_complete:
  assumes "slot_result strict E f B L (S div B) X M M' (Returns 0)" and "L \<le> S" and "S mod B = 0" and "0 < B"
    and "\<And>i. i * B < L \<Longrightarrow> X i \<Longrightarrow> agree M' (E + i * B) f (of_nat (i * B)) B"
  shows "agree M' E f 0 L"
proof (rule agree_blocks [OF assms(4)])
  fix i
  assume i: "i * B < L"
  then have "i * B < S div B * B" using assms(2,3) by (simp add: mod_0_imp_dvd)
  then have "i < S div B" by simp
  then show "agree M' (E + i * B) f (of_nat (i * B)) B"
    using assms(1,5) i by (cases "X i") (auto simp: slot_result_def blocks_done_def)
qed

text \<open>The files that \<open>mfhf_flash_core\<close> is called with, and the messages at its end.\<close>

lemma file_kinds [simp]: "MFSC_FILE_VALID \<noteq> MFSC_FILE_ERASE" "MFSC_FILE_ERASE \<noteq> MFSC_FILE_VALID"
  by (simp_all add: MFSC_FILE_VALID_def MFSC_FILE_ERASE_def)

lemma flash_finish_ends:
  assumes "key_comes (keys s)"
  obtains s' where "mfhf_flash_finish file s = Some (Returns 0, s')" and "hwstate s' = hwstate s"
    and "shown s' = shown s @ [(''Finished Flashing'',
      if file = MFSC_FILE_VALID then ''Core was successfully flashed.'' else ''Slot was successfully erased.'', 0)]"
proof -
  obtain s' where "mfhf_display_error ''Finished Flashing'' (if file = MFSC_FILE_VALID
      then ''Core was successfully flashed.'' else ''Slot was successfully erased.'') 0 s = Some s'"
    and "shown s' = shown s @ [(''Finished Flashing'', if file = MFSC_FILE_VALID
      then ''Core was successfully flashed.'' else ''Slot was successfully erased.'', 0)]" "hwstate s' = hwstate s"
    using assms by (rule display_error_ends)
  then show thesis by (intro that) (simp_all only: mfhf_flash_finish_def bind.simps)
qed

lemma core_flashed:
  assumes "flash_serves dev ready mem" and "ready (hwstate s)" and "geometry s slot" and "slot \<noteq> 0"
    and "mfsc_corehdr_length s \<le> mfu_slot_size s" and "key_comes (keys s)"
  shows "\<exists>r s'. mfhf_flash_core dev MFSC_FILE_VALID slot s = Some (r, s') \<and>
    (let M = mem (hwstate s); M' = mem (hwstate s'); E = unat slot * unat (mfu_slot_size s);
         L = unat (mfsc_corehdr_length s); B = unat (block_bytes s)
     in same_outside E (unat (mfu_slot_size s)) M M' \<and>
       (r = Returns 0 \<and> shown s' = shown s @ [(''Finished Flashing'', ''Core was successfully flashed.'', 0)] \<and>
          agree M' E (far_mem s) 0 L \<or>
        \<not> flash_works dev ready mem \<and>
         (r = Returns 0 \<and> shown s' = shown s @ [(''Flash Error'', ''Header erase failed!'', 0)] \<and>
            same_outside E B M M' \<or>
          r = Turn_off \<and> shown s' = shown s \<and>
            (\<exists>j. blocks_done M' E (far_mem s) B L (\<lambda>i. j < i) \<and> (0 < j \<longrightarrow> erased M' E B)))))"
proof -
  let ?S = "unat (mfu_slot_size s)" and ?e = "mfu_slot_size s * ucast slot" and ?M = "mem (hwstate s)"
    and ?L = "unat (mfsc_corehdr_length s)" and ?n = "block_bytes s"
  have n: "0 < unat ?n" "?S mod unat ?n = 0" and e: "unat ?e = unat slot * ?S"
    using assms(3) by (auto elim: geometry_facts)
  have "?S \<noteq> 0" using assms(3) by (simp add: geometry_def)
  with n have nS: "1 * unat ?n \<le> ?S" by (simp add: dvd_imp_le mod_0_imp_dvd)
  have L: "?L \<le> ?S" using assms(5) unfolding word_le_nat_alt .
  obtain r1 h1 d1 where er: "mfhf_erase_some_sectors dev ?e (?e + ?n) s = Some (r1, moved h1 d1 s)" and h1: "ready h1"
    and o1: "same_outside (unat ?e) ?S ?M (mem h1)" and z1: "r1 = 0 \<longrightarrow> erased (mem h1) (unat ?e) (unat ?n)"
    and w1: "flash_works dev ready mem \<longrightarrow> r1 = 0" and t1: "same_outside (unat ?e) (unat ?n) ?M (mem h1)"
    using slot_erase_ends [OF assms(1-3) refl refl nS] by auto
  have run: "mfhf_flash_core dev MFSC_FILE_VALID slot s = flash_slot dev MFSC_FILE_VALID slot s"
    using assms(4) by (simp add: mfhf_flash_core_def)
  show ?thesis
  proof (cases "r1 = 0")
    case False
    obtain s' where d: "mfhf_display_error ''Flash Error'' ''Header erase failed!'' NHSD_ERR_NOERROR (moved h1 d1 s) = Some s'"
      "shown s' = shown s @ [(''Flash Error'', ''Header erase failed!'', 0)]" "hwstate s' = h1"
      using display_error_ends [of "moved h1 d1 s" "''Flash Error''" "''Header erase failed!''" NHSD_ERR_NOERROR] assms(6)
      by (auto simp: NHSD_ERR_NOERROR_def)
    have "flash_slot dev MFSC_FILE_VALID slot s = Some (Returns 0, s')"
      using False assms(4) by (simp add: flash_slot_def er d(1))
    then show ?thesis using run d(2,3) o1 t1 w1 False unfolding Let_def e by auto
  next
    case True
    obtain r2 h2 d2 where lp: "slot_loop dev slot ?e ?n 0 (?e + mfu_slot_size s) (moved h1 d1 s) = Some (r2, moved h2 d2 s)"
      and res: "slot_result True (unat ?e) (far_mem s) (unat ?n) ?L (?S div unat ?n) (left_to_list s slot (unat ?n) 0)
        (mem h1) (mem h2) r2" and o2: "same_outside (unat ?e) ?S (mem h1) (mem h2)"
      and w2: "flash_works dev ready mem \<longrightarrow> r2 = Returns 0"
      by (rule whole_slot_ends [OF assms(1), of "moved h1 d1 s" slot ?e ?n 0]) (use h1 assms(3,4) in simp_all)
    have out: "same_outside (unat ?e) ?S ?M (mem h2)" using o1 o2 by (rule same_outside_trans)
    show ?thesis
    proof (cases "r2 = Returns 0")
      case fin: True
      have "agree (mem h2) (unat ?e) (far_mem s) 0 ?L"
        using res [unfolded fin] L n(2,1) by (rule slot_result_complete) (use assms(4) in \<open>simp add: left_to_list_def\<close>)
      moreover obtain s' where d: "mfhf_flash_finish MFSC_FILE_VALID (moved h2 d2 s) = Some (Returns 0, s')" "hwstate s' = h2"
        "shown s' = shown s @ [(''Finished Flashing'', ''Core was successfully flashed.'', 0)]"
        using flash_finish_ends [of "moved h2 d2 s" MFSC_FILE_VALID] assms(6) by auto
      moreover have "flash_slot dev MFSC_FILE_VALID slot s = Some (Returns 0, s')"
        using True fin assms(4) by (simp add: flash_slot_def er lp d(1))
      ultimately show ?thesis using run out unfolding Let_def e by auto
    next
      case False
      then have r2: "r2 = Turn_off" using res by (auto simp: slot_result_def)
      have "\<exists>j. blocks_done (mem h2) (unat ?e) (far_mem s) (unat ?n) ?L (\<lambda>i. j < i) \<and>
          (0 < j \<longrightarrow> erased (mem h2) (unat ?e) (unat ?n))"
        by (rule slot_result_header) (use res r2 z1 True L n in \<open>auto simp: mod_0_imp_dvd\<close>)
      moreover have "flash_slot dev MFSC_FILE_VALID slot s = Some (Turn_off, moved h2 d2 s)"
        using True r2 assms(4) by (simp add: flash_slot_def er lp)
      ultimately show ?thesis using run out w2 r2 unfolding Let_def e by auto
    qed
  qed
qed


section \<open>The factory slot and erasing\<close>

lemma pre_erase_ends:
  assumes "flash_serves dev ready mem"
  shows "ready (hwstate s) \<Longrightarrow> geometry s 0 \<Longrightarrow>
    \<exists>ok h d. pre_erase dev first els s = Some (ok, moved h d s) \<and> ready h \<and>
      same_outside 0 (unat (mfu_slot_size s)) (mem (hwstate s)) (mem h)"
proof (induction els arbitrary: first s)
  case Nil
  have "pre_erase dev first [] s = Some (True, moved (hwstate s) (data_buffer s) s)"
    unfolding moved_intro(4) [symmetric] by simp
  with Nil show ?case by (intro exI [of _ True] exI [of _ "hwstate s"] exI [of _ "data_buffer s"]) simp
next
  case (Cons el els)
  let ?S = "unat (mfu_slot_size s)" and ?a = "mfhf_calc_el_addr s el"
  obtain n where n: "get_erase_block_size_in_bytes (mfhf_erase_block_size s) = Some n" "block_bytes s = n"
    using Cons.prems(2) by (auto elim: geometry_facts)
  have S: "?S < 2 ^ 32" by (rule unat_u32_less)
  consider (stop) "el = 0xff" | (later) "el \<noteq> 0xff" "\<not> first" | (erase) "el \<noteq> 0xff" first by blast
  then show ?case
  proof cases
    case stop
    have "pre_erase dev first (el # els) s = Some (True, moved (hwstate s) (data_buffer s) s)"
      unfolding moved_intro(4) [symmetric] using stop by simp
    with Cons.prems show ?thesis
      by (intro exI [of _ True] exI [of _ "hwstate s"] exI [of _ "data_buffer s"]) simp
  next
    case later
    then show ?thesis using Cons.IH [OF Cons.prems, of False] by simp
  next
    case erase
    note a = el_addr_facts [OF Cons.prems(2) n(1), of el]
    have "unat ?a + 1 * unat n < 2 ^ 32" using a(2) S by simp
    from erase_loop_ends [OF assms n(1) Cons.prems(1) refl a(1) this]
    obtain e h d where er: "erase_loop dev n ?a (?a + n) s = Some (e, moved h d s)" and h: "ready h"
      and o: "same_outside (unat ?a) (unat n) (mem (hwstate s)) (mem h)" by auto
    have er': "mfhf_erase_some_sectors dev ?a (?a + block_bytes s) s = Some (e, moved h d s)"
      using er n by (simp add: mfhf_erase_some_sectors_def)
    have o': "same_outside 0 ?S (mem (hwstate s)) (mem h)"
      using o by (rule same_outside_widen) (use a(2) in simp_all)
    obtain ok h2 d2 where rec: "pre_erase dev False els (moved h d s) = Some (ok, moved h2 d2 s)" and h2: "ready h2"
      and o2: "same_outside 0 ?S (mem h) (mem h2)"
      using Cons.IH [of "moved h d s" False] h Cons.prems(2) by auto
    show ?thesis
    proof (cases "e = 0")
      case True
      then have "pre_erase dev first (el # els) s = Some (ok, moved h2 d2 s)" using erase er' rec by simp
      then show ?thesis using h2 same_outside_trans [OF o' o2] by blast
    next
      case False
      then have "pre_erase dev first (el # els) s = Some (False, moved h d s)" using erase er' by simp
      then show ?thesis using h o' by blast
    qed
  qed
qed

lemma aligned_apart:
  assumes "(a :: nat) mod B = 0" and "b mod B = 0" and "a \<noteq> b"
  shows "b + B \<le> a \<or> a + B \<le> b"
proof -
  obtain p q where "a = p * B" "b = q * B" using assms(1,2) by (metis mod_0_imp_dvd dvdE mult.commute)
  moreover have "Suc q * B \<le> p * B" if "q < p" for p q using that by (intro mult_le_mono1) simp
  ultimately show ?thesis using assms(3) by (cases p q rule: linorder_cases) (auto simp: add.commute)
qed

text \<open>The sectors of the erase list: what agreed before agrees afterwards, and they agree too.\<close>

lemma list_loop_ends:
  assumes "flash_serves dev ready mem"
  shows "ready (hwstate s) \<Longrightarrow> geometry s 0 \<Longrightarrow> block_bytes s = n \<Longrightarrow>
    \<exists>r h d. list_loop dev els s = Some (r, moved h d s) \<and> ready h \<and>
      same_outside 0 (unat (mfu_slot_size s)) (mem (hwstate s)) (mem h) \<and>
      (r = Returns 0 \<and>
        (\<forall>a. unat a mod unat n = 0 \<and> agree (mem (hwstate s)) (unat a) (far_mem s) a (unat n) \<longrightarrow>
          agree (mem h) (unat a) (far_mem s) a (unat n)) \<and>
        (\<forall>el \<in> set els. el \<noteq> 0xff \<and> el \<noteq> 0 \<longrightarrow>
          agree (mem h) (unat (mfhf_calc_el_addr s el)) (far_mem s) (mfhf_calc_el_addr s el) (unat n)) \<or>
       r = Turn_off)"
proof (induction els arbitrary: s)
  case Nil
  have "list_loop dev [] s = Some (Returns 0, moved (hwstate s) (data_buffer s) s)"
    unfolding moved_intro(4) [symmetric] by simp
  with Nil show ?case by (intro exI [of _ "Returns 0"] exI [of _ "hwstate s"] exI [of _ "data_buffer s"]) simp
next
  case (Cons el els)
  let ?S = "unat (mfu_slot_size s)" and ?a = "mfhf_calc_el_addr s el" and ?B = "unat n"
  show ?case
  proof (cases "el = 0xff \<or> el = 0")
    case True
    then have "list_loop dev (el # els) s = list_loop dev els s" by auto
    then show ?thesis using Cons.IH [OF Cons.prems] True by auto
  next
    case False
    have n: "get_erase_block_size_in_bytes (mfhf_erase_block_size s) = Some n"
      using Cons.prems(2,3) by (auto elim: geometry_facts)
    have S: "?S < 2 ^ 32" by (rule unat_u32_less)
    note a = el_addr_facts [OF Cons.prems(2) n, of el]
    have "unat ?a + ?B < 2 ^ 32" using a(2) S by simp
    then obtain r1 h1 d1 where fs: "mfhf_flash_sector dev ?a 0 n s = Some (r1, moved h1 d1 s)" and h1: "ready h1"
      and o1: "same_outside (unat ?a) ?B (mem (hwstate s)) (mem h1)"
      and r1: "r1 = Returns 0 \<and> agree (mem h1) (unat ?a) (far_mem s) (?a - 0) ?B \<or>
        r1 = Turn_off \<and> \<not> flash_works dev ready mem"
      using flash_sector_ends [OF assms(1) n a(1) _ Cons.prems(1), of 0] by metis
    have o1': "same_outside 0 ?S (mem (hwstate s)) (mem h1)"
      using o1 by (rule same_outside_widen) (use a(2) in simp_all)
    show ?thesis
    proof (cases "r1 = Turn_off")
      case True
      then have "list_loop dev (el # els) s = Some (Turn_off, moved h1 d1 s)"
        using False fs Cons.prems(3) by simp
      then show ?thesis using h1 o1' by blast
    next
      case False2: False
      then have r1: "r1 = Returns 0" and here: "agree (mem h1) (unat ?a) (far_mem s) ?a ?B" using r1 by auto
      have keep: "agree (mem h1) (unat c) (far_mem s) c ?B"
        if "unat c mod ?B = 0" "agree (mem (hwstate s)) (unat c) (far_mem s) c ?B" for c
      proof (cases "c = ?a")
        case False
        then have "unat ?a \<noteq> unat c" by (metis word_unat_eq_iff)
        then have "unat c + ?B \<le> unat ?a \<or> unat ?a + ?B \<le> unat c"
          using aligned_apart [OF a(1) that(1)] by blast
        then show ?thesis by (rule agree_outside [OF o1 that(2)])
      qed (simp add: here)
      obtain r h d where rec: "list_loop dev els (moved h1 d1 s) = Some (r, moved h d s)" and h: "ready h"
        and o2: "same_outside 0 ?S (mem h1) (mem h)"
        and r: "r = Returns 0 \<and> (\<forall>a. unat a mod ?B = 0 \<and> agree (mem h1) (unat a) (far_mem s) a ?B \<longrightarrow>
          agree (mem h) (unat a) (far_mem s) a ?B) \<and> (\<forall>el \<in> set els. el \<noteq> 0xff \<and> el \<noteq> 0 \<longrightarrow>
          agree (mem h) (unat (mfhf_calc_el_addr s el)) (far_mem s) (mfhf_calc_el_addr s el) ?B) \<or> r = Turn_off"
        using Cons.IH [of "moved h1 d1 s"] h1 Cons.prems(2,3) by (simp only: moved_simps geometry_moved) (elim meta_impE TrueI exE conjE; blast)
      have "list_loop dev (el # els) s = Some (r, moved h d s)"
        using False fs Cons.prems(3) rec r1 by simp
      then show ?thesis using h same_outside_trans [OF o1' o2] r keep here a(1)
        by (intro exI [of _ r] exI [of _ h] exI [of _ d]) auto
    qed
  qed
qed

lemma list_end_le: "list_end els \<le> length els"
  by (metis length_rev length_dropWhile_le list_end_def)

lemma slot0_complete:
  assumes "slot_result False 0 (far_mem s) B L (S div B) (left_to_list s 0 B (list_end els)) M M3 (Returns 0)"
    and "L \<le> S" and "S mod B = 0" and "0 < B" and "els = mfsc_corehdr_erase_list s" and "S < 2 ^ 32"
    and used: "list_all (\<lambda>el. el \<noteq> 0 \<and> el \<noteq> 0xff) (take (list_end els) els)"
    and keep: "\<And>a. unat a mod B = 0 \<Longrightarrow> agree M3 (unat a) (far_mem s) a B \<Longrightarrow> agree M4 (unat a) (far_mem s) a B"
    and listed: "\<And>el. el \<in> set els \<Longrightarrow> el \<noteq> 0xff \<Longrightarrow> el \<noteq> 0 \<Longrightarrow>
      agree M4 (unat (mfhf_calc_el_addr s el)) (far_mem s) (mfhf_calc_el_addr s el) B"
  shows "agree M4 0 (far_mem s) 0 L"
proof (rule agree_blocks [OF assms(4)])
  fix i
  assume i: "i * B < L"
  have small: "i * B < 2 ^ 32" using i assms(2,6) by simp
  have addr: "unat (of_nat (i * B) :: u32) = i * B" unfolding unat_of_nat using small by simp
  show "agree M4 (0 + i * B) (far_mem s) (of_nat (i * B)) B"
  proof (cases "left_to_list s 0 B (list_end els) i")
    case False
    have "i * B < S div B * B" using i assms(2,3) by (simp add: mod_0_imp_dvd)
    then have "i < S div B" by simp
    then have "agree M3 (unat (of_nat (i * B) :: u32)) (far_mem s) (of_nat (i * B)) B"
      unfolding addr using False assms(1) i by (simp add: slot_result_def blocks_done_def)
    then have "agree M4 (unat (of_nat (i * B) :: u32)) (far_mem s) (of_nat (i * B)) B"
      by (rule keep [rotated]) (simp add: addr del: of_nat_mult)
    then show ?thesis unfolding addr by simp
  next
    case True
    then obtain m where m: "m < list_end els" "unat (mfhf_calc_el_addr s (els ! m)) = i * B"
      using assms(5) by (auto simp: left_to_list_def)
    have "m < length els" using m(1) list_end_le [of els] by simp
    then have "els ! m \<in> set els" "els ! m \<noteq> 0xff" "els ! m \<noteq> 0"
      using used m(1) by (auto simp: list_all_length)
    then have "agree M4 (i * B) (far_mem s) (mfhf_calc_el_addr s (els ! m)) B" using listed m(2) by metis
    moreover have "mfhf_calc_el_addr s (els ! m) = of_nat (i * B)" unfolding m(2) [symmetric] by simp
    ultimately show ?thesis by simp
  qed
qed

text \<open>
  C6: Flashing the factory slot 0, when every used entry of the new core's erase list is a
  sector number other than 0 and 0xff: nothing outside slot 0 changes, and if the user is told
  that the core was flashed, slot 0 holds the core that is in Attic RAM, although the sectors
  of the erase list are left out of the main loop and written last.
\<close>

theorem flash_core_slot0:
  assumes "flash_serves dev ready mem" and "ready (hwstate s)" and "geometry s 0"
    and "mfsc_corehdr_length s \<le> mfu_slot_size s" and "key_comes (keys s)"
    and "list_all (\<lambda>el. el \<noteq> 0 \<and> el \<noteq> 0xff) (take (list_end (mfsc_corehdr_erase_list s)) (mfsc_corehdr_erase_list s))"
  shows "\<exists>r s'. mfhf_flash_core dev MFSC_FILE_VALID 0 s = Some (r, s') \<and>
    (let M = mem (hwstate s); M' = mem (hwstate s'); L = unat (mfsc_corehdr_length s)
     in same_outside 0 (unat (mfu_slot_size s)) M M' \<and>
       (r = Returns 0 \<and> shown s' = shown s @ [(''Finished Flashing'', ''Core was successfully flashed.'', 0)] \<and>
          agree M' 0 (far_mem s) 0 L \<or>
        r = Returns 0 \<and> shown s' = shown s @ [(''Flash Error'', ''Pre-flash erase failed!'', 0)] \<or>
        r = Turn_off \<and> shown s' = shown s))"
proof -
  let ?S = "unat (mfu_slot_size s)" and ?M = "mem (hwstate s)" and ?L = "unat (mfsc_corehdr_length s)"
    and ?n = "block_bytes s" and ?els = "mfsc_corehdr_erase_list s"
  have n: "0 < unat ?n" "?S mod unat ?n = 0" using assms(3) by (auto elim: geometry_facts)
  have "?S \<noteq> 0" using assms(3) by (simp add: geometry_def)
  with n have nS: "1 * unat ?n \<le> ?S" by (simp add: dvd_imp_le mod_0_imp_dvd)
  have L: "?L \<le> ?S" using assms(4) unfolding word_le_nat_alt .
  obtain ok h1 d1 where pre: "pre_erase dev True (mfhf_slot0_erase_list s) s = Some (ok, moved h1 d1 s)" and h1: "ready h1"
    and o1: "same_outside 0 ?S ?M (mem h1)"
    using pre_erase_ends [OF assms(1-3), of True "mfhf_slot0_erase_list s"] by (elim exE conjE)
  show ?thesis
  proof (cases ok)
    case False
    obtain s' where d: "mfhf_display_error ''Flash Error'' ''Pre-flash erase failed!'' NHSD_ERR_NOERROR (moved h1 d1 s) = Some s'"
      "shown s' = shown s @ [(''Flash Error'', ''Pre-flash erase failed!'', 0)]" "hwstate s' = h1"
      using display_error_ends [of "moved h1 d1 s" "''Flash Error''" "''Pre-flash erase failed!''" NHSD_ERR_NOERROR] assms(5)
      by (auto simp: NHSD_ERR_NOERROR_def)
    have "mfhf_flash_core dev MFSC_FILE_VALID 0 s = Some (Returns 0, s')"
      using False by (simp add: mfhf_flash_core_def pre d(1))
    then show ?thesis using d(2,3) o1 unfolding Let_def by auto
  next
    case True
    have run: "mfhf_flash_core dev MFSC_FILE_VALID 0 s = flash_slot dev MFSC_FILE_VALID 0 (moved h1 d1 s)"
      using True by (simp add: mfhf_flash_core_def pre)
    obtain r2 h2 d2 where er: "mfhf_erase_some_sectors dev 0 ?n (moved h1 d1 s) = Some (r2, moved h2 d2 s)" and h2: "ready h2"
      and o2: "same_outside 0 ?S (mem h1) (mem h2)"
      by (rule slot_erase_ends [OF assms(1), of "moved h1 d1 s" 0 0 ?n 1]) (use h1 assms(3) nS in simp_all)
    obtain r3 h3 d3 where lp: "slot_loop dev 0 0 ?n (list_end ?els) (mfu_slot_size s) (moved h2 d2 s) = Some (r3, moved h3 d3 s)"
      and h3: "ready h3" and o3: "same_outside 0 ?S (mem h2) (mem h3)"
      and res: "slot_result False 0 (far_mem s) (unat ?n) ?L (?S div unat ?n)
        (left_to_list s 0 (unat ?n) (list_end ?els)) (mem h2) (mem h3) r3"
      by (rule whole_slot_ends [OF assms(1), of "moved h2 d2 s" 0 0 ?n "list_end ?els"]) (use h2 assms(3) in simp_all)
    have o13: "same_outside 0 ?S ?M (mem h3)" using o1 o2 o3 by (blast intro: same_outside_trans)
    show ?thesis
    proof (cases "r3 = Returns 0")
      case False
      then have "r3 = Turn_off" using res by (auto simp: slot_result_def)
      then have "flash_slot dev MFSC_FILE_VALID 0 (moved h1 d1 s) = Some (Turn_off, moved h3 d3 s)"
        by (simp add: flash_slot_def er lp)
      then show ?thesis using run o13 unfolding Let_def by auto
    next
      case looped: True
      obtain r4 h4 d4 where ll: "list_loop dev (rev ?els) (moved h3 d3 s) = Some (r4, moved h4 d4 s)" and h4: "ready h4"
        and o4: "same_outside 0 ?S (mem h3) (mem h4)"
        and r4: "r4 = Returns 0 \<and>
          (\<forall>a. unat a mod unat ?n = 0 \<and> agree (mem h3) (unat a) (far_mem s) a (unat ?n) \<longrightarrow>
            agree (mem h4) (unat a) (far_mem s) a (unat ?n)) \<and>
          (\<forall>el \<in> set ?els. el \<noteq> 0xff \<and> el \<noteq> 0 \<longrightarrow>
            agree (mem h4) (unat (mfhf_calc_el_addr s el)) (far_mem s) (mfhf_calc_el_addr s el) (unat ?n)) \<or> r4 = Turn_off"
        using list_loop_ends [OF assms(1), of "moved h3 d3 s" ?n "rev ?els"] h3 assms(3)
        by (simp only: moved_simps geometry_moved set_rev) (elim meta_impE TrueI exE conjE; blast)
      have out: "same_outside 0 ?S ?M (mem h4)" using o13 o4 by (rule same_outside_trans)
      show ?thesis
      proof (cases "r4 = Turn_off")
        case True
        then have "flash_slot dev MFSC_FILE_VALID 0 (moved h1 d1 s) = Some (Turn_off, moved h4 d4 s)"
          by (simp add: flash_slot_def er lp looped ll)
        then show ?thesis using run out unfolding Let_def by auto
      next
        case False
        have keep: "agree (mem h4) (unat a) (far_mem s) a (unat ?n)"
          if "unat a mod unat ?n = 0" "agree (mem h3) (unat a) (far_mem s) a (unat ?n)" for a
          using r4 False that by metis
        have listed: "agree (mem h4) (unat (mfhf_calc_el_addr s el)) (far_mem s) (mfhf_calc_el_addr s el) (unat ?n)"
          if "el \<in> set ?els" "el \<noteq> 0xff" "el \<noteq> 0" for el
          using r4 False that by metis
        have "agree (mem h4) 0 (far_mem s) 0 ?L"
          by (rule slot0_complete [OF res [unfolded looped] L n(2,1) refl unat_u32_less assms(6) keep listed])
        moreover obtain s' where d: "mfhf_flash_finish MFSC_FILE_VALID (moved h4 d4 s) = Some (Returns 0, s')" "hwstate s' = h4"
          "shown s' = shown s @ [(''Finished Flashing'', ''Core was successfully flashed.'', 0)]"
          using flash_finish_ends [of "moved h4 d4 s" MFSC_FILE_VALID] assms(5) by auto
        moreover have "flash_slot dev MFSC_FILE_VALID 0 (moved h1 d1 s) = Some (Returns 0, s')"
          using r4 False by (simp add: flash_slot_def er lp looped ll d(1))
        ultimately show ?thesis using run out unfolding Let_def by auto
      qed
    qed
  qed
qed

text \<open>
  C7: Erasing a slot other than slot 0: nothing outside the slot changes, and if the user is told
  that the slot was erased, every byte of it is 0xff; on a flash that works this is what happens.
\<close>

theorem erase_slot_outcome:
  assumes "flash_serves dev ready mem" and "ready (hwstate s)" and "geometry s slot" and "slot \<noteq> 0"
    and "key_comes (keys s)"
  shows "\<exists>s'. mfhf_flash_core dev MFSC_FILE_ERASE slot s = Some (Returns 0, s') \<and>
    (let M = mem (hwstate s); M' = mem (hwstate s'); E = unat slot * unat (mfu_slot_size s); S = unat (mfu_slot_size s)
     in same_outside E S M M' \<and>
       (shown s' = shown s @ [(''Finished Flashing'', ''Slot was successfully erased.'', 0)] \<and> erased M' E S \<or>
        \<not> flash_works dev ready mem \<and> shown s' = shown s @ [(''Flash Error'', ''Header erase failed!'', 0)]))"
proof -
  let ?S = "unat (mfu_slot_size s)" and ?e = "mfu_slot_size s * ucast slot" and ?M = "mem (hwstate s)"
    and ?n = "block_bytes s"
  have kB: "?S div unat ?n * unat ?n = ?S" and e: "unat ?e = unat slot * ?S"
    using assms(3) by (auto elim: geometry_facts)
  obtain r1 h1 d1 where er: "mfhf_erase_some_sectors dev ?e (?e + mfu_slot_size s) s = Some (r1, moved h1 d1 s)"
    and o1: "same_outside (unat ?e) ?S ?M (mem h1)" and z1: "r1 = 0 \<longrightarrow> erased (mem h1) (unat ?e) ?S"
    and w1: "flash_works dev ready mem \<longrightarrow> r1 = 0"
    by (rule slot_erase_ends [OF assms(1-3) refl refl, of "?S div unat ?n", unfolded kB]) simp_all
  have run: "mfhf_flash_core dev MFSC_FILE_ERASE slot s = flash_slot dev MFSC_FILE_ERASE slot s"
    using assms(4) by (simp add: mfhf_flash_core_def)
  show ?thesis
  proof (cases "r1 = 0")
    case False
    obtain s' where d: "mfhf_display_error ''Flash Error'' ''Header erase failed!'' NHSD_ERR_NOERROR (moved h1 d1 s) = Some s'"
      "shown s' = shown s @ [(''Flash Error'', ''Header erase failed!'', 0)]" "hwstate s' = h1"
      using display_error_ends [of "moved h1 d1 s" "''Flash Error''" "''Header erase failed!''" NHSD_ERR_NOERROR] assms(5)
      by (auto simp: NHSD_ERR_NOERROR_def)
    have "flash_slot dev MFSC_FILE_ERASE slot s = Some (Returns 0, s')"
      using False assms(4) by (simp add: flash_slot_def er d(1))
    then show ?thesis using run d(2,3) o1 w1 False unfolding Let_def e by auto
  next
    case True
    obtain s' where d: "mfhf_flash_finish MFSC_FILE_ERASE (moved h1 d1 s) = Some (Returns 0, s')" "hwstate s' = h1"
      "shown s' = shown s @ [(''Finished Flashing'', ''Slot was successfully erased.'', 0)]"
      using flash_finish_ends [of "moved h1 d1 s" MFSC_FILE_ERASE] assms(5) by auto
    have "flash_slot dev MFSC_FILE_ERASE slot s = Some (Returns 0, s')"
      using True assms(4) by (simp add: flash_slot_def er d(1))
    then show ?thesis using run d(2,3) o1 z1 True unfolding Let_def e by auto
  qed
qed

section \<open>The geometry of the flash\<close>

lemma find_target_mb: "find_target mega65_target m = Some mb \<Longrightarrow> mb = 4 \<or> mb = 8"
  by (auto simp: mega65_target_def split: if_splits)

lemma with_hw_fields [simp]:
  "mfu_slot_mb (with_hw h s) = mfu_slot_mb s" "mfu_slot_size (with_hw h s) = mfu_slot_size s"
  "mfu_slot_pagemask (with_hw h s) = mfu_slot_pagemask s" "hw_model_id (with_hw h s) = hw_model_id s"
  by (simp_all add: with_hw_def)

lemma max_block_loop_ends: "max_block_loop dev bs result s = (r, s') \<Longrightarrow> \<exists>h. s' = with_hw h s"
proof (induction bs arbitrary: result s)
  case Nil
  have "s = with_hw (hwstate s) s" by (simp add: with_hw_def hwstate_def)
  with Nil show ?case by auto
next
  case (Cons b bs)
  obtain v h where "dev_peek (card dev) 0xd6c3 (hwstate s) = (v, h)" by (cases "dev_peek (card dev) 0xd6c3 (hwstate s)")
  then obtain ok where "qspi_flash_get_erase_block_size_support dev b s = (ok, with_hw h s)"
    by (simp add: qspi_flash_get_erase_block_size_support_def mf_peek_def)
  with Cons show ?case by fastforce
qed

lemma qspi_flash_reset_ends: "qspi_flash_reset dev s = Some (e, s') \<Longrightarrow> \<exists>h. s' = with_hw h s"
  by (auto simp: qspi_flash_reset_def qspi_status_def await_def mf_peek_def mf_poke_def
      split: bind_splits prod.splits)

lemma mfhf_init_geometry:
  assumes "mfhf_init dev s = Some (0, s')"
  obtains v :: u8 where "mfhf_erase_block_size s' \<noteq> Block_last" and "mfu_slot_size s' = mfu_slot_size s"
    and "mfu_slot_pagemask s' = mfu_slot_pagemask s" and "slot_count s' = ucast ((ucast v :: u16) div ucast (mfu_slot_mb s))"
proof -
  obtain e s1 where reset: "qspi_flash_reset dev s = Some (e, s1)"
    using assms by (auto simp: mfhf_init_def split: if_splits bind_splits)
  then obtain h1 where s1: "s1 = with_hw h1 s" using qspi_flash_reset_ends by blast
  obtain v h2 where size: "qspi_flash_get_size dev s1 = (ucast (v :: u8), with_hw h2 s)"
    by (cases "dev_peek (card dev) 0xd6c2 h1") (auto simp: qspi_flash_get_size_def mf_peek_def s1)
  obtain res s3 where max: "max_block_loop dev [Block_4k, Block_32k, Block_64k, Block_256k] Block_last (with_hw h2 s) = (res, s3)"
    by (cases "max_block_loop dev [Block_4k, Block_32k, Block_64k, Block_256k] Block_last (with_hw h2 s)")
  obtain h3 where s3: "s3 = with_hw h3 s" using max_block_loop_ends [OF max] by auto
  have "res \<noteq> Block_last \<and>
      s' = s3\<lparr>mfhf_erase_block_size := res, slot_count := ucast ((ucast v :: u16) div ucast (mfu_slot_mb s))\<rparr>"
    using assms
    by (auto simp: mfhf_init_def reset size qspi_flash_get_max_erase_block_size_def max s3 simp del: max_block_loop.simps
        split: if_splits)
  then show thesis using that s3 by auto
qed

lemma slot_below_count:
  assumes "slot < (ucast ((ucast (v :: u8) :: u16) div ucast mb) :: u8)" and "mb = 4 \<or> mb = (8 :: u8)"
  shows "Suc (unat slot) * unat mb \<le> 255"
proof -
  have v: "unat (ucast v :: u16) = unat v" and mb: "unat (ucast mb :: u16) = unat mb"
    using unat_u8_less [of v] unat_u8_less [of mb] by (simp_all add: unsigned_ucast_eq take_bit_nat_eq_self_iff)
  have "unat ((ucast v :: u16) div ucast mb) = unat v div unat mb" by (simp add: unat_div v mb)
  moreover have "unat v div unat mb < 256" using unat_u8_less [of v] by (rule le_less_trans [OF div_le_dividend])
  ultimately have "unat (ucast ((ucast v :: u16) div ucast mb) :: u8) = unat v div unat mb"
    by (simp add: unsigned_ucast_eq take_bit_nat_eq_self_iff)
  then have "unat slot < unat v div unat mb" using assms(1) by (simp add: word_less_nat_alt)
  then have "Suc (unat slot) * unat mb \<le> unat v div unat mb * unat mb" by (intro mult_le_mono1) simp
  also have "\<dots> \<le> unat v" by (rule div_times_less_eq_dividend)
  finally show ?thesis using unat_u8_less [of v] by simp
qed

text \<open>
  C8: What the probing of the hardware and the initialisation of the flash establish, whatever the
  registers say: if both succeed, the erase block size is one of the four, a slot has whole
  megabytes that fit its page mask, and every slot below \<open>slot_count\<close> lies below 4 GB, so that no
  address computed from a slot number wraps around.
\<close>

theorem init_geometry:
  assumes "mfut_probe_hardware_version dev s = (0, s1)" and "mfhf_init dev s1 = Some (0, s2)"
    and "slot < slot_count s2"
  shows "geometry s2 slot"
proof -
  obtain mb where mb: "mb = 4 \<or> mb = 8" and s1: "mfu_slot_mb s1 = mb"
    "mfu_slot_size s1 = push_bit 16 (ucast (push_bit 4 mb))" "mfu_slot_pagemask s1 = push_bit 4 mb - 1"
    using assms(1)
    by (auto simp: mfut_probe_hardware_version_def mf_peek_def Let_def split: prod.splits option.splits
        dest: find_target_mb)
  obtain v :: u8 where s2: "mfhf_erase_block_size s2 \<noteq> Block_last" "mfu_slot_size s2 = mfu_slot_size s1"
    "mfu_slot_pagemask s2 = mfu_slot_pagemask s1" "slot_count s2 = ucast ((ucast v :: u16) div ucast mb)"
    using mfhf_init_geometry [OF assms(2)] s1(1) by metis
  have count: "Suc (unat slot) * unat mb \<le> 255"
    using assms(3) mb unfolding s2(4) by (rule slot_below_count)
  show ?thesis using mb
  proof
    assume "mb = 4"
    then show ?thesis using s1 s2 count by (simp add: geometry_def push_bit_eq_mult)
  next
    assume "mb = 8"
    then show ?thesis using s1 s2 count by (simp add: geometry_def push_bit_eq_mult)
  qed
qed

section \<open>A flash and a card that work\<close>

text \<open>
  A concrete controller with a flash and an SD card with the contents \<open>disk\<close>, which share the
  address registers, as in the hardware. It is used to apply the theorems.
\<close>

record chip =
  addr_reg :: "nat \<Rightarrow> u8"
  flash_mem :: "nat \<Rightarrow> u8"
  flash_buf :: "u8 list"
  differs :: bool
  sd_loaded :: u32

definition chip_addr :: "chip \<Rightarrow> u32" where
  "chip_addr c = le32 (addr_reg c 0) (addr_reg c 1) (addr_reg c 2) (addr_reg c 3)"

definition chip_erase :: "nat \<Rightarrow> chip \<Rightarrow> chip" where
  "chip_erase n c = c\<lparr>differs := False,
    flash_mem := (\<lambda>x. if x div n = unat (chip_addr c) div n then 0xff else flash_mem c x)\<rparr>"

definition chip_command :: "u8 \<Rightarrow> chip \<Rightarrow> chip" where
  "chip_command v c =
    (let a = unat (chip_addr c) in
     if v = 0x61 then c\<lparr>differs := False, flash_buf := map (\<lambda>i. flash_mem c (a + i)) [0..<512]\<rparr>
     else if v = 0x62 then c\<lparr>differs := flash_buf c \<noteq> map (\<lambda>i. flash_mem c (a + i)) [0..<512]\<rparr>
     else if v = 0x63 then c\<lparr>differs := False,
       flash_mem := (\<lambda>x. if a \<le> x \<and> x < a + 512 then flash_mem c x AND flash_buf c ! (x - a) else flash_mem c x)\<rparr>
     else if v = 0x64 then chip_erase (2 ^ 12) c
     else if v = 0x67 then chip_erase (2 ^ 15) c
     else if v = 0x68 then chip_erase (2 ^ 16) c
     else if v = 0x6a then chip_erase (2 ^ 18) c
     else if v = 2 then c\<lparr>sd_loaded := chip_addr c\<rparr>
     else c)"

definition ideal_chip :: "(u32 \<Rightarrow> nat \<Rightarrow> u8) \<Rightarrow> chip mf_device" where
  "ideal_chip disk = \<lparr>
     card = \<lparr>
       dev_peek = (\<lambda>a c. (if a = 0xd6c1 then if differs c then 1 else 0
         else if a = 0xd629 then 2 else if a = 0xd6c2 then 16 else if a = 0xd6c3 then 0x11 else 0, c)),
       dev_poke = (\<lambda>a v c.
         if a = 0xd680 then chip_command v c
         else if 0xd681 \<le> a \<and> a \<le> 0xd684 then c\<lparr>addr_reg := (addr_reg c)(unat (a - 0xd681) := v)\<rparr> else c),
       dev_sector = (\<lambda>c. disk (sd_loaded c))\<rparr>,
     qspi_out = (\<lambda>c i. flash_buf c ! i),
     qspi_in = (\<lambda>bs c. c\<lparr>flash_buf := bs\<rparr>)\<rparr>"

lemma chip_issue:
  "issue (ideal_chip disk) v a c = chip_command v (c\<lparr>addr_reg := (addr_reg c)
    (0 := ucast (drop_bit 0 a), 1 := ucast (drop_bit 8 a), 2 := ucast (drop_bit 16 a), 3 := ucast (drop_bit 24 a))\<rparr>)"
  by (simp add: issue_def ideal_chip_def)

lemma chip_answers:
  "answers (ideal_chip disk) v a c ok c' \<longleftrightarrow> issue (ideal_chip disk) v a c = c' \<and> ok = (\<not> differs c')"
  unfolding answers_def by (subst wait_idle.simps) (auto simp: ideal_chip_def)

lemma chip_addr_set:
  "chip_addr (c\<lparr>addr_reg := f(0 := ucast (drop_bit 0 a), 1 := ucast (drop_bit 8 a), 2 := ucast (drop_bit 16 a),
    3 := ucast (drop_bit 24 a))\<rparr>) = a"
  using le32_bytes [of a] by (simp add: chip_addr_def)

lemmas chip_addr_eval [simp] = chip_addr_set [simplified]

lemma chip_erases:
  assumes "erase_command b = Some v" and "get_erase_block_size_in_bytes b = Some n"
  shows "issue (ideal_chip disk) v a c = chip_erase (unat n) (c\<lparr>addr_reg := (addr_reg c)
    (0 := ucast (drop_bit 0 a), 1 := ucast (drop_bit 8 a), 2 := ucast (drop_bit 16 a), 3 := ucast (drop_bit 24 a))\<rparr>)"
  using assms
  by (cases b) (auto simp: chip_issue erase_command_def get_erase_block_size_in_bytes_def chip_command_def Let_def)

lemma chip_parts:
  "dev_poke (card (ideal_chip disk)) 0xd020 v c = c"
  "qspi_out (ideal_chip disk) c i = flash_buf c ! i"
  "qspi_in (ideal_chip disk) bs c = c\<lparr>flash_buf := bs\<rparr>"
  by (simp_all add: ideal_chip_def)

lemma ideal_chip_serves: "flash_serves (ideal_chip disk) (\<lambda>_. True) flash_mem"
proof -
  have erase: "\<exists>ok h'. answers (ideal_chip disk) c a h ok h' \<and> True \<and>
      (\<forall>x. x div unat n \<noteq> unat a div unat n \<longrightarrow> flash_mem h' x = flash_mem h x) \<and>
      (ok \<longrightarrow> (\<forall>x. x div unat n = unat a div unat n \<longrightarrow> flash_mem h' x = 0xff))"
    if "erase_command b = Some c" "get_erase_block_size_in_bytes b = Some n" for h a b c n
    by (intro exI [of _ True] exI [of _ "issue (ideal_chip disk) c a h"])
      (simp add: chip_answers chip_erases [OF that] chip_erase_def)
  show ?thesis
    unfolding flash_serves_def chip_parts
    by (intro conjI allI impI; (rule erase; assumption)?)
      (simp_all add: chip_answers chip_issue chip_command_def Let_def list_eq_iff_nth_eq,
        (rule exI [of _ True], rule TrueI)+)
qed

lemma ideal_chip_works: "flash_works (ideal_chip disk) (\<lambda>_. True) flash_mem"
  unfolding flash_works_def chip_answers
proof (intro conjI allI impI)
  fix h a b c ok h'
  assume b: "erase_command b = Some c" and h': "issue (ideal_chip disk) c a h = h' \<and> ok = (\<not> differs h')"
  obtain n where "get_erase_block_size_in_bytes b = Some n"
    using b by (cases b) (auto simp: erase_command_def get_erase_block_size_in_bytes_def)
  then show ok using h' by (auto simp: chip_erases [OF b] chip_erase_def)
qed (auto simp: chip_issue chip_command_def chip_parts Let_def list_eq_iff_nth_eq)

definition sample_chip :: chip where
  "sample_chip = \<lparr>addr_reg = (\<lambda>_. 0), flash_mem = (\<lambda>_. 0), flash_buf = [], differs = False, sd_loaded = 0\<rparr>"

definition sample_mf :: "chip mf" where
  "sample_mf = \<lparr>sdc = \<lparr>hw = sample_chip, nhsd_buffer = Some (replicate 512 0), nhsd_init_state = 0x1e,
       nhsd_current_dir = 2, nhsd_part_start = 0, nhsd_part_end = 0, sectors_per_cluster = 1,
       reserved_sectors = 0, data_sectors = 0, sectors_per_fat = 0, cluster2_sector = 0,
       open_pos = \<lparr>pos_cluster = 0, pos_sector = 0, sector_in_cluster = 0\<rparr>, open_offset_in_sector = 0,
       nhsd_dirent = \<lparr>d_ino = 0, d_reclen = 0, d_type = 0, d_name = (\<lambda>_. 0)\<rparr>, wild = False\<rparr>,
     far_mem = (\<lambda>a. ucast a), data_buffer = replicate 512 0, cfi_data = replicate 512 0, crc32_zp = (0, 0, 0, 0),
     keys = [0, 0x20], mhx_lastkey = 0, shown = [], mfu_slot_mb = 4, mfu_slot_pagemask = 0x3f, mfu_slot_size = 0x400000,
     hw_model_id = 2, hw_model_minor = 0, mfhf_slot0_erase_list = replicate 16 0xff, mfhf_core_file_state = 1,
     mfhf_erase_block_size = Block_64k, slot_count = 4, mfsc_corehdr_model_id = 2, mfsc_corehdr_bootcaps = 0,
     mfsc_corehdr_bootflags = 0, mfsc_corehdr_instflags = 0, mfsc_corehdr_erase_list = [0x36, 0x2, 0xff, 0xff, 0xff, 0xff,
       0xff, 0xff, 0xff, 0xff, 0xff, 0xff, 0xff, 0xff, 0xff, 0xff],
     mfsc_corehdr_length = 0x30000, mfsc_corehdr_name = [], mfsc_corehdr_version = [], mfsc_corefile_inode = 5,
     mfsc_corefile_size = 0x30000, slot_core = [], corecap_slots = [], selected_file = 1, booted_via_jtag = 0,
     exrom_game = 0xff, cart_id = replicate 9 0, selected_reflash_slot = 0, mfsc_filecount = 0, mfsc_coredir_inode = 0,
     mfsc_selection = 0, mfsc_offset = 0\<rparr>"

definition no_disk :: "u32 \<Rightarrow> nat \<Rightarrow> u8" where
  "no_disk a i = 0"

lemma sample_key [simp]: "key_comes [0, 0x20]"
  by (simp add: key_comes_def)

lemma sample_geometry: "slot < 4 \<Longrightarrow> geometry sample_mf slot"
  by (auto simp: geometry_def sample_mf_def word_less_nat_alt)

lemma sample_fields:
  "mfu_slot_size sample_mf = 0x400000" "mfsc_corehdr_length sample_mf = 0x30000" "keys sample_mf = [0, 0x20]"
  "shown sample_mf = []" "flash_mem (hwstate sample_mf) = (\<lambda>_. 0)"
  "list_all (\<lambda>el. el \<noteq> 0 \<and> el \<noteq> 0xff)
    (take (list_end (mfsc_corehdr_erase_list sample_mf)) (mfsc_corehdr_erase_list sample_mf))"
  by (simp_all add: sample_mf_def hwstate_def sample_chip_def list_end_def)


lemma flash_core_slot0_witness:
  "\<exists>r s'. mfhf_flash_core (ideal_chip no_disk) MFSC_FILE_VALID 0 sample_mf = Some (r, s') \<and>
    same_outside 0 0x400000 (\<lambda>_. 0) (flash_mem (hwstate s'))"
  using flash_core_slot0 [OF ideal_chip_serves TrueI sample_geometry [of 0] _ _ sample_fields(6), of no_disk]
  by (auto simp: sample_fields(1-5) Let_def)

lemma erase_slot_outcome_witness:
  "\<exists>s'. mfhf_flash_core (ideal_chip no_disk) MFSC_FILE_ERASE 2 sample_mf = Some (Returns 0, s') \<and>
    erased (flash_mem (hwstate s')) 0x800000 0x400000"
  using erase_slot_outcome [OF ideal_chip_serves TrueI sample_geometry [of 2], of no_disk] ideal_chip_works [of no_disk]
  by (auto simp: sample_fields Let_def)

lemma chip_peek:
  "mf_peek (ideal_chip disk) a s = (if a = 0xd6c1 then if differs (hwstate s) then 1 else 0
     else if a = 0xd629 then 2 else if a = 0xd6c2 then 16 else if a = 0xd6c3 then 0x11 else 0, s)"
  by (simp add: mf_peek_def ideal_chip_def with_hw_def hwstate_def)

lemma chip_reset: "\<not> differs (hwstate s) \<Longrightarrow> qspi_flash_reset (ideal_chip disk) s = Some (0, s)"
proof -
  have "mf_poke (ideal_chip disk) 0xd680 0x60 s = s"
    by (simp add: mf_poke_def ideal_chip_def chip_command_def Let_def with_hw_def hwstate_def)
  moreover have "await (ideal_chip disk) s = Some s"
    unfolding await_def by (subst wait_idle.simps) (simp add: ideal_chip_def with_hw_def hwstate_def)
  ultimately show "\<not> differs (hwstate s) \<Longrightarrow> ?thesis"
    by (simp add: qspi_flash_reset_def qspi_status_def chip_peek)
qed

lemma init_geometry_witness:
  "\<exists>s1 s2. mfut_probe_hardware_version (ideal_chip no_disk) sample_mf = (0, s1) \<and>
    mfhf_init (ideal_chip no_disk) s1 = Some (0, s2) \<and> slot_count s2 = 4 \<and> geometry s2 3"
proof -
  define s1 where "s1 = snd (mfut_probe_hardware_version (ideal_chip no_disk) sample_mf)"
  have probe: "mfut_probe_hardware_version (ideal_chip no_disk) sample_mf = (0, s1)"
    by (simp add: s1_def mfut_probe_hardware_version_def chip_peek Let_def sample_mf_def mega65_target_def)
  have s1: "mfu_slot_mb s1 = 4" "hw_model_id s1 = 2" "\<not> differs (hwstate s1)"
    by (simp_all add: s1_def mfut_probe_hardware_version_def chip_peek Let_def sample_mf_def
        hwstate_def mega65_target_def sample_chip_def)
  define s2 where "s2 = s1\<lparr>mfhf_erase_block_size := Block_64k, slot_count := 4\<rparr>"
  have init: "mfhf_init (ideal_chip no_disk) s1 = Some (0, s2)"
    by (simp add: mfhf_init_def s1 chip_reset qspi_flash_get_size_def qspi_flash_get_max_erase_block_size_def
        qspi_flash_get_erase_block_size_support_def chip_peek Let_def s2_def)
  have "slot_count s2 = 4" by (simp add: s2_def)
  then show ?thesis using init_geometry [OF probe init, of 3] probe init by auto
qed

end
