(* ===== verification/LoadLaws.thy ===== *)
theory LoadLaws
  imports FlashLaws
begin

text \<open>
  Loading a core from the SD card into Attic RAM: the composition of the file reader, the
  checksum and the flash tool.
\<close>

unbundle bit_operations_syntax

section \<open>Attic RAM\<close>

lemma far_write_attic:
  assumes "y < 2 ^ 31" and "z + length bs \<le> 2 ^ 31"
  shows "far_write (ATTIC + of_nat z) bs f (ATTIC + of_nat y) =
    (if z \<le> y \<and> y < z + length bs then bs ! (y - z) else f (ATTIC + of_nat y))"
proof (cases "z \<le> y")
  case True
  have "unat (of_nat (y - z) :: u32) = y - z" unfolding unat_of_nat using assms(1) by simp
  then have "unat (ATTIC + of_nat y - (ATTIC + of_nat z)) = y - z" using True by (simp add: of_nat_diff)
  then show ?thesis using True by (auto simp: far_write_def)
next
  case False
  have "(of_nat y :: u32) - of_nat z = - of_nat (z - y)" using False by (simp add: of_nat_diff)
  moreover have "unat (- of_nat (z - y) :: u32) = 2 ^ 32 - (z - y)"
  proof -
    have "of_nat (2 ^ 32 - (z - y)) = (of_nat (2 ^ 32) - of_nat (z - y) :: u32)"
      using assms(2) by (intro of_nat_diff) simp
    then have neg: "(- of_nat (z - y) :: u32) = of_nat (2 ^ 32 - (z - y))" by simp
    show ?thesis unfolding neg unat_of_nat using False by simp
  qed
  ultimately have "unat (ATTIC + of_nat y - (ATTIC + of_nat z)) = 2 ^ 32 - (z - y)" by simp
  moreover have "\<not> 2 ^ 32 - (z - y) < length bs" using assms(2) False by simp
  ultimately show ?thesis using False by (simp add: far_write_def)
qed

lemma attic_byte: "i < n \<Longrightarrow> far_read f (ATTIC + a) n ! i = f (ATTIC + a + of_nat i)"
  by (simp add: far_read_def)

section \<open>Reading the file\<close>

text \<open>Sectors \<open>k\<close> to \<open>n - 1\<close> of a file are in Attic RAM.\<close>

definition in_attic ::
  "(u32 \<Rightarrow> nat \<Rightarrow> u8) \<Rightarrow> 'd sd \<Rightarrow> u32 \<Rightarrow> nat \<Rightarrow> nat \<Rightarrow> (u32 \<Rightarrow> u8) \<Rightarrow> bool" where
  "in_attic disk c inode k n f \<longleftrightarrow>
    (\<forall>j. k \<le> j \<and> j < n \<longrightarrow>
      (\<exists>a. file_sector disk c inode j = Some a \<and> (\<forall>i<512. f (ATTIC + of_nat (512 * j + i)) = disk a i)))"

definition loaded :: "'d sd \<Rightarrow> (u32 \<Rightarrow> u8) \<Rightarrow> u8 list \<Rightarrow> u8 \<Rightarrow> 'd mf \<Rightarrow> 'd mf" where
  "loaded c f ks l s = s\<lparr>sdc := c, far_mem := f, keys := ks, mhx_lastkey := l\<rparr>"

lemma loaded_simps [simp]:
  "sdc (loaded c f ks l s) = c" "far_mem (loaded c f ks l s) = f" "keys (loaded c f ks l s) = ks"
  "mhx_lastkey (loaded c f ks l s) = l"
  "loaded c f ks l (loaded c' f' ks' l' s) = loaded c f ks l s"
  "mfsc_corehdr_length (loaded c f ks l s) = mfsc_corehdr_length s"
  "mfsc_corehdr_bootflags (loaded c f ks l s) = mfsc_corehdr_bootflags s"
  "mfhf_core_file_state (loaded c f ks l s) = mfhf_core_file_state s"
  "(loaded c f ks l s)\<lparr>sdc := c'\<rparr> = loaded c' f ks l s"
  "(loaded c f ks l s)\<lparr>far_mem := f'\<rparr> = loaded c f' ks l s"
  "(loaded c f ks l s)\<lparr>keys := ks', mhx_lastkey := l'\<rparr> = loaded c f ks' l' s"
  by (simp_all add: loaded_def)

lemma peek_key:
  obtains k ks where "mhx_getkeycode True s = Some (s\<lparr>keys := ks, mhx_lastkey := k\<rparr>)"
    and "keys s = [] \<longrightarrow> ks = [] \<and> k = 0"
  by (cases "keys s") (auto simp: mhx_getkeycode_def)

lemma load_file_loop_ends:
  assumes "serves (card dev) ready reg disk" and "nhsd_init_state c AND NHSD_INIT_OPENMASK \<noteq> 0"
    and "sectors_per_cluster c \<noteq> 0" and "n = (unat (mfsc_corehdr_length s0) + 511) div 512"
    and "unat (mfsc_corehdr_length s0) \<le> 2 ^ 30"
  shows "ready h \<Longrightarrow> pos_at disk c inode k p \<Longrightarrow> s = loaded (reading c h b p) f ks l s0 \<Longrightarrow> k \<le> n \<Longrightarrow>
    \<exists>r h' b' p' f' ks' l'. load_file_loop dev (of_nat (512 * k)) s =
        Some (r, loaded (reading c h' b' p') f' ks' l' s0) \<and> ready h' \<and>
      (ks = [] \<longrightarrow> ks' = []) \<and>
      (r = Some 0 \<and> in_attic disk c inode k n f' \<and>
         (\<forall>x < 512 * k. f' (ATTIC + of_nat x) = f (ATTIC + of_nat x)) \<or>
       r = None \<and> ks \<noteq> [] \<or>
       (\<exists>e. r = Some e \<and> e \<noteq> 0) \<and> (\<exists>j. k \<le> j \<and> j < n \<and> file_sector disk c inode j = None))"
proof (induction "n - k" arbitrary: h p k b f ks l s)
  case 0
  then have k: "k = n" by simp
  let ?L = "unat (mfsc_corehdr_length s0)"
  have "512 * n < 2 ^ 32" "?L \<le> 512 * n" using assms(4,5) by auto
  then have "\<not> (of_nat (512 * k) :: u32) < mfsc_corehdr_length s0"
    by (simp add: k word_less_nat_alt unat_of_nat del: of_nat_mult)
  then have "load_file_loop dev (of_nat (512 * k)) s = Some (Some 0, s)"
    using 0(4) by (subst load_file_loop.simps) (simp del: of_nat_mult)
  moreover have "in_attic disk c inode k n f" by (auto simp: in_attic_def k)
  ultimately show ?case using 0(2,4)
    by (intro exI [of _ "Some 0"] exI [of _ h] exI [of _ b] exI [of _ p] exI [of _ f] exI [of _ ks] exI [of _ l]) simp
next
  case (Suc m)
  let ?L = "unat (mfsc_corehdr_length s0)" and ?a = "of_nat (512 * k) :: u32"
  have kn: "k < n" using Suc.hyps(2) by simp
  then have lt: "512 * k < ?L" "512 * n < 2 ^ 31" using assms(4,5) by auto
  then have less: "?a < mfsc_corehdr_length s0"
    by (simp add: word_less_nat_alt unat_of_nat del: of_nat_mult)
  have next_a: "?a + 512 = of_nat (512 * Suc k)" by simp
  obtain h1 b1 p1 e where rd: "ready h1" "result_of (nhsd_read (card dev)) (reading c h b p) = e"
    "state_after (nhsd_read (card dev)) (reading c h b p) = reading c h1 b1 p1"
    "pos_at disk c inode (Suc k) p1" "(e, if e = 0 then Some b1 else None) = expected_read disk c inode k"
    by (rule nhsd_read_step [OF assms(1) Suc.prems(1) assms(2,3) Suc.prems(2)])
  have on: "on_sd (nhsd_read (card dev)) s = (e, loaded (reading c h1 b1 p1) f ks l s0)"
    using rd(2,3) Suc.prems(3) by (simp add: on_sd_def run_state_pair)
  show ?case
  proof (cases "file_sector disk c inode k")
    case None
    then have e: "e \<noteq> 0" using rd(5) by (simp add: expected_read_def sd_errors)
    then have "load_file_loop dev ?a s = Some (Some e, loaded (reading c h1 b1 p1) f ks l s0)"
      using less on Suc.prems(3) by (subst load_file_loop.simps) (simp del: of_nat_mult)
    then show ?thesis using rd(1) e None kn by blast
  next
    case (Some a)
    then have e: "e = 0" "b1 = map (disk a) [0..<512]" using rd(5) by (auto simp: expected_read_def sd_errors split: if_splits)
    let ?f1 = "far_write (ATTIC + ?a) b1 f"
    obtain k1 ks1 where key: "mhx_getkeycode True (loaded (reading c h1 b1 p1) ?f1 ks l s0) =
        Some (loaded (reading c h1 b1 p1) ?f1 ks1 k1 s0)" "ks = [] \<longrightarrow> ks1 = [] \<and> k1 = 0"
      using peek_key [of "loaded (reading c h1 b1 p1) ?f1 ks l s0"] by (metis loaded_simps(3,11))
    let ?next = "loaded (reading c h1 b1 p1) ?f1 ks1 k1 s0"
    have "load_file_loop dev ?a s = (if aborted ?next then Some (None, ?next) else load_file_loop dev (?a + 512) ?next)"
      using less on key(1) Suc.prems(3) e(1)
      by (subst load_file_loop.simps) (simp add: the_buffer_def del: of_nat_mult of_nat_Suc)
    note step = this [unfolded next_a]
    show ?thesis
    proof (cases "aborted ?next")
      case True
      then have "ks \<noteq> []" using key(2) by (auto simp: aborted_def)
      then show ?thesis using step True rd(1) key(2)
        by (intro exI [of _ None] exI [of _ h1] exI [of _ b1] exI [of _ p1] exI [of _ ?f1] exI [of _ ks1] exI [of _ k1])
          simp
    next
      case False
      have "m = n - Suc k" "Suc k \<le> n" using Suc.hyps(2) kn by simp_all
      from Suc.hyps(1) [OF this(1) rd(1,4) refl this(2), of b1 ?f1 ks1 k1]
      obtain r h' b' p' f' ks' l' where
        run: "load_file_loop dev (of_nat (512 * Suc k)) ?next = Some (r, loaded (reading c h' b' p') f' ks' l' s0)"
        and h': "ready h'" "ks1 = [] \<longrightarrow> ks' = []"
        and res: "r = Some 0 \<and> in_attic disk c inode (Suc k) n f' \<and>
            (\<forall>x < 512 * Suc k. f' (ATTIC + of_nat x) = ?f1 (ATTIC + of_nat x)) \<or>
          r = None \<and> ks1 \<noteq> [] \<or>
          (\<exists>e. r = Some e \<and> e \<noteq> 0) \<and> (\<exists>j. Suc k \<le> j \<and> j < n \<and> file_sector disk c inode j = None)"
        by (elim exE conjE)
      have first: "in_attic disk c inode k n f'" "\<forall>x < 512 * k. f' (ATTIC + of_nat x) = f (ATTIC + of_nat x)"
        if rest: "in_attic disk c inode (Suc k) n f'" and keep: "\<forall>x < 512 * Suc k. f' (ATTIC + of_nat x) = ?f1 (ATTIC + of_nat x)"
      proof -
        have k31: "512 * k + length b1 \<le> 2 ^ 31" using kn lt(2) e(2) by simp
        have w: "?f1 (ATTIC + of_nat x) = (if 512 * k \<le> x then b1 ! (x - 512 * k) else f (ATTIC + of_nat x))"
          if "x < 512 * Suc k" for x
          using that k31 e(2) by (subst far_write_attic) auto
        show "\<forall>x < 512 * k. f' (ATTIC + of_nat x) = f (ATTIC + of_nat x)" using keep w by simp
        have "f' (ATTIC + of_nat (512 * k + i)) = disk a i" if "i < 512" for i
        proof -
          have x: "512 * k + i < 512 * Suc k" using that by simp
          have "f' (ATTIC + of_nat (512 * k + i)) = b1 ! i"
            using keep [rule_format, OF x] w [OF x] by (simp del: of_nat_add of_nat_mult)
          then show ?thesis using that by (simp add: e(2))
        qed
        then show "in_attic disk c inode k n f'"
          using rest Some unfolding in_attic_def by (metis not_less_eq_eq le_antisym)
      qed
      have "(ks = [] \<longrightarrow> ks' = [])" using key(2) h'(2) by simp
      moreover have "r = Some 0 \<and> in_attic disk c inode k n f' \<and> (\<forall>x < 512 * k. f' (ATTIC + of_nat x) = f (ATTIC + of_nat x)) \<or>
          r = None \<and> ks \<noteq> [] \<or>
          (\<exists>e. r = Some e \<and> e \<noteq> 0) \<and> (\<exists>j. k \<le> j \<and> j < n \<and> file_sector disk c inode j = None)"
      proof (use res in \<open>elim disjE\<close>, goal_cases)
        case 1
        then show ?case using first by (intro disjI1 conjI) blast+
      next
        case 2
        then show ?case using key(2) by (intro disjI2 disjI1) blast
      next
        case 3
        then show ?case using Suc_leD by (intro disjI2) blast
      qed
      ultimately show ?thesis using step False run h'(1)
        by (intro exI [of _ r] exI [of _ h'] exI [of _ b'] exI [of _ p'] exI [of _ f'] exI [of _ ks'] exI [of _ l'])
          (simp only: if_False simp_thms)
    qed
  qed
qed

section \<open>The checksum\<close>

definition summed :: "u8 list \<Rightarrow> crc_zp \<Rightarrow> u8 list \<Rightarrow> u8 \<Rightarrow> 'd mf \<Rightarrow> 'd mf" where
  "summed b z ks l s = (set_buffer b s)\<lparr>crc32_zp := z, keys := ks, mhx_lastkey := l\<rparr>"

lemma summed_simps [simp]:
  "the_buffer (summed b z ks l s) = b" "far_mem (summed b z ks l s) = far_mem s" "keys (summed b z ks l s) = ks"
  "crc32_zp (summed b z ks l s) = z" "data_buffer (summed b z ks l s) = data_buffer s"
  "cfi_data (summed b z ks l s) = cfi_data s" "mhx_lastkey (summed b z ks l s) = l"
  "mfsc_corehdr_length (summed b z ks l s) = mfsc_corehdr_length s"
  "set_buffer b' (summed b z ks l s) = summed b' z ks l s"
  "(summed b z ks l s)\<lparr>crc32_zp := z'\<rparr> = summed b z' ks l s"
  "(summed b z ks l s)\<lparr>keys := ks', mhx_lastkey := l'\<rparr> = summed b z ks' l' s"
  by (simp_all add: summed_def set_buffer_def the_buffer_def)

lemma far_read_part:
  assumes "m \<le> 256" and "256 * k + m \<le> L"
  shows "take m (far_read f (ATTIC + of_nat (256 * k)) 256 @ r) = take m (drop (256 * k) (far_read f ATTIC L))"
  using assms by (intro nth_equalityI) (auto simp: far_read_def nth_append ac_simps)

text \<open>One block: what \<open>update_crc32\<close> is given is the block, or what is left of the core.\<close>

lemma crc_block:
  fixes len :: u32
  assumes "256 * k < unat len" and "unat len \<le> 2 ^ 30"
  shows "zp_long (update_crc32 (fst make_crc32_tables) (snd make_crc32_tables)
      (if len - of_nat (256 * k) > 255 then 0 else ucast (len - of_nat (256 * k)))
      (far_read f (ATTIC + of_nat (256 * k)) 256 @ r) z) =
    fold crc_byte (take 256 (drop (256 * k) (far_read f ATTIC (unat len)))) (zp_long z)"
proof -
  let ?d = "unat len - 256 * k" and ?D = "len - of_nat (256 * k)"
  have k: "unat (of_nat (256 * k) :: u32) = 256 * k" unfolding unat_of_nat using assms by simp
  then have "of_nat (256 * k) \<le> len" using assms(1) by (simp only: word_le_nat_alt k less_imp_le)
  then have d: "unat ?D = ?d" using k by (simp only: unat_sub)
  show ?thesis
  proof (cases "255 < ?d")
    case True
    then have "?D > 255" by (simp add: word_less_nat_alt d del: of_nat_mult)
    moreover have "far_read f (ATTIC + of_nat (256 * k)) 256 = take 256 (drop (256 * k) (far_read f ATTIC (unat len)))"
      using True far_read_part [of 256 k "unat len" f "[]"] by (simp del: of_nat_mult)
    ultimately show ?thesis using True by (simp add: update_crc32_folds del: of_nat_mult)
  next
    case False
    then have not: "\<not> ?D > 255" by (simp add: word_less_nat_alt d del: of_nat_mult)
    have u: "unat (ucast ?D :: u8) = ?d" using False d by (simp add: unsigned_ucast_eq take_bit_nat_eq_self_iff)
    then have "(ucast ?D :: u8) \<noteq> 0" using assms(1) by (metis unsigned_0 zero_less_diff less_numeral_extra(3))
    moreover have "take 256 (drop (256 * k) (far_read f ATTIC (unat len))) = take ?d (drop (256 * k) (far_read f ATTIC (unat len)))"
      using False by simp
    moreover have "take ?d (far_read f (ATTIC + of_nat (256 * k)) 256) = take ?d (drop (256 * k) (far_read f ATTIC (unat len)))"
      using False assms(1) far_read_part [of ?d k "unat len" f "[]"] by (simp del: of_nat_mult)
    ultimately show ?thesis
      using not False u by (simp add: update_crc32_folds del: of_nat_mult)
  qed
qed

text \<open>The blocks behind the first.\<close>

lemma crc_loop_rest:
  assumes "L = unat (mfsc_corehdr_length s0)" and "L \<le> 2 ^ 30" and "data_buffer s0 = fst make_crc32_tables"
    and "cfi_data s0 = snd make_crc32_tables"
  shows "s = summed b z ks l s0 \<Longrightarrow> 256 * k < L + 256 \<Longrightarrow>
    \<exists>r b' z' ks' l'. crc_loop (Some crc) (of_nat (256 * k)) s = Some (r, summed b' z' ks' l' s0) \<and>
      (ks = [] \<longrightarrow> ks' = []) \<and>
      (r = Some (Some crc) \<and> zp_long z' = fold crc_byte (drop (256 * k) (far_read (far_mem s0) ATTIC L)) (zp_long z) \<or>
       r = None \<and> ks \<noteq> [])"
proof (induction "L + 256 - 256 * k" arbitrary: k s b z ks l rule: less_induct)
  case less
  let ?a = "of_nat (256 * k) :: u32" and ?M = "far_read (far_mem s0) ATTIC L"
  have a: "unat ?a = 256 * k" unfolding unat_of_nat using less.prems(2) assms(2) by simp
  show ?case
  proof (cases "256 * k < L")
    case False
    then have "\<not> ?a < mfsc_corehdr_length s0" by (simp add: word_less_nat_alt a assms(1) del: of_nat_mult)
    then have "crc_loop (Some crc) ?a s = Some (Some (Some crc), summed b z ks l s0)"
      using less.prems(1) by (subst crc_loop.simps) (simp del: of_nat_mult)
    moreover have "drop (256 * k) ?M = []" using False by simp
    ultimately show ?thesis by (intro exI [of _ "Some (Some crc)"] exI [of _ b] exI [of _ z] exI [of _ ks] exI [of _ l]) simp
  next
    case True
    then have lt: "?a < mfsc_corehdr_length s0" by (simp add: word_less_nat_alt a assms(1) del: of_nat_mult)
    let ?b = "far_read (far_mem s0) (ATTIC + ?a) 256 @ drop 256 b"
    define z1 where "z1 = update_crc32 (fst make_crc32_tables) (snd make_crc32_tables)
      (if mfsc_corehdr_length s0 - ?a > 255 then 0 else ucast (mfsc_corehdr_length s0 - ?a)) ?b z"
    have z1: "zp_long z1 = fold crc_byte (take 256 (drop (256 * k) ?M)) (zp_long z)"
      unfolding z1_def using True assms(1,2) crc_block [of k "mfsc_corehdr_length s0" "far_mem s0" "drop 256 b" z] by simp
    obtain k1 ks1 where key: "mhx_getkeycode True (summed ?b z1 ks l s0) = Some (summed ?b z1 ks1 k1 s0)"
      "ks = [] \<longrightarrow> ks1 = [] \<and> k1 = 0"
    proof (rule peek_key [of "summed ?b z1 ks l s0"], goal_cases)
      case (1 k1 ks1)
      then show ?case using that [of ks1 k1] by (simp only: summed_simps)
    qed
    let ?next = "summed ?b z1 ks1 k1 s0"
    have step: "crc_loop (Some crc) ?a s = (if aborted ?next then Some (None, ?next) else crc_loop (Some crc) (?a + 256) ?next)"
      using lt key(1) less.prems(1) assms(3,4)
      by (subst crc_loop.simps) (simp add: Let_def z1_def [symmetric] del: of_nat_mult split del: if_split cong del: if_weak_cong)
    show ?thesis
    proof (cases "aborted ?next")
      case ab: True
      then have "ks \<noteq> []" using key(2) by (auto simp: aborted_def)
      then show ?thesis using step ab key(2)
        by (intro exI [of _ None] exI [of _ ?b] exI [of _ z1] exI [of _ ks1] exI [of _ k1]) simp
    next
      case False
      have "L + 256 - 256 * Suc k < L + 256 - 256 * k" "256 * Suc k < L + 256" using True by simp_all
      from less.hyps [OF this(1) refl this(2), of ?b z1 ks1 k1]
      obtain r b' z' ks' l' where rec: "crc_loop (Some crc) (of_nat (256 * Suc k)) ?next = Some (r, summed b' z' ks' l' s0)"
        and ks': "ks1 = [] \<longrightarrow> ks' = []" and res: "r = Some (Some crc) \<and>
          zp_long z' = fold crc_byte (drop (256 * Suc k) ?M) (zp_long z1) \<or> r = None \<and> ks1 \<noteq> []"
        by (elim exE conjE)
      have next_a: "?a + 256 = of_nat (256 * Suc k)" by simp
      have "fold crc_byte (drop (256 * Suc k) ?M) (zp_long z1) = fold crc_byte (drop (256 * k) ?M) (zp_long z)"
      proof -
        have "drop (256 * k) ?M = take 256 (drop (256 * k) ?M) @ drop (256 * Suc k) ?M"
          by (simp add: add.commute flip: drop_drop)
        then show ?thesis unfolding z1 by (metis fold_append comp_apply)
      qed
      then show ?thesis using step [unfolded next_a] False rec ks' res key(2)
        by (intro exI [of _ r] exI [of _ b'] exI [of _ z'] exI [of _ ks'] exI [of _ l']) auto
    qed
  qed
qed

section \<open>The header of the core in Attic RAM\<close>

text \<open>Memory with the checksum of the core replaced by the value it is computed with.\<close>

definition crc_blank :: "(u32 \<Rightarrow> u8) \<Rightarrow> u32 \<Rightarrow> u8" where
  "crc_blank f = far_write (ATTIC + of_nat MFSC_COREHDR_CRC32) (replicate 4 0xf0) f"

definition attic_word :: "(u32 \<Rightarrow> u8) \<Rightarrow> nat \<Rightarrow> u32" where
  "attic_word f i = le32_in (far_read f (ATTIC + of_nat i) 4) 0"

text \<open>The core in Attic RAM has the length \<open>len\<close> in its header, and the checksum is right.\<close>

definition core_good :: "(u32 \<Rightarrow> u8) \<Rightarrow> u32 \<Rightarrow> bool" where
  "core_good f len \<longleftrightarrow> 0 < len \<and> attic_word f MFSC_COREHDR_LENGTH = len \<and>
    attic_word f MFSC_COREHDR_CRC32 = crc32 (far_read (crc_blank f) ATTIC (unat len))"

lemma crc_blank_at: "y < 2 ^ 31 \<Longrightarrow> crc_blank f (ATTIC + of_nat y) =
    (if 0x84 \<le> y \<and> y < 0x88 then 0xf0 else f (ATTIC + of_nat y))"
  unfolding crc_blank_def by (subst far_write_attic) (auto simp: MFSC_COREHDR_CRC32_def)

lemma crc_first_block_far: "crc_first_block (far_read f ATTIC 256 @ r) = far_read (crc_blank f) ATTIC 256 @ r"
proof -
  have "crc_first_block (far_read f ATTIC 256) ! i = far_read (crc_blank f) ATTIC 256 ! i" if "i < 256" for i
    using that crc_blank_at [of i f]
    by (auto simp: crc_first_block_def MFSC_COREHDR_CRC32_def far_read_def nth_list_update)
  then have "crc_first_block (far_read f ATTIC 256) = far_read (crc_blank f) ATTIC 256"
    by (intro nth_equalityI) (simp_all add: crc_first_block_def far_read_def)
  then show ?thesis
    by (simp add: crc_first_block_def MFSC_COREHDR_CRC32_def list_update_append far_read_def)
qed

lemma crc_blank_rest: "L < 2 ^ 31 \<Longrightarrow> drop 256 (far_read (crc_blank f) ATTIC L) = drop 256 (far_read f ATTIC L)"
  by (intro nth_equalityI) (auto simp: far_read_def crc_blank_at simp del: of_nat_add)

lemma header_word: "i + 4 \<le> 256 \<Longrightarrow> le32_in (far_read f ATTIC 256 @ r) i = attic_word f i"
  by (simp add: attic_word_def le32_in_def far_read_def nth_append ac_simps)

lemma crc_loop_ends:
  assumes "L = unat (mfsc_corehdr_length s0)" and "L \<le> 2 ^ 30" and "data_buffer s0 = fst make_crc32_tables"
    and "cfi_data s0 = snd make_crc32_tables" and s: "s = summed b z ks l s0"
  obtains r b' z' ks' l' where "crc_loop None 0 s = Some (r, summed b' z' ks' l' s0)" and "ks = [] \<longrightarrow> ks' = []"
    and "0 < L \<and> attic_word (far_mem s0) MFSC_COREHDR_LENGTH = mfsc_corehdr_length s0 \<and>
        r = Some (Some (attic_word (far_mem s0) MFSC_COREHDR_CRC32)) \<and>
        zp_long z' = fold crc_byte (far_read (crc_blank (far_mem s0)) ATTIC L) (zp_long z) \<or>
      \<not> (0 < L \<and> attic_word (far_mem s0) MFSC_COREHDR_LENGTH = mfsc_corehdr_length s0) \<and> r = Some None \<or>
      r = None \<and> ks \<noteq> []"
proof -
  let ?len = "mfsc_corehdr_length s0" and ?f = "far_mem s0"
  let ?old = "far_read ?f ATTIC 256 @ drop 256 b" and ?b = "far_read (crc_blank ?f) ATTIC 256 @ drop 256 b"
  define z1 where "z1 = update_crc32 (fst make_crc32_tables) (snd make_crc32_tables)
    (if ?len > 255 then 0 else ucast ?len) ?b z"
  have words: "le32_in ?old MFSC_COREHDR_LENGTH = attic_word ?f MFSC_COREHDR_LENGTH"
    "le32_in ?old MFSC_COREHDR_CRC32 = attic_word ?f MFSC_COREHDR_CRC32"
    by (simp_all add: header_word MFSC_COREHDR_LENGTH_def MFSC_COREHDR_CRC32_def)
  have L_less: "L < 2 ^ 31" using assms(2) by simp
  have pos: "0 < ?len \<longleftrightarrow> 0 < L" by (simp add: assms(1) word_less_nat_alt)
  show thesis
  proof (cases "0 < L")
    case False
    then have "crc_loop None 0 s = Some (Some None, summed b z ks l s0)"
      using pos s by (subst crc_loop.simps) simp
    then show thesis using False by (intro that [of "Some None" b z ks l]) simp_all
  next
    case L: True
    show thesis
    proof (cases "attic_word ?f MFSC_COREHDR_LENGTH = ?len")
      case False
      then have "crc_loop None 0 s = Some (Some None, summed (crc_first_block ?old) z ks l s0)"
        using L pos s words by (subst crc_loop.simps) (simp add: Let_def)
      then show thesis using False by (intro that [of "Some None" _ z ks l]) simp_all
    next
      case True
      let ?c = "attic_word ?f MFSC_COREHDR_CRC32"
      obtain k1 ks1 where key: "mhx_getkeycode True (summed ?b z1 ks l s0) = Some (summed ?b z1 ks1 k1 s0)"
        "ks = [] \<longrightarrow> ks1 = [] \<and> k1 = 0"
      proof (rule peek_key [of "summed ?b z1 ks l s0"], goal_cases)
        case (1 k1 ks1)
        then show ?case using that [of ks1 k1] by (simp only: summed_simps)
      qed
      let ?next = "summed ?b z1 ks1 k1 s0"
      have step: "crc_loop None 0 s = (if aborted ?next then Some (None, ?next) else crc_loop (Some ?c) 256 ?next)"
        using L pos s key(1) assms(3,4) words True
        by (subst crc_loop.simps)
          (simp add: Let_def crc_first_block_far z1_def [symmetric] split del: if_split cong del: if_weak_cong)
      show thesis
      proof (cases "aborted ?next")
        case ab: True
        then have "ks \<noteq> []" using key(2) by (auto simp: aborted_def)
        then show thesis using step ab key(2) by (intro that [of None ?b z1 ks1 k1]) simp_all
      next
        case False
        obtain r b' z' ks' l' where rec: "crc_loop (Some ?c) (of_nat (256 * 1)) ?next = Some (r, summed b' z' ks' l' s0)"
          and ks': "ks1 = [] \<longrightarrow> ks' = []" and res: "r = Some (Some ?c) \<and>
            zp_long z' = fold crc_byte (drop (256 * 1) (far_read ?f ATTIC L)) (zp_long z1) \<or> r = None \<and> ks1 \<noteq> []"
          using crc_loop_rest [OF assms(1-4) refl, of 1 ?c ?b z1 ks1 k1] L by auto
        have "zp_long z1 = fold crc_byte (take 256 (far_read (crc_blank ?f) ATTIC L)) (zp_long z)"
          using crc_block [of 0 ?len "crc_blank ?f" "drop 256 b" z] L assms(1,2)
          by (simp add: z1_def split del: if_split cong del: if_weak_cong)
        then have "fold crc_byte (drop 256 (far_read ?f ATTIC L)) (zp_long z1) =
            fold crc_byte (far_read (crc_blank ?f) ATTIC L) (zp_long z)"
          using crc_blank_rest [of L ?f] append_take_drop_id [of 256 "far_read (crc_blank ?f) ATTIC L"]
          by (metis comp_apply fold_append L_less)
        then show thesis
          using step False rec ks' res key(2) L True by (intro that [of r b' z' ks' l']) auto
      qed
    qed
  qed
qed

section \<open>Checking the core\<close>

lemma core_good_cong:
  assumes "core_good f len" and "\<And>y. y < m \<Longrightarrow> g (ATTIC + of_nat y) = f (ATTIC + of_nat y)" and "m \<le> 2 ^ 31"
    and "0x88 \<le> m" and "unat len \<le> m"
  shows "core_good g len"
proof -
  have word: "attic_word g i = attic_word f i" if "i + 4 \<le> m" for i
  proof -
    have "far_read g (ATTIC + of_nat i) 4 = far_read f (ATTIC + of_nat i) 4"
      using that assms(2) by (intro nth_equalityI) (auto simp: far_read_def ac_simps simp flip: of_nat_add)
    then show ?thesis by (simp only: attic_word_def)
  qed
  have "far_read (crc_blank g) ATTIC (unat len) = far_read (crc_blank f) ATTIC (unat len)"
    using assms(2,3,5) by (intro nth_equalityI) (auto simp: far_read_def crc_blank_at)
  then show ?thesis
    using assms(1,4) word [of MFSC_COREHDR_LENGTH] word [of MFSC_COREHDR_CRC32]
    by (simp add: core_good_def MFSC_COREHDR_LENGTH_def MFSC_COREHDR_CRC32_def)
qed

definition with_flags :: "'d mf \<Rightarrow> (u32 \<Rightarrow> u8) \<Rightarrow> u32 \<Rightarrow> u8" where
  "with_flags s f = f(ATTIC + of_nat MFSC_COREHDR_BOOTFLAGS := mfsc_corehdr_bootflags s)"

lemma lc_states [simp]: "MFHF_LC_NOTLOADED = 0" "MFHF_LC_ATTICOK = 1"
  by (simp_all add: MFHF_LC_NOTLOADED_def MFHF_LC_ATTICOK_def)

lemma display_error_keeps: "mfhf_display_error t m e s = Some s' \<Longrightarrow>
    far_mem s' = far_mem s \<and> mfhf_core_file_state s' = mfhf_core_file_state s"
  by (auto simp: mfhf_display_error_def mhx_press_any_key_def mhx_clear_keybuffer_def mhx_getkeycode_def split: option.splits Option.bind_splits)

text \<open>What loading leaves as it is.\<close>

definition same_setup :: "'d mf \<Rightarrow> 'd mf \<Rightarrow> bool" where
  "same_setup s s' \<longleftrightarrow> mfsc_corehdr_length s' = mfsc_corehdr_length s \<and> mfu_slot_size s' = mfu_slot_size s \<and>
    geometry s' = geometry s \<and> shown s' = shown s"

lemma check_core_ends:
  assumes "unat (mfsc_corehdr_length s) \<le> 2 ^ 30" and "nhsd_buffer (sdc s) \<noteq> None" and "mfhf_core_file_state s = 0"
  shows "mfhf_check_core s = Some (r, s') \<Longrightarrow> r \<noteq> 0 \<Longrightarrow>
      r = 1 \<and> core_good (far_mem s) (mfsc_corehdr_length s) \<and> far_mem s' = with_flags s (far_mem s) \<and>
      same_setup s s' \<and> hwstate s' = hwstate s"
    and "keys s = [] \<Longrightarrow> core_good (far_mem s) (mfsc_corehdr_length s) \<Longrightarrow>
      \<exists>s'. mfhf_check_core s = Some (1, s') \<and> far_mem s' = with_flags s (far_mem s)"
proof -
  let ?t = "s\<lparr>data_buffer := fst make_crc32_tables, cfi_data := snd make_crc32_tables, crc32_zp := init_crc32\<rparr>"
  let ?L = "unat (mfsc_corehdr_length s)" and ?f = "far_mem s"
  obtain b where b: "nhsd_buffer (sdc s) = Some b" using assms(2) by blast
  have t: "?t = summed b init_crc32 (keys s) (mhx_lastkey s) ?t"
    using b by (simp add: summed_def set_buffer_def)
  have pos: "0 < mfsc_corehdr_length s \<longleftrightarrow> 0 < ?L" by (simp add: word_less_nat_alt)
  obtain c b' z' ks' l' where run: "crc_loop None 0 ?t = Some (c, summed b' z' ks' l' ?t)"
    and ks': "keys s = [] \<longrightarrow> ks' = []" and res: "0 < ?L \<and> attic_word ?f MFSC_COREHDR_LENGTH = mfsc_corehdr_length s \<and>
        c = Some (Some (attic_word ?f MFSC_COREHDR_CRC32)) \<and>
        zp_long z' = fold crc_byte (far_read (crc_blank ?f) ATTIC ?L) (zp_long init_crc32) \<or>
      \<not> (0 < ?L \<and> attic_word ?f MFSC_COREHDR_LENGTH = mfsc_corehdr_length s) \<and> c = Some None \<or>
      c = None \<and> keys s \<noteq> []"
    by (rule crc_loop_ends [OF refl _ _ _ t]) (use assms(1) in simp_all)
  have sum: "get_crc32 z' = crc32 (far_read (crc_blank ?f) ATTIC ?L)"
    if "zp_long z' = fold crc_byte (far_read (crc_blank ?f) ATTIC ?L) (zp_long init_crc32)"
    using that by (simp add: get_crc32_def crc32_def zp_long_init)
  have good: "c = Some (Some (get_crc32 z')) \<longleftrightarrow> core_good ?f (mfsc_corehdr_length s)" if "c \<noteq> None"
    using res that pos sum by (auto simp: core_good_def)
  let ?u = "\<lambda>st. (summed b' z' ks' l' ?t)\<lparr>mfhf_core_file_state := st, far_mem := with_flags s ?f\<rparr>"
  have fin: "mfhf_check_core s = (case c of None \<Rightarrow> Some (0, summed b' z' ks' l' ?t) | Some cc \<Rightarrow>
      if cc = Some (get_crc32 z') then Some (1, ?u 1)
      else Option.bind (mfhf_display_error ''Load Error'' ''CRC32 Checksum Error!'' NHSD_ERR_NOERROR (?u 0))
        (\<lambda>s. Some (mfhf_core_file_state s, s)))"
    using run assms(3)
    by (auto simp: mfhf_check_core_def Let_def with_flags_def summed_def set_buffer_def split: option.split)
  have keep: "same_setup s (?u st)" "hwstate (?u st) = hwstate s" for st
    by (simp_all add: same_setup_def hwstate_def summed_def set_buffer_def geometry_def fun_eq_iff)
  show "r = 1 \<and> core_good ?f (mfsc_corehdr_length s) \<and> far_mem s' = with_flags s ?f \<and>
      same_setup s s' \<and> hwstate s' = hwstate s"
    if "mfhf_check_core s = Some (r, s')" "r \<noteq> 0"
    using that fin good keep [of 1] display_error_keeps
    by (auto simp del: summed_simps split: option.splits if_splits Option.bind_splits) fastforce+
  show "\<exists>s'. mfhf_check_core s = Some (1, s') \<and> far_mem s' = with_flags s ?f"
    if "keys s = []" "core_good ?f (mfsc_corehdr_length s)"
    using that fin good res by (cases c) (auto simp: core_good_def)
qed

section \<open>Loading a core\<close>

text \<open>The bytes of a file, and memory whose Attic RAM begins with the sectors of a file.\<close>

definition file_byte :: "(u32 \<Rightarrow> nat \<Rightarrow> u8) \<Rightarrow> 'd sd \<Rightarrow> u32 \<Rightarrow> nat \<Rightarrow> u8 option" where
  "file_byte disk c inode x = map_option (\<lambda>a. disk a (x mod 512)) (file_sector disk c inode (x div 512))"

definition holds_file :: "(u32 \<Rightarrow> nat \<Rightarrow> u8) \<Rightarrow> 'd mf \<Rightarrow> (u32 \<Rightarrow> u8) \<Rightarrow> bool" where
  "holds_file disk s f \<longleftrightarrow> (\<forall>x < unat (mfsc_corehdr_length s) + 511 - (unat (mfsc_corehdr_length s) + 511) mod 512.
     file_byte disk (sdc s) (mfsc_corefile_inode s) x = Some (f (ATTIC + of_nat x)))"

lemma in_attic_holds:
  assumes "n = (unat (mfsc_corehdr_length s) + 511) div 512"
    and "\<And>j. file_sector disk c (mfsc_corefile_inode s) j = file_sector disk (sdc s) (mfsc_corefile_inode s) j"
  shows "in_attic disk c (mfsc_corefile_inode s) 0 n f \<longleftrightarrow> holds_file disk s f"
proof -
  let ?i = "mfsc_corefile_inode s"
  have n: "unat (mfsc_corehdr_length s) + 511 - (unat (mfsc_corehdr_length s) + 511) mod 512 = 512 * n"
    unfolding assms(1) by (simp add: minus_mod_eq_mult_div)
  have "in_attic disk c ?i 0 n f \<longleftrightarrow>
    (\<forall>j<n. \<forall>i<512. file_byte disk (sdc s) ?i (512 * j + i) = Some (f (ATTIC + of_nat (512 * j + i))))"
  proof -
    have fb: "file_byte disk (sdc s) ?i (512 * j + i) = map_option (\<lambda>a. disk a i) (file_sector disk (sdc s) ?i j)"
      if "i < 512" for i j
      using that by (simp add: file_byte_def)
    have "(\<exists>a. file_sector disk c ?i j = Some a \<and> (\<forall>i<512. f (ATTIC + of_nat (512 * j + i)) = disk a i)) \<longleftrightarrow>
      (\<forall>i<512. file_byte disk (sdc s) ?i (512 * j + i) = Some (f (ATTIC + of_nat (512 * j + i))))" for j
      unfolding assms(2)
      by (cases "file_sector disk (sdc s) ?i j") (auto simp: fb simp del: of_nat_add of_nat_mult intro: exI [of _ 0])
    then show ?thesis unfolding in_attic_def by simp
  qed
  also have "\<dots> \<longleftrightarrow> (\<forall>x < 512 * n. file_byte disk (sdc s) ?i x = Some (f (ATTIC + of_nat x)))"
  proof (intro iffI allI impI)
    fix x assume all: "\<forall>j<n. \<forall>i<512. file_byte disk (sdc s) ?i (512 * j + i) = Some (f (ATTIC + of_nat (512 * j + i)))"
      and "x < 512 * n"
    then have "x div 512 < n" "x mod 512 < 512" by simp_all
    with all have "file_byte disk (sdc s) ?i (512 * (x div 512) + x mod 512) =
        Some (f (ATTIC + of_nat (512 * (x div 512) + x mod 512)))" by blast
    then show "file_byte disk (sdc s) ?i x = Some (f (ATTIC + of_nat x))" by (simp only: mult_div_mod_eq)
  next
    fix j i :: nat assume "\<forall>x < 512 * n. file_byte disk (sdc s) ?i x = Some (f (ATTIC + of_nat x))" "j < n" "i < 512"
    moreover from this(2,3) have "512 * j + i < 512 * n" by simp
    ultimately show "file_byte disk (sdc s) ?i (512 * j + i) = Some (f (ATTIC + of_nat (512 * j + i)))" by blast
  qed
  finally show ?thesis by (simp only: holds_file_def n)
qed

text \<open>The tool can open the file: the card works, a file system is mounted and no file is open.\<close>

definition can_open :: "'d mf_device \<Rightarrow> ('d \<Rightarrow> bool) \<Rightarrow> ('d \<Rightarrow> nat \<Rightarrow> u8) \<Rightarrow> (u32 \<Rightarrow> nat \<Rightarrow> u8) \<Rightarrow> 'd mf \<Rightarrow> bool" where
  "can_open dev ready reg disk s \<longleftrightarrow> serves (card dev) ready reg disk \<and> on_card ready (sdc s) \<and>
    nhsd_init_state (sdc s) AND NHSD_INIT_INITMASK = NHSD_INIT_INITMASK \<and>
    nhsd_init_state (sdc s) AND NHSD_INIT_OPENMASK = 0 \<and> sectors_per_cluster (sdc s) \<noteq> 0 \<and>
    unat (mfsc_corehdr_length s) \<le> 2 ^ 30"

lemma load_core_steps:
  assumes "can_open dev ready reg disk s"
  obtains (fails) t m e where "mfhf_load_core dev s =
      Option.bind (mfhf_display_error ''Load Error'' m e t) (\<lambda>s. Some (0, s))" "\<not> (\<exists>f. holds_file disk s f)"
  | (aborts) t where "mfhf_load_core dev s = Some (0, t)" "keys s \<noteq> []"
  | (loads) t where "mfhf_load_core dev s = mfhf_check_core t" "holds_file disk s (far_mem t)"
      "mfsc_corehdr_length t = mfsc_corehdr_length s" "mfsc_corehdr_bootflags t = mfsc_corehdr_bootflags s"
      "nhsd_buffer (sdc t) \<noteq> None" "mfhf_core_file_state t = 0" "keys s = [] \<Longrightarrow> keys t = []"
      "same_setup s t" "ready (hwstate t)"
proof -
  let ?i = "mfsc_corefile_inode s" and ?n = "(unat (mfsc_corehdr_length s) + 511) div 512"
  let ?p = "\<lparr>pos_cluster = ?i, pos_sector = cluster_sector (sdc s) ?i, sector_in_cluster = 0\<rparr>"
  let ?c = "(sdc s)\<lparr>nhsd_init_state := nhsd_init_state (sdc s) OR (NHSD_INIT_OPENFILE AND NHSD_INIT_OPENMASK)\<rparr>"
  have asm: "serves (card dev) ready reg disk" "on_card ready (sdc s)"
    "nhsd_init_state (sdc s) AND NHSD_INIT_INITMASK = NHSD_INIT_INITMASK"
    "nhsd_init_state (sdc s) AND NHSD_INIT_OPENMASK = 0" "sectors_per_cluster (sdc s) \<noteq> 0"
    "unat (mfsc_corehdr_length s) \<le> 2 ^ 30"
    using assms by (simp_all add: can_open_def)
  obtain b where b: "nhsd_buffer (sdc s) = Some b" "ready (hw (sdc s))" using asm(2) by (auto simp: on_card_def)
  let ?r = "reading ?c (hw (sdc s)) b ?p"
  have op: "nhsd_init_state ?c AND NHSD_INIT_OPENMASK \<noteq> 0"
    using open_mask_or [of NHSD_INIT_OPENFILE] by (simp add: sd_masks)
  have sect: "file_sector disk ?c ?i j = file_sector disk (sdc s) ?i j" for j
    by (simp add: file_sector_def fat_start_def cluster_sector_def Let_def)
  define s0 where "s0 = s\<lparr>mfhf_core_file_state := 0\<rparr>"
  let ?s = "loaded ?r (far_mem s) (keys s) (mhx_lastkey s) s0"
  have opened: "on_sd (nhsd_open_inode ?i NHSD_INIT_OPENFILE) s0 = (0, ?s)"
    using open_inode_opens [OF asm(3,4), of ?i NHSD_INIT_OPENFILE] b(1)
    by (simp add: on_sd_def run_state_pair s0_def loaded_def reading_def NHSD_ERR_NOERROR_def)
  have fields: "mfsc_corehdr_length s0 = mfsc_corehdr_length s" "mfsc_corefile_inode s0 = ?i"
    "mfsc_corehdr_bootflags s0 = mfsc_corehdr_bootflags s" "mfhf_core_file_state s0 = 0"
    by (simp_all add: s0_def)
  have pos: "pos_at disk ?c ?i 0 ?p" by (simp add: pos_at_def cluster_sector_def)
  have spc: "sectors_per_cluster ?c \<noteq> 0" using asm(5) by simp
  have "\<exists>r h' b' p' f' ks' l'. load_file_loop dev (of_nat (512 * 0)) ?s =
        Some (r, loaded (reading ?c h' b' p') f' ks' l' s0) \<and> ready h' \<and> (keys s = [] \<longrightarrow> ks' = []) \<and>
      (r = Some 0 \<and> in_attic disk ?c ?i 0 ?n f' \<and>
         (\<forall>x < 512 * 0. f' (ATTIC + of_nat x) = far_mem s (ATTIC + of_nat x)) \<or>
       r = None \<and> keys s \<noteq> [] \<or>
       (\<exists>e. r = Some e \<and> e \<noteq> 0) \<and> (\<exists>j. 0 \<le> j \<and> j < ?n \<and> file_sector disk ?c ?i j = None))"
    by (rule load_file_loop_ends [OF asm(1) op spc _ _ b(2) pos refl le0]) (simp_all only: fields asm(6))
  then obtain r h' b' p' f' ks' l' where
    run: "load_file_loop dev (of_nat (512 * 0)) ?s = Some (r, loaded (reading ?c h' b' p') f' ks' l' s0)"
    and h': "ready h'" and ks': "keys s = [] \<longrightarrow> ks' = []"
    and res: "r = Some 0 \<and> in_attic disk ?c ?i 0 ?n f' \<and>
         (\<forall>x < 512 * 0. f' (ATTIC + of_nat x) = far_mem s (ATTIC + of_nat x)) \<or>
       r = None \<and> keys s \<noteq> [] \<or>
       (\<exists>e. r = Some e \<and> e \<noteq> 0) \<and> (\<exists>j. 0 \<le> j \<and> j < ?n \<and> file_sector disk ?c ?i j = None)"
    by (elim exE conjE)
  have start: "mfhf_load_core dev s = (case r of None \<Rightarrow> Some (0, loaded (reading ?c h' b' p') f' ks' l' s0)
      | Some e \<Rightarrow> if e \<noteq> 0 then Option.bind (mfhf_display_error ''Load Error'' ''Error while loading core file!'' e
            (loaded (reading ?c h' b' p') f' ks' l' s0)) (\<lambda>s. Some (0, s))
        else mfhf_check_core (snd (on_sd nhsd_close (loaded (reading ?c h' b' p') f' ks' l' s0))))"
    using opened run
    by (simp add: mfhf_load_core_def Let_def s0_def [symmetric] fields split: option.split cong del: if_weak_cong)
  obtain c' where closed: "on_sd nhsd_close (loaded (reading ?c h' b' p') f' ks' l' s0) = (0, loaded c' f' ks' l' s0)"
    "nhsd_buffer c' = Some b'" "hw c' = h'"
  proof -
    show thesis if "\<And>c'. on_sd nhsd_close (loaded (reading ?c h' b' p') f' ks' l' s0) = (0, loaded c' f' ks' l' s0) \<Longrightarrow>
        nhsd_buffer c' = Some b' \<Longrightarrow> hw c' = h' \<Longrightarrow> thesis"
      using asm(3) op word_ao_dist [of "nhsd_init_state (sdc s)"]
      by (intro that [of "(reading ?c h' b' p')\<lparr>nhsd_init_state := nhsd_init_state ?c AND (0xff XOR NHSD_INIT_OPENMASK)\<rparr>"])
        (simp_all add: on_sd_def run_state_pair nhsd_close_def reading_def loaded_def set_state_def NHSD_ERR_NOERROR_def word_ao_absorbs)
  qed
  show thesis
    using res
  proof (elim disjE)
    assume "r = Some 0 \<and> in_attic disk ?c ?i 0 ?n f' \<and>
      (\<forall>x < 512 * 0. f' (ATTIC + of_nat x) = far_mem s (ATTIC + of_nat x))"
    then show thesis
      using start closed fields ks' in_attic_holds [of ?n s disk ?c f'] sect
        h' by (intro loads [of "loaded c' f' ks' l' s0"])
          (simp_all add: hwstate_def same_setup_def loaded_def s0_def geometry_def fun_eq_iff)
  next
    assume "r = None \<and> keys s \<noteq> []"
    then show thesis using start by (intro aborts) simp_all
  next
    assume missing: "(\<exists>e. r = Some e \<and> e \<noteq> 0) \<and> (\<exists>j. 0 \<le> j \<and> j < ?n \<and> file_sector disk ?c ?i j = None)"
    then have "\<not> holds_file disk s f" for f
      using in_attic_holds [of ?n s disk ?c f] sect by (auto simp: in_attic_def)
    then have none: "\<not> (\<exists>f. holds_file disk s f)" by blast
    from missing obtain e where "r = Some e" "e \<noteq> 0" by blast
    with start show thesis by (intro fails [OF _ none]) simp
  qed
qed

lemma load_core_succeeds:
  assumes "can_open dev ready reg disk s" and "keys s = []"
    and "holds_file disk s g" and "core_good g (mfsc_corehdr_length s)"
  shows "\<exists>f s'. mfhf_load_core dev s = Some (1, s') \<and> holds_file disk s f \<and> far_mem s' = with_flags s f"
proof (rule load_core_steps [OF assms(1)])
  fix t assume t: "mfhf_load_core dev s = mfhf_check_core t" "holds_file disk s (far_mem t)"
    "mfsc_corehdr_length t = mfsc_corehdr_length s" "mfsc_corehdr_bootflags t = mfsc_corehdr_bootflags s"
    "nhsd_buffer (sdc t) \<noteq> None" "mfhf_core_file_state t = 0" "keys s = [] \<Longrightarrow> keys t = []"
  let ?L = "unat (mfsc_corehdr_length s)"
  let ?m = "?L + 511 - (?L + 511) mod 512"
  have L: "0 < ?L" "?L \<le> 2 ^ 30" using assms(1,4) by (simp_all add: can_open_def core_good_def word_less_nat_alt)
  have "far_mem t (ATTIC + of_nat y) = g (ATTIC + of_nat y)" if "y < ?m" for y
    using that t(2) assms(3) unfolding holds_file_def by (metis option.inject)
  moreover have "?m \<le> 2 ^ 31" "0x88 \<le> ?m" "?L \<le> ?m"
  proof -
    define q where "q = (?L + 511) div 512"
    have m: "?m = 512 * q" by (simp add: minus_mod_eq_mult_div q_def)
    have "512 * q \<le> ?L + 511" "?L + 511 < 512 * q + 512"
      unfolding q_def by linarith+
    moreover from this(2) L(1) have "1 \<le> q" by (cases q) simp_all
    moreover have "(2 :: nat) ^ 30 + 511 \<le> 2 ^ 31" by simp
    ultimately show "?m \<le> 2 ^ 31" "0x88 \<le> ?m" "?L \<le> ?m" unfolding m using L(2) by linarith+
  qed
  ultimately have "core_good (far_mem t) (mfsc_corehdr_length s)"
    by (rule core_good_cong [OF assms(4)])
  moreover have "unat (mfsc_corehdr_length t) \<le> 2 ^ 30" using L t(3) by simp
  ultimately obtain s' where "mfhf_check_core t = Some (1, s')" "far_mem s' = with_flags t (far_mem t)"
    using check_core_ends(2) [OF _ t(5,6)] t(3) t(7) assms(2) by auto
  then show ?thesis using t(1,2,4)
    by (intro exI [of _ "far_mem t"] exI [of _ s']) (simp add: with_flags_def)
qed (use assms(2,3) in auto)

lemma load_core_accepts:
  assumes "can_open dev ready reg disk s" and "mfhf_load_core dev s = Some (r, s')" and "r \<noteq> 0"
  shows "r = 1 \<and> (\<exists>f. holds_file disk s f \<and> core_good f (mfsc_corehdr_length s) \<and>
    far_mem s' = with_flags s f) \<and> same_setup s s' \<and> ready (hwstate s')"
proof (rule load_core_steps [OF assms(1)])
  fix t m e assume "mfhf_load_core dev s = Option.bind (mfhf_display_error ''Load Error'' m e t) (\<lambda>s. Some (0, s))"
  then show ?thesis using assms(2,3) by (auto split: Option.bind_splits)
next
  fix t assume "mfhf_load_core dev s = Some (0, t)"
  then show ?thesis using assms(2,3) by simp
next
  fix t assume t: "mfhf_load_core dev s = mfhf_check_core t" "holds_file disk s (far_mem t)"
    "mfsc_corehdr_length t = mfsc_corehdr_length s" "mfsc_corehdr_bootflags t = mfsc_corehdr_bootflags s"
    "nhsd_buffer (sdc t) \<noteq> None" "mfhf_core_file_state t = 0" "same_setup s t" "ready (hwstate t)"
  have "unat (mfsc_corehdr_length t) \<le> 2 ^ 30" using assms(1) t(3) by (simp add: can_open_def)
  from check_core_ends(1) [OF this t(5,6), of r s'] show ?thesis
    using t(1-4,7,8) assms(2,3) by (auto simp: with_flags_def same_setup_def)
qed

text \<open>
  C3: What \<open>mfhf_load_core\<close> accepts is the file, on a card that works (it may be busy after a
  command for a time within the program's patience, and is then without an error) with the file system
  recognised, no file open and at least one sector to a cluster, for a core of at most \<open>2 ^ 30\<close>
  bytes: when it does not return \<open>MFHF_LC_NOTLOADED\<close>, whatever keys were pressed, Attic RAM begins
  with the sectors that the cluster chain of the file has, but for the boot flags that the user may have
  changed; the length in the header of the core is the one found before, and the checksum in the header is the
  CRC-32 of the core, computed with the four bytes of the checksum set to \<open>0xf0\<close>.
\<close>

theorem load_core_sound:
  assumes "can_open dev ready reg disk s" and "mfhf_load_core dev s = Some (r, s')" and "r \<noteq> MFHF_LC_NOTLOADED"
  shows "r = MFHF_LC_ATTICOK \<and> (\<exists>f. holds_file disk s f \<and> core_good f (mfsc_corehdr_length s) \<and>
    far_mem s' = with_flags s f)"
  using load_core_accepts [OF assms(1,2)] assms(3) by auto

text \<open>
  C4: A good file is loaded, on a card that works (it may be busy after a command for a time within the
  program's patience, and is then without an error) with the file system recognised, no file open and at least
  one sector to a cluster: if no key is pressed, and the cluster chain of the file has sectors for all of its
  length (at most \<open>2 ^ 30\<close> bytes) with a header and a checksum that are right,
  \<open>mfhf_load_core\<close> returns \<open>MFHF_LC_ATTICOK\<close> and the file is in Attic RAM.
\<close>

theorem load_core_complete:
  assumes "can_open dev ready reg disk s" and "keys s = []"
    and "holds_file disk s g" and "core_good g (mfsc_corehdr_length s)"
  shows "\<exists>f s'. mfhf_load_core dev s = Some (MFHF_LC_ATTICOK, s') \<and> holds_file disk s f \<and> far_mem s' = with_flags s f"
  using load_core_succeeds [OF assms] by simp

text \<open>
  C2: From the card to the flash, on a card that works (it may be busy after a command for a time within the
  program's patience, and is then without an error) with the file system recognised, no file open and at least
  one sector to a cluster, for a core of at most \<open>2 ^ 30\<close> bytes that fits the slot: when loading
  has accepted a file and the core is then flashed into a slot other than 0, on a flash that works and with
  whatever keys the user presses from then on, the user is told that it was flashed, every byte of the file is
  at its place in the slot (the boot flags are those chosen), and nothing outside the slot has changed.
\<close>

theorem load_and_flash:
  assumes "can_open dev ready reg disk s" and "flash_serves dev ready mem" and "flash_works dev ready mem"
    and "geometry s slot" and "slot \<noteq> 0" and "mfsc_corehdr_length s \<le> mfu_slot_size s"
    and "mfhf_load_core dev s = Some (MFHF_LC_ATTICOK, s1)" and "key_comes ks"
  shows "\<exists>s2. mfhf_flash_core dev MFSC_FILE_VALID slot (s1\<lparr>keys := ks\<rparr>) = Some (Returns 0, s2) \<and>
    shown s2 = shown s @ [(''Finished Flashing'', ''Core was successfully flashed.'', 0)] \<and>
    same_outside (unat slot * unat (mfu_slot_size s)) (unat (mfu_slot_size s)) (mem (hwstate s1)) (mem (hwstate s2)) \<and>
    (\<forall>x < unat (mfsc_corehdr_length s).
       Some (mem (hwstate s2) (unat slot * unat (mfu_slot_size s) + x)) =
         (if x = MFSC_COREHDR_BOOTFLAGS then Some (mfsc_corehdr_bootflags s)
          else file_byte disk (sdc s) (mfsc_corefile_inode s) x))"
proof -
  have "MFHF_LC_ATTICOK \<noteq> 0" by simp
  from load_core_accepts [OF assms(1,7) this] obtain f where f: "holds_file disk s f" "far_mem s1 = with_flags s f"
    and k: "same_setup s s1" "ready (hwstate s1)"
    by (elim conjE exE)
  let ?L = "unat (mfsc_corehdr_length s)" and ?E = "unat slot * unat (mfu_slot_size s)"
  have k': "mfsc_corehdr_length s1 = mfsc_corehdr_length s" "mfu_slot_size s1 = mfu_slot_size s"
    "geometry s1 slot" "shown s1 = shown s"
    using k(1) assms(4) by (simp_all add: same_setup_def)
  let ?s1 = "s1\<lparr>keys := ks\<rparr>"
  have "hwstate ?s1 = hwstate s1" "geometry ?s1 slot = geometry s1 slot" by (simp_all add: hwstate_def geometry_def)
  with k(2) k'(3) have up: "ready (hwstate ?s1)" "geometry ?s1 slot" by simp_all
  obtain s2 where s2: "mfhf_flash_core dev MFSC_FILE_VALID slot (s1\<lparr>keys := ks\<rparr>) = Some (Returns 0, s2)"
    "shown s2 = shown s @ [(''Finished Flashing'', ''Core was successfully flashed.'', 0)]"
    "same_outside ?E (unat (mfu_slot_size s)) (mem (hwstate s1)) (mem (hwstate s2))"
    "agree (mem (hwstate s2)) ?E (far_mem s1) 0 ?L"
    using core_flashed [OF assms(2) up assms(5)] assms(3,6,8) k' by (auto simp: Let_def hwstate_def)
  have "Some (mem (hwstate s2) (?E + x)) = (if x = MFSC_COREHDR_BOOTFLAGS then Some (mfsc_corehdr_bootflags s)
      else file_byte disk (sdc s) (mfsc_corefile_inode s) x)" if x: "x < ?L" for x
  proof -
    have L: "?L \<le> 2 ^ 30" using assms(1) by (simp add: can_open_def)
    have same: "ATTIC + of_nat x = ATTIC + of_nat MFSC_COREHDR_BOOTFLAGS \<longleftrightarrow> x = MFSC_COREHDR_BOOTFLAGS"
    proof -
      have "unat (of_nat x :: u32) = x" unfolding unat_of_nat using x L by simp
      then show ?thesis by (auto simp: MFSC_COREHDR_BOOTFLAGS_def)
    qed
    have "x < ?L + 511 - (?L + 511) mod 512" using x mod_less_divisor [of 512 "?L + 511"] by linarith
    then have "file_byte disk (sdc s) (mfsc_corefile_inode s) x = Some (f (ATTIC + of_nat x))"
      using f(1) by (simp add: holds_file_def)
    then show ?thesis using s2(4) x same unfolding agree_def f(2) with_flags_def by auto
  qed
  then show ?thesis using s2(1-3) by blast
qed

section \<open>An example\<close>

text \<open>A disk on which every sector is a core of one byte.\<close>

definition tiny_disk :: "u32 \<Rightarrow> nat \<Rightarrow> u8" where
  "tiny_disk a i = (if i = 0x80 then 1 else if i = 0x84 then 0x8d else if i = 0x85 then 0xef
    else if i = 0x86 then 0x02 else if i = 0x87 then 0xd2 else 0)"

definition tiny_mf :: "chip mf" where
  "tiny_mf = sample_mf\<lparr>mfsc_corehdr_length := 1, keys := []\<rparr>"

lemma ideal_chip_card: "serves (card (ideal_chip disk)) (\<lambda>_. True) addr_reg disk"
proof -
  have four: "i = 0 \<or> i = 1 \<or> i = 2 \<or> i = 3" if "i < 4" for i :: nat using that by auto
  have "addr_reg (dev_poke (card (ideal_chip disk)) (NHSD_ADDR + of_nat i) v h) = (addr_reg h)(i := v)"
    if "i < 4" for i v h
    using four [OF that] by (elim disjE) (simp_all add: ideal_chip_def NHSD_ADDR_def)
  moreover have "dev_sector (card (ideal_chip disk)) (dev_poke (card (ideal_chip disk)) NHSD_CTRL 2 h) =
      disk (le32 (addr_reg h 0) (addr_reg h 1) (addr_reg h 2) (addr_reg h 3))" for h
    by (simp add: ideal_chip_def NHSD_CTRL_def chip_command_def chip_addr_def)
  moreover have "dev_peek (card (ideal_chip disk)) NHSD_CTRL h = (0, h)" for h
    by (simp add: ideal_chip_def NHSD_CTRL_def)
  ultimately show ?thesis unfolding serves_def by (intro conjI allI impI settles_now) simp_all
qed

lemma tiny_can_open: "can_open (ideal_chip disk) (\<lambda>_. True) addr_reg disk tiny_mf"
  by (simp add: can_open_def ideal_chip_card on_card_def tiny_mf_def sample_mf_def sd_masks)

definition tiny_mem :: "u32 \<Rightarrow> u8" where
  "tiny_mem a = tiny_disk 0 (unat (a - ATTIC))"

lemma tiny_holds: "holds_file tiny_disk tiny_mf tiny_mem"
  unfolding holds_file_def
  by (simp add: tiny_mf_def sample_mf_def file_byte_def file_sector_def tiny_mem_def tiny_disk_def unat_of_nat)

lemma tiny_good: "core_good tiny_mem 1"
proof -
  have "crc_blank tiny_mem ATTIC = 0"
    using crc_blank_at [of 0 tiny_mem] by (simp add: tiny_mem_def tiny_disk_def)
  then have "crc32 (far_read (crc_blank tiny_mem) ATTIC (unat (1 :: u32))) = 0xd202ef8d"
    by (simp add: far_read_def crc32_def crc_byte_eval crc_bit_def)
  then show ?thesis
    by (simp add: core_good_def attic_word_def le32_in_def far_read_def tiny_mem_def tiny_disk_def le32_def
        MFSC_COREHDR_LENGTH_def MFSC_COREHDR_CRC32_def upt_rec)
qed

lemma tiny_fields: "keys tiny_mf = []" "mfsc_corehdr_length tiny_mf = 1"
  by (simp_all add: tiny_mf_def)

lemma load_core_sound_witness:
  "\<exists>f s'. mfhf_load_core (ideal_chip tiny_disk) tiny_mf = Some (1, s') \<and> core_good f 1 \<and> far_mem s' = with_flags tiny_mf f"
proof -
  obtain s' where "mfhf_load_core (ideal_chip tiny_disk) tiny_mf = Some (1, s')"
    using load_core_succeeds [OF tiny_can_open tiny_fields(1) tiny_holds] tiny_good tiny_fields(2) by auto
  with load_core_sound [OF tiny_can_open this] show ?thesis by (auto simp: tiny_fields)
qed

lemma load_core_complete_witness:
  "\<exists>f s'. mfhf_load_core (ideal_chip tiny_disk) tiny_mf = Some (1, s') \<and> holds_file tiny_disk tiny_mf f \<and>
    far_mem s' = with_flags tiny_mf f"
  using load_core_complete [OF tiny_can_open tiny_fields(1) tiny_holds] tiny_good tiny_fields(2) by auto

lemma load_and_flash_witness:
  "\<exists>s1 s2. mfhf_load_core (ideal_chip tiny_disk) tiny_mf = Some (1, s1) \<and>
    mfhf_flash_core (ideal_chip tiny_disk) MFSC_FILE_VALID 1 (s1\<lparr>keys := [0, 0x20]\<rparr>) = Some (Returns 0, s2) \<and>
    flash_mem (hwstate s2) 0x400000 = 0"
proof -
  obtain s1 where s1: "mfhf_load_core (ideal_chip tiny_disk) tiny_mf = Some (MFHF_LC_ATTICOK, s1)"
    using load_core_succeeds [OF tiny_can_open tiny_fields(1) tiny_holds] tiny_good tiny_fields(2) by auto
  have tiny: "geometry tiny_mf 1" "mfsc_corehdr_length tiny_mf \<le> mfu_slot_size tiny_mf" "mfu_slot_size tiny_mf = 0x400000"
    "file_byte tiny_disk (sdc tiny_mf) (mfsc_corefile_inode tiny_mf) 0 = Some 0"
    by (simp_all add: geometry_def tiny_mf_def sample_mf_def file_byte_def file_sector_def tiny_disk_def)
  obtain s2 where s2: "mfhf_flash_core (ideal_chip tiny_disk) MFSC_FILE_VALID 1 (s1\<lparr>keys := [0, 0x20]\<rparr>) = Some (Returns 0, s2)"
    "\<forall>x < unat (mfsc_corehdr_length tiny_mf). Some (flash_mem (hwstate s2) (unat (1 :: u8) * unat (mfu_slot_size tiny_mf) + x)) =
         (if x = MFSC_COREHDR_BOOTFLAGS then Some (mfsc_corehdr_bootflags tiny_mf)
          else file_byte tiny_disk (sdc tiny_mf) (mfsc_corefile_inode tiny_mf) x)"
    using load_and_flash [OF tiny_can_open ideal_chip_serves ideal_chip_works tiny(1) _ tiny(2) s1, of "[0, 0x20]"] by auto
  from s2(2) [rule_format, of 0] have "flash_mem (hwstate s2) 0x400000 = 0"
    by (simp add: tiny tiny_fields MFSC_COREHDR_BOOTFLAGS_def)
  with s1 s2(1) show ?thesis by auto
qed

end
