(* ===== verification/Menu.thy ===== *)
theory Menu
  imports Flash
begin

text \<open>
  The flash tool above \<open>mf_hlflash.c\<close>: the check of a core file and the file chooser
  (\<open>src/utilities/megaflash/mf_selectcore.c\<close>), the scan of the slots, the choice of the slot to boot,
  the screen that edits a slot, and the start of the tool (\<open>megaflash.c\<close>), as built into
  \<open>megaflash-attic.prg\<close>. What is drawn on the screen, with its waits for the raster beam and its delays,
  is left out; the texts that decide something or are copied into variables are there.
\<close>

unbundle bit_operations_syntax

section \<open>Constants\<close>

definition CORECAP_USED :: u8 where "CORECAP_USED = 0x87"
definition CORECAP_CART_C64 :: u8 where "CORECAP_CART_C64 = 0x01"
definition CORECAP_CART_C128 :: u8 where "CORECAP_CART_C128 = 0x02"
definition CORECAP_CART_M65 :: u8 where "CORECAP_CART_M65 = 0x04"
definition CORECAP_SLOT_DEFAULT :: u8 where "CORECAP_SLOT_DEFAULT = 0x80"

definition SLOT_EMPTY :: u8 where "SLOT_EMPTY = 0x00"
definition SLOT_INVALID :: u8 where "SLOT_INVALID = 0x01"
definition SLOT_QSPIFAIL :: u8 where "SLOT_QSPIFAIL = 0x02"
definition SLOT_VALID :: u8 where "SLOT_VALID = 0x80"

definition MAX_SLOTS :: nat where "MAX_SLOTS = 8"

text \<open>The bits of the table \<open>corecap_def\<close>; its field \<open>slot\<close> is the variable \<open>corecap_slots\<close>.\<close>

definition corecap_bits :: "u8 list" where
  "corecap_bits = [CORECAP_SLOT_DEFAULT, CORECAP_CART_M65, CORECAP_CART_C64, CORECAP_CART_C128]"

text \<open>The lines of \<open>core_error\<close> in \<open>megaflash.scr\<close>.\<close>

definition MFSC_CF_NO_ERROR :: u8 where "MFSC_CF_NO_ERROR = 0"
definition MFSC_CF_ERROR_OPEN :: u8 where "MFSC_CF_ERROR_OPEN = 1"
definition MFSC_CF_ERROR_READ :: u8 where "MFSC_CF_ERROR_READ = 2"
definition MFSC_CF_ERROR_SIG :: u8 where "MFSC_CF_ERROR_SIG = 3"
definition MFSC_CF_ERROR_SIZE :: u8 where "MFSC_CF_ERROR_SIZE = 4"
definition MFSC_CF_ERROR_HWMODEL :: u8 where "MFSC_CF_ERROR_HWMODEL = 5"
definition MFSC_CF_ERROR_FACTORY :: u8 where "MFSC_CF_ERROR_FACTORY = 6"

definition MFSC_COREINST_FACTORY :: u8 where "MFSC_COREINST_FACTORY = 0x01"
definition MFSC_COREINST_AUTO :: u8 where "MFSC_COREINST_AUTO = 0x02"
definition MFSC_COREINST_ERASELIST :: u8 where "MFSC_COREINST_ERASELIST = 0x40"
definition MFSC_COREINST_FORCE :: u8 where "MFSC_COREINST_FORCE = 0x80"

text \<open>\<open>MEGA65BITSTREAM0\<close> in ASCII.\<close>

definition mfsc_bitstream_magic :: "u8 list" where
  "mfsc_bitstream_magic =
    [0x4D, 0x45, 0x47, 0x41, 0x36, 0x35, 0x42, 0x49, 0x54, 0x53, 0x54, 0x52, 0x45, 0x41, 0x4D, 0x30]"

section \<open>Screen codes\<close>

definition mhx_ascii2screen :: "u8 \<Rightarrow> u8 \<Rightarrow> u8" where
  "mhx_ascii2screen ascii def =
    (if ascii < 0x20 then def
     else if ascii = 0x40 then 0x00
     else if ascii < 0x5f then ascii
     else if ascii = 0x5f then 0x64
     else if ascii = 0x60 then 0x7a
     else if ascii < 0x7b then ascii XOR 0x60
     else def)"

text \<open>A string literal of the source in ASCII, and in screen codes, as the character map in force gives it.\<close>

definition ascii :: "string \<Rightarrow> u8 list" where
  "ascii = map of_char"

definition screen_string :: "string \<Rightarrow> u8 list" where
  "screen_string s = map (\<lambda>c. mhx_ascii2screen c 0) (ascii s)"

definition MHX_C_EOS :: u8 where "MHX_C_EOS = 0x80"

text \<open>Two arrays of screen codes, filled with spaces, with the bytes \<open>bs\<close> at the start.\<close>

definition padded :: "nat \<Rightarrow> u8 list \<Rightarrow> u8 list" where
  "padded n bs = bs @ replicate (n - length bs) 0x20"

text \<open>32 characters of a header.\<close>

definition header_text :: "u8 list \<Rightarrow> nat \<Rightarrow> u8 list" where
  "header_text d n = map (\<lambda>j. mhx_ascii2screen (d ! (n + j)) 0x20) [0..<32]"

definition R095_ERASE_LIST :: "u8 list" where
  "R095_ERASE_LIST = [0x36, 0x41]"

text \<open>
  The erase list of a core: from its header, or the list for release 0.95, or empty. The version is
  in screen codes.
\<close>

definition erase_list_of :: "u8 list \<Rightarrow> u8 list \<Rightarrow> u8 list" where
  "erase_list_of b version =
    (if b ! 0x7d AND MFSC_COREINST_ERASELIST \<noteq> 0 then map ((!) b) [0xf0..<0x100]
     else if take 12 version = screen_string ''Release 0.95'' then R095_ERASE_LIST @ replicate 14 0xff
     else replicate 16 0xff)"

section \<open>Checking the header of a core file\<close>

text \<open>The two tests that a core for slot 0 has to pass besides.\<close>

definition factory_core :: "u8 list \<Rightarrow> bool" where
  "factory_core b \<longleftrightarrow> b ! 0x7d AND MFSC_COREINST_FACTORY \<noteq> 0 \<and>
    map ((!) b) [0x10..<0x16] = take 6 mfsc_bitstream_magic \<and> (\<forall>c \<in> set (map ((!) b) [0x16..<0x30]). c = 0)"

definition mfsc_checkcore :: "'d mf_device \<Rightarrow> bool \<Rightarrow> 'd mf \<Rightarrow> u8 \<times> 'd mf" where
  "mfsc_checkcore dev require_mega s =
    (let s = s\<lparr>mfsc_corehdr_model_id := 0,
       mfsc_corehdr_name := padded 32 (screen_string ''UNKNOWN CORE TYPE'' @ [0]) @ [MHX_C_EOS],
       mfsc_corehdr_version := padded 32 (screen_string ''UNKNOWN VERSION'' @ [0]) @ [MHX_C_EOS]\<rparr>;
       (err, s) = on_sd (nhsd_open_inode (mfsc_corefile_inode s) NHSD_INIT_OPENFILE) s
     in if err \<noteq> 0 then (MFSC_CF_ERROR_OPEN, s)
     else let (err, s) = on_sd (nhsd_read (card dev)) s;
       s = snd (on_sd nhsd_close s);
       b = the_buffer s
     in if err \<noteq> 0 then (MFSC_CF_ERROR_READ, s)
     else if map ((!) b) [0..<16] \<noteq> mfsc_bitstream_magic then (MFSC_CF_ERROR_SIG, s)
     else let s = s\<lparr>
       mfsc_corehdr_name := header_text b 0x10 @ [MHX_C_EOS], mfsc_corehdr_version := header_text b 0x30 @ [MHX_C_EOS],
       mfsc_corehdr_length := le32_in b MFSC_COREHDR_LENGTH\<rparr>
     in if mfsc_corehdr_length s > mfu_slot_size s then (MFSC_CF_ERROR_SIZE, s)
     else let s = s\<lparr>mfsc_corehdr_model_id := b ! 0x70\<rparr>
     in if mfsc_corehdr_model_id s \<noteq> hw_model_id s then (MFSC_CF_ERROR_HWMODEL, s)
     else if require_mega \<and> \<not> factory_core b then (MFSC_CF_ERROR_FACTORY, s)
     else (MFSC_CF_NO_ERROR, s\<lparr>mfsc_corehdr_bootcaps := b ! 0x7b, mfsc_corehdr_bootflags := b ! 0x7c,
       mfsc_corehdr_instflags := b ! 0x7d,
       mfsc_corehdr_erase_list := erase_list_of b (mfsc_corehdr_version s)\<rparr>))"

text \<open>
  The array \<open>buffer\<close>; what is left in it when no card is initialised is overwritten before it is read.
\<close>

definition buffer_array :: "'d mf \<Rightarrow> u8 list" where
  "buffer_array s = (case nhsd_buffer (sdc s) of None \<Rightarrow> replicate 512 0 | Some b \<Rightarrow> b)"

definition mfsc_findcorefile :: "'d mf_device \<Rightarrow> nat \<Rightarrow> u8 \<Rightarrow> u8 list \<Rightarrow> bool \<Rightarrow> ('d, u8) mf_prog" where
  "mfsc_findcorefile dev fu junk filename require_mega s =
    (let (err, s) = on_sd (nhsd_init (card dev) 0 (buffer_array s)) s
     in if err \<noteq> 0 then Some (err, s)
     else let (r, s) = on_sd (nhsd_findfile (card dev) fu junk filename) s
     in case r of None \<Rightarrow> None
     | Some err \<Rightarrow>
         if err \<noteq> 0 then Some (err, s)
         else let s = s\<lparr>mfsc_corefile_inode := d_ino (nhsd_dirent (sdc s)),
             mfsc_corefile_size := d_reclen (nhsd_dirent (sdc s))\<rparr>;
           (c, s) = mfsc_checkcore dev require_mega s
         in if c \<noteq> 0 then Some (err, s) else Some (0, s))"

section \<open>The slots\<close>

definition cart_c64_magic :: "u8 list" where "cart_c64_magic = [0xC3, 0xC2, 0xCD, 0x38, 0x30]"
definition cart_c128_magic :: "u8 list" where "cart_c128_magic = [0x43, 0x42, 0x4D]"
definition cart_m65_magic :: "u8 list" where "cart_m65_magic = [0x4D, 0x36, 0x35]"

definition check_cartridge :: "'d mf \<Rightarrow> u8 \<times> 'd mf" where
  "check_cartridge s =
    (let c = far_read (far_mem s) 0x4008004 6 @ far_read (far_mem s) 0x400C007 3;
         s = s\<lparr>cart_id := c\<rparr>
     in (if take 3 (drop 3 c) = cart_m65_magic then CORECAP_CART_M65
         else if take 5 c = cart_c64_magic then CORECAP_CART_C64
         else if exrom_game s AND 0x60 \<noteq> 0x60 then CORECAP_CART_C64
         else if take 3 (drop 3 c) = cart_c128_magic \<or> take 3 (drop 6 c) = cart_c128_magic then CORECAP_CART_C128
         else CORECAP_SLOT_DEFAULT, s))"

text \<open>An access to \<open>slot_core\<close> outside its eight elements is recorded like those of the card reader.\<close>

definition slot_at :: "nat \<Rightarrow> 'd mf \<Rightarrow> slot_core" where
  "slot_at n s = slot_core s ! n"

definition put_slot :: "nat \<Rightarrow> (slot_core \<Rightarrow> slot_core) \<Rightarrow> 'd mf \<Rightarrow> 'd mf" where
  "put_slot n f s =
    (if n < MAX_SLOTS then s\<lparr>slot_core := (slot_core s)[n := f (slot_core s ! n)]\<rparr>
     else s\<lparr>sdc := (sdc s)\<lparr>wild := True\<rparr>\<rparr>)"

text \<open>The slot that was found, the default slot, and the flags that earlier slots have not used.\<close>

record boot_search =
  found :: u8
  default_slot :: u8
  flagmask :: u8

text \<open>What the first sector of a slot says, without the names.\<close>

definition scan_header :: "u8 \<Rightarrow> nat \<Rightarrow> u8 list \<Rightarrow> boot_search \<Rightarrow> 'd mf \<Rightarrow> boot_search \<times> 'd mf" where
  "scan_header search_flags slot d q s =
    (if map ((!) d) [0..<16] = mfsc_bitstream_magic
     then let f = d ! 0x7c AND flagmask q in
       (q\<lparr>flagmask := flagmask q XOR f,
          found := (if search_flags \<noteq> 0 \<and> found q = 0xff \<and> f AND search_flags \<noteq> 0 then of_nat slot else found q),
          default_slot := (if default_slot q = 0xff \<and> f AND CORECAP_SLOT_DEFAULT \<noteq> 0 then of_nat slot
            else default_slot q)\<rparr>,
        put_slot slot (\<lambda>c. c\<lparr>valid := SLOT_VALID, capabilities := d ! 0x7b AND CORECAP_USED,
          real_flags := d ! 0x7c, flags := f\<rparr>) s)
     else (q, put_slot slot (\<lambda>c. c\<lparr>valid := if list_all (\<lambda>b. b = 0xff) (take 512 d) then SLOT_EMPTY else SLOT_INVALID,
          capabilities := 0, flags := 0\<rparr>) s))"

text \<open>The names, the length and, for slot 0, the erase list.\<close>

definition slot_name :: "nat \<Rightarrow> u8 \<Rightarrow> u8 list \<Rightarrow> u8 list" where
  "slot_name slot v d =
    (if v = SLOT_VALID then (if slot = 0 then screen_string ''MEGA65 FACTORY CORE'' @ drop 19 (header_text d 0x10) else header_text d 0x10)
     else padded 32 (screen_string (if v = SLOT_EMPTY then ''EMPTY SLOT'' else if v = SLOT_INVALID then ''UNKNOWN CONTENT''
       else if v = SLOT_QSPIFAIL then ''QSPI READ FAILURE'' else [])))"

definition scan_names :: "nat \<Rightarrow> u8 list \<Rightarrow> 'd mf \<Rightarrow> 'd mf" where
  "scan_names slot d s =
    (let v = valid (slot_at slot s);
         version = (if v = SLOT_VALID then header_text d 0x30 else padded 32 []) @ [0];
         s = put_slot slot (\<lambda>c. c\<lparr>core_name := slot_name slot v d @ [0], core_version := version,
           core_length := if v = SLOT_VALID then le32_in d MFSC_COREHDR_LENGTH
             else if v = SLOT_EMPTY \<or> v = SLOT_INVALID \<or> v = SLOT_QSPIFAIL then 0 else core_length c\<rparr>) s
     in if v = SLOT_VALID \<and> slot = 0 then s\<lparr>mfhf_slot0_erase_list := erase_list_of d version\<rparr> else s)"

definition note_slot :: "nat \<Rightarrow> 'd mf \<Rightarrow> 'd mf" where
  "note_slot slot s =
    (let f = flags (slot_at slot s) in
     s\<lparr>corecap_slots := map2 (\<lambda>c bits. if c = 0xff \<and> f AND bits \<noteq> 0 then of_nat slot else c) (corecap_slots s) corecap_bits\<rparr>)"

fun scan_loop :: "'d mf_device \<Rightarrow> u8 \<Rightarrow> nat \<Rightarrow> nat \<Rightarrow> boot_search \<Rightarrow> 'd mf \<Rightarrow> (boot_search \<times> 'd mf) option" where
  "scan_loop dev search_flags 0 slot q s = Some (q, s)"
| "scan_loop dev search_flags (Suc n) slot q s = do {
     (e, s) \<leftarrow> mfhf_read_core_header_from_flash dev (of_nat slot) s;
     let (q, s) = (if e \<noteq> 0 then (q, put_slot slot (\<lambda>c. c\<lparr>valid := SLOT_QSPIFAIL\<rparr>) s)
       else scan_header search_flags slot (data_buffer s) q s);
     let s = (if search_flags \<noteq> 0 then s else note_slot slot (scan_names slot (data_buffer s) s));
     scan_loop dev search_flags n (Suc slot) q s
   }"

definition scan_core_information :: "'d mf_device \<Rightarrow> u8 \<Rightarrow> ('d, u8) mf_prog" where
  "scan_core_information dev search_flags s = do {
     let s = s\<lparr>corecap_slots := replicate 4 0xff\<rparr>;
     (q, s) \<leftarrow> scan_loop dev search_flags (unat (slot_count s)) 0
       \<lparr>found = 0xff, default_slot = 0xff, flagmask = CORECAP_USED\<rparr> s;
     let (d, s) = (if default_slot q = 0xff then let (v, s) = mf_peek dev 0xd69d s;
           d = 1 + (drop_bit 3 v AND 1) in (d, s\<lparr>corecap_slots := (corecap_slots s)[0 := d]\<rparr>)
         else (default_slot q, s));
     Some (if found q \<noteq> 0xff then found q else d, s)
   }"

section \<open>The list of core files\<close>

definition FILELIST_MAX :: u16 where "FILELIST_MAX = 1024"
definition FILEINODE_ADDRESS :: u32 where "FILEINODE_ADDRESS = 0x40000"
definition FILESCREEN_ADDRESS :: u32 where "FILESCREEN_ADDRESS = 0x42000"
definition MHX_C_DEFAULT :: u8 where "MHX_C_DEFAULT = 0x7f"
definition NHSD_INIT_FALLBACK :: u8 where "NHSD_INIT_FALLBACK = 0x80"

definition le_bytes :: "u32 \<Rightarrow> u8 list" where
  "le_bytes v = [ucast v, ucast (drop_bit 8 v), ucast (drop_bit 16 v), ucast (drop_bit 24 v)]"

definition far_long :: "(u32 \<Rightarrow> u8) \<Rightarrow> u32 \<Rightarrow> u32" where
  "far_long f a = le32_in (far_read f a 4) 0"

text \<open>
  \<open>d_name[i]\<close>, also for the indices below 0 that short names lead to: there are the type and the
  length in front of the name, in a struct without gaps.
\<close>

definition name_byte :: "dirent \<Rightarrow> int \<Rightarrow> u8" where
  "name_byte d i = (if 0 \<le> i then d_name d (nat i) else if i = -1 then d_type d
     else (le_bytes (d_ino d) @ le_bytes (d_reclen d)) ! nat (9 + i))"

definition is_core_file :: "dirent \<Rightarrow> u8 \<Rightarrow> bool" where
  "is_core_file d fnlen \<longleftrightarrow>
    (let e = map (\<lambda>k. name_byte d (uint fnlen - 4 + k)) [0, 1, 2, 3] in e = ascii ''.COR'' \<or> e = ascii ''.cor'')"

text \<open>The name as it is shown: at most 38 screen codes, longer names with three dots.\<close>

fun convert_name :: "nat \<Rightarrow> nat \<Rightarrow> nat \<Rightarrow> (nat \<Rightarrow> u8) \<Rightarrow> nat \<times> (nat \<Rightarrow> u8)" where
  "convert_name 0 j i f = (j, f)"
| "convert_name (Suc n) j i f = convert_name n (Suc j) (Suc i) (f(j := mhx_ascii2screen (f i) MHX_C_DEFAULT))"

definition shorten :: "nat \<Rightarrow> (nat \<Rightarrow> u8) \<Rightarrow> nat \<times> (nat \<Rightarrow> u8)" where
  "shorten fnlen f =
    (let (j, f) = convert_name (min 28 fnlen) 0 0 f
     in if fnlen > 38 then convert_name 7 31 (fnlen - 7) (f(28 := 0x2e, 29 := 0x2e, 30 := 0x2e))
     else convert_name (fnlen - j) j j f)"

definition add_file :: "'d mf \<Rightarrow> 'd mf" where
  "add_file s =
    (let d = nhsd_dirent (sdc s);
         n = mfsc_filecount s;
         fnlen = of_nat (length (name_string (d_name d))) :: u8;
         (j, f) = shorten (unat fnlen) (d_name d)
     in s\<lparr>far_mem := far_write (FILESCREEN_ADDRESS + ucast (n * 40) + 1) (map f [0..<j])
           (far_write (FILEINODE_ADDRESS + ucast (n * 8)) (le_bytes (d_ino d) @ le_bytes (d_reclen d)) (far_mem s)),
       sdc := (sdc s)\<lparr>nhsd_dirent := d\<lparr>d_name := f\<rparr>\<rparr>, mfsc_filecount := n + 1\<rparr>)"

text \<open>The loop over the directory; \<open>True\<close> is the jump to \<open>restart_dirload\<close>.\<close>

partial_function (option) load_entries ::
  "'d mf_device \<Rightarrow> nat \<Rightarrow> u8 \<Rightarrow> u8 \<Rightarrow> bool \<Rightarrow> 'd mf \<Rightarrow> (bool \<times> 'd mf) option" where
  "load_entries dev fu junk new_dir isroot s =
    (if mfsc_filecount s < FILELIST_MAX then
       let (r, s) = on_sd (nhsd_readdir (card dev) fu junk) s
       in case r of None \<Rightarrow> None
       | Some err \<Rightarrow>
           if err \<noteq> 0 then Some (False, s)
           else let d = nhsd_dirent (sdc s);
             fnlen = of_nat (length (name_string (d_name d)));
             core_dir = (mfsc_coredir_inode s = 0 \<and> isroot \<and> name_string (d_name d) = ascii ''CORE'');
             s = (if core_dir then s\<lparr>mfsc_coredir_inode := d_ino d\<rparr> else s)
           in if core_dir \<and> new_dir AND 2 \<noteq> 0 then Some (True, snd (on_sd nhsd_close s))
           else load_entries dev fu junk new_dir isroot (if is_core_file d fnlen then add_file s else s)
     else Some (False, s))"

text \<open>From \<open>restart_dirload\<close> on.\<close>

partial_function (option) scan_dir :: "'d mf_device \<Rightarrow> nat \<Rightarrow> u8 \<Rightarrow> u8 \<Rightarrow> ('d, u8) mf_prog" where
  "scan_dir dev fu junk new_dir s =
    (let isroot = (mfsc_coredir_inode s = 0 \<or> new_dir AND 2 = 0);
         s = s\<lparr>sdc := (sdc s)\<lparr>nhsd_current_dir := if isroot then NHSD_ROOT_INODE else mfsc_coredir_inode s\<rparr>\<rparr>;
         (i, s) = on_sd nhsd_opendir s
     in if i \<noteq> 0 then do { s \<leftarrow> mhx_press_any_key False s; Some (0x80, s) }
     else do {
       (restart, s) \<leftarrow> load_entries dev fu junk new_dir isroot
         (s\<lparr>far_mem := far_write FILESCREEN_ADDRESS (replicate (40 * 1024) 0x20)
            (far_write FILEINODE_ADDRESS (replicate (8 * 1024) 0) (far_mem s)), mfsc_filecount := 0\<rparr>);
       if restart then scan_dir dev fu junk new_dir s
       else let s = snd (on_sd nhsd_close s)
         in Some ((nhsd_init_state (sdc s) AND NHSD_INIT_BUSMASK) OR (if isroot then 0 else 2), s)
     })"

definition mfsc_load_dir :: "'d mf_device \<Rightarrow> nat \<Rightarrow> u8 \<Rightarrow> u8 \<Rightarrow> ('d, u8) mf_prog" where
  "mfsc_load_dir dev fu junk new_dir s =
    (let st = nhsd_init_state (sdc s);
         (i, s) = (if new_dir AND 0x80 \<noteq> 0 \<or> st AND NHSD_INIT_INITMASK \<noteq> NHSD_INIT_INITMASK \<or>
             st AND NHSD_INIT_BUSMASK \<noteq> new_dir AND NHSD_INIT_BUSMASK
           then let (i, s) = on_sd (nhsd_init (card dev) ((new_dir AND 1) OR NHSD_INIT_FALLBACK) (buffer_array s)) s
             in (i, if i = 0 then s\<lparr>mfsc_coredir_inode := 0\<rparr> else s)
           else (0, s))
     in if i \<noteq> 0 then do { s \<leftarrow> mhx_press_any_key False s; Some (0x80, s) }
     else scan_dir dev fu junk new_dir s)"

section \<open>Choosing a file\<close>

definition inode_entry :: "u16 \<Rightarrow> u32" where
  "inode_entry n = FILEINODE_ADDRESS + scast (n * 8)"

text \<open>\<open>mfsc_draw_list\<close> leaves the size of the last file that is shown in \<open>mfsc_corefile_size\<close>.\<close>

definition mfsc_draw_list :: "'d mf \<Rightarrow> 'd mf" where
  "mfsc_draw_list s = s\<lparr>mfsc_corefile_size := far_long (far_mem s) (inode_entry (mfsc_offset s + 21) + 4)\<rparr>"

definition clear_size :: "'d mf \<Rightarrow> 'd mf" where
  "clear_size s = s\<lparr>far_mem := far_write (inode_entry (mfsc_selection s) + 4) (replicate 4 0) (far_mem s)\<rparr>"

text \<open>The keys that move the selection; a page down goes on with the case of one line down.\<close>

definition cursor_down :: "u16 \<Rightarrow> 'd mf \<Rightarrow> 'd mf" where
  "cursor_down n s = (let x = mfsc_selection s + n in
     s\<lparr>mfsc_selection := if x \<ge> mfsc_filecount s then mfsc_filecount s - 1 else x\<rparr>)"

definition cursor_up :: "u16 \<Rightarrow> 'd mf \<Rightarrow> 'd mf" where
  "cursor_up n s = (let x = mfsc_selection s - n in s\<lparr>mfsc_selection := if sint x < 0 then 0 else x\<rparr>)"

definition move_selection :: "u8 \<Rightarrow> 'd mf \<Rightarrow> 'd mf" where
  "move_selection key s =
    (if key = 0x13 then s\<lparr>mfsc_selection := 0\<rparr>
     else if key = 0x93 then s\<lparr>mfsc_selection := mfsc_filecount s - 1\<rparr>
     else if key = 0x1d then cursor_down 22 s
     else if key = 0x11 then cursor_down 1 s
     else if key = 0x9d then cursor_up 22 s
     else if key = 0x91 then cursor_up 1 s
     else s)"

definition adjust_offset :: "'d mf \<Rightarrow> 'd mf" where
  "adjust_offset s =
    (let sel = mfsc_selection s; o1 = mfsc_offset s;
         o1 = (if sint sel < sint o1 then sel else o1);
         o1 = (if sint sel > sint o1 + 21 then sel - 21 else o1);
         o1 = (if o1 > mfsc_filecount s - 21 then mfsc_filecount s - 21 else o1);
         o1 = (if sint o1 < 0 then 0 else o1)
     in s\<lparr>mfsc_offset := o1\<rparr>)"

text \<open>The loop of \<open>mfsc_selectcore\<close>.\<close>

partial_function (option) select_loop ::
  "'d mf_device \<Rightarrow> nat \<Rightarrow> u8 \<Rightarrow> u8 \<Rightarrow> u8 \<Rightarrow> u8 \<Rightarrow> 'd mf \<Rightarrow> (u8 \<times> 'd mf) option" where
  "select_loop dev fu junk slot idle_time selected_dir s = do {
     s \<leftarrow> mhx_getkeycode True s;
     let key = mhx_lastkey s;
     if key = 0 then
       let idle_time = (if idle_time < 150 then idle_time + 1 else idle_time)
       in if idle_time = 150 then
         let s = s\<lparr>mfsc_corefile_inode := far_long (far_mem s) (inode_entry (mfsc_selection s))\<rparr>;
           (c, s) = mfsc_checkcore dev (slot = 0) s
         in select_loop dev fu junk slot 151 selected_dir (if c \<noteq> 0 then clear_size s else s)
       else select_loop dev fu junk slot idle_time selected_dir s
     else if key = 0x03 \<or> key = 0x1b then Some (MFSC_FILE_INVALID, s)
     else if key = 0x0d then
       let a = inode_entry (mfsc_selection s);
         s = s\<lparr>mfsc_corefile_inode := far_long (far_mem s) a, mfsc_corefile_size := far_long (far_mem s) (a + 4)\<rparr>;
         (c, s) = mfsc_checkcore dev (slot = 0) s
       in if c \<noteq> 0 \<or> mfsc_corefile_inode s = 0
       then select_loop dev fu junk slot 149 selected_dir (if mfsc_corefile_size s \<noteq> 0 then clear_size s else s)
       else Some (MFSC_FILE_VALID, s)
     else if key = 0xf5 \<or> key = 0xf7 then do {
       (d, s) \<leftarrow> mfsc_load_dir dev fu junk (if key = 0xf5 then (selected_dir XOR 1) OR 2 else selected_dir XOR 2) s;
       if d AND 0x80 \<noteq> 0 then Some (MFSC_FILE_INVALID, s)
       else select_loop dev fu junk slot 0 d (mfsc_draw_list (adjust_offset (s\<lparr>mfsc_selection := 0\<rparr>)))
     }
     else select_loop dev fu junk slot 0 selected_dir (mfsc_draw_list (adjust_offset (move_selection key s)))
   }"

definition mfsc_selectcore :: "'d mf_device \<Rightarrow> nat \<Rightarrow> u8 \<Rightarrow> u8 \<Rightarrow> ('d, u8) mf_prog" where
  "mfsc_selectcore dev fu junk slot s = do {
     (d, s) \<leftarrow> mfsc_load_dir dev fu junk 0x83 (s\<lparr>mfsc_selection := 0, mfsc_offset := 0\<rparr>);
     if d AND 0x80 \<noteq> 0 then Some (MFSC_FILE_INVALID, s)
     else select_loop dev fu junk slot 0 d (mfsc_draw_list s)
   }"

section \<open>Editing a slot\<close>

text \<open>\<open>mfhf_flash_core\<close> and the scan behind it.\<close>

definition flash_and_scan :: "'d mf_device \<Rightarrow> u8 \<Rightarrow> ('d, outcome) mf_prog" where
  "flash_and_scan dev selected_slot s = do {
     (o1, s) \<leftarrow> mfhf_flash_core dev (selected_file s) selected_slot s;
     if o1 = Turn_off then Some (Turn_off, s)
     else do { (_, s) \<leftarrow> scan_core_information dev 0 s; Some (Returns 0, s) }
   }"

text \<open>The key F8.\<close>

definition flash_key :: "'d mf_device \<Rightarrow> u8 \<Rightarrow> 'd mf \<Rightarrow> (outcome option \<times> 'd mf) option" where
  "flash_key dev selected_slot s =
    (if selected_file s \<noteq> MFSC_FILE_INVALID then do {
       (r, s) \<leftarrow> (if selected_file s = MFSC_FILE_ERASE then Some (1, s) else mfhf_load_core dev s);
       (o1, s) \<leftarrow> (if r \<noteq> 0 then flash_and_scan dev selected_slot s else Some (Returns 0, s));
       Some (Some o1, s)
     } else if real_flags (slot_at (unat selected_slot) s) \<noteq> mfsc_corehdr_bootflags s then do {
       (r, s) \<leftarrow> mfhf_load_core_from_flash dev selected_slot 0x40000 s;
       (o1, s) \<leftarrow> (if r \<noteq> 0 then flash_and_scan dev selected_slot (s\<lparr>selected_file := MFSC_FILE_VALID\<rparr>)
          else Some (Returns 0, s));
       Some (Some o1, s)
     } else Some (None, s))"

definition toggle_flag :: "nat \<Rightarrow> 'd mf \<Rightarrow> 'd mf" where
  "toggle_flag selbit s =
    (let bits = corecap_bits ! selbit in
     if mfsc_corehdr_bootcaps s AND bits \<noteq> 0
     then s\<lparr>mfsc_corehdr_bootflags := mfsc_corehdr_bootflags s XOR bits\<rparr> else s)"

partial_function (option) edit_loop :: "'d mf_device \<Rightarrow> nat \<Rightarrow> u8 \<Rightarrow> u8 \<Rightarrow> ('d, outcome) mf_prog" where
  "edit_loop dev fu junk selected_slot s = do {
     s \<leftarrow> mhx_getkeycode False s;
     let key = mhx_lastkey s;
     if key = 0x03 \<or> key = 0x1b then Some (Returns 0, s)
     else if selected_slot > 0 \<and> 0x30 < key \<and> key < 0x35
     then edit_loop dev fu junk selected_slot (toggle_flag (unat (key - 0x31)) s)
     else if key = 0xf3 then do {
       (f, s) \<leftarrow> mfsc_selectcore dev fu junk (selected_reflash_slot s) s;
       edit_loop dev fu junk selected_slot (s\<lparr>selected_file := f\<rparr>)
     } else if key = 0xf4 then
       edit_loop dev fu junk selected_slot
         (if selected_slot = 0 \<and> booted_via_jtag s = 0 then s else s\<lparr>selected_file := MFSC_FILE_ERASE\<rparr>)
     else if key = 0xf8 then do {
       (r, s) \<leftarrow> flash_key dev selected_slot s;
       (case r of None \<Rightarrow> edit_loop dev fu junk selected_slot s | Some o1 \<Rightarrow> Some (o1, s))
     }
     else edit_loop dev fu junk selected_slot s
   }"

definition edit_slot :: "'d mf_device \<Rightarrow> nat \<Rightarrow> u8 \<Rightarrow> u8 \<Rightarrow> ('d, outcome) mf_prog" where
  "edit_slot dev fu junk selected_slot s =
    (let c = slot_at (unat selected_slot) s in
     edit_loop dev fu junk selected_slot (s\<lparr>mfsc_corehdr_bootflags := real_flags c,
       mfsc_corehdr_bootcaps := capabilities c, mfsc_corehdr_length := core_length c,
       selected_file := MFSC_FILE_INVALID\<rparr>))"

section \<open>Starting the tool\<close>

text \<open>
  How the tool is left: back to the hypervisor (\<open>hard_exit\<close>), into another core at an address of the flash
  (\<open>mfut_reconfig_fpga\<close>, which does not return), or in an endless loop.
\<close>

datatype leave = Hard_exit | Reconfig u32 | Endless_loop

definition peek_key :: "'d mf \<Rightarrow> u8" where
  "peek_key s = (case keys s of [] \<Rightarrow> 0 | k # _ \<Rightarrow> k)"

definition instflags_bringup :: u8 where
  "instflags_bringup = MFSC_COREINST_FACTORY OR MFSC_COREINST_AUTO OR MFSC_COREINST_FORCE"

text \<open>The automatic update of slot 0 from \<open>BRINGUP.COR\<close>; \<open>True\<close> when the core is one for it.\<close>

definition bringup :: "'d mf_device \<Rightarrow> nat \<Rightarrow> u8 \<Rightarrow> ('d, bool) mf_prog" where
  "bringup dev fu junk s = do {
     (e, s) \<leftarrow> mfsc_findcorefile dev fu junk (ascii ''BRINGUP.COR'') True s;
     if e = 0 \<and> mfsc_corehdr_instflags s AND instflags_bringup = instflags_bringup then do {
       (r, s) \<leftarrow> mfhf_load_core dev (s\<lparr>selected_file := MFSC_FILE_VALID\<rparr>);
       (_, s) \<leftarrow> (if r \<noteq> 0 then mfhf_flash_core dev (selected_file s) 0 s else Some (Returns 0, s));
       Some (True, s)
     } else Some (False, s)
   }"

text \<open>The choice of the core to start; \<open>None\<close> goes on to the menu.\<close>

definition boot_core :: "'d mf_device \<Rightarrow> ('d, leave option) mf_prog" where
  "boot_core dev s = do {
     let (search_cart, s) = check_cartridge s;
     (selected, s) \<leftarrow> scan_core_information dev search_cart s;
     let v = valid (slot_at (unat selected) s);
     if v = SLOT_VALID then Some (Some (Reconfig (mfu_slot_size s * ucast selected + 4096)), s)
     else if v = SLOT_EMPTY then Some (Some Hard_exit, s)
     else do { s \<leftarrow> mhx_press_any_key True s; Some (None, s) }
   }"

text \<open>\<open>main\<close> up to the menu; \<open>None\<close> as the first component is the menu.\<close>

definition start_up :: "'d mf_device \<Rightarrow> nat \<Rightarrow> u8 \<Rightarrow> ('d, leave option) mf_prog" where
  "start_up dev fu junk s = do {
     let (eg, s) = mf_peek dev 0xd67e s;
     let (r, s) = mfut_probe_hardware_version dev (s\<lparr>exrom_game := eg\<rparr>);
     if r \<noteq> 0 \<or> peek_key s = 0x1b then Some (Some Hard_exit, s)
     else do {
       (e, s) \<leftarrow> mfhf_init dev s;
       if e \<noteq> 0 then do { s \<leftarrow> mhx_press_any_key False s; Some (Some Hard_exit, s) }
       else do {
         let (m, s) = mf_peek dev 0xd611 s;
         (l, s) \<leftarrow> (if m AND 0x20 \<noteq> 0 then Some (None, s)
           else do {
             let s = mf_poke dev 0xd6c4 0x16 s;
             let (b, s) = mf_peek dev 0xd6c7 s;
             (br, s) \<leftarrow> (if b = 0xff then bringup dev fu junk s else Some (False, s));
             if br then Some (Some Endless_loop, s)
             else do {
               let (c, s) = mf_peek dev 0xd6c5 s;
               if c AND 1 \<noteq> 0 then Some (Some Hard_exit, s) else boot_core dev s
             }
           });
         (case l of Some _ \<Rightarrow> Some (l, s)
          | None \<Rightarrow> do {
              let (b, s) = mf_peek dev 0xd6c7 s;
              s \<leftarrow> (if b = 0xff then mhx_press_any_key True (s\<lparr>booted_via_jtag := 1\<rparr>) else Some s);
              (_, s) \<leftarrow> scan_core_information dev 0 s;
              Some (None, s)
            })
       }
     }
   }"

section \<open>The menu\<close>

definition perhaps_reconfig :: "u8 \<Rightarrow> 'd mf \<Rightarrow> leave option \<times> 'd mf" where
  "perhaps_reconfig slot s =
    (if booted_via_jtag s = 0 then
       let s = mhx_clear_keybuffer s
       in (if slot = 0 \<or> valid (slot_at (unat slot) s) \<noteq> SLOT_EMPTY
           then Some (Reconfig (ucast slot * mfu_slot_size s + 4096)) else None, s)
     else (None, s))"

text \<open>Typing a text that is asked for; the first wrong key ends it.\<close>

fun match_input :: "u8 list \<Rightarrow> ('d, bool) mf_prog" where
  "match_input [] s = Some (True, s)"
| "match_input (c # cs) s = do {
     s \<leftarrow> mhx_getkeycode False s;
     if mhx_lastkey s \<noteq> c AND 0x7f then Some (False, s) else match_input cs s
   }"

definition mhx_check_input :: "u8 list \<Rightarrow> ('d, bool) mf_prog" where
  "mhx_check_input text s = match_input (map (\<lambda>c. if c = 0x0a then 0x0d else c) text) (mhx_clear_keybuffer s)"

definition confirm_slot0_flash :: "('d, bool) mf_prog" where
  "confirm_slot0_flash s = do {
     (ok, s) \<leftarrow> (if take 9 (core_name (slot_at 1 s)) \<noteq> screen_string ''MEGA65   ''
       then mhx_check_input (ascii ''CONFIRM'' @ [0x0d]) s else Some (True, s));
     if ok then mhx_check_input (ascii ''CONFIRM'' @ [0x0d]) s else Some (False, s)
   }"

partial_function (option) until_stop :: "'d mf \<Rightarrow> 'd mf option" where
  "until_stop s = do {
     s \<leftarrow> mhx_getkeycode False s;
     if mhx_lastkey s = 0x1b \<or> mhx_lastkey s = 0x03 then Some s else until_stop s
   }"

definition display_version :: "'d mf_device \<Rightarrow> 'd mf \<Rightarrow> 'd mf option" where
  "display_version dev s = do {
     let (search_cart, s) = check_cartridge s;
     (_, s) \<leftarrow> scan_core_information dev search_cart s;
     s \<leftarrow> until_stop s;
     (_, s) \<leftarrow> scan_core_information dev 0 s;
     Some s
   }"

text \<open>The keys with CTRL that edit a slot.\<close>

definition ctrl_slot :: "u8 \<Rightarrow> u8" where
  "ctrl_slot key = (if key = 144 then 1 else if key = 5 then 2 else if key = 28 then 3 else if key = 159 then 4
     else if key = 156 then 5 else if key = 30 then 6 else if key = 31 then 7 else 0xff)"

text \<open>The switch on the key: it sets \<open>selected_reflash_slot\<close>, which has been set to \<open>0xff\<close> before.\<close>

definition menu_key :: "'d mf_device \<Rightarrow> u8 \<Rightarrow> u8 \<Rightarrow> u8 \<Rightarrow> 'd mf \<Rightarrow> ((leave option \<times> u8) \<times> 'd mf) option" where
  "menu_key dev key md selected s =
    (if key = 0x03 \<or> key = 0x1b then Some ((Some Hard_exit, selected), s)
     else if key = 0x1d \<or> key = 0x11 then
       Some ((None, if selected + 1 \<ge> slot_count s then 0 else selected + 1), s)
     else if key = 0x9d \<or> key = 0x91 then
       Some ((None, if selected = 0 then slot_count s - 1 else selected - 1), s)
     else if key = 0x0d then let (l, s) = perhaps_reconfig selected s in Some ((l, selected), s)
     else if key = 0x7e then do {
       (ok, s) \<leftarrow> confirm_slot0_flash s;
       Some ((None, selected), if ok then s\<lparr>selected_reflash_slot := 0\<rparr> else s)
     }
     else if key = 0x09 then
       Some ((None, selected), if selected > 0 then s\<lparr>selected_reflash_slot := selected\<rparr> else s)
     else if ctrl_slot key \<noteq> 0xff \<and> md AND 0x04 \<noteq> 0 then
       Some ((None, selected), s\<lparr>selected_reflash_slot := ctrl_slot key\<rparr>)
     else if key = 31 then do { s \<leftarrow> display_version dev s; Some ((None, selected), s) }
     else Some ((None, selected), s))"

partial_function (option) menu_loop :: "'d mf_device \<Rightarrow> nat \<Rightarrow> u8 \<Rightarrow> u8 \<Rightarrow> ('d, leave) mf_prog" where
  "menu_loop dev fu junk selected s = do {
     s \<leftarrow> mhx_getkeycode False s;
     let key = mhx_lastkey s;
     let (md, s) = mf_peek dev 0xd611 s;
     let (l, s) = (if key \<ge> 0x30 \<and> unat key < 0x30 + unat (slot_count s) then perhaps_reconfig (key - 0x30) s
       else (None, s));
     (case l of Some l \<Rightarrow> Some (l, s)
      | None \<Rightarrow> do {
          ((l, selected), s) \<leftarrow> menu_key dev key md selected (s\<lparr>selected_reflash_slot := 0xff\<rparr>);
          (case l of Some l \<Rightarrow> Some (l, s)
           | None \<Rightarrow> do {
               (o1, s) \<leftarrow> (if selected_reflash_slot s < slot_count s then edit_slot dev fu junk (selected_reflash_slot s) s
                 else Some (Returns 0, s));
               if o1 = Turn_off then Some (Endless_loop, s)
               else menu_loop dev fu junk selected (mf_poke dev 0xd020 0 s)
             })
        })
   }"

definition megaflash_main :: "'d mf_device \<Rightarrow> nat \<Rightarrow> u8 \<Rightarrow> ('d, leave) mf_prog" where
  "megaflash_main dev fu junk s = do {
     (l, s) \<leftarrow> start_up dev fu junk s;
     (case l of Some l \<Rightarrow> Some (l, s) | None \<Rightarrow> menu_loop dev fu junk 0 s)
   }"

end
