(* ===== verification/MenuLaws.thy ===== *)
theory MenuLaws
  imports LoadLaws Menu
begin

text \<open>
  Properties of the file chooser, of the choice of the core to start and of the menu.
\<close>

unbundle bit_operations_syntax

section \<open>The check of a core file\<close>

lemmas core_errors = MFSC_CF_NO_ERROR_def MFSC_CF_ERROR_OPEN_def MFSC_CF_ERROR_READ_def MFSC_CF_ERROR_SIG_def
  MFSC_CF_ERROR_SIZE_def MFSC_CF_ERROR_HWMODEL_def MFSC_CF_ERROR_FACTORY_def

text \<open>A header that is accepted, for slot 0 or for another, by a machine of model \<open>m\<close> with slots of size \<open>S\<close>.\<close>

definition acceptable :: "bool \<Rightarrow> u8 \<Rightarrow> u32 \<Rightarrow> u8 list \<Rightarrow> bool" where
  "acceptable factory m S b \<longleftrightarrow> map ((!) b) [0..<16] = mfsc_bitstream_magic \<and> le32_in b MFSC_COREHDR_LENGTH \<le> S \<and>
    b ! 0x70 = m \<and> (factory \<longrightarrow> factory_core b)"

text \<open>The variables hold what the header says.\<close>

definition header_taken :: "u8 list \<Rightarrow> 'd mf \<Rightarrow> bool" where
  "header_taken b s \<longleftrightarrow> mfsc_corehdr_name s = header_text b 0x10 @ [MHX_C_EOS] \<and>
    mfsc_corehdr_version s = header_text b 0x30 @ [MHX_C_EOS] \<and> mfsc_corehdr_length s = le32_in b MFSC_COREHDR_LENGTH \<and> mfsc_corehdr_model_id s = b ! 0x70 \<and>
    mfsc_corehdr_bootcaps s = b ! 0x7b \<and> mfsc_corehdr_bootflags s = b ! 0x7c \<and> mfsc_corehdr_instflags s = b ! 0x7d \<and>
    mfsc_corehdr_erase_list s = erase_list_of b (mfsc_corehdr_version s)"

lemma on_sd_keeps [simp]:
  "mfu_slot_size (snd (on_sd p s)) = mfu_slot_size s" "hw_model_id (snd (on_sd p s)) = hw_model_id s"
  "mfsc_corefile_inode (snd (on_sd p s)) = mfsc_corefile_inode s" "keys (snd (on_sd p s)) = keys s"
  "far_mem (snd (on_sd p s)) = far_mem s" "mhx_lastkey (snd (on_sd p s)) = mhx_lastkey s"
  "mfsc_corefile_size (snd (on_sd p s)) = mfsc_corefile_size s" "mfsc_selection (snd (on_sd p s)) = mfsc_selection s"
  "mfsc_corehdr_length (snd (on_sd p s)) = mfsc_corehdr_length s"
  by (simp_all add: on_sd_def split_beta)

text \<open>
  The first sector of the file with the first cluster \<open>i\<close> has been read, between the states \<open>c\<close> and \<open>c'\<close> of
  the card reader: the file was opened, one sector read and the file closed, all without an error.
\<close>

definition header_read :: "'d sd_device \<Rightarrow> u32 \<Rightarrow> 'd sd \<Rightarrow> 'd sd \<Rightarrow> bool" where
  "header_read dev i c c' \<longleftrightarrow> (\<exists>c1 c2. run_state (nhsd_open_inode i NHSD_INIT_OPENFILE) c = (0, c1) \<and>
    run_state (nhsd_read dev) c1 = (0, c2) \<and> c' = state_after nhsd_close c2)"

lemma header_read_sector:
  assumes "header_read dev i c c'" and "serves dev ready reg disk" and "on_card ready c" and "sectors_per_cluster c \<noteq> 0"
    and "i \<noteq> 0"
  shows "nhsd_buffer c' = Some (map (disk (cluster_sector c i)) [0..<512])"
proof -
  obtain c1 c2 where op: "run_state (nhsd_open_inode i NHSD_INIT_OPENFILE) c = (0, c1)"
    and rd: "run_state (nhsd_read dev) c1 = (0, c2)" and c': "c' = state_after nhsd_close c2"
    using assms(1) by (auto simp: header_read_def)
  have init: "nhsd_init_state c AND NHSD_INIT_INITMASK = NHSD_INIT_INITMASK" "nhsd_init_state c AND NHSD_INIT_OPENMASK = 0"
    using op by (auto simp: nhsd_open_inode_def run_state_pair sd_errors split: if_splits)
  let ?p = "\<lparr>pos_cluster = i, pos_sector = cluster_sector c i, sector_in_cluster = 0\<rparr>"
  let ?c = "c\<lparr>nhsd_init_state := nhsd_init_state c OR (NHSD_INIT_OPENFILE AND NHSD_INIT_OPENMASK)\<rparr>"
  obtain b0 where b0: "nhsd_buffer c = Some b0" "ready (hw c)" using assms(3) by (auto simp: on_card_def)
  let ?r = "reading ?c (hw c) b0 ?p"
  have "state_after (nhsd_open_inode i NHSD_INIT_OPENFILE) c = ?r"
    using b0(1) by (simp add: open_inode_opens [OF init] reading_def)
  then have c1: "c1 = ?r" using op by (simp add: run_state_pair)
  have "nhsd_init_state ?c AND NHSD_INIT_OPENMASK \<noteq> 0"
    using open_mask_or [of NHSD_INIT_OPENFILE] by (simp add: sd_masks)
  moreover have "sectors_per_cluster ?c \<noteq> 0" "pos_at disk ?c i 0 ?p"
    using assms(4) by (simp_all add: pos_at_def cluster_sector_def)
  ultimately obtain h1 b1 p1 e where st: "result_of (nhsd_read dev) ?r = e"
    "state_after (nhsd_read dev) ?r = reading ?c h1 b1 p1"
    "(e, if e = 0 then Some b1 else None) = expected_read disk ?c i 0"
    by (rule nhsd_read_step [OF assms(2) b0(2)]) blast
  have "file_sector disk ?c i 0 = Some (cluster_sector c i)"
    using assms(5) by (simp add: file_sector_def Let_def cluster_sector_def)
  then have "b1 = map (disk (cluster_sector c i)) [0..<512]"
    using st(3) by (auto simp: expected_read_def sd_errors split: if_splits)
  moreover have "c2 = reading ?c h1 b1 p1" using rd st(2) by (simp add: c1 run_state_pair)
  ultimately show ?thesis by (simp add: c' nhsd_close_def reading_def set_state_def)
qed

lemma checkcore_accepts:
  assumes "mfsc_checkcore dev rm s = (0, s')"
  shows "acceptable rm (hw_model_id s') (mfu_slot_size s') (the_buffer s') \<and> header_taken (the_buffer s') s' \<and>
    mfu_slot_size s' = mfu_slot_size s \<and> hw_model_id s' = hw_model_id s \<and>
    mfsc_corefile_inode s' = mfsc_corefile_inode s \<and> far_mem s' = far_mem s \<and> keys s' = keys s"
  using assms
  by (auto simp: mfsc_checkcore_def acceptable_def header_taken_def core_errors Let_def split_beta the_buffer_def not_less
      split: if_splits)

lemma checkcore_reads:
  assumes "mfsc_checkcore dev rm s = (0, s')"
  shows "header_read (card dev) (mfsc_corefile_inode s) (sdc s) (sdc s') \<and> mfsc_selection s' = mfsc_selection s"
  using assms unfolding mfsc_checkcore_def
  by (auto simp: header_read_def on_sd_def core_errors Let_def split_beta run_state_pair prod_eq_iff split: if_splits)

text \<open>On a card that works, with a file system and no file open.\<close>

definition card_ready :: "'d mf_device \<Rightarrow> ('d \<Rightarrow> bool) \<Rightarrow> ('d \<Rightarrow> nat \<Rightarrow> u8) \<Rightarrow> (u32 \<Rightarrow> nat \<Rightarrow> u8) \<Rightarrow> 'd mf \<Rightarrow> bool" where
  "card_ready dev ready reg disk s \<longleftrightarrow> serves (card dev) ready reg disk \<and> on_card ready (sdc s) \<and>
    nhsd_init_state (sdc s) AND NHSD_INIT_INITMASK = NHSD_INIT_INITMASK \<and>
    nhsd_init_state (sdc s) AND NHSD_INIT_OPENMASK = 0 \<and> sectors_per_cluster (sdc s) \<noteq> 0"

lemma reading_closed:
  assumes "st AND NHSD_INIT_INITMASK = NHSD_INIT_INITMASK" and "st AND NHSD_INIT_OPENMASK = 0"
  shows "(st OR (NHSD_INIT_OPENFILE AND NHSD_INIT_OPENMASK)) AND (0xff XOR NHSD_INIT_OPENMASK) = st AND (0xff XOR NHSD_INIT_OPENMASK)"
    and "(st AND (0xff XOR NHSD_INIT_OPENMASK)) AND NHSD_INIT_INITMASK = NHSD_INIT_INITMASK"
    and "(st AND (0xff XOR NHSD_INIT_OPENMASK)) AND NHSD_INIT_OPENMASK = 0"
  using assms by (simp_all add: sd_masks word_ao_dist and.assoc)

lemma checkcore_on_card:
  assumes "card_ready dev ready reg disk s" and "mfsc_corefile_inode s \<noteq> 0"
    and b: "b = map (disk (cluster_sector (sdc s) (mfsc_corefile_inode s))) [0..<512]"
  obtains c s' where "mfsc_checkcore dev rm s = (c, s')"
    and "c = 0 \<longleftrightarrow> acceptable rm (hw_model_id s) (mfu_slot_size s) b" and "c = 0 \<longrightarrow> the_buffer s' = b"
    and "card_ready dev ready reg disk s'"
proof -
  let ?i = "mfsc_corefile_inode s"
  define s0 where "s0 = s\<lparr>mfsc_corehdr_model_id := 0,
       mfsc_corehdr_name := padded 32 (screen_string ''UNKNOWN CORE TYPE'' @ [0]) @ [MHX_C_EOS],
       mfsc_corehdr_version := padded 32 (screen_string ''UNKNOWN VERSION'' @ [0]) @ [MHX_C_EOS]\<rparr>"
  have s0: "sdc s0 = sdc s" "mfsc_corefile_inode s0 = ?i" "hw_model_id s0 = hw_model_id s" "mfu_slot_size s0 = mfu_slot_size s"
    by (simp_all add: s0_def)
  have asm: "serves (card dev) ready reg disk" "on_card ready (sdc s)"
    "nhsd_init_state (sdc s) AND NHSD_INIT_INITMASK = NHSD_INIT_INITMASK"
    "nhsd_init_state (sdc s) AND NHSD_INIT_OPENMASK = 0" "sectors_per_cluster (sdc s) \<noteq> 0"
    using assms(1) by (simp_all add: card_ready_def)
  let ?p = "\<lparr>pos_cluster = ?i, pos_sector = cluster_sector (sdc s) ?i, sector_in_cluster = 0\<rparr>"
  let ?c = "(sdc s)\<lparr>nhsd_init_state := nhsd_init_state (sdc s) OR (NHSD_INIT_OPENFILE AND NHSD_INIT_OPENMASK)\<rparr>"
  obtain b0 where b0: "nhsd_buffer (sdc s) = Some b0" "ready (hw (sdc s))" using asm(2) by (auto simp: on_card_def)
  let ?r = "reading ?c (hw (sdc s)) b0 ?p"
  have opened: "on_sd (nhsd_open_inode ?i NHSD_INIT_OPENFILE) s0 = (0, s0\<lparr>sdc := ?r\<rparr>)"
    using open_inode_opens [OF asm(3,4), of ?i NHSD_INIT_OPENFILE] b0(1)
    by (simp add: on_sd_def run_state_pair s0(1) reading_def NHSD_ERR_NOERROR_def)
  have op: "nhsd_init_state ?c AND NHSD_INIT_OPENMASK \<noteq> 0"
    using open_mask_or [of NHSD_INIT_OPENFILE] by (simp add: sd_masks)
  have spc: "sectors_per_cluster ?c \<noteq> 0" and pos: "pos_at disk ?c ?i 0 ?p"
    using asm(5) by (simp_all add: pos_at_def cluster_sector_def)
  obtain h1 b1 p1 e where rd: "ready h1" "result_of (nhsd_read (card dev)) ?r = e"
    "state_after (nhsd_read (card dev)) ?r = reading ?c h1 b1 p1"
    "(e, if e = 0 then Some b1 else None) = expected_read disk ?c ?i 0"
    by (rule nhsd_read_step [OF asm(1) b0(2) op spc pos]) blast
  have sec: "file_sector disk ?c ?i 0 = Some (cluster_sector (sdc s) ?i)"
    using assms(2) by (simp add: file_sector_def Let_def cluster_sector_def)
  have e: "e = 0" "b1 = b"
    using rd(4) unfolding expected_read_def sec by (auto simp: b sd_errors split: if_splits)
  let ?d = "(reading ?c h1 b p1)\<lparr>nhsd_init_state := nhsd_init_state (sdc s) AND (0xff XOR NHSD_INIT_OPENMASK)\<rparr>"
  have read: "on_sd (nhsd_read (card dev)) (s0\<lparr>sdc := ?r\<rparr>) = (0, s0\<lparr>sdc := reading ?c h1 b p1\<rparr>)"
    using rd(2,3) e by (simp add: on_sd_def run_state_pair)
  have "(nhsd_init_state (sdc s) OR (NHSD_INIT_OPENFILE AND NHSD_INIT_OPENMASK)) AND NHSD_INIT_INITMASK = NHSD_INIT_INITMASK"
    using asm(3) by (simp add: word_ao_dist word_ao_absorbs)
  then have closed: "snd (on_sd nhsd_close (s0\<lparr>sdc := reading ?c h1 b p1\<rparr>)) = s0\<lparr>sdc := ?d\<rparr>"
    using op reading_closed(1) [OF asm(3,4)]
    by (simp add: on_sd_def run_state_pair nhsd_close_def reading_def set_state_def)
  obtain c s' where cc: "mfsc_checkcore dev rm s = (c, s')" by fastforce
  note run = cc [unfolded mfsc_checkcore_def Let_def, folded s0_def, unfolded s0(2) opened]
  have buf: "the_buffer (s0\<lparr>sdc := ?d\<rparr>) = b" by (simp add: the_buffer_def reading_def)
  have res: "(c = 0 \<longleftrightarrow> acceptable rm (hw_model_id s) (mfu_slot_size s) b) \<and> sdc s' = ?d"
    using run by (auto simp: read closed buf s0 acceptable_def core_errors not_less split: if_splits)
  then have "card_ready dev ready reg disk s'"
    using asm rd(1) reading_closed(2,3) [OF asm(3,4)] unfolding card_ready_def on_card_def
    by (simp add: reading_def)
  with cc res show thesis using buf by (intro that) (auto simp: the_buffer_def)
qed

section \<open>The file chooser\<close>

lemma file_codes [simp]: "MFSC_FILE_VALID = 1" "MFSC_FILE_INVALID = 0" "MFSC_FILE_ERASE = 2"
  by (simp_all add: MFSC_FILE_VALID_def MFSC_FILE_INVALID_def MFSC_FILE_ERASE_def)

definition accepted :: "'d mf_device \<Rightarrow> u8 \<Rightarrow> 'd mf \<Rightarrow> bool" where
  "accepted dev slot s \<longleftrightarrow> mfsc_corefile_inode s \<noteq> 0 \<and>
    mfsc_corefile_inode s = far_long (far_mem s) (inode_entry (mfsc_selection s)) \<and>
    acceptable (slot = 0) (hw_model_id s) (mfu_slot_size s) (the_buffer s) \<and> header_taken (the_buffer s) s \<and>
    (\<exists>c. header_read (card dev) (mfsc_corefile_inode s) c (sdc s))"

lemma select_loop_accepts:
  assumes "select_loop dev fu junk slot idle d s = Some rs"
  shows "fst rs = 1 \<longrightarrow> accepted dev slot (snd rs)"
proof (rule select_loop.raw_induct [of "\<lambda>dev fu junk slot idle d s rs. fst rs = 1 \<longrightarrow> accepted dev slot (snd rs)",
      OF _ assms], rule impI, goal_cases)
  case (1 loop dev fu junk slot idle d s y)
  note IH = 1(1) and body = 1(2) and y = 1(3)
  obtain s1 where s1: "mhx_getkeycode True s = Some s1" using body by (auto split: Option.bind_splits)
  note body = body [unfolded s1 bind.simps Let_def]
  show ?case
  proof (cases "mhx_lastkey s1 = 0x0d")
    case True
    let ?a = "inode_entry (mfsc_selection s1)"
    obtain c s2 where c: "mfsc_checkcore dev (slot = 0) (s1\<lparr>mfsc_corefile_inode := far_long (far_mem s1) ?a,
        mfsc_corefile_size := far_long (far_mem s1) (?a + 4)\<rparr>) = (c, s2)" by fastforce
    show ?thesis
    proof (cases "c \<noteq> 0 \<or> mfsc_corefile_inode s2 = 0")
      case True
      then show ?thesis using body \<open>mhx_lastkey s1 = 0x0d\<close> c IH y by auto
    next
      case False
      then have "y = (1, s2)" and False0: "c = 0" using body \<open>mhx_lastkey s1 = 0x0d\<close> c by auto
      then show ?thesis using checkcore_accepts [OF c [unfolded False0]] checkcore_reads [OF c [unfolded False0]] False
        unfolding accepted_def by auto
    qed
  next
    case False
    then show ?thesis
      using body IH y
      by (auto simp: split_beta split: if_splits Option.bind_splits)
  qed
qed

text \<open>
  C9: when the file chooser returns a core file, it is the one that is selected in the list, and its first
  sector has just been read without an error: the file was opened by its first cluster, one sector was read and the file closed.
  That sector is a header that is accepted for the slot (it has the magic bytes, fits into a slot, is for
  this model and, for slot 0, is a factory core), and the variables that describe the core hold what it says.
  If the card works (it may be busy for a time within the program's patience), and has at least one
  sector to a cluster, it is the sector that is on the card at the start of the first cluster of the file.
\<close>

theorem chosen_core_accepted:
  assumes "select_loop dev fu junk slot idle d s = Some (MFSC_FILE_VALID, s')"
  shows "let i = mfsc_corefile_inode s'; b = the_buffer s' in
    i \<noteq> 0 \<and> i = far_long (far_mem s') (inode_entry (mfsc_selection s')) \<and>
    acceptable (slot = 0) (hw_model_id s') (mfu_slot_size s') b \<and> header_taken b s' \<and>
    (\<exists>c. header_read (card dev) i c (sdc s') \<and>
      (\<forall>ready reg disk. serves (card dev) ready reg disk \<and> on_card ready c \<and> sectors_per_cluster c \<noteq> 0 \<longrightarrow>
        b = map (disk (cluster_sector c i)) [0..<512]))"
proof -
  have acc: "accepted dev slot s'" using select_loop_accepts [OF assms] by simp
  then obtain c where c: "header_read (card dev) (mfsc_corefile_inode s') c (sdc s')" "mfsc_corefile_inode s' \<noteq> 0"
    by (auto simp: accepted_def)
  have "the_buffer s' = map (disk (cluster_sector c (mfsc_corefile_inode s'))) [0..<512]"
    if "serves (card dev) ready reg disk \<and> on_card ready c \<and> sectors_per_cluster c \<noteq> 0"
    for ready and reg :: "'a \<Rightarrow> nat \<Rightarrow> u8" and disk
    using header_read_sector [OF c(1) _ _ _ c(2)] that by (auto simp: the_buffer_def)
  then show ?thesis using acc c unfolding accepted_def Let_def by blast
qed

text \<open>
  C39: the header that is shown after a while without a key is read into the variables of the chosen core: on a
  card that works (it may be busy after a command for a time within the program's patience, and is then without
  an error) with the file system recognised, no file open and at least one sector to a cluster, when the
  selected file has a header that is acceptable for the slot, no key is pressed for a while and then the chooser
  is left without a choice, the boot flags are those of the file that was only shown.
\<close>

theorem preview_changes_flags:
  assumes "card_ready dev ready reg disk s" and "keys s = 0 # 0x1b # ks"
    and i: "i = far_long (far_mem s) (inode_entry (mfsc_selection s))" "i \<noteq> 0"
    and b: "b = map (disk (cluster_sector (sdc s) i)) [0..<512]"
    and acc: "acceptable (slot = 0) (hw_model_id s) (mfu_slot_size s) b"
  shows "\<exists>s'. select_loop dev fu junk slot 149 d s = Some (MFSC_FILE_INVALID, s') \<and> mfsc_corehdr_bootflags s' = b ! 0x7c"
proof -
  let ?s = "s\<lparr>keys := 0x1b # ks, mhx_lastkey := 0, mfsc_corefile_inode := i\<rparr>"
  have rdy: "card_ready dev ready reg disk ?s" and ino: "mfsc_corefile_inode ?s \<noteq> 0"
    and sec: "b = map (disk (cluster_sector (sdc ?s) (mfsc_corefile_inode ?s))) [0..<512]"
    using assms(1) i(2) b by (simp_all add: card_ready_def)
  obtain c s1 where cc: "mfsc_checkcore dev (slot = 0) ?s = (c, s1)"
    and ok: "c = 0 \<longleftrightarrow> acceptable (slot = 0) (hw_model_id ?s) (mfu_slot_size ?s) b" and buf: "c = 0 \<longrightarrow> the_buffer s1 = b"
    by (rule checkcore_on_card [OF rdy ino sec, where rm = "slot = 0"])
  have "c = 0" using ok acc by simp
  with cc buf have c0: "mfsc_checkcore dev (slot = 0) ?s = (0, s1)" and bb: "the_buffer s1 = b" by simp_all
  note k = checkcore_accepts [OF c0]
  have key: "mhx_getkeycode True s = Some (s\<lparr>keys := 0x1b # ks, mhx_lastkey := 0\<rparr>)"
    using assms(2) by (simp add: mhx_getkeycode_def)
  have esc: "mhx_getkeycode True s1 = Some (s1\<lparr>keys := ks, mhx_lastkey := 0x1b\<rparr>)"
    using k by (simp add: mhx_getkeycode_def)
  have "select_loop dev fu junk slot 149 d s = select_loop dev fu junk slot 151 d s1"
    by (subst select_loop.simps) (simp add: key c0 Let_def flip: i(1))
  also have "\<dots> = Some (MFSC_FILE_INVALID, s1\<lparr>keys := ks, mhx_lastkey := 0x1b\<rparr>)"
    by (subst select_loop.simps) (simp add: esc Let_def)
  finally show ?thesis using k bb by (auto simp: header_taken_def)
qed

section \<open>Moving in the list\<close>

lemma sint_small:
  assumes "unat (x :: u16) < 32768"
  shows "sint x = int (unat x)"
proof -
  have u: "uint x = int (unat x)" by (rule uint_nat)
  have p: "(2 :: int) ^ 15 = 32768" by simp
  have "- (2 ^ 15) \<le> uint x" "uint x < 2 ^ 15" using assms u unfolding p by linarith+
  then have "signed_take_bit 15 (uint x) = uint x" by (rule signed_take_bit_int_eq_self)
  moreover have "sint x = signed_take_bit 15 (uint x)" by (simp add: sint_uint)
  ultimately show ?thesis using u by linarith
qed

lemma sint_large:
  assumes "32768 \<le> unat (x :: u16)"
  shows "sint x < 0"
proof -
  have u: "uint x = int (unat x)" by (rule uint_nat)
  have "odd (uint x div 2 ^ 15)"
  proof -
    have one: "i div 32768 = 1" if "32768 \<le> i" "i < 65536" for i :: int using that by linarith
    have "uint x < 65536" using uint_bounded [of x] by simp
    moreover have "32768 \<le> uint x" using assms unfolding u by linarith
    ultimately have "uint x div 32768 = 1" by (intro one)
    then show ?thesis by simp
  qed
  then have "bit (uint x) 15" by (simp add: bit_iff_odd)
  then show ?thesis by (simp add: sint_uint signed_take_bit_negative_iff)
qed

lemma unat_small_add: "unat (x :: u16) + unat n < 65536 \<Longrightarrow> unat (x + n) = unat x + unat n"
  by (simp add: unat_add_lem [symmetric])

lemma cursor_down_stays:
  assumes "unat (mfsc_selection s) + unat n < 65536" and "mfsc_filecount s \<noteq> 0"
  shows "mfsc_selection (cursor_down n s) < mfsc_filecount s"
  using assms word_less_sub1 [of "mfsc_filecount s"] 
  by (auto simp: cursor_down_def Let_def not_le word_less_nat_alt unat_minus_one unat_gt_0)

lemma cursor_up_stays:
  assumes "mfsc_selection s < m" and "unat (mfsc_selection s) < 32768" and "unat n < 32768"
  shows "mfsc_selection (cursor_up n s) < m"
proof (cases "n \<le> mfsc_selection s")
  case True
  then have "unat (mfsc_selection s - n) = unat (mfsc_selection s) - unat n" by (simp add: unat_sub)
  then show ?thesis using assms(1) by (auto simp: cursor_up_def Let_def word_less_nat_alt)
next
  case False
  then have lt: "unat (mfsc_selection s) < unat n" by (simp add: word_le_nat_alt)
  have "unat (mfsc_selection s - n) = 65536 + unat (mfsc_selection s) - unat n"
    using lt by (simp add: unat_sub_if')
  then have "sint (mfsc_selection s - n) < 0" using assms(3) by (intro sint_large) simp
  then show ?thesis using assms(1) by (auto simp: cursor_up_def Let_def word_less_nat_alt)
qed

lemma move_selection_stays:
  assumes "mfsc_filecount s \<noteq> 0" and "mfsc_filecount s \<le> FILELIST_MAX" and "mfsc_selection s < mfsc_filecount s"
  shows "mfsc_selection (move_selection key s) < mfsc_filecount s"
    and "mfsc_filecount (move_selection key s) = mfsc_filecount s" and "mfsc_offset (move_selection key s) = mfsc_offset s"
proof -
  have sel: "unat (mfsc_selection s) < 1024"
    using assms(2,3) by (simp add: FILELIST_MAX_def word_le_nat_alt word_less_nat_alt)
  have down: "mfsc_selection (cursor_down n s) < mfsc_filecount s" if "unat n < 100" for n
    using sel that assms(1) by (intro cursor_down_stays) simp_all
  have up: "mfsc_selection (cursor_up n s) < mfsc_filecount s" if "unat n < 100" for n
    using sel that assms(3) by (intro cursor_up_stays) simp_all
  have "mfsc_filecount s - 1 < mfsc_filecount s" "0 < mfsc_filecount s"
    using assms(1) by (simp_all add: word_less_nat_alt unat_minus_one unat_gt_0)
  then show "mfsc_selection (move_selection key s) < mfsc_filecount s"
    using down [of 22] down [of 1] up [of 22] up [of 1] assms(3) by (simp add: move_selection_def)
qed (simp_all add: move_selection_def cursor_down_def cursor_up_def Let_def)

text \<open>C38: in a list that is not empty every key leaves the selection inside the list, and the list is scrolled so that the selection is visible.\<close>

theorem selection_stays:
  assumes "mfsc_filecount s \<noteq> 0" and "mfsc_filecount s \<le> FILELIST_MAX" and "mfsc_selection s < mfsc_filecount s"
    and "mfsc_offset s < mfsc_filecount s"
  shows "let s' = adjust_offset (move_selection key s) in mfsc_selection s' < mfsc_filecount s \<and>
    mfsc_offset s' \<le> mfsc_selection s' \<and> mfsc_selection s' \<le> mfsc_offset s' + 21"
proof -
  let ?t = "move_selection key s"
  define sel o1 n where "sel = mfsc_selection ?t" and "o1 = mfsc_offset ?t" and "n = mfsc_filecount ?t"
  note mv = move_selection_stays [OF assms(1-3), of key]
  have fc: "unat n \<le> 1024" "unat sel < unat n" "unat o1 < unat n"
    using assms mv unfolding sel_def o1_def n_def
    by (simp_all add: FILELIST_MAX_def word_le_nat_alt word_less_nat_alt)
  define p where "p = (if unat sel < unat o1 then sel else o1)"
  have p: "unat p \<le> unat sel" "unat p \<le> unat o1" by (simp_all add: p_def)
  define q where "q = (if unat sel > unat p + 21 then sel - 21 else p)"
  have q: "unat q \<le> unat sel" "unat sel \<le> unat q + 21" "unat q < unat n"
  proof -
    have "unat (sel - 21) = unat sel - 21" if "unat sel > unat p + 21"
      using that by (subst unat_sub) (simp_all add: word_le_nat_alt)
    then show "unat q \<le> unat sel" "unat sel \<le> unat q + 21" "unat q < unat n" using p fc by (auto simp: q_def)
  qed
  define w where "w = (if q > n - 21 then n - 21 else q)"
  have w: "unat w \<le> unat q" "unat sel \<le> unat w + 21" "unat w < 1024"
  proof -
    have "unat (n - 21) = unat n - 21 \<and> unat sel \<le> unat (n - 21) + 21" if "q > n - 21"
    proof (cases "21 \<le> unat n")
      case True
      then have "unat (n - 21) = unat n - 21" by (subst unat_sub) (simp_all add: word_le_nat_alt)
      then show ?thesis using fc by simp
    next
      case False
      then have "unat (n - 21) = 65536 + unat n - 21" by (simp add: unat_sub_if')
      then show ?thesis using that q(3) fc(1) False by (simp add: word_less_nat_alt)
    qed
    then show "unat w \<le> unat q" "unat sel \<le> unat w + 21" "unat w < 1024"
      using q fc by (auto simp: w_def word_less_nat_alt)
  qed
  have small: "sint sel = int (unat sel)" "sint o1 = int (unat o1)" "sint p = int (unat p)" "sint w = int (unat w)"
    using fc p w by (rule_tac [!] sint_small) linarith+
  have s1: "(sint sel < sint o1) = (unat sel < unat o1)" "(sint sel > sint p + 21) = (unat sel > unat p + 21)"
    "\<not> sint w < 0"
    unfolding small by linarith+
  have eq: "(if sint sel < sint o1 then sel else o1) = p" "(if sint sel > sint p + 21 then sel - 21 else p) = q"
    "(if q > n - 21 then n - 21 else q) = w" "(if sint w < 0 then 0 else w) = w"
    by (simp_all only: s1(1) p_def [symmetric], simp_all only: s1(2) q_def [symmetric], simp_all only: s1(3) w_def [symmetric] if_False)
  have "adjust_offset ?t = ?t\<lparr>mfsc_offset := w\<rparr>"
    by (simp only: adjust_offset_def Let_def sel_def [symmetric] o1_def [symmetric] n_def [symmetric] eq)
  moreover have "unat (w + 21) = unat w + 21" using w(3) by (subst unat_small_add) simp_all
  ultimately show ?thesis
    using fc w q mv by (simp add: sel_def [symmetric] n_def [symmetric] word_less_nat_alt word_le_nat_alt Let_def)
qed

text \<open>in an empty list the keys that go down or to the end select the entry in front of the list.\<close>

lemma empty_list_left:
  assumes "mfsc_filecount s = 0" and "mfsc_selection s = 0" and "key = 0x93 \<or> key = 0x1d \<or> key = 0x11"
  shows "inode_entry (mfsc_selection (move_selection key s)) = FILEINODE_ADDRESS - 8"
  using assms by (auto simp: move_selection_def cursor_down_def inode_entry_def Let_def)

section \<open>Slot 0\<close>

lemma next_key_waits: "next_key False ks = Some (k, ks') \<Longrightarrow> k \<noteq> 0 \<and> filter (\<lambda>k. k \<noteq> 0) ks = k # filter (\<lambda>k. k \<noteq> 0) ks'"
  by (induction ks) (auto split: if_splits)

lemma waited_key: "mhx_getkeycode False s = Some s1 \<Longrightarrow>
    mhx_lastkey s1 \<noteq> 0 \<and> filter (\<lambda>k. k \<noteq> 0) (keys s) = mhx_lastkey s1 # filter (\<lambda>k. k \<noteq> 0) (keys s1) \<and>
    selected_reflash_slot s1 = selected_reflash_slot s"
  by (auto simp: mhx_getkeycode_def dest!: next_key_waits split: Option.bind_splits)

lemma match_input_typed: "match_input cs s = Some (ok, s') \<Longrightarrow>
    selected_reflash_slot s' = selected_reflash_slot s \<and>
    (\<exists>pre. filter (\<lambda>k. k \<noteq> 0) (keys s) = pre @ filter (\<lambda>k. k \<noteq> 0) (keys s') \<and>
      (ok \<longrightarrow> pre = map (\<lambda>c. c AND 0x7f) cs))"
proof (induction cs arbitrary: s)
  case (Cons c cs)
  obtain s1 where s1: "mhx_getkeycode False s = Some s1" using Cons.prems by (auto split: Option.bind_splits)
  note k = waited_key [OF s1]
  show ?case
  proof (cases "mhx_lastkey s1 = c AND 0x7f")
    case True
    then have "match_input cs s1 = Some (ok, s')" using Cons.prems s1 by simp
    from Cons.IH [OF this] show ?thesis using k True by auto
  next
    case False
    then show ?thesis using Cons.prems s1 k by auto
  qed
qed simp

lemma cleared_keys: "\<exists>pre. filter (\<lambda>k. k \<noteq> 0) (keys s) = pre @ filter (\<lambda>k. k \<noteq> 0) (keys (mhx_clear_keybuffer s))"
proof -
  have "filter (\<lambda>k. k \<noteq> 0) ks = takeWhile (\<lambda>k. k \<noteq> 0) ks @ filter (\<lambda>k. k \<noteq> 0) (tl (dropWhile (\<lambda>k. k \<noteq> 0) ks))" for ks :: "u8 list"
    by (induction ks) auto
  from this [of "keys s"] show ?thesis
    by (intro exI [of _ "takeWhile (\<lambda>k. k \<noteq> 0) (keys s)"]) (simp add: mhx_clear_keybuffer_def)
qed

definition confirm_text :: "u8 list" where
  "confirm_text = ascii ''CONFIRM'' @ [0x0d]"

lemma confirm_codes: "confirm_text = [0x43, 0x4f, 0x4e, 0x46, 0x49, 0x52, 0x4d, 0x0d]"
  by (simp add: confirm_text_def ascii_def)

lemma check_input_typed:
  assumes "mhx_check_input confirm_text s = Some (ok, s')"
  shows "selected_reflash_slot s' = selected_reflash_slot s \<and> (\<exists>pre. filter (\<lambda>k. k \<noteq> 0) (keys s) = pre @
    (if ok then confirm_text else []) @ filter (\<lambda>k. k \<noteq> 0) (keys s'))"
proof -
  obtain pre where "filter (\<lambda>k. k \<noteq> 0) (keys s) = pre @ filter (\<lambda>k. k \<noteq> 0) (keys (mhx_clear_keybuffer s))"
    using cleared_keys by blast
  moreover have "match_input confirm_text (mhx_clear_keybuffer s) = Some (ok, s')"
    using assms by (simp add: mhx_check_input_def confirm_codes)
  from match_input_typed [OF this] obtain pre' where
    "selected_reflash_slot s' = selected_reflash_slot s"
    "filter (\<lambda>k. k \<noteq> 0) (keys (mhx_clear_keybuffer s)) = pre' @ filter (\<lambda>k. k \<noteq> 0) (keys s')"
    "ok \<longrightarrow> pre' = map (\<lambda>c. c AND 0x7f) confirm_text"
    by (auto simp: mhx_clear_keybuffer_def)
  moreover have "map (\<lambda>c. c AND 0x7f) confirm_text = confirm_text" by (simp add: confirm_codes)
  ultimately show ?thesis by (cases ok) auto
qed

lemma command_keeps: "qspi_command dev c a s = Some (e, s') \<Longrightarrow> \<exists>h. s' = with_hw h s"
  by (auto simp: qspi_command_def qspi_status_def await_def mf_poke_def mf_peek_def moved_intro split_beta
      split: Option.bind_splits)

lemma read_keeps: "qspi_flash_read dev a s = Some (e, s') \<Longrightarrow> \<exists>h d. s' = moved h d s"
  using command_keeps unfolding qspi_flash_read_def moved_intro(1)
  by (fastforce split: Option.bind_splits if_splits)

lemma header_keeps: "mfhf_read_core_header_from_flash dev n s = Some (e, s') \<Longrightarrow> \<exists>h d. s' = moved h d s"
  unfolding mfhf_read_core_header_from_flash_def using read_keeps moved_intro(4)
  by (fastforce split: if_splits)

text \<open>The parts of the state that a scan does not touch.\<close>

definition beside_scan :: "'d mf \<Rightarrow> 'd mf \<Rightarrow> bool" where
  "beside_scan s s' \<longleftrightarrow> selected_reflash_slot s' = selected_reflash_slot s \<and> keys s' = keys s \<and> shown s' = shown s \<and>
    mhx_lastkey s' = mhx_lastkey s \<and> mfu_slot_size s' = mfu_slot_size s \<and> slot_count s' = slot_count s \<and>
    mfhf_erase_block_size s' = mfhf_erase_block_size s \<and> mfu_slot_pagemask s' = mfu_slot_pagemask s \<and> far_mem s' = far_mem s"

lemma beside_scan_trans: "beside_scan s s' \<Longrightarrow> beside_scan s' s'' \<Longrightarrow> beside_scan s s''"
  by (simp add: beside_scan_def)

lemma beside_scan_moved: "beside_scan s (moved h d s)"
  by (simp add: beside_scan_def moved_def with_hw_def)

lemma beside_scan_put: "beside_scan s (put_slot n f s)"
  by (simp add: beside_scan_def put_slot_def)

lemma beside_scan_names: "beside_scan s (note_slot n (scan_names n d s))"
  by (simp add: beside_scan_def put_slot_def note_slot_def scan_names_def Let_def)

lemma scan_loop_keeps: "scan_loop dev f n slot q s = Some (q', s') \<Longrightarrow> beside_scan s s'"
proof (induction n arbitrary: slot q s)
  case 0
  then show ?case by (simp add: beside_scan_def)
next
  case (Suc n)
  obtain e s1 where rd: "mfhf_read_core_header_from_flash dev (of_nat slot) s = Some (e, s1)"
    using Suc.prems by (auto split: Option.bind_splits)
  obtain q2 s2 where st: "(if e \<noteq> 0 then (q, put_slot slot (\<lambda>c. c\<lparr>valid := SLOT_QSPIFAIL\<rparr>) s1)
       else scan_header f slot (data_buffer s1) q s1) = (q2, s2)" by fastforce
  have s1: "beside_scan s s1" using header_keeps [OF rd] by (metis beside_scan_moved)
  have s2: "beside_scan s1 s2"
    using st beside_scan_put by (auto simp: scan_header_def Let_def split: if_splits)
  let ?s3 = "if f \<noteq> 0 then s2 else note_slot slot (scan_names slot (data_buffer s2) s2)"
  have s3: "beside_scan s2 ?s3" using beside_scan_names by (auto simp: beside_scan_def)
  have "scan_loop dev f n (Suc slot) q2 ?s3 = Some (q', s')"
    using Suc.prems rd st by (simp add: Let_def)
  from Suc.IH [OF this] s1 s2 s3 show ?case by (metis beside_scan_trans)
qed

lemma scan_keeps:
  assumes "scan_core_information dev f s = Some (r, s')"
  shows "beside_scan s s'"
proof -
  let ?s = "s\<lparr>corecap_slots := replicate 4 0xff\<rparr>"
  obtain q s1 where loop: "scan_loop dev f (unat (slot_count ?s)) 0
      \<lparr>found = 0xff, default_slot = 0xff, flagmask = CORECAP_USED\<rparr> ?s = Some (q, s1)"
    using assms by (auto simp: scan_core_information_def Let_def split: Option.bind_splits)
  then have s': "s' = s1 \<or> (\<exists>h x. s' = (with_hw h s1)\<lparr>corecap_slots := x\<rparr>)"
    using assms by (auto simp: scan_core_information_def mf_peek_def Let_def split_beta split: if_splits)
  from scan_loop_keeps [OF loop] have "beside_scan s s1" by (simp add: beside_scan_def)
  moreover have "beside_scan s1 s'"
    using s' by (auto simp: beside_scan_def with_hw_def)
  ultimately show ?thesis by (rule beside_scan_trans)
qed

lemma until_stop_keeps: "until_stop s = Some s' \<Longrightarrow> selected_reflash_slot s' = selected_reflash_slot s"
proof (rule until_stop.raw_induct [of "\<lambda>s s'. selected_reflash_slot s' = selected_reflash_slot s"], goal_cases)
  case (1 f s s')
  then show ?case using waited_key by (fastforce split: Option.bind_splits if_splits)
qed

lemma display_version_keeps: "display_version dev s = Some s' \<Longrightarrow> selected_reflash_slot s' = selected_reflash_slot s"
  unfolding display_version_def
  by (auto simp: check_cartridge_def Let_def dest!: scan_keeps until_stop_keeps split: Option.bind_splits)
    (auto simp: beside_scan_def)

lemma confirmed_typed:
  assumes "confirm_slot0_flash s = Some (True, s')"
  shows "\<exists>pre post. filter (\<lambda>k. k \<noteq> 0) (keys s) = pre @ confirm_text @ post"
proof (cases "take 9 (core_name (slot_at 1 s)) \<noteq> screen_string ''MEGA65   ''")
  case True
  obtain s1 where "mhx_check_input confirm_text s = Some (True, s1)"
    using assms True by (auto simp: confirm_slot0_flash_def confirm_text_def split: Option.bind_splits if_splits)
  from check_input_typed [OF this] show ?thesis by auto
next
  case False
  then have "mhx_check_input confirm_text s = Some (True, s')"
    using assms by (simp add: confirm_slot0_flash_def confirm_text_def)
  from check_input_typed [OF this] show ?thesis by auto
qed

lemma confirm_keeps: "confirm_slot0_flash s = Some (ok, s') \<Longrightarrow> selected_reflash_slot s' = selected_reflash_slot s"
  unfolding confirm_slot0_flash_def confirm_text_def [symmetric]
  by (auto dest!: check_input_typed split: Option.bind_splits if_splits)

lemma ctrl_slot_pos: "ctrl_slot key \<noteq> 0"
  by (simp add: ctrl_slot_def)

text \<open>C11: the menu selects slot 0 for flashing only when the key for it was pressed and the keys after it contain the text that is asked for.\<close>

theorem slot0_only_confirmed:
  assumes "menu_key dev key md selected (s\<lparr>selected_reflash_slot := 0xff\<rparr>) = Some ((l, selected'), s')"
    and "selected_reflash_slot s' = 0"
  shows "key = 0x7e \<and> (\<exists>pre post. filter (\<lambda>k. k \<noteq> 0) (keys s) = pre @ confirm_text @ post)"
proof (cases "key = 0x7e")
  case True
  then obtain ok s1 where "confirm_slot0_flash (s\<lparr>selected_reflash_slot := 0xff\<rparr>) = Some (ok, s1)"
    "s' = (if ok then s1\<lparr>selected_reflash_slot := 0\<rparr> else s1)"
    using assms(1) by (auto simp: menu_key_def split: Option.bind_splits)
  with True assms(2) show ?thesis using confirmed_typed confirm_keeps by (cases ok) fastforce+
next
  case False
  then show ?thesis
    using assms ctrl_slot_pos [of key]
    by (auto simp: menu_key_def perhaps_reconfig_def mhx_clear_keybuffer_def Let_def split: if_splits Option.bind_splits
        dest!: display_version_keeps)
qed

section \<open>Booting\<close>

text \<open>Reading a flash that works reports no error.\<close>

definition flash_reads :: "'d mf_device \<Rightarrow> ('d \<Rightarrow> bool) \<Rightarrow> bool" where
  "flash_reads dev ready \<longleftrightarrow> (\<forall>h a ok h'. ready h \<longrightarrow> answers dev 0x61 a h ok h' \<longrightarrow> ok)"

lemma answers_unique: "answers dev c a h ok h' \<Longrightarrow> answers dev c a h ok' h'' \<Longrightarrow> ok = ok' \<and> h' = h''"
  by (auto simp: answers_def)

lemma flash_read_works:
  assumes "flash_serves dev ready mem" and "flash_reads dev ready" and "ready (hwstate s)"
  obtains h where "qspi_flash_read dev a s = Some (0, moved h (map (\<lambda>i. mem (hwstate s) (unat a + i)) [0..<512]) s)"
    and "ready h" and "mem h = mem (hwstate s)"
proof -
  obtain ok h' where ans: "answers dev 0x61 a (hwstate s) ok h'" and h': "ready h'" "mem h' = mem (hwstate s)"
    and out: "ok \<longrightarrow> (\<forall>i<512. qspi_out dev h' i = mem (hwstate s) (unat a + i))"
    using assms(1,3) unfolding flash_serves_def by meson
  have ok: ok using assms(2,3) ans unfolding flash_reads_def by blast
  obtain e where e: "qspi_command dev 0x61 a s = Some (e, moved h' (data_buffer s) s)" "e = 0 \<longleftrightarrow> ok"
    using ans by (rule qspi_command_answers)
  then have "qspi_flash_read dev a s = Some (0, moved h' (map (qspi_out dev h') [0..<512]) s)"
    using ok by (simp add: qspi_flash_read_def)
  moreover have "map (qspi_out dev h') [0..<512] = map (\<lambda>i. mem (hwstate s) (unat a + i)) [0..<512]"
    using out ok by simp
  ultimately show thesis using h' by (intro that [of h']) simp_all
qed

text \<open>The first sector of the slot \<open>k\<close>, and whether it starts with a core that has one of the flags \<open>f\<close>.\<close>

definition slot_header :: "(nat \<Rightarrow> u8) \<Rightarrow> u32 \<Rightarrow> nat \<Rightarrow> u8 list" where
  "slot_header M S k = map (\<lambda>i. M (k * unat S + i)) [0..<512]"

definition holds_core :: "u8 list \<Rightarrow> bool" where
  "holds_core d \<longleftrightarrow> map ((!) d) [0..<16] = mfsc_bitstream_magic"

definition offers :: "u8 \<Rightarrow> u8 list \<Rightarrow> bool" where
  "offers f d \<longleftrightarrow> holds_core d \<and> d ! 0x7c AND f \<noteq> 0"

definition first_slot :: "(nat \<Rightarrow> bool) \<Rightarrow> nat \<Rightarrow> nat \<Rightarrow> u8" where
  "first_slot P k n = (case find P [k..<k + n] of None \<Rightarrow> 0xff | Some j \<Rightarrow> of_nat j)"

lemma first_slot_simps:
  "first_slot P k 0 = 0xff"
  "first_slot P k (Suc n) = (if P k then of_nat k else first_slot P (Suc k) n)"
  by (simp_all add: first_slot_def upt_conv_Cons del: upt_Suc)

lemma mask_left:
  assumes "m AND f = (f :: u8)" and "r AND f = 0"
  shows "(m XOR (r AND m)) AND f = f"
proof -
  have "(r AND m) AND f = r AND (m AND f)" by (simp add: and.assoc)
  then have "(r AND m) AND f = 0" using assms by simp
  then show ?thesis using assms(1) by (simp add: bit.conj_xor_distrib2)
qed

lemma mask_seen: "m AND f = (f :: u8) \<Longrightarrow> (r AND m) AND f = r AND f"
  by (simp add: and.assoc)

lemma slot_not_ff: "k < 8 \<Longrightarrow> (of_nat k :: u8) \<noteq> 0xff"
  by (auto simp: word_eq_iff_unsigned unat_of_nat simp flip: unat_eq_nat_uint dest!: arg_cong [where f = unat])

lemma scan_header_finds:
  assumes "f \<noteq> 0" and k: "k < MAX_SLOTS" and "length (slot_core s) = MAX_SLOTS"
    and "found q = 0xff \<longrightarrow> flagmask q AND f = f"
    and "default_slot q = 0xff \<longrightarrow> flagmask q AND CORECAP_SLOT_DEFAULT = CORECAP_SLOT_DEFAULT"
  obtains q' c where "scan_header f k d q s = (q', s\<lparr>slot_core := (slot_core s)[k := c]\<rparr>)"
    and "holds_core d \<longleftrightarrow> valid c = SLOT_VALID"
    and "found q' = (if found q = 0xff \<and> offers f d then of_nat k else found q)"
    and "default_slot q' = (if default_slot q = 0xff \<and> offers CORECAP_SLOT_DEFAULT d then of_nat k else default_slot q)"
    and "found q' = 0xff \<longrightarrow> flagmask q' AND f = f"
    and "default_slot q' = 0xff \<longrightarrow> flagmask q' AND CORECAP_SLOT_DEFAULT = CORECAP_SLOT_DEFAULT"
proof -
  have ff: "(of_nat k :: u8) \<noteq> 0xff" using k by (intro slot_not_ff) (simp add: MAX_SLOTS_def)
  show thesis
  proof (cases "holds_core d")
    case True
    let ?f = "d ! 0x7c AND flagmask q"
    have "scan_header f k d q s = (q\<lparr>flagmask := flagmask q XOR ?f,
        found := (if found q = 0xff \<and> ?f AND f \<noteq> 0 then of_nat k else found q),
        default_slot := (if default_slot q = 0xff \<and> ?f AND CORECAP_SLOT_DEFAULT \<noteq> 0 then of_nat k else default_slot q)\<rparr>,
      s\<lparr>slot_core := (slot_core s)[k := (slot_core s ! k)\<lparr>valid := SLOT_VALID, capabilities := d ! 0x7b AND CORECAP_USED,
          real_flags := d ! 0x7c, flags := ?f\<rparr>]\<rparr>)"
      using True assms(1) k by (simp add: scan_header_def holds_core_def Let_def put_slot_def)
    then show ?thesis
    proof (rule that, goal_cases)
      case 4
      show ?case using assms(4) ff by (auto intro: mask_left simp: mask_seen)
    next
      case 5
      show ?case using assms(5) ff by (auto intro: mask_left simp: mask_seen)
    qed (use True assms(4,5) in \<open>auto simp: offers_def mask_seen\<close>)
  next
    case False
    define v where "v = (if list_all (\<lambda>b. b = 0xff) (take 512 d) then SLOT_EMPTY else SLOT_INVALID)"
    have "scan_header f k d q s = (q, s\<lparr>slot_core := (slot_core s)[k := (slot_core s ! k)\<lparr>valid := v,
        capabilities := 0, flags := 0\<rparr>]\<rparr>)"
      using False k by (simp add: scan_header_def holds_core_def put_slot_def v_def)
    then show ?thesis
      by (rule that) (use False assms(4,5) in \<open>auto simp: offers_def v_def SLOT_VALID_def SLOT_EMPTY_def SLOT_INVALID_def\<close>)
  qed
qed

lemma scan_loop_finds:
  assumes dev: "flash_serves dev ready mem" "flash_reads dev ready" and "ready (hwstate s)" and "f \<noteq> 0"
    and "slot + n \<le> unat (slot_count s)" and "unat (slot_count s) \<le> MAX_SLOTS" and "length (slot_core s) = MAX_SLOTS"
    and "MAX_SLOTS * unat (mfu_slot_size s) < 2 ^ 32"
    and "found q = 0xff \<longrightarrow> flagmask q AND f = f"
    and "default_slot q = 0xff \<longrightarrow> flagmask q AND CORECAP_SLOT_DEFAULT = CORECAP_SLOT_DEFAULT"
  shows "\<exists>q' s'. scan_loop dev f n slot q s = Some (q', s') \<and> ready (hwstate s') \<and> mem (hwstate s') = mem (hwstate s) \<and>
    mfu_slot_size s' = mfu_slot_size s \<and> (\<forall>k < slot. slot_core s' ! k = slot_core s ! k) \<and>
    (\<forall>k. slot \<le> k \<and> k < slot + n \<longrightarrow>
      (valid (slot_core s' ! k) = SLOT_VALID) = holds_core (slot_header (mem (hwstate s)) (mfu_slot_size s) k)) \<and>
    found q' = (if found q = 0xff
      then first_slot (\<lambda>k. offers f (slot_header (mem (hwstate s)) (mfu_slot_size s) k)) slot n else found q) \<and>
    default_slot q' = (if default_slot q = 0xff
      then first_slot (\<lambda>k. offers CORECAP_SLOT_DEFAULT (slot_header (mem (hwstate s)) (mfu_slot_size s) k)) slot n
      else default_slot q)"
  using assms(3-)
proof (induction n arbitrary: slot q s)
  case 0
  then show ?case by (auto simp: first_slot_simps)
next
  case (Suc n)
  let ?H = "slot_header (mem (hwstate s)) (mfu_slot_size s)"
  have sl: "slot < MAX_SLOTS" "slot < unat (slot_count s)" using Suc.prems by simp_all
  then have s8: "slot < 256" by (simp add: MAX_SLOTS_def)
  have at: "unat (ucast (of_nat slot :: u8) * mfu_slot_size s) = slot * unat (mfu_slot_size s)"
  proof -
    have "slot * unat (mfu_slot_size s) \<le> MAX_SLOTS * unat (mfu_slot_size s)" using sl by simp
    then have "slot * unat (mfu_slot_size s) < 2 ^ 32" using Suc.prems(6) by linarith
    moreover have "unat (ucast (of_nat slot :: u8) :: u32) = slot" using s8 by (simp add: unsigned_of_nat take_bit_nat_eq_self)
    ultimately show ?thesis by (simp add: unat_mult_lem [THEN iffD1])
  qed
  obtain h where rd: "qspi_flash_read dev (ucast (of_nat slot :: u8) * mfu_slot_size s) s =
      Some (0, moved h (?H slot) s)" "ready h" "mem h = mem (hwstate s)"
    using flash_read_works [OF dev Suc.prems(1), of "ucast (of_nat slot :: u8) * mfu_slot_size s"]
    unfolding at slot_header_def by metis
  have "\<not> slot_count s \<le> of_nat slot" using sl s8 by (simp add: word_le_nat_alt unat_of_nat)
  then have hd: "mfhf_read_core_header_from_flash dev (of_nat slot) s = Some (0, moved h (?H slot) s)"
    using rd(1) by (simp add: mfhf_read_core_header_from_flash_def)
  let ?t = "moved h (?H slot) s"
  have t: "slot_core ?t = slot_core s" "slot_count ?t = slot_count s" by (simp_all add: moved_def with_hw_def)
  obtain q1 c where sh: "scan_header f slot (?H slot) q ?t = (q1, ?t\<lparr>slot_core := (slot_core ?t)[slot := c]\<rparr>)"
    and c: "holds_core (?H slot) \<longleftrightarrow> valid c = SLOT_VALID"
    and q1: "found q1 = (if found q = 0xff \<and> offers f (?H slot) then of_nat slot else found q)"
      "default_slot q1 = (if default_slot q = 0xff \<and> offers CORECAP_SLOT_DEFAULT (?H slot) then of_nat slot else default_slot q)"
      "found q1 = 0xff \<longrightarrow> flagmask q1 AND f = f"
      "default_slot q1 = 0xff \<longrightarrow> flagmask q1 AND CORECAP_SLOT_DEFAULT = CORECAP_SLOT_DEFAULT"
    using scan_header_finds [of f slot ?t q "?H slot"] Suc.prems sl t by auto
  let ?u = "?t\<lparr>slot_core := (slot_core ?t)[slot := c]\<rparr>"
  have u: "hwstate ?u = h" "mfu_slot_size ?u = mfu_slot_size s" "slot_count ?u = slot_count s"
    "slot_core ?u = (slot_core s)[slot := c]"
    by (simp_all add: moved_def with_hw_def hwstate_def)
  obtain q' s' where rest: "scan_loop dev f n (Suc slot) q1 ?u = Some (q', s')" and
    r: "ready (hwstate s')" "mem (hwstate s') = mem (hwstate s)" "mfu_slot_size s' = mfu_slot_size s"
      "\<forall>k<Suc slot. slot_core s' ! k = (slot_core s)[slot := c] ! k"
      "\<forall>k. Suc slot \<le> k \<and> k < Suc slot + n \<longrightarrow> (valid (slot_core s' ! k) = SLOT_VALID) = holds_core (?H k)"
      "found q' = (if found q1 = 0xff then first_slot (\<lambda>k. offers f (?H k)) (Suc slot) n else found q1)"
      "default_slot q' = (if default_slot q1 = 0xff
        then first_slot (\<lambda>k. offers CORECAP_SLOT_DEFAULT (?H k)) (Suc slot) n else default_slot q1)"
    using Suc.IH [of ?u "Suc slot" q1] Suc.prems rd q1(3,4) by (auto simp: u)
  have ff: "(of_nat slot :: u8) \<noteq> 0xff" using sl by (intro slot_not_ff) (simp add: MAX_SLOTS_def)
  have "scan_loop dev f (Suc n) slot q s = Some (q', s')"
    using hd sh rest Suc.prems(2) by simp
  moreover have "(valid (slot_core s' ! k) = SLOT_VALID) = holds_core (?H k)" if "slot \<le> k" "k < slot + Suc n" for k
    using that r(4,5) c Suc.prems(5) sl by (cases "k = slot") auto
  ultimately show ?case
    using r q1(1,2) ff by (intro exI [of _ q'] exI [of _ s'] conjI) (auto simp: first_slot_simps)
qed


text \<open>The slot that is started: the first with the flags, or else the first with the default flag.\<close>

definition boots :: "u8 \<Rightarrow> (nat \<Rightarrow> u8 list) \<Rightarrow> nat \<Rightarrow> nat option" where
  "boots f H n = (case find (\<lambda>k. offers f (H k)) [0..<n] of Some k \<Rightarrow> Some k
     | None \<Rightarrow> find (\<lambda>k. offers CORECAP_SLOT_DEFAULT (H k)) [0..<n])"

lemma boots_core: "boots f H n = Some k \<Longrightarrow> k < n \<and> holds_core (H k)"
  by (auto simp: boots_def offers_def find_Some_iff split: option.splits)

lemma boots_first_slot:
  assumes "n \<le> MAX_SLOTS" and "boots f H n = Some k"
  shows "(let a = first_slot (\<lambda>k. offers f (H k)) 0 n; d = first_slot (\<lambda>k. offers CORECAP_SLOT_DEFAULT (H k)) 0 n
    in if a \<noteq> 0xff then a else d) = of_nat k" and "(of_nat k :: u8) \<noteq> 0xff"
proof -
  have ff: "(of_nat j :: u8) \<noteq> 0xff" if "find P [0..<n] = Some j" for P and j :: nat
    using that assms(1) by (intro slot_not_ff) (auto simp: find_Some_iff MAX_SLOTS_def)
  show "(let a = first_slot (\<lambda>k. offers f (H k)) 0 n; d = first_slot (\<lambda>k. offers CORECAP_SLOT_DEFAULT (H k)) 0 n
      in if a \<noteq> 0xff then a else d) = of_nat k" "(of_nat k :: u8) \<noteq> 0xff"
    using assms(2) ff by (auto simp: boots_def first_slot_def Let_def split: option.splits)
qed

lemma cartridge_kinds:
  "fst (check_cartridge s) \<noteq> 0" "CORECAP_USED AND fst (check_cartridge s) = fst (check_cartridge s)"
  "\<exists>c. snd (check_cartridge s) = s\<lparr>cart_id := c\<rparr>"
  by (simp_all add: check_cartridge_def Let_def CORECAP_USED_def CORECAP_CART_M65_def CORECAP_CART_C64_def
      CORECAP_CART_C128_def CORECAP_SLOT_DEFAULT_def) blast

lemma scan_picks:
  assumes dev: "flash_serves dev ready mem" "flash_reads dev ready" and "ready (hwstate s)" 
    and f: "f \<noteq> 0" "CORECAP_USED AND f = f"
    and "unat (slot_count s) \<le> MAX_SLOTS" and "length (slot_core s) = MAX_SLOTS"
    and "MAX_SLOTS * unat (mfu_slot_size s) < 2 ^ 32"
    and k: "boots f (slot_header (mem (hwstate s)) (mfu_slot_size s)) (unat (slot_count s)) = Some k"
  shows "\<exists>s'. scan_core_information dev f s = Some (of_nat k, s') \<and> valid (slot_at k s') = SLOT_VALID \<and>
    mfu_slot_size s' = mfu_slot_size s"
proof -
  let ?H = "slot_header (mem (hwstate s)) (mfu_slot_size s)" and ?n = "unat (slot_count s)"
  let ?s = "s\<lparr>corecap_slots := replicate 4 0xff\<rparr>" and ?q = "\<lparr>found = 0xff, default_slot = 0xff, flagmask = CORECAP_USED\<rparr>"
  have s: "hwstate ?s = hwstate s" by (simp add: hwstate_def)
  have dm: "CORECAP_USED AND CORECAP_SLOT_DEFAULT = CORECAP_SLOT_DEFAULT"
    by (simp add: CORECAP_USED_def CORECAP_SLOT_DEFAULT_def)
  obtain q s1 where loop: "scan_loop dev f ?n 0 ?q ?s = Some (q, s1)"
    and s1: "mfu_slot_size s1 = mfu_slot_size s"
      "\<forall>j < ?n. (valid (slot_core s1 ! j) = SLOT_VALID) = holds_core (?H j)"
    and q: "found q = first_slot (\<lambda>k. offers f (?H k)) 0 ?n"
      "default_slot q = first_slot (\<lambda>k. offers CORECAP_SLOT_DEFAULT (?H k)) 0 ?n"
    using scan_loop_finds [OF dev, of ?s f 0 ?n ?q] assms(3-8) dm by (auto simp: s)
  note b = boots_first_slot [OF assms(6) k, folded q, unfolded Let_def]
  obtain s' where s': "scan_core_information dev f s = Some (of_nat k, s')" "slot_core s' = slot_core s1"
    "mfu_slot_size s' = mfu_slot_size s1"
    using loop b by (auto simp: scan_core_information_def mf_peek_def with_hw_def split_beta Let_def split: if_splits)
  moreover have "valid (slot_core s1 ! k) = SLOT_VALID" using s1(2) boots_core [OF k] by blast
  ultimately show ?thesis using s1(1) by (auto simp: slot_at_def)
qed

text \<open>C10: with a flash whose slots can be read the tool starts the first slot with a core whose boot flags name the cartridge that is inserted, or else the first with the default flag, 4096 bytes behind its beginning.\<close>

theorem boot_core_choice:
  assumes "flash_serves dev ready mem" and "flash_reads dev ready" and "ready (hwstate s)" 
    and "unat (slot_count s) \<le> MAX_SLOTS" and "length (slot_core s) = MAX_SLOTS"
    and "MAX_SLOTS * unat (mfu_slot_size s) < 2 ^ 32"
    and k: "boots (fst (check_cartridge s)) (slot_header (mem (hwstate s)) (mfu_slot_size s)) (unat (slot_count s)) = Some k"
  shows "\<exists>s'. boot_core dev s = Some (Some (Reconfig (mfu_slot_size s * of_nat k + 4096)), s')"
proof -
  obtain c where c: "snd (check_cartridge s) = s\<lparr>cart_id := c\<rparr>" using cartridge_kinds(3) by blast
  have h: "hwstate (s\<lparr>cart_id := c\<rparr>) = hwstate s" by (simp add: hwstate_def)
  have k8: "k < 8" using boots_core [OF k] assms(4) by (simp add: MAX_SLOTS_def)
  obtain s' where "scan_core_information dev (fst (check_cartridge s)) (s\<lparr>cart_id := c\<rparr>) = Some (of_nat k, s')"
    "valid (slot_at k s') = SLOT_VALID" "mfu_slot_size s' = mfu_slot_size s"
    using scan_picks [of dev ready mem "s\<lparr>cart_id := c\<rparr>" "fst (check_cartridge s)" k] assms cartridge_kinds(1,2) [of s]
    by (auto simp: h)
  moreover have "unat (of_nat k :: u8) = k" "ucast (of_nat k :: u8) = (of_nat k :: u32)"
    using k8 by (simp_all add: unat_of_nat unsigned_of_nat take_bit_nat_eq_self)
  ultimately show ?thesis using c by (simp add: boot_core_def split_beta)
qed

section \<open>Examples\<close>

text \<open>A card where every sector is the header of a core for model 2 with all boot flags.\<close>

definition core_disk :: "u32 \<Rightarrow> nat \<Rightarrow> u8" where
  "core_disk a i = (if i < 16 then mfsc_bitstream_magic ! i else if i = 0x70 then 2 else if i = 0x7c then 0x87 else 0)"

definition chooser_mf :: "u8 list \<Rightarrow> chip mf" where
  "chooser_mf ks = sample_mf\<lparr>keys := ks, far_mem := (\<lambda>a. if a = 0x40000 then 5 else 0), mfsc_filecount := 1\<rparr>"

lemma chooser_ready: "card_ready (ideal_chip core_disk) (\<lambda>_. True) addr_reg core_disk (chooser_mf ks)"
  by (simp add: card_ready_def ideal_chip_card on_card_def chooser_mf_def sample_mf_def sd_masks)

lemma chooser_file: "far_long (far_mem (chooser_mf ks)) (inode_entry (mfsc_selection (chooser_mf ks))) = 5"
  by (simp add: chooser_mf_def sample_mf_def inode_entry_def far_long_def far_read_def FILEINODE_ADDRESS_def le32_in_def
      le32_def upt_rec)

lemma core_disk_header: "acceptable False 2 0x400000 (map (core_disk a) [0..<512])"
  unfolding acceptable_def
proof (intro conjI)
  show "map ((!) (map (core_disk a) [0..<512])) [0..<16] = mfsc_bitstream_magic"
    by (rule nth_equalityI) (simp_all add: core_disk_def mfsc_bitstream_magic_def)
qed (simp_all add: core_disk_def le32_in_def le32_def MFSC_COREHDR_LENGTH_def)

lemma chooser_fields:
  "keys (chooser_mf ks) = ks" "hw_model_id (chooser_mf ks) = 2" "mfu_slot_size (chooser_mf ks) = 0x400000"
  by (simp_all add: chooser_mf_def sample_mf_def)

lemma preview_changes_flags_witness:
  "\<exists>s'. select_loop (ideal_chip core_disk) 0 0 1 149 0 (chooser_mf [0, 0x1b]) = Some (MFSC_FILE_INVALID, s') \<and>
    mfsc_corehdr_bootflags s' = 0x87"
proof -
  have "map (core_disk a) [0..<512] ! 0x7c = 0x87" for a by (simp add: core_disk_def)
  then show ?thesis
    using preview_changes_flags [OF chooser_ready, of "[0, 0x1b]" "[]" 5 _ 1 0 0 0] core_disk_header
    by (simp add: chooser_fields chooser_file)
qed

lemma chosen_core_accepted_witness:
  "\<exists>s'. select_loop (ideal_chip core_disk) 0 0 1 0 0 (chooser_mf [0x0d]) = Some (MFSC_FILE_VALID, s') \<and>
    (\<exists>c. header_read (card (ideal_chip core_disk)) (mfsc_corefile_inode s') c (sdc s')) \<and>
    acceptable False (hw_model_id s') (mfu_slot_size s') (the_buffer s') \<and> header_taken (the_buffer s') s'"
proof -
  let ?s = "(chooser_mf [])\<lparr>mhx_lastkey := 0x0d, mfsc_corefile_inode := 5, mfsc_corefile_size := 0\<rparr>"
  have "card_ready (ideal_chip core_disk) (\<lambda>_. True) addr_reg core_disk ?s"
    using chooser_ready [of "[]"] by (simp add: card_ready_def)
  then obtain c s1 where "mfsc_checkcore (ideal_chip core_disk) False ?s = (c, s1)"
    and "c = 0 \<longleftrightarrow> acceptable False (hw_model_id ?s) (mfu_slot_size ?s)
      (map (core_disk (cluster_sector (sdc ?s) (mfsc_corefile_inode ?s))) [0..<512])"
    by (rule checkcore_on_card [where rm = False]) simp_all
  then have cc: "mfsc_checkcore (ideal_chip core_disk) False ?s = (0, s1)" by (simp add: chooser_fields core_disk_header)
  have key: "mhx_getkeycode True (chooser_mf [0x0d]) = Some ((chooser_mf [])\<lparr>mhx_lastkey := 0x0d\<rparr>)"
    by (simp add: mhx_getkeycode_def chooser_mf_def)
  have size: "far_long (far_mem (chooser_mf [])) (inode_entry (mfsc_selection (chooser_mf [])) + 4) = 0"
    by (simp add: chooser_mf_def sample_mf_def inode_entry_def far_long_def far_read_def FILEINODE_ADDRESS_def le32_in_def
        le32_def upt_rec)
  have "mfsc_corefile_inode s1 \<noteq> 0" using checkcore_accepts [OF cc] by simp
  then have "select_loop (ideal_chip core_disk) 0 0 1 0 0 (chooser_mf [0x0d]) = Some (MFSC_FILE_VALID, s1)"
    by (subst select_loop.simps) (simp add: key cc chooser_file size Let_def)
  from this chosen_core_accepted [OF this] show ?thesis by (auto simp: Let_def)
qed

text \<open>A list of three files.\<close>

lemma selection_stays_witness:
  "let s' = adjust_offset (move_selection 0x1d (sample_mf\<lparr>mfsc_filecount := 3, mfsc_selection := 1\<rparr>))
   in mfsc_selection s' < 3 \<and> mfsc_offset s' \<le> mfsc_selection s' \<and> mfsc_selection s' \<le> mfsc_offset s' + 21"
  using selection_stays [where s = "sample_mf\<lparr>mfsc_filecount := 3, mfsc_selection := 1\<rparr>" and key = "0x1d"]
  by (simp add: sample_mf_def FILELIST_MAX_def)

text \<open>Slot 0 with the text typed.\<close>

definition blank_slot :: slot_core where
  "blank_slot = \<lparr>core_name = screen_string ''MEGA65   '', core_version = [], capabilities = 0, flags = 0,
    real_flags = 0, valid = SLOT_EMPTY, core_length = 0\<rparr>"

lemma slot0_only_confirmed_witness:
  "\<exists>s'. menu_key (ideal_chip no_disk) 0x7e 0 0 (sample_mf\<lparr>slot_core := replicate 8 blank_slot, keys := 0 # confirm_text,
      selected_reflash_slot := 0xff\<rparr>) = Some ((None, 0), s') \<and> selected_reflash_slot s' = 0 \<and>
    (\<exists>pre post. filter (\<lambda>k. k \<noteq> 0) (0 # confirm_text) = pre @ confirm_text @ post)"
proof -
  let ?s = "sample_mf\<lparr>slot_core := replicate 8 blank_slot, keys := 0 # confirm_text\<rparr>"
  obtain s' where "menu_key (ideal_chip no_disk) 0x7e 0 0 (?s\<lparr>selected_reflash_slot := 0xff\<rparr>) = Some ((None, 0), s')"
    "selected_reflash_slot s' = 0"
    by (simp add: menu_key_def confirm_slot0_flash_def slot_at_def blank_slot_def confirm_text_def [symmetric]
        mhx_check_input_def mhx_clear_keybuffer_def confirm_codes mhx_getkeycode_def sample_mf_def screen_string_def ascii_def
        mhx_ascii2screen_def)
  from this slot0_only_confirmed [OF this] show ?thesis by (auto simp: sample_mf_def)
qed

text \<open>A flash with the default core in slot 1.\<close>

definition boot_chip :: chip where
  "boot_chip = sample_chip\<lparr>flash_mem := (\<lambda>x. if 0x400000 \<le> x \<and> x < 0x400010 then mfsc_bitstream_magic ! (x - 0x400000)
    else if x = 0x40007c then 0x80 else 0)\<rparr>"

definition boot_mf :: "chip mf" where
  "boot_mf = (with_hw boot_chip sample_mf)\<lparr>slot_core := replicate 8 blank_slot\<rparr>"

lemma ideal_chip_reads: "flash_reads (ideal_chip disk) (\<lambda>_. True)"
  by (auto simp: flash_reads_def chip_answers chip_issue chip_command_def Let_def)

lemma boot_mf_slot: "boots (fst (check_cartridge boot_mf)) (slot_header (flash_mem boot_chip) 0x400000) 4 = Some 1"
proof -
  let ?H = "slot_header (flash_mem boot_chip) 0x400000"
  have cart: "fst (check_cartridge boot_mf) = CORECAP_SLOT_DEFAULT"
    by (simp add: check_cartridge_def boot_mf_def sample_mf_def with_hw_def far_read_def cart_m65_magic_def
        cart_c64_magic_def cart_c128_magic_def upt_rec)
  have "map ((!) (?H 1)) [0..<16] = mfsc_bitstream_magic"
    by (rule nth_equalityI) (simp_all add: slot_header_def boot_chip_def mfsc_bitstream_magic_def)
  then have one: "offers CORECAP_SLOT_DEFAULT (?H 1)"
    by (simp add: offers_def holds_core_def slot_header_def boot_chip_def CORECAP_SLOT_DEFAULT_def)
  have "?H 0 ! 0 = 0" by (simp add: slot_header_def boot_chip_def sample_chip_def)
  then have zero: "\<not> offers CORECAP_SLOT_DEFAULT (?H 0)"
    by (auto simp: offers_def holds_core_def mfsc_bitstream_magic_def upt_rec)
  have "[0..<4] = [0, 1, 2, 3 :: nat]" by (simp add: upt_rec)
  then show ?thesis using zero one by (simp add: boots_def cart)
qed

lemma boot_core_choice_witness:
  "\<exists>s'. boot_core (ideal_chip no_disk) boot_mf = Some (Some (Reconfig (0x400000 * 1 + 4096)), s')"
proof -
  have f: "hwstate boot_mf = boot_chip" "mfu_slot_size boot_mf = 0x400000" "slot_count boot_mf = 4"
    "length (slot_core boot_mf) = 8"
    by (simp_all add: boot_mf_def hwstate_def with_hw_def sample_mf_def)
  show ?thesis
    using boot_core_choice [OF ideal_chip_serves ideal_chip_reads TrueI, of boot_mf 1 no_disk] boot_mf_slot
    by (simp add: f MAX_SLOTS_def)
qed

end
