(* ===== verification/Spec2Isabelle.thy ===== *)
theory Spec2Isabelle
  imports Banking DmaLaws CpuLaws Stack Opcodes RunLaws BenchLaws ListingLaws
    RlepackLaws DirectoryLaws ScriptLaws ScreenLaws MenuLaws
begin

text \<open>
  A verification development for the C code of the MEGA65 core repository: the hypervisor test
  bench \<open>src/tools/hyppotest.c\<close>, which runs scripts that test 45GS02 machine code, the tileset
  packer \<open>src/tools/pngprepare/rlepack.c\<close>, and the flash tool \<open>src/utilities/megaflash/\<close>, which
  chooses the core that the machine starts, and writes core files from an SD card to the slots of
  the flash chip.

  \<^bold>\<open>The test bench.\<close> \<open>main\<close> reads a script line by line; a directive loads files and symbols,
  calls routines, sets expectations or compares, and \<open>test end\<close> gives the verdict. A call
  (\<open>cpu_call_routine\<close>) remembers the memory as expected, resets the instruction log and runs
  (\<open>cpu_run\<close>) steps (\<open>cpu_step\<close>) until a termination condition holds. A step appends an entry
  to the log and executes one instruction (\<open>execute_instruction\<close>), which reads and writes
  through the memory map (\<open>addr_to_28bit\<close>, \<open>read_memory28\<close>, \<open>write_mem28\<close>). A write to the DMA
  registers runs a list of jobs (\<open>do_dma\<close>), which itself writes through \<open>write_mem28\<close>. Every
  write records the number of its instruction, and the listings follow these numbers back.
  For a failing test the screen is written as text (\<open>do_screen_shot_ascii\<close>), from what the
  registers of the video chip say in the same memories.

  \<^bold>\<open>The flash tool.\<close> At power on \<open>main\<close> scans the slots (\<open>scan_core_information\<close>) for a core whose flags name
  the cartridge that is inserted (\<open>check_cartridge\<close>) and starts it, or shows its menu. There the user edits
  a slot (\<open>edit_slot\<close>): its flags, or the core for it, from a list of the files on the card
  (\<open>mfsc_selectcore\<close>), of which only those are taken whose header passes \<open>mfsc_checkcore\<close>. \<open>mfhf_load_core\<close> reads the file sector
  by sector (\<open>nhsd_open\<close>, \<open>nhsd_read\<close>) into Attic RAM and checks the length and the CRC-32 in its header
  (\<open>update_crc32\<close>, written in assembly). \<open>mfhf_flash_core\<close> then erases the block with the header, and goes
  through the slot from its end to its start, block by block: what does not verify is erased,
  programmed and verified again, up to ten times (\<open>mfhf_flash_sector\<close>). All of it drives the QSPI
  controller through its registers (\<open>qspi_flash_read\<close> and its siblings). The first slot holds the core
  that the machine can always start; it is flashed so that blocks that are named in an erase list,
  and which would confuse the search for a core, are erased first and written last.

  \<^bold>\<open>The theories.\<close>
  \<^item> \<open>Prelude\<close>: the state monad, frame conditions (\<open>obeys\<close>, the locale \<open>stable_rel\<close>), bytes and bits.
  \<^item> \<open>Machine\<close>: the structs and the global variables of the bench as one record.
  \<^item> \<open>Memory\<close>: \<open>addr_to_28bit\<close>, reads, blame, expected contents; the locales \<open>reads_rel\<close> and
    \<open>byte_store\<close>, and \<open>region\<close> as the abstract view of an address.
  \<^item> \<open>Dma\<close>: \<open>do_dma\<close> and \<open>write_mem28\<close>, which call each other; the locale \<open>writes_rel\<close>.
  \<^item> \<open>CpuOps\<close>, \<open>OpcodesLo\<close>, \<open>OpcodesHi\<close>, \<open>Cpu\<close>: the interpreter; the locales \<open>data_rel\<close> and
    \<open>instr_rel\<close> state what a whole instruction preserves in terms of its primitive steps.
  \<^item> \<open>Run\<close>: the instruction log, \<open>cpu_step\<close>, \<open>cpu_run\<close>, \<open>cpu_call_routine\<close>.
  \<^item> \<open>Bench\<close>: \<open>machine_init\<close>, \<open>test_init\<close> and the comparisons.
  \<^item> \<open>Listing\<close>: \<open>describe_address\<close>, the disassembler, \<open>show_recent_instructions\<close>.
  \<^item> \<open>Screen\<close>: UTF-8, \<open>get_video_state\<close>, \<open>do_screen_shot_ascii\<close>.
  \<^item> \<open>CText\<close>: \<open>fgets\<close>, \<open>sscanf\<close> and the comparisons of texts, of the C library.
  \<^item> \<open>Script\<close>: the directives, \<open>test_conclude\<close>, \<open>load_symbols\<close> and its siblings, \<open>resolve_value32\<close>,
    \<open>assemble_with_acme\<close>, \<open>main\<close>; the locale \<open>script_rel\<close>.
  \<^item> \<open>Rlepack\<close>: the table of the packer, the packed file, the verification.
  \<^item> \<open>Sdcard\<close>: resets and sector reads, partitions, cluster chains, directories.
  \<^item> \<open>Crc\<close>: the tables and loops of \<open>crc32accl.s\<close> and the checksum they compute.
  \<^item> \<open>Flash\<close>: \<open>qspiflash.c\<close>, the hardware detection of \<open>mf_utility.c\<close>, and \<open>mf_hlflash.c\<close>, with the global
    variables as the record \<open>mf\<close>.
  \<^item> \<open>Menu\<close>: \<open>mf_selectcore.c\<close> and \<open>megaflash.c\<close>, as functions on the same record.
  \<^item> \<open>Banking\<close>, \<open>DmaLaws\<close>, \<open>CpuLaws\<close>, \<open>Stack\<close>, \<open>Opcodes\<close>, \<open>RunLaws\<close>, \<open>BenchLaws\<close>,
    \<open>ListingLaws\<close>, \<open>ScreenLaws\<close>, \<open>CTextLaws\<close>, \<open>ScriptLaws\<close>, \<open>RlepackLaws\<close>, \<open>SdcardLaws\<close>,
    \<open>DirectoryLaws\<close>, \<open>FlashLaws\<close>, \<open>LoadLaws\<close>, \<open>MenuLaws\<close>: the lemmas and properties of these components.

  \<^bold>\<open>What is proved.\<close> The memory map equals the PLA equations of the C64 behind the MAP register
  (\<open>Banking\<close>). Writes can be read back, a linear copy job copies and a linear fill job fills,
  and symbols follow a copy (\<open>DmaLaws\<close>). Addition and subtraction set result and flags as the
  processor does in binary mode (\<open>CpuLaws\<close>); pushes and pops, calls and returns are inverse
  (\<open>Stack\<close>); the opcodes that are executed are those of the instruction table, with its
  lengths (\<open>Opcodes\<close>). The log is well formed at every step, a run takes at most as
  many steps as the log has free entries, instructions leave the bench alone (\<open>RunLaws\<close>). The comparisons count exactly what differs (\<open>BenchLaws\<close>), and the
  disassembler knows the opcodes of the interpreter, and recurses only along chains of recorded writers
  (\<open>ListingLaws\<close>). A script that runs without a fault ends, its counters agree with its verdicts, an error fails its test, a test starts from the same state
  whatever ran before, files and symbol lists are loaded as they were written (\<open>ScriptLaws\<close>);
  the UTF-8 encoder is inverse to the standard's decoder and a screenshot stays inside its
  arrays (\<open>ScreenLaws\<close>). Packing is inverted by unpacking and is optimal among all encodings
  (\<open>RlepackLaws\<close>). A sector that cannot be read is tried ten times with a reset in
  between, a file is read along its cluster chain, a FAT32 card is recognised (\<open>SdcardLaws\<close>), long and short
  names are put together as the file system says, a search ends and closes its directory
  (\<open>DirectoryLaws\<close>). The accelerated checksum is the CRC-32 (\<open>Crc\<close>). On a controller that
  may fail at any command, flashing and erasing never touch another slot and end in one of few
  ways; when a block cannot be written, those behind it are, and the block with the header, unless it is
  that block itself, is erased; on one that works the slot holds the core (\<open>FlashLaws\<close>). Loading accepts exactly the files whose length and
  checksum are right, and loading and flashing together put every byte of the file into the slot
  (\<open>LoadLaws\<close>). The file chooser returns only the file that is selected, after it has read and
  accepted its header, and keeps its selection
  inside a list that is not empty; slot 0 is edited only after the confirmation has been typed; and the
  slot that is started is the first one for the cartridge, or else the first default one (\<open>MenuLaws\<close>).

  Where the code does not do what it means to do, a theorem says what it does instead, among
  them: the carry of comparisons, \<open>MAP\<close>, line mode, freed log entries, shared symbol names,
  self-referring log entries, deleted result files, colours of the extended background mode,
  stores outside the name buffer of a directory entry, the boot flags of a core that was only shown.

  \<^bold>\<open>Conventions.\<close> A function of the C program is a definition with its name, in the state
  monad over the record of its global variables. Unsigned types are words of their width; \<open>int\<close>
  is \<open>int\<close>, with the conversions written out. Undefined behaviour is recorded (in \<open>fault\<close>, for
  the SD card in \<open>wild\<close>), which is not a variable of the program: the first fault is kept and the
  state behind it has no meaning. What is outside the repository is an argument: what \<open>malloc\<close>
  returns (\<open>junk\<close>), the files and the assembler of a script (\<open>env\<close>), the controllers of the SD
  card (\<open>sd_device\<close>) and of the flash (\<open>mf_device\<close>). What a controller does that works is stated by
  \<open>SdcardLaws.serves\<close>, \<open>SdcardLaws.resets\<close>, \<open>FlashLaws.flash_serves\<close> and \<open>FlashLaws.flash_works\<close>,
  after the comments in \<open>qspiflash.h\<close>, \<open>docs/sdcard-and-floppy-drive.md\<close> and the registers in the VHDL
  sources: the card may be busy behind a command for as many polls of its status as the program makes.
  There is an instance of each. In the flash
  tool a function gives \<open>None\<close> when it waits for the hardware or for a key for ever; the endless loop
  after a failed sector is the outcome \<open>Turn_off\<close>. The keys that polls see are the list \<open>keys\<close>,
  and \<open>shown\<close> are the message windows; other output to the screen is left out.

  \<^bold>\<open>Bounds and fuel.\<close> \<open>write_mem28\<close> and \<open>do_dma\<close> call each other without a bound when a DMA job
  writes the DMA registers; their fuel bounds that nesting, the number of chained jobs and of
  option bytes. Running out of fuel is the fault \<open>OutOfFuel\<close>, and with any fuel that avoids it
  the result is the same (\<open>DmaLaws.write_fuel_irrelevant\<close>); the properties of the copy and
  fill jobs show the fault not to happen for them. What happens behind that fault, or behind a listing that
  does not end, is not what the program does: it does not return. \<open>cpu_loop\<close> needs no fuel for the number of its steps: the log is
  bounded; nor does \<open>main_loop\<close> for the number of its lines: every line shortens the script. \<open>disassemble_instruction\<close> has its
  recursion depth as fuel, with \<open>Deep\<close> as the result when it is not enough; one more than the
  number of the entry is enough if recorded writers come earlier
  (\<open>ListingLaws.disassembly_ends\<close>), and no fuel is where the writers form a circle
  (\<open>ListingLaws.disassembly_depth\<close>). The loops over cluster chains and directories have the
  number of sectors to be read as fuel, which the properties about them supply. The loops of the
  flash tool have no fuel (\<open>partial_function\<close>), and the properties say that they end.

  \<^bold>\<open>Not modelled.\<close> The PNG screenshots of \<open>hyppotest.c\<close>, which nothing calls, and the messages
  to the log file that have no effect on the state. Of the flash tool, what it draws on the screen,
  its delays, the flash inspector and the builds for machines without Attic RAM (\<open>STANDALONE\<close>,
  \<open>NO_ATTIC\<close>). The other C programs of the repository
  (utilities for the machine, converters, FPGA and network tools) are listed in the manifest
  with the reason.
\<close>

end
